(* ===== verification/Prelude.thy ===== *)
theory Prelude
  imports Main "HOL-Library.Word" "HOL-Library.List_Lexorder" "HOL-Library.Char_ord"
begin

text \<open>
  The vocabulary shared by every theory of the development: machine integers and the
  \<open>as\<close> casts between them, results as sums (\<open>Inl\<close> the error, \<open>Inr\<close> the value),
  the short-circuiting \<open>collect\<close> of Rust iterators over results, little-endian
  integers, the string functions of the standard library that the sources call, decimal
  printing and parsing, and the fixed-size array type \<open>bytes32\<close> that stands for
  \<open>[u8; 32]\<close>. The release profile of the workspace does not enable overflow checks,
  so \<open>+\<close>, \<open>-\<close> and the casts wrap exactly as \<open>word\<close> arithmetic does.
\<close>

section \<open>Integers\<close>

type_synonym byte = "8 word"
type_synonym u16 = "16 word"
type_synonym u32 = "32 word"
type_synonym u64 = "64 word"
type_synonym u128 = "128 word"

text \<open>
  Signed integers (\<open>i32\<close>, \<open>i64\<close>) are \<open>int\<close>; a cast from an unsigned word reads it
  as two's complement, a cast back truncates.
\<close>

definition as_i32 :: "u32 \<Rightarrow> int" where "as_i32 w = sint w"
definition as_u32 :: "int \<Rightarrow> u32" where "as_u32 i = word_of_int i"
definition as_i64 :: "u64 \<Rightarrow> int" where "as_i64 w = sint w"
definition as_u64 :: "int \<Rightarrow> u64" where "as_u64 i = word_of_int i"

lemma as_u32_as_i32 [simp]: "as_u32 (as_i32 w) = w"
  by (simp add: as_u32_def as_i32_def)

lemma as_u64_as_i64 [simp]: "as_u64 (as_i64 w) = w"
  by (simp add: as_u64_def as_i64_def)

lemma as_i32_inject [simp]: "as_i32 a = as_i32 b \<longleftrightarrow> a = b"
  by (metis as_u32_as_i32)

lemma as_i64_inject [simp]: "as_i64 a = as_i64 b \<longleftrightarrow> a = b"
  by (metis as_u64_as_i64)

lemma as_i64_small:
  assumes "unat w < 2 ^ 63"
  shows "as_i64 w = int (unat w)"
proof -
  have "uint w < 2 ^ 63"
    using assms by (metis of_nat_less_iff of_nat_numeral of_nat_power uint_nat)
  then have "signed_take_bit 63 (uint w) = uint w"
    by (intro signed_take_bit_int_eq_self) (auto intro: order_trans [OF _ uint_ge_0])
  then show ?thesis
    by (simp add: as_i64_def sint_uint)
qed

text \<open>\<open>u64::saturating_sub\<close>, \<open>u64::checked_sub\<close> and their 32-bit forms.\<close>

definition saturating_sub :: "'w::len word \<Rightarrow> 'w word \<Rightarrow> 'w word" where
  "saturating_sub a b = (if b \<le> a then a - b else 0)"

definition checked_sub :: "'w::len word \<Rightarrow> 'w word \<Rightarrow> 'w word option" where
  "checked_sub a b = (if b \<le> a then Some (a - b) else None)"

lemma unat_saturating_sub: "unat (saturating_sub a b) = unat a - unat b"
  by (auto simp: saturating_sub_def word_le_nat_alt unat_sub)

lemma checked_sub_Some: "checked_sub a b = Some c \<longleftrightarrow> b \<le> a \<and> c = a - b"
  by (auto simp: checked_sub_def)

section \<open>Results\<close>

text \<open>\<open>iter.map(f).collect::<Result<Vec<_>>>()\<close>: the first error wins.\<close>

fun collect :: "('a \<Rightarrow> 'e + 'b) \<Rightarrow> 'a list \<Rightarrow> 'e + 'b list" where
  "collect f [] = Inr []"
| "collect f (x # xs) =
     (case f x of Inl e \<Rightarrow> Inl e
      | Inr y \<Rightarrow> (case collect f xs of Inl e \<Rightarrow> Inl e | Inr ys \<Rightarrow> Inr (y # ys)))"

text \<open>\<open>result.ok()\<close> and \<open>option.ok_or(e)\<close>.\<close>

fun ok :: "'e + 'a \<Rightarrow> 'a option" where
  "ok (Inl e) = None"
| "ok (Inr x) = Some x"

fun ok_or :: "'e \<Rightarrow> 'a option \<Rightarrow> 'e + 'a" where
  "ok_or e None = Inl e"
| "ok_or e (Some x) = Inr x"

fun map_err :: "('e \<Rightarrow> 'f) \<Rightarrow> 'e + 'a \<Rightarrow> 'f + 'a" where
  "map_err g (Inl e) = Inl (g e)"
| "map_err g (Inr x) = Inr x"

lemma ok_eq_Some [simp]: "ok r = Some x \<longleftrightarrow> r = Inr x"
  by (cases r) auto

lemma map_err_Inr [simp]: "map_err g r = Inr x \<longleftrightarrow> r = Inr x"
  by (cases r) auto

lemma collect_Inr_iff: "collect f xs = Inr ys \<longleftrightarrow> list_all2 (\<lambda>x y. f x = Inr y) xs ys"
proof (induction xs arbitrary: ys)
  case Nil
  then show ?case by auto
next
  case (Cons x xs)
  then show ?case
    by (cases ys; cases "f x"; cases "collect f xs") auto
qed

lemma collect_length: "collect f xs = Inr ys \<Longrightarrow> length ys = length xs"
  by (auto simp: collect_Inr_iff dest: list_all2_lengthD)

lemma collect_map_Inr [simp]: "(\<And>x. x \<in> set xs \<Longrightarrow> f x = Inr (g x)) \<Longrightarrow> collect f xs = Inr (map g xs)"
  by (induction xs) auto

lemma collect_in_set: "collect f xs = Inr ys \<Longrightarrow> y \<in> set ys \<Longrightarrow> \<exists>x \<in> set xs. f x = Inr y"
  by (fastforce simp: collect_Inr_iff list_all2_conv_all_nth in_set_conv_nth)

lemma collect_Inl: "collect f xs = Inl e \<Longrightarrow> \<exists>x \<in> set xs. f x = Inl e"
  by (induction xs) (auto split: sum.splits)

section \<open>Little-endian integers\<close>

text \<open>
  \<open>le_bytes k n\<close> is \<open>(n as uK).to_le_bytes()\<close> for a \<open>k\<close>-byte integer (the cast
  truncates), \<open>le_nat\<close> is \<open>from_le_bytes\<close>, as a natural number.
\<close>

fun le_bytes :: "nat \<Rightarrow> nat \<Rightarrow> byte list" where
  "le_bytes 0 n = []"
| "le_bytes (Suc k) n = of_nat (n mod 256) # le_bytes k (n div 256)"

fun le_nat :: "byte list \<Rightarrow> nat" where
  "le_nat [] = 0"
| "le_nat (b # bs) = unat b + 256 * le_nat bs"

definition u32_le :: "u32 \<Rightarrow> byte list" where "u32_le w = le_bytes 4 (unat w)"
definition u64_le :: "u64 \<Rightarrow> byte list" where "u64_le w = le_bytes 8 (unat w)"
definition u32_of_le :: "byte list \<Rightarrow> u32" where "u32_of_le bs = of_nat (le_nat bs)"
definition u128_of_le :: "byte list \<Rightarrow> u128" where "u128_of_le bs = of_nat (le_nat bs)"

lemma length_le_bytes [simp]: "length (le_bytes k n) = k"
  by (induction k n rule: le_bytes.induct) auto

lemma unat_byte_less [simp]: "unat (b :: byte) < 256"
  using unsigned_less [of b, where ?'a = nat] by simp

lemma unat_of_nat_byte [simp]: "unat (of_nat (n mod 256) :: byte) = n mod 256"
  by (simp add: unat_of_nat)

lemma le_nat_le_bytes: "le_nat (le_bytes k n) = n mod 256 ^ k"
proof (induction k n rule: le_bytes.induct)
  case (1 n)
  then show ?case by simp
next
  case (2 k n)
  then show ?case by (simp add: mod_mult2_eq add.commute)
qed

lemma le_nat_bound: "le_nat bs < 256 ^ length bs"
proof (induction bs)
  case Nil
  then show ?case by simp
next
  case (Cons b bs)
  have "unat b + 256 * le_nat bs < 256 + 256 * le_nat bs" by simp
  also have "\<dots> \<le> 256 * 256 ^ length bs" using Cons by simp
  finally show ?case by simp
qed

lemma le_bytes_le_nat: "le_bytes (length bs) (le_nat bs) = bs"
proof (induction bs)
  case Nil
  then show ?case by simp
next
  case (Cons b bs)
  have "(unat b + 256 * le_nat bs) mod 256 = unat b"
    and "(unat b + 256 * le_nat bs) div 256 = le_nat bs"
    by simp_all
  with Cons show ?case by simp
qed

lemma le_nat_4 [simp]: "n < 2 ^ 32 \<Longrightarrow> le_nat (le_bytes 4 n) = n"
  by (simp add: le_nat_le_bytes)

lemma le_bytes_4_le_nat [simp]: "length bs = 4 \<Longrightarrow> le_bytes 4 (le_nat bs) = bs"
  using le_bytes_le_nat [of bs] by simp

lemma length_u32_le [simp]: "length (u32_le w) = 4"
  by (simp add: u32_le_def)

lemma length_u64_le [simp]: "length (u64_le w) = 8"
  by (simp add: u64_le_def)

lemma u32_of_le_u32_le [simp]: "u32_of_le (u32_le w) = w"
proof -
  have "unat w < 2 ^ 32" using unsigned_less [of w, where ?'a = nat] by simp
  then show ?thesis by (simp add: u32_of_le_def u32_le_def)
qed

lemma u32_le_u32_of_le [simp]:
  assumes "length bs = 4"
  shows "u32_le (u32_of_le bs) = bs"
proof -
  have "le_nat bs < 2 ^ 32" using le_nat_bound [of bs] assms by simp
  then have "unat (of_nat (le_nat bs) :: u32) = le_nat bs" by (simp add: unat_of_nat)
  with assms show ?thesis by (simp add: u32_le_def u32_of_le_def)
qed

lemma u32_le_inject [simp]: "u32_le a = u32_le b \<longleftrightarrow> a = b"
  by (metis u32_of_le_u32_le)

lemma u64_le_inject [simp]: "u64_le a = u64_le b \<longleftrightarrow> a = b"
proof
  assume "u64_le a = u64_le b"
  then have "le_nat (le_bytes 8 (unat a)) = le_nat (le_bytes 8 (unat b))"
    by (simp add: u64_le_def)
  moreover have "unat a < 2 ^ 64" "unat b < 2 ^ 64"
    using unsigned_less [of a, where ?'a = nat] unsigned_less [of b, where ?'a = nat] by simp_all
  ultimately show "a = b" by (simp add: le_nat_le_bytes word_unat_eq_iff)
qed simp


lemma length_eq_4_conv: "length bs = 4 \<Longrightarrow> \<exists>a b c d. bs = [a, b, c, d]"
  by (auto simp: numeral_eq_Suc length_Suc_conv)

section \<open>Strings\<close>

text \<open>\<open>strip_prefix\<close> of \<open>str\<close> and of slices; \<open>str::split_once\<close> on a character.\<close>

fun strip_prefix :: "'a list \<Rightarrow> 'a list \<Rightarrow> 'a list option" where
  "strip_prefix [] s = Some s"
| "strip_prefix (p # ps) [] = None"
| "strip_prefix (p # ps) (c # cs) = (if p = c then strip_prefix ps cs else None)"

fun split_once :: "char \<Rightarrow> string \<Rightarrow> (string \<times> string) option" where
  "split_once d [] = None"
| "split_once d (c # cs) =
     (if c = d then Some ([], cs) else map_option (\<lambda>(a, b). (c # a, b)) (split_once d cs))"

definition unwrap_or :: "'a \<Rightarrow> 'a option \<Rightarrow> 'a" where
  "unwrap_or d x = (case x of None \<Rightarrow> d | Some y \<Rightarrow> y)"

lemma unwrap_or_simps [simp]: "unwrap_or d None = d" "unwrap_or d (Some y) = y"
  by (simp_all add: unwrap_or_def)

lemma strip_prefix_Some: "strip_prefix p s = Some t \<longleftrightarrow> s = p @ t"
  by (induction p s rule: strip_prefix.induct) auto

lemma strip_prefix_append [simp]: "strip_prefix p (p @ t) = Some t"
  by (simp add: strip_prefix_Some)

lemma split_once_append: "d \<notin> set a \<Longrightarrow> split_once d (a @ d # b) = Some (a, b)"
  by (induction a) auto

lemma split_once_Some: "split_once d s = Some (a, b) \<Longrightarrow> s = a @ d # b \<and> d \<notin> set a"
  by (induction d s arbitrary: a b rule: split_once.induct) (auto split: if_splits)

definition ascii_lower :: "char \<Rightarrow> char" where
  "ascii_lower c = (if CHR ''A'' \<le> c \<and> c \<le> CHR ''Z'' then char_of (of_char c + 32 :: nat) else c)"

definition to_ascii_lowercase :: "string \<Rightarrow> string" where
  "to_ascii_lowercase s = map ascii_lower s"

section \<open>Decimal printing and parsing\<close>

text \<open>\<open>to_string\<close> of the integer types and \<open>FromStr\<close> with its optional sign.\<close>

definition digit_char :: "nat \<Rightarrow> char" where "digit_char d = char_of (48 + d)"

definition char_digit :: "char \<Rightarrow> nat option" where
  "char_digit c = (let n = (of_char c :: nat) in if 48 \<le> n \<and> n \<le> 57 then Some (n - 48) else None)"

fun show_nat :: "nat \<Rightarrow> string" where
  "show_nat n = (if n < 10 then [digit_char n] else show_nat (n div 10) @ [digit_char (n mod 10)])"

definition show_int :: "int \<Rightarrow> string" where
  "show_int i = (if i < 0 then CHR ''-'' # show_nat (nat (- i)) else show_nat (nat i))"

fun parse_digits :: "nat \<Rightarrow> string \<Rightarrow> nat option" where
  "parse_digits acc [] = Some acc"
| "parse_digits acc (c # cs) =
     (case char_digit c of None \<Rightarrow> None | Some d \<Rightarrow> parse_digits (acc * 10 + d) cs)"

definition parse_nat :: "string \<Rightarrow> nat option" where
  "parse_nat s = (if s = [] then None else parse_digits 0 s)"

definition parse_unsigned :: "nat \<Rightarrow> string \<Rightarrow> nat option" where
  "parse_unsigned bound s =
     (case parse_nat (unwrap_or s (strip_prefix ''+'' s)) of
        None \<Rightarrow> None
      | Some n \<Rightarrow> if n < bound then Some n else None)"

definition parse_signed :: "nat \<Rightarrow> string \<Rightarrow> int option" where
  "parse_signed half s =
     (case strip_prefix ''-'' s of
        Some t \<Rightarrow>
          (case parse_nat t of None \<Rightarrow> None | Some n \<Rightarrow> if n \<le> half then Some (- int n) else None)
      | None \<Rightarrow> map_option int (parse_unsigned half s))"

declare show_nat.simps [simp del]

lemma char_digit_digit_char [simp]: "d < 10 \<Longrightarrow> char_digit (digit_char d) = Some d"
  by (simp add: char_digit_def digit_char_def)

lemma parse_digits_append:
  "parse_digits acc (s @ t) =
     (case parse_digits acc s of None \<Rightarrow> None | Some a \<Rightarrow> parse_digits a t)"
  by (induction acc s rule: parse_digits.induct) (auto split: option.splits)

lemma parse_digits_show_nat: "parse_digits 0 (show_nat n) = Some n"
proof (induction n rule: show_nat.induct)
  case (1 n)
  show ?case
  proof (cases "n < 10")
    case True
    then show ?thesis by (subst show_nat.simps) simp
  next
    case False
    then have "show_nat n = show_nat (n div 10) @ [digit_char (n mod 10)]"
      by (subst show_nat.simps) simp
    with 1 False show ?thesis by (simp add: parse_digits_append)
  qed
qed

lemma digit_char_eq_iff: "d < 10 \<Longrightarrow> digit_char d = c \<Longrightarrow> char_digit c = Some d"
  by auto

lemma show_nat_nonempty [simp]: "show_nat n \<noteq> []"
  by (subst show_nat.simps) simp

lemma show_nat_digits: "c \<in> set (show_nat n) \<Longrightarrow> \<exists>d. char_digit c = Some d"
proof (induction n rule: show_nat.induct)
  case (1 n)
  show ?case
  proof (cases "n < 10")
    case True
    with 1(2) have "c = digit_char n" by (subst (asm) show_nat.simps) simp
    with True show ?thesis by simp
  next
    case False
    then have "show_nat n = show_nat (n div 10) @ [digit_char (n mod 10)]"
      by (subst show_nat.simps) simp
    with 1 False show ?thesis by auto
  qed
qed

lemma parse_nat_show_nat [simp]: "parse_nat (show_nat n) = Some n"
  by (simp add: parse_nat_def parse_digits_show_nat)

lemma show_nat_not_sign:
  assumes "show_nat n = c # s"
  shows "c \<noteq> CHR ''+''" "c \<noteq> CHR ''-''" "c \<noteq> CHR '':''"
proof -
  have "\<exists>d. char_digit c = Some d" using show_nat_digits [of c n] assms by simp
  moreover have "char_digit CHR ''+'' = None" "char_digit CHR ''-'' = None" "char_digit CHR '':'' = None"
    by (simp_all add: char_digit_def)
  ultimately show "c \<noteq> CHR ''+''" "c \<noteq> CHR ''-''" "c \<noteq> CHR '':''" by auto
qed

lemma strip_sign_show_nat [simp]:
  "strip_prefix ''+'' (show_nat n) = None" "strip_prefix ''-'' (show_nat n) = None"
  using show_nat_not_sign [of n] by (cases "show_nat n"; fastforce)+

lemma parse_unsigned_show_nat [simp]: "n < b \<Longrightarrow> parse_unsigned b (show_nat n) = Some n"
  by (simp add: parse_unsigned_def)

lemma parse_signed_show_int [simp]:
  "- int b \<le> i \<Longrightarrow> i < int b \<Longrightarrow> parse_signed b (show_int i) = Some i"
  by (auto simp: parse_signed_def show_int_def)

definition parse_u32 :: "string \<Rightarrow> u32 option" where
  "parse_u32 s = map_option of_nat (parse_unsigned (2 ^ 32) s)"

definition parse_u64 :: "string \<Rightarrow> u64 option" where
  "parse_u64 s = map_option of_nat (parse_unsigned (2 ^ 64) s)"

lemma parse_u32_show [simp]: "parse_u32 (show_nat (unat w)) = Some w"
  using unsigned_less [of w, where ?'a = nat] by (simp add: parse_u32_def)

section \<open>Fixed-size arrays\<close>

text \<open>
  \<open>[u8; 32]\<close>. \<open>mk32\<close> is the sources' idiom \<open>let mut out = [0u8; 32];
  out.copy_from_slice(bytes)\<close>, which they run only after checking the length.
\<close>

typedef bytes32 = "{bs :: byte list. length bs = 32}"
  morphisms list32 Abs_bytes32
  by (rule exI [of _ "replicate 32 0"]) simp

lemma Abs_list32 [simp, code abstype]: "Abs_bytes32 (list32 b) = b"
  by (rule list32_inverse)

definition mk32 :: "byte list \<Rightarrow> bytes32" where
  "mk32 bs = Abs_bytes32 (take 32 (bs @ replicate 32 0))"

lemma list32_mk32_take [code abstract]: "list32 (mk32 bs) = take 32 (bs @ replicate 32 0)"
  unfolding mk32_def by (rule Abs_bytes32_inverse) simp

lemma length_list32 [simp]: "length (list32 b) = 32"
  using list32 [of b] by simp

lemma list32_mk32 [simp]: "length bs = 32 \<Longrightarrow> list32 (mk32 bs) = bs"
  by (simp add: list32_mk32_take)

lemma mk32_list32 [simp]: "mk32 (list32 b) = b"
  by (metis Abs_list32 length_list32 list32_mk32)

lemma list32_inject' [simp]: "list32 a = list32 b \<longleftrightarrow> a = b"
  by (rule list32_inject)

lemma list32_not_Nil [simp]: "list32 b \<noteq> []"
  by (metis length_list32 list.size(3) zero_neq_numeral)

definition zero32 :: bytes32 where "zero32 = mk32 (replicate 32 0)"

lemma list32_zero32 [simp]: "list32 zero32 = replicate 32 0"
  unfolding zero32_def by (rule list32_mk32) simp

text \<open>The derived \<open>Ord\<close> of the byte array: lexicographic.\<close>

instantiation bytes32 :: linorder
begin

definition less_eq_bytes32 :: "bytes32 \<Rightarrow> bytes32 \<Rightarrow> bool" where
  "less_eq_bytes32 a b \<longleftrightarrow> list32 a \<le> list32 b"

definition less_bytes32 :: "bytes32 \<Rightarrow> bytes32 \<Rightarrow> bool" where
  "less_bytes32 a b \<longleftrightarrow> list32 a < list32 b"

instance
  by intro_classes (auto simp: less_eq_bytes32_def less_bytes32_def less_le_not_le)

end

instantiation bytes32 :: equal
begin

definition equal_bytes32 :: "bytes32 \<Rightarrow> bytes32 \<Rightarrow> bool" where
  "equal_bytes32 a b \<longleftrightarrow> list32 a = list32 b"

instance
  by intro_classes (simp add: equal_bytes32_def)

end

end
