(* ===== verification/External.thy ===== *)
theory External
  imports Prelude
begin

text \<open>
  The third-party crates the sources call, as a record of functions that every definition
  using them takes as an argument: \<open>hex\<close>, \<open>sha2\<close>, \<open>blake2b_simd\<close>, \<open>bech32\<close>,
  \<open>bs58\<close> and \<open>chrono\<close>. Nothing is assumed of the hash functions. \<open>ext_ok\<close> states the documented
  behaviour of the hexadecimal codec and of the digest lengths; \<open>ref_ext\<close> is one
  concrete instance of it, on which the witnesses of the properties are evaluated.
\<close>

record ext =
  ex_hex_encode :: "byte list \<Rightarrow> string"
  ex_hex_decode :: "string \<Rightarrow> string + byte list"
  ex_sha256 :: "byte list \<Rightarrow> byte list"
  ex_blake2b_256 :: "byte list \<Rightarrow> byte list \<Rightarrow> byte list"
  ex_segwit_hrp :: "string \<Rightarrow> string option"
  ex_base58check :: "string \<Rightarrow> byte list option"
  ex_millis_ok :: "int \<Rightarrow> bool"

text \<open>
  \<open>ex_hex_decode\<close> returns the rendered error; \<open>ex_blake2b_256\<close> takes the
  personalisation and the data and returns 32 bytes; \<open>ex_segwit_hrp\<close> is the
  human-readable part of \<open>bech32::segwit::decode\<close> when it succeeds;
  \<open>ex_base58check\<close> the payload of \<open>bs58::decode(..).with_check(None)\<close>;
  \<open>ex_millis_ok\<close> says whether \<open>chrono\<close> can represent a millisecond timestamp.
\<close>

definition hex_char :: "char \<Rightarrow> bool" where
  "hex_char c = ((CHR ''0'' \<le> c \<and> c \<le> CHR ''9'') \<or> (CHR ''a'' \<le> c \<and> c \<le> CHR ''f''))"

definition ext_ok :: "ext \<Rightarrow> bool" where
  "ext_ok e \<longleftrightarrow>
     (\<forall>bs. ex_hex_decode e (ex_hex_encode e bs) = Inr bs) \<and>
     (\<forall>bs. length (ex_hex_encode e bs) = 2 * length bs) \<and>
     (\<forall>bs. list_all hex_char (ex_hex_encode e bs)) \<and>
     (\<forall>s bs. ex_hex_decode e s = Inr bs \<longrightarrow> length s = 2 * length bs) \<and>
     (\<forall>bs. length (ex_sha256 e bs) = 32) \<and>
     (\<forall>p bs. length (ex_blake2b_256 e p bs) = 32)"

lemma ext_okD:
  assumes "ext_ok e"
  shows hex_decode_encode: "ex_hex_decode e (ex_hex_encode e bs) = Inr bs"
    and length_hex_encode: "length (ex_hex_encode e bs) = 2 * length bs"
    and hex_encode_chars: "list_all hex_char (ex_hex_encode e bs)"
    and hex_decode_length: "ex_hex_decode e s = Inr bs \<Longrightarrow> length s = 2 * length bs"
    and length_sha256: "length (ex_sha256 e bs) = 32"
    and length_blake2b: "length (ex_blake2b_256 e p bs) = 32"
  using assms by (auto simp: ext_ok_def)

lemma hex_encode_no_char:
  "ext_ok e \<Longrightarrow> \<not> hex_char c \<Longrightarrow> c \<notin> set (ex_hex_encode e bs)"
  using hex_encode_chars [of e bs] by (auto simp: list_all_iff)

lemma hex_encode_no_0x:
  assumes "ext_ok e"
  shows "strip_prefix ''0x'' (ex_hex_encode e bs) = None"
proof (cases "strip_prefix ''0x'' (ex_hex_encode e bs)")
  case (Some t)
  then have "CHR ''x'' \<in> set (ex_hex_encode e bs)" by (simp add: strip_prefix_Some)
  with hex_encode_no_char [OF assms, of "CHR ''x''" bs] show ?thesis
    by (simp add: hex_char_def)
qed

section \<open>A concrete instance\<close>

definition nibble_char :: "nat \<Rightarrow> char" where
  "nibble_char n = (if n < 10 then char_of (48 + n) else char_of (87 + n))"

definition char_nibble :: "char \<Rightarrow> nat option" where
  "char_nibble c = (let n = (of_char c :: nat) in
     if 48 \<le> n \<and> n \<le> 57 then Some (n - 48)
     else if 97 \<le> n \<and> n \<le> 102 then Some (n - 87)
     else if 65 \<le> n \<and> n \<le> 70 then Some (n - 55) else None)"

fun ref_hex_encode :: "byte list \<Rightarrow> string" where
  "ref_hex_encode [] = []"
| "ref_hex_encode (b # bs) =
     nibble_char (unat b div 16) # nibble_char (unat b mod 16) # ref_hex_encode bs"

fun ref_hex_decode :: "string \<Rightarrow> string + byte list" where
  "ref_hex_decode [] = Inr []"
| "ref_hex_decode [c] = Inl ''Odd number of digits''"
| "ref_hex_decode (c # d # cs) =
     (case (char_nibble c, char_nibble d) of
        (Some h, Some l) \<Rightarrow>
          (case ref_hex_decode cs of
             Inl e \<Rightarrow> Inl e
           | Inr bs \<Rightarrow> Inr (of_nat (16 * h + l) # bs))
      | _ \<Rightarrow> Inl ''Invalid character'')"

text \<open>A toy digest: the length and the bytes, cut to 32.\<close>

definition ref_digest :: "byte list \<Rightarrow> byte list" where
  "ref_digest bs = take 32 (of_nat (length bs) # rev bs @ replicate 32 0)"

text \<open>A segwit prefix is what precedes the first \<open>1\<close>; no base58 address is accepted.\<close>

definition ref_ext :: ext where
  "ref_ext = \<lparr> ex_hex_encode = ref_hex_encode, ex_hex_decode = ref_hex_decode,
     ex_sha256 = ref_digest, ex_blake2b_256 = (\<lambda>p bs. ref_digest (p @ bs)),
     ex_segwit_hrp = (\<lambda>s. map_option fst (split_once CHR ''1'' s)),
     ex_base58check = (\<lambda>s. None), ex_millis_ok = (\<lambda>ms. True) \<rparr>"

lemma ref_ext_sel [simp]:
  "ex_hex_encode ref_ext = ref_hex_encode" "ex_hex_decode ref_ext = ref_hex_decode"
  "ex_sha256 ref_ext = ref_digest"
  "ex_blake2b_256 ref_ext = (\<lambda>p bs. ref_digest (p @ bs))"
  "ex_segwit_hrp ref_ext = (\<lambda>s. map_option fst (split_once CHR ''1'' s))"
  "ex_base58check ref_ext = (\<lambda>s. None)" "ex_millis_ok ref_ext = (\<lambda>ms. True)"
  by (simp_all add: ref_ext_def)

lemma char_nibble_char [simp]: "n < 16 \<Longrightarrow> char_nibble (nibble_char n) = Some n"
  by (auto simp: char_nibble_def nibble_char_def)

lemma hex_char_nibble [simp]: "n < 16 \<Longrightarrow> hex_char (nibble_char n)"
  by (auto simp: hex_char_def nibble_char_def less_eq_char_def)

lemma ref_hex_roundtrip: "ref_hex_decode (ref_hex_encode bs) = Inr bs"
proof (induction bs)
  case (Cons b bs)
  have "unat b div 16 < 16" "unat b mod 16 < 16"
    using unat_byte_less [of b] by (auto simp: less_mult_imp_div_less)
  moreover have "16 * (unat b div 16) + unat b mod 16 = unat b" by simp
  ultimately show ?case using Cons by (simp del: of_nat_add of_nat_mult)
qed simp

lemma ref_hex_chars: "list_all hex_char (ref_hex_encode bs)"
proof (induction bs)
  case (Cons b bs)
  have "unat b div 16 < 16" "unat b mod 16 < 16"
    using unat_byte_less [of b] by (auto simp: less_mult_imp_div_less)
  with Cons show ?case by simp
qed simp

lemma ref_hex_decode_length: "ref_hex_decode s = Inr bs \<Longrightarrow> length s = 2 * length bs"
  by (induction s arbitrary: bs rule: ref_hex_decode.induct)
    (auto split: option.splits sum.splits)

lemma length_ref_digest [simp]: "length (ref_digest bs) = 32"
proof -
  have "32 \<le> length (of_nat (length bs) # rev bs @ replicate 32 (0 :: byte))" by simp
  then show ?thesis unfolding ref_digest_def length_take by (rule min_absorb2)
qed

lemma ref_ext_ok: "ext_ok ref_ext"
proof -
  have "length (ref_hex_encode bs) = 2 * length bs" for bs
    by (induction bs) auto
  then show ?thesis
    by (simp add: ext_ok_def ref_hex_roundtrip ref_hex_chars ref_hex_decode_length)
qed

end
