(* ===== verification/Ckb_Types.thy ===== *)
theory Ckb_Types
  imports External
begin

text \<open>
  \<open>crates/types/src/error.rs\<close> and \<open>crates/types/src/ckb.rs\<close>: the error type of the
  workspace and the CKB primitives. Each 32-byte newtype is a \<open>datatype\<close> over
  \<open>bytes32\<close>, so a CKB hash and a Bitcoin txid cannot be confused in the model either.
\<close>

section \<open>Errors\<close>

datatype terr =
    EHex string
  | ELength string nat nat
  | EMalformed string string
  | EUnsupported string string
  | EConfig string

type_synonym 'a res = "terr + 'a"

section \<open>H256\<close>

datatype h256 = H256 (h256_bytes: bytes32)

text \<open>The derived \<open>Ord\<close>: that of the bytes.\<close>

instantiation h256 :: linorder
begin

definition less_eq_h256 :: "h256 \<Rightarrow> h256 \<Rightarrow> bool" where
  "less_eq_h256 a b \<longleftrightarrow> h256_bytes a \<le> h256_bytes b"

definition less_h256 :: "h256 \<Rightarrow> h256 \<Rightarrow> bool" where
  "less_h256 a b \<longleftrightarrow> h256_bytes a < h256_bytes b"

instance
  by intro_classes (auto simp: less_eq_h256_def less_h256_def less_le_not_le h256.expand)

end

definition h256_zero :: h256 where "h256_zero = H256 zero32"

definition h256_from_slice :: "byte list \<Rightarrow> h256 res" where
  "h256_from_slice bs =
     (if length bs \<noteq> 32 then Inl (ELength ''H256'' 32 (length bs)) else Inr (H256 (mk32 bs)))"

definition strip_0x :: "string \<Rightarrow> string" where
  "strip_0x s = unwrap_or s (strip_prefix ''0x'' s)"

definition hex_decode :: "ext \<Rightarrow> string \<Rightarrow> byte list res" where
  "hex_decode e s = map_err EHex (ex_hex_decode e s)"

definition h256_from_hex :: "ext \<Rightarrow> string \<Rightarrow> h256 res" where
  "h256_from_hex e s =
     (case hex_decode e (strip_0x s) of Inl err \<Rightarrow> Inl err | Inr bs \<Rightarrow> h256_from_slice bs)"

definition h256_to_vec :: "h256 \<Rightarrow> byte list" where "h256_to_vec h = list32 (h256_bytes h)"

definition h256_to_hex :: "ext \<Rightarrow> h256 \<Rightarrow> string" where
  "h256_to_hex e h = ''0x'' @ ex_hex_encode e (h256_to_vec h)"

lemma length_h256_to_vec [simp]: "length (h256_to_vec h) = 32"
  by (simp add: h256_to_vec_def)

lemma h256_from_slice_to_vec [simp]: "h256_from_slice (h256_to_vec h) = Inr h"
  by (cases h) (simp add: h256_from_slice_def h256_to_vec_def)

lemma h256_from_slice_Inr: "h256_from_slice bs = Inr h \<longleftrightarrow> bs = h256_to_vec h"
  by (auto simp: h256_from_slice_def h256_to_vec_def)

lemma h256_to_vec_inject [simp]: "h256_to_vec a = h256_to_vec b \<longleftrightarrow> a = b"
  by (metis h256_from_slice_to_vec sum.inject(2))

lemma strip_0x_prefix [simp]: "strip_0x (CHR ''0'' # CHR ''x'' # s) = s"
  by (simp add: strip_0x_def)

lemma strip_0x_hex [simp]: "ext_ok e \<Longrightarrow> strip_0x (ex_hex_encode e bs) = ex_hex_encode e bs"
  by (simp add: strip_0x_def hex_encode_no_0x)

lemma hex_decode_hex [simp]: "ext_ok e \<Longrightarrow> hex_decode e (ex_hex_encode e bs) = Inr bs"
  by (simp add: hex_decode_def hex_decode_encode)

lemma h256_hex_roundtrip [simp]: "ext_ok e \<Longrightarrow> h256_from_hex e (h256_to_hex e h) = Inr h"
  by (simp add: h256_from_hex_def h256_to_hex_def)

section \<open>Bytes\<close>

definition bytes_from_hex :: "ext \<Rightarrow> string \<Rightarrow> byte list res" where
  "bytes_from_hex e s = hex_decode e (strip_0x s)"

definition bytes_to_hex :: "ext \<Rightarrow> byte list \<Rightarrow> string" where
  "bytes_to_hex e bs = ''0x'' @ ex_hex_encode e bs"

lemma bytes_hex_roundtrip [simp]: "ext_ok e \<Longrightarrow> bytes_from_hex e (bytes_to_hex e bs) = Inr bs"
  by (simp add: bytes_from_hex_def bytes_to_hex_def)

section \<open>Scripts\<close>

datatype hash_type = HData | HType | HData1 | HData2

fun hash_type_as_str :: "hash_type \<Rightarrow> string" where
  "hash_type_as_str HData = ''data''"
| "hash_type_as_str HType = ''type''"
| "hash_type_as_str HData1 = ''data1''"
| "hash_type_as_str HData2 = ''data2''"

fun hash_type_to_byte :: "hash_type \<Rightarrow> byte" where
  "hash_type_to_byte HData = 0"
| "hash_type_to_byte HType = 1"
| "hash_type_to_byte HData1 = 2"
| "hash_type_to_byte HData2 = 4"

definition hash_type_from_str_opt :: "string \<Rightarrow> hash_type option" where
  "hash_type_from_str_opt s =
     (if s = ''data'' then Some HData
      else if s = ''type'' then Some HType
      else if s = ''data1'' then Some HData1
      else if s = ''data2'' then Some HData2
      else None)"

lemma hash_type_str_roundtrip [simp]: "hash_type_from_str_opt (hash_type_as_str t) = Some t"
  by (cases t) (simp_all add: hash_type_from_str_opt_def)

record script =
  s_code_hash :: h256
  s_hash_type :: hash_type
  s_args :: "byte list"

definition same_code :: "script \<Rightarrow> h256 \<Rightarrow> hash_type \<Rightarrow> bool" where
  "same_code s code_hash ht \<longleftrightarrow> s_code_hash s = code_hash \<and> s_hash_type s = ht"

record ckb_out_point =
  co_tx_hash :: h256
  co_index :: u32

record cell_output =
  out_capacity :: u64
  out_lock :: script
  out_type :: "script option"

definition ascii_bytes :: "string \<Rightarrow> byte list" where
  "ascii_bytes s = map (\<lambda>c. of_nat (of_char c)) s"

definition ckb_blake2b_256 :: "ext \<Rightarrow> byte list \<Rightarrow> bytes32" where
  "ckb_blake2b_256 e data = mk32 (ex_blake2b_256 e (ascii_bytes ''ckb-default-hash'') data)"

end
