(* ===== verification/Codec.thy ===== *)
theory Codec
  imports Prelude
begin

text \<open>
  The interfaces of the byte formats. \<open>codec\<close> is what a decoder promises about the
  output of its encoder on valid values, \<open>canonical_codec\<close> adds that a byte string the
  decoder accepts is the encoding of its result (no two encodings of one value),
  \<open>self_delimiting\<close> is what lets encodings be concatenated without separators, as the
  RGB++ commitment pre-image does; a codec whose encodings all have one length is
  self-delimiting. The theories of the formats interpret them on the model's definitions.
\<close>

locale codec =
  fixes enc :: "'a \<Rightarrow> 'b"
    and dec :: "'b \<Rightarrow> 'e + 'a"
    and valid :: "'a \<Rightarrow> bool"
  assumes dec_enc: "valid a \<Longrightarrow> dec (enc a) = Inr a"
begin

lemma enc_inject: "valid a \<Longrightarrow> valid b \<Longrightarrow> enc a = enc b \<longleftrightarrow> a = b"
  using dec_enc by (metis sum.inject(2))

end

locale canonical_codec = codec enc dec valid
  for enc :: "'a \<Rightarrow> 'b" and dec :: "'b \<Rightarrow> 'e + 'a" and valid +
  assumes enc_dec: "dec b = Inr a \<Longrightarrow> enc a = b"
begin

lemma dec_iff: "valid a \<Longrightarrow> dec b = Inr a \<longleftrightarrow> b = enc a"
  using dec_enc enc_dec by metis

lemma dec_inject: "dec b = Inr a \<Longrightarrow> dec c = Inr a \<Longrightarrow> b = c"
  using enc_dec by metis

end

locale self_delimiting =
  fixes enc :: "'a \<Rightarrow> 'c list"
    and valid :: "'a \<Rightarrow> bool"
  assumes delimits: "valid a \<Longrightarrow> valid b \<Longrightarrow> enc a @ r = enc b @ s \<Longrightarrow> a = b \<and> r = s"
begin

lemma concat_delimits:
  "list_all valid xs \<Longrightarrow> list_all valid ys \<Longrightarrow> length xs = length ys \<Longrightarrow>
   concat (map enc xs) @ r = concat (map enc ys) @ s \<Longrightarrow> xs = ys \<and> r = s"
proof (induction xs ys rule: list_induct2')
  case (4 x xs y ys)
  then have "enc x @ (concat (map enc xs) @ r) = enc y @ (concat (map enc ys) @ s)" by simp
  from delimits [OF _ _ this] 4 show ?case by auto
qed auto

end

locale fixed_length_codec = codec enc dec valid
  for enc :: "'a \<Rightarrow> 'c list" and dec :: "'c list \<Rightarrow> 'e + 'a" and valid +
  fixes width :: nat
  assumes enc_width: "valid a \<Longrightarrow> length (enc a) = width"

sublocale fixed_length_codec \<subseteq> self_delimiting enc valid
  by unfold_locales (metis append_eq_append_conv enc_inject enc_width)

end
