(* ===== verification/Molecule.thy ===== *)
theory Molecule
  imports Ckb_Types Codec
begin

text \<open>
  \<open>crates/types/src/molecule.rs\<close>: the molecule encoders of \<open>Script\<close>, \<open>CellOutput\<close>,
  \<open>Bytes\<close> and \<open>OutPoint\<close>, the table reader and the script decoder. A table is valid
  when its total size fits the 32-bit size header (the encoder truncates the size and
  every offset with \<open>as u32\<close>). The reader inverts the encoder on valid tables, and
  accepts nothing else.
\<close>

section \<open>Encoders\<close>

definition encode_uint32 :: "u32 \<Rightarrow> byte list" where "encode_uint32 v = u32_le v"
definition encode_uint64 :: "u64 \<Rightarrow> byte list" where "encode_uint64 v = u64_le v"

definition encode_bytes :: "byte list \<Rightarrow> byte list" where
  "encode_bytes data = u32_le (of_nat (length data)) @ data"

fun table_offsets :: "nat \<Rightarrow> byte list list \<Rightarrow> byte list" where
  "table_offsets offset [] = []"
| "table_offsets offset (f # fs) = u32_le (of_nat offset) @ table_offsets (offset + length f) fs"

definition encode_table :: "byte list list \<Rightarrow> byte list" where
  "encode_table fs =
     (let header_len = 4 + 4 * length fs;
          body_len = sum_list (map length fs);
          full_size = header_len + body_len
      in u32_le (of_nat full_size) @ table_offsets header_len fs @ concat fs)"

definition encode_script :: "script \<Rightarrow> byte list" where
  "encode_script s =
     encode_table [h256_to_vec (s_code_hash s), [hash_type_to_byte (s_hash_type s)],
                   encode_bytes (s_args s)]"

fun encode_script_opt :: "script option \<Rightarrow> byte list" where
  "encode_script_opt (Some s) = encode_script s"
| "encode_script_opt None = []"

definition encode_cell_output :: "cell_output \<Rightarrow> byte list" where
  "encode_cell_output output =
     encode_table [encode_uint64 (out_capacity output), encode_script (out_lock output),
                   encode_script_opt (out_type output)]"

definition encode_out_point :: "ckb_out_point \<Rightarrow> byte list" where
  "encode_out_point op = h256_to_vec (co_tx_hash op) @ u32_le (co_index op)"

text \<open>\<open>Script::calc_hash\<close> of \<open>ckb.rs\<close>, which needs the encoder.\<close>

definition calc_hash :: "ext \<Rightarrow> script \<Rightarrow> h256" where
  "calc_hash e s = H256 (ckb_blake2b_256 e (encode_script s))"

section \<open>Decoders\<close>

definition slice :: "'a list \<Rightarrow> nat \<Rightarrow> nat \<Rightarrow> 'a list" where
  "slice d a b = take (b - a) (drop a d)"

definition u32_at :: "byte list \<Rightarrow> nat \<Rightarrow> nat" where
  "u32_at d start = unat (u32_of_le (slice d start (start + 4)))"

text \<open>The vector of offsets, closed by the full size, and the loop body that cuts one field.\<close>

definition table_offset_list :: "byte list \<Rightarrow> nat \<Rightarrow> nat \<Rightarrow> nat list" where
  "table_offset_list data field_count full_size =
     map (\<lambda>i. u32_at data (4 + i * 4)) [0..<field_count] @ [full_size]"

definition cut_field :: "nat \<Rightarrow> nat list \<Rightarrow> byte list \<Rightarrow> nat \<Rightarrow> byte list res" where
  "cut_field full_size offsets data i =
     (let start = offsets ! i; end = offsets ! (i + 1) in
      if start > end \<or> end > full_size then
        Inl (EMalformed ''molecule table''
          (''field '' @ show_nat i @ '' has invalid range '' @ show_nat start @ ''..'' @ show_nat end))
      else Inr (slice data start end))"

definition read_table_fields :: "byte list \<Rightarrow> byte list list res" where
  "read_table_fields data =
     (if length data < 4 then Inl (EMalformed ''molecule table'' ''shorter than the size header'')
      else let full_size = u32_at data 0 in
      if full_size \<noteq> length data then
        Inl (EMalformed ''molecule table''
          (''size header '' @ show_nat full_size @ '' != actual length '' @ show_nat (length data)))
      else if full_size = 4 then Inr []
      else if length data < 8 then Inl (EMalformed ''molecule table'' ''missing first offset'')
      else let first_offset = u32_at data 4 in
      if first_offset < 8 \<or> first_offset mod 4 \<noteq> 0 \<or> first_offset > full_size then
        Inl (EMalformed ''molecule table''
          (''implausible first offset '' @ show_nat first_offset))
      else let field_count = (first_offset - 4) div 4;
               offsets = table_offset_list data field_count full_size
      in collect (cut_field full_size offsets data) [0..<field_count])"

definition read_bytes :: "byte list \<Rightarrow> byte list res" where
  "read_bytes data =
     (if length data < 4 then Inl (EMalformed ''molecule Bytes'' ''missing length prefix'')
      else let len = u32_at data 0 in
      if 4 + len \<noteq> length data then
        Inl (EMalformed ''molecule Bytes''
          (''length prefix '' @ show_nat len @ '' does not match payload '' @ show_nat (length data - 4)))
      else Inr (drop 4 data))"

definition hash_type_of_byte :: "byte \<Rightarrow> hash_type res" where
  "hash_type_of_byte b =
     (if b = 0 then Inr HData else if b = 1 then Inr HType else if b = 2 then Inr HData1
      else if b = 4 then Inr HData2
      else Inl (EUnsupported ''script hash_type byte'' (show_nat (unat b))))"

definition decode_script :: "byte list \<Rightarrow> script res" where
  "decode_script data =
     (case read_table_fields data of Inl e \<Rightarrow> Inl e
      | Inr fs \<Rightarrow>
        if length fs \<noteq> 3 then
          Inl (EMalformed ''molecule Script'' (''expected 3 fields, got '' @ show_nat (length fs)))
        else case h256_from_slice (fs ! 0) of Inl e \<Rightarrow> Inl e
        | Inr code_hash \<Rightarrow>
          if length (fs ! 1) \<noteq> 1 then
            Inl (EMalformed ''molecule Script'' ''hash_type is not one byte'')
          else case hash_type_of_byte (fs ! 1 ! 0) of Inl e \<Rightarrow> Inl e
          | Inr hash_type \<Rightarrow>
            (case read_bytes (fs ! 2) of Inl e \<Rightarrow> Inl e
             | Inr args \<Rightarrow>
               Inr \<lparr> s_code_hash = code_hash, s_hash_type = hash_type, s_args = args \<rparr>))"

section \<open>The table reader inverts the encoder\<close>

abbreviation total :: "byte list list \<Rightarrow> nat" where
  "total fs \<equiv> sum_list (map length fs)"

definition table_size :: "byte list list \<Rightarrow> nat" where
  "table_size fs = 4 + 4 * length fs + total fs"

definition table_valid :: "byte list list \<Rightarrow> bool" where
  "table_valid fs \<longleftrightarrow> table_size fs < 2 ^ 32"

text \<open>Where field \<open>i\<close> starts.\<close>

definition field_offset :: "byte list list \<Rightarrow> nat \<Rightarrow> nat" where
  "field_offset fs i = 4 + 4 * length fs + total (take i fs)"

lemma slice_append_left [simp]: "slice (a @ b) 0 (length a) = a"
  by (simp add: slice_def)

lemma slice_shift: "k = length a \<Longrightarrow> slice (a @ b) (k + i) (k + j) = slice b i j"
  by (simp add: slice_def)

lemma slice_append_slice:
  assumes "a \<le> b" "b \<le> c"
  shows "slice d a b @ slice d b c = slice d a c"
  using assms take_add [of "b - a" "c - b" "drop a d"] by (simp add: slice_def)

lemma length_slice: "a \<le> b \<Longrightarrow> b \<le> length d \<Longrightarrow> length (slice d a b) = b - a"
  by (simp add: slice_def)

lemma slice_full: "b = length d \<Longrightarrow> slice d 0 b = d"
  by (simp add: slice_def)

lemma length_table_offsets [simp]: "length (table_offsets k fs) = 4 * length fs"
  by (induction k fs rule: table_offsets.induct) auto

lemma slice_table_offsets:
  "i < length fs \<Longrightarrow>
   slice (table_offsets k fs) (4 * i) (4 * i + 4) = u32_le (of_nat (k + total (take i fs)))"
proof (induction k fs arbitrary: i rule: table_offsets.induct)
  case (2 k f fs)
  show ?case
  proof (cases i)
    case 0
    then show ?thesis by (simp add: slice_def)
  next
    case (Suc j)
    have "slice (table_offsets k (f # fs)) (4 + 4 * j) (4 + (4 * j + 4))
        = slice (table_offsets (k + length f) fs) (4 * j) (4 * j + 4)"
      by (simp only: table_offsets.simps) (rule slice_shift, simp)
    with 2 Suc show ?thesis by (simp add: add.assoc)
  qed
qed simp

lemma slice_concat:
  "i < length fs \<Longrightarrow> slice (concat fs) (total (take i fs)) (total (take (Suc i) fs)) = fs ! i"
proof (induction fs arbitrary: i)
  case (Cons f fs)
  then show ?case
    by (cases i) (auto simp: slice_def)
qed simp

lemma length_encode_table [simp]: "length (encode_table fs) = table_size fs"
  by (simp add: encode_table_def table_size_def Let_def length_concat)

lemma encode_table_split:
  "encode_table fs = u32_le (of_nat (table_size fs)) @ table_offsets (4 + 4 * length fs) fs @ concat fs"
  by (simp add: encode_table_def table_size_def Let_def)

lemma unat_of_nat_u32: "n < 2 ^ 32 \<Longrightarrow> unat (of_nat n :: u32) = n"
  by (simp add: unat_of_nat)

lemma u32_at_0_append: "u32_at (u32_le w @ r) 0 = unat w"
  by (simp add: u32_at_def slice_def)

lemma field_offset_le: "field_offset fs i \<le> table_size fs"
proof -
  have "total (take i fs) + total (drop i fs) = total fs"
    by (metis append_take_drop_id map_append sum_list_append)
  then show ?thesis by (simp add: field_offset_def table_size_def)
qed

lemma field_offset_mono: "field_offset fs i \<le> field_offset fs (Suc i)"
  by (cases "i < length fs") (simp_all add: field_offset_def take_Suc_conv_app_nth)

lemma field_offset_0: "field_offset fs 0 = 4 + 4 * length fs"
  by (simp add: field_offset_def)

lemma field_offset_all: "field_offset fs (length fs) = table_size fs"
  by (simp add: field_offset_def table_size_def)

lemma u32_at_encode_table_0: "table_valid fs \<Longrightarrow> u32_at (encode_table fs) 0 = table_size fs"
  by (simp add: encode_table_split u32_at_0_append table_valid_def unat_of_nat_u32)

lemma u32_at_encode_table:
  assumes "table_valid fs" "i < length fs"
  shows "u32_at (encode_table fs) (4 + i * 4) = field_offset fs i"
proof -
  let ?o = "table_offsets (4 + 4 * length fs) fs"
  have "slice (encode_table fs) (4 + 4 * i) (4 + (4 * i + 4)) = slice (?o @ concat fs) (4 * i) (4 * i + 4)"
    unfolding encode_table_split by (rule slice_shift) simp
  also have "\<dots> = slice ?o (4 * i) (4 * i + 4)"
    using assms by (simp add: slice_def)
  also have "\<dots> = u32_le (of_nat (field_offset fs i))"
    using assms by (simp add: slice_table_offsets field_offset_def)
  finally have "u32_at (encode_table fs) (4 + i * 4) = unat (of_nat (field_offset fs i) :: u32)"
    by (simp add: u32_at_def mult.commute)
  then show ?thesis
    using assms field_offset_le [of fs i] by (simp add: table_valid_def unat_of_nat_u32)
qed

lemma slice_encode_table:
  assumes "i < length fs"
  shows "slice (encode_table fs) (field_offset fs i) (field_offset fs (Suc i)) = fs ! i"
proof -
  let ?h = "u32_le (of_nat (table_size fs)) @ table_offsets (4 + 4 * length fs) fs"
  have "slice (?h @ concat fs) (4 + 4 * length fs + total (take i fs))
          (4 + 4 * length fs + total (take (Suc i) fs))
      = slice (concat fs) (total (take i fs)) (total (take (Suc i) fs))"
    by (rule slice_shift) simp
  then show ?thesis
    using assms by (simp add: encode_table_split field_offset_def slice_concat)
qed


lemma cut_field_Inr:
  "cut_field n os d i = Inr f \<longleftrightarrow>
   os ! i \<le> os ! Suc i \<and> os ! Suc i \<le> n \<and> f = slice d (os ! i) (os ! Suc i)"
  by (auto simp: cut_field_def Let_def)

lemma read_table_fields_alt:
  "4 \<le> length d \<Longrightarrow> u32_at d 0 = length d \<Longrightarrow> length d \<noteq> 4 \<Longrightarrow> 8 \<le> length d \<Longrightarrow>
   8 \<le> u32_at d 4 \<Longrightarrow> u32_at d 4 mod 4 = 0 \<Longrightarrow> u32_at d 4 \<le> length d \<Longrightarrow>
   read_table_fields d =
     collect (cut_field (length d) (table_offset_list d ((u32_at d 4 - 4) div 4) (length d)) d)
       [0..<(u32_at d 4 - 4) div 4]"
  by (simp add: read_table_fields_def Let_def)

theorem read_encode_table:
  assumes "table_valid fs"
  shows "read_table_fields (encode_table fs) = Inr fs"
proof (cases "fs = []")
  case True
  with assms show ?thesis
    using u32_at_encode_table_0 [of "[]"]
    by (simp add: read_table_fields_def Let_def table_size_def)
next
  case False
  let ?d = "encode_table fs" and ?n = "length fs"
  have n: "0 < ?n" using False by simp
  have size: "u32_at ?d 0 = length ?d" using assms by (simp add: u32_at_encode_table_0)
  have first: "u32_at ?d 4 = 4 + 4 * ?n"
    using u32_at_encode_table [OF assms, of 0] n by (simp add: field_offset_def)
  have count: "(u32_at ?d 4 - 4) div 4 = ?n" by (simp add: first)
  have len: "4 + 4 * ?n \<le> length ?d" by (simp add: table_size_def)
  have offs: "table_offset_list ?d ?n (length ?d) ! i = field_offset fs i" if "i \<le> ?n" for i
  proof (cases "i = ?n")
    case True
    then show ?thesis by (simp add: table_offset_list_def nth_append field_offset_all)
  next
    case False
    with that show ?thesis
      by (simp add: table_offset_list_def nth_append u32_at_encode_table [OF assms])
  qed
  have "cut_field (length ?d) (table_offset_list ?d ?n (length ?d)) ?d i = Inr (fs ! i)" if "i < ?n" for i
    using that offs field_offset_mono field_offset_le
    by (simp add: cut_field_Inr slice_encode_table)
  then have "collect (cut_field (length ?d) (table_offset_list ?d ?n (length ?d)) ?d) [0..<?n]
      = Inr (map (\<lambda>i. fs ! i) [0..<?n])"
    by (intro collect_map_Inr) auto
  moreover have "read_table_fields ?d = collect (cut_field (length ?d) (table_offset_list ?d ?n (length ?d)) ?d) [0..<?n]"
    unfolding count [symmetric]
  proof (rule read_table_fields_alt)
    show "4 \<le> length ?d" "length ?d \<noteq> 4" "8 \<le> length ?d" "8 \<le> u32_at ?d 4"
      "u32_at ?d 4 mod 4 = 0" "u32_at ?d 4 \<le> length ?d"
      unfolding first using len n by presburger+
  qed (rule size)
  ultimately show ?thesis by (simp add: map_nth)
qed

section \<open>The table reader is canonical\<close>

lemma concat_slices:
  "(\<And>i. i < n \<Longrightarrow> os i \<le> os (Suc i)) \<Longrightarrow>
   os 0 \<le> os n \<and> concat (map (\<lambda>i. slice d (os i) (os (Suc i))) [0..<n]) = slice d (os 0) (os n)"
proof (induction n)
  case 0
  then show ?case by (simp add: slice_def)
next
  case (Suc n)
  then have IH: "os 0 \<le> os n"
    "concat (map (\<lambda>i. slice d (os i) (os (Suc i))) [0..<n]) = slice d (os 0) (os n)"
    by auto
  with Suc.prems [of n] show ?case by (simp add: slice_append_slice)
qed

lemma total_slices:
  assumes "\<And>i. i < n \<Longrightarrow> os i \<le> os (Suc i)" "\<And>i. i \<le> n \<Longrightarrow> os i \<le> length d" "j \<le> n"
  shows "os 0 + total (take j (map (\<lambda>i. slice d (os i) (os (Suc i))) [0..<n])) = os j"
  using \<open>j \<le> n\<close>
proof (induction j)
  case (Suc j)
  then show ?case
    using assms(1) [of j] assms(2) [of "Suc j"]
    by (simp add: take_Suc_conv_app_nth length_slice add.assoc [symmetric])
qed simp

lemma table_offsets_conv:
  "table_offsets k fs = concat (map (\<lambda>i. u32_le (of_nat (k + total (take i fs)))) [0..<length fs])"
proof (induction k fs rule: table_offsets.induct)
  case (2 k f fs)
  have "[0..<length (f # fs)] = 0 # map Suc [0..<length fs]"
    by (simp add: upt_conv_Cons map_Suc_upt del: upt_Suc)
  with 2 show ?case by (simp add: comp_def add.assoc del: upt_Suc)
qed simp

lemma u32_le_u32_at:
  "i + 4 \<le> length d \<Longrightarrow> u32_le (of_nat (u32_at d i)) = slice d i (i + 4)"
  by (simp add: u32_at_def length_slice)

lemma read_table_fields_checks:
  assumes "read_table_fields d = Inr fs" "length d \<noteq> 4"
  shows "8 \<le> length d" "u32_at d 0 = length d" "8 \<le> u32_at d 4" "u32_at d 4 mod 4 = 0"
    "u32_at d 4 \<le> length d"
    "collect (cut_field (length d) (table_offset_list d ((u32_at d 4 - 4) div 4) (length d)) d)
      [0..<(u32_at d 4 - 4) div 4] = Inr fs"
  using assms by (auto simp: read_table_fields_def Let_def not_less split: if_splits)

theorem encode_read_table:
  assumes "read_table_fields d = Inr fs"
  shows "encode_table fs = d"
proof (cases "length d = 4")
  case True
  with assms have "fs = []" and "u32_at d 0 = 4"
    by (auto simp: read_table_fields_def Let_def split: if_splits)
  then have "u32_le (of_nat 4) = slice d 0 4" using u32_le_u32_at [of 0 d] True by simp
  with \<open>fs = []\<close> True show ?thesis
    by (simp add: encode_table_split table_size_def slice_full)
next
  case False
  note checks = read_table_fields_checks [OF assms False]
  let ?n = "(u32_at d 4 - 4) div 4"
  let ?os = "\<lambda>i. table_offset_list d ?n (length d) ! i"
  have first: "u32_at d 4 = 4 + 4 * ?n" and n: "0 < ?n" using checks(3,4) by presburger+
  have os_at: "?os i = u32_at d (4 + i * 4)" if "i < ?n" for i
    using that by (simp add: table_offset_list_def nth_append)
  have os_n: "?os ?n = length d" using checks(2) by (simp add: table_offset_list_def nth_append)
  have os_0: "?os 0 = 4 + 4 * ?n" using os_at [of 0] n first by simp
  from checks(6) have all: "list_all2 (\<lambda>i f. cut_field (length d) (table_offset_list d ?n (length d)) d i = Inr f) [0..<?n] fs"
    by (simp only: collect_Inr_iff)
  have len: "length fs = ?n" using list_all2_lengthD [OF all] by simp
  have nth: "?os i \<le> ?os (Suc i) \<and> ?os (Suc i) \<le> length d \<and> fs ! i = slice d (?os i) (?os (Suc i))"
    if "i < ?n" for i
    using list_all2_nthD [OF all, of i] that by (simp add: cut_field_Inr)
  have fs: "fs = map (\<lambda>i. slice d (?os i) (?os (Suc i))) [0..<?n]"
    by (rule nth_equalityI) (use len nth in auto)
  have bound: "?os i \<le> length d" if "i \<le> ?n" for i
    using that nth [of "i - 1"] os_0 checks(5) first by (cases i) auto
  have tot: "4 + 4 * length fs + total (take j fs) = ?os j" if "j \<le> ?n" for j
    using total_slices [of ?n ?os d j] nth bound that len os_0 unfolding fs [symmetric] by simp
  have body: "concat fs = drop (4 + 4 * ?n) d"
    using concat_slices [of ?n ?os d] nth os_0 os_n unfolding fs [symmetric] by (simp add: slice_def)
  have size: "table_size fs = length d"
    using tot [of ?n] len os_n by (simp add: table_size_def)
  have "u32_le (of_nat (4 + 4 * length fs + total (take i fs))) = slice d (4 + 4 * i) (4 + 4 * Suc i)"
    if "i < ?n" for i
    using that tot [of i] os_at [of i] u32_le_u32_at [of "4 + i * 4" d] first checks(5)
    by (simp add: algebra_simps)
  then have "table_offsets (4 + 4 * length fs) fs
      = concat (map (\<lambda>i. slice d (4 + 4 * i) (4 + 4 * Suc i)) [0..<?n])"
    unfolding table_offsets_conv len by (intro arg_cong [of _ _ concat] map_cong) auto
  also have "\<dots> = slice d 4 (4 + 4 * ?n)"
    using concat_slices [of ?n "\<lambda>i. 4 + 4 * i" d] by simp
  finally have offs: "table_offsets (4 + 4 * length fs) fs = slice d 4 (4 + 4 * ?n)" .
  have head: "u32_le (of_nat (table_size fs)) = slice d 0 4"
    using u32_le_u32_at [of 0 d] checks(1,2) size by simp
  have "encode_table fs = slice d 0 4 @ slice d 4 (4 + 4 * ?n) @ drop (4 + 4 * ?n) d"
    by (simp only: encode_table_split head offs body)
  then show ?thesis by (simp add: slice_append_slice append.assoc [symmetric]) (simp add: slice_def)
qed

lemma encode_read_bytes:
  assumes "read_bytes d = Inr bs"
  shows "encode_bytes bs = d"
proof -
  from assms have "4 \<le> length d" "4 + u32_at d 0 = length d" "bs = drop 4 d"
    by (auto simp: read_bytes_def Let_def split: if_splits)
  moreover from this have "length bs = u32_at d 0" by simp
  ultimately show ?thesis
    using u32_le_u32_at [of 0 d] by (simp add: encode_bytes_def slice_def)
qed

lemma read_encode_bytes: "length bs < 2 ^ 32 \<Longrightarrow> read_bytes (encode_bytes bs) = Inr bs"
  by (simp add: read_bytes_def encode_bytes_def u32_at_0_append unat_of_nat_u32 Let_def)

section \<open>Scripts, outputs and out points\<close>

lemma hash_type_of_byte_to_byte [simp]: "hash_type_of_byte (hash_type_to_byte t) = Inr t"
  by (cases t) (simp_all add: hash_type_of_byte_def)

lemma hash_type_of_byte_Inr: "hash_type_of_byte b = Inr t \<longleftrightarrow> b = hash_type_to_byte t"
  by (cases t) (auto simp: hash_type_of_byte_def split: if_splits)

text \<open>A script is encodable when its arguments leave room for the 53 bytes of the rest.\<close>

definition script_valid :: "script \<Rightarrow> bool" where
  "script_valid s \<longleftrightarrow> length (s_args s) + 53 < 2 ^ 32"

definition output_valid :: "cell_output \<Rightarrow> bool" where
  "output_valid o' \<longleftrightarrow> length (encode_cell_output o') < 2 ^ 32 \<and> script_valid (out_lock o') \<and>
     (case out_type o' of None \<Rightarrow> True | Some t \<Rightarrow> script_valid t)"

lemma length_encode_bytes [simp]: "length (encode_bytes bs) = 4 + length bs"
  by (simp add: encode_bytes_def)

lemma length_encode_script: "length (encode_script s) = length (s_args s) + 53"
  by (simp add: encode_script_def table_size_def)

lemma decode_encode_script:
  assumes "script_valid s"
  shows "decode_script (encode_script s) = Inr s"
proof -
  have "table_valid [h256_to_vec (s_code_hash s), [hash_type_to_byte (s_hash_type s)], encode_bytes (s_args s)]"
    using assms by (simp add: table_valid_def table_size_def script_valid_def)
  then show ?thesis
    using assms
    by (simp add: decode_script_def encode_script_def read_encode_table read_encode_bytes script_valid_def)
qed

lemma length_3_conv: "length xs = 3 \<longleftrightarrow> (\<exists>a b c. xs = [a, b, c])"
  by (auto simp: numeral_eq_Suc length_Suc_conv)

lemma decode_script_Inr:
  assumes "decode_script d = Inr s"
  shows "\<exists>a b c. read_table_fields d = Inr [a, [b], c] \<and> a = h256_to_vec (s_code_hash s) \<and>
           b = hash_type_to_byte (s_hash_type s) \<and> read_bytes c = Inr (s_args s)"
  using assms
  by (auto simp: decode_script_def length_3_conv length_Suc_conv h256_from_slice_Inr hash_type_of_byte_Inr
      split: sum.splits if_splits)

lemma encode_decode_script:
  assumes "decode_script d = Inr s"
  shows "encode_script s = d"
proof -
  from decode_script_Inr [OF assms] obtain a b c where
    "read_table_fields d = Inr [a, [b], c]" "a = h256_to_vec (s_code_hash s)"
    "b = hash_type_to_byte (s_hash_type s)" "read_bytes c = Inr (s_args s)"
    by blast
  then show ?thesis
    using encode_read_table [of d "[a, [b], c]"] encode_read_bytes [of c "s_args s"]
    by (simp add: encode_script_def)
qed

interpretation table_codec: canonical_codec encode_table read_table_fields table_valid
  by unfold_locales (simp_all add: read_encode_table encode_read_table)

interpretation bytes_codec: canonical_codec encode_bytes read_bytes "\<lambda>bs. length bs < 2 ^ 32"
  by unfold_locales (simp_all add: read_encode_bytes encode_read_bytes)

interpretation script_codec: canonical_codec encode_script decode_script script_valid
  by unfold_locales (simp_all add: decode_encode_script encode_decode_script)

text \<open>A table announces its size, so tables can be concatenated.\<close>

lemma table_delimits:
  assumes "table_valid a" "table_valid b" "encode_table a @ r = encode_table b @ s"
  shows "a = b \<and> r = s"
proof -
  have "u32_at (encode_table x @ y) 0 = table_size x" if "table_valid x" for x y
    using that by (simp add: encode_table_split u32_at_0_append table_valid_def unat_of_nat_u32)
  then have "table_size a = table_size b" using assms by metis
  with assms(3) have "encode_table a = encode_table b \<and> r = s"
    by (simp add: append_eq_append_conv)
  with assms table_codec.enc_inject show ?thesis by auto
qed

lemma bytes_delimits:
  assumes "length a < 2 ^ 32" "length b < 2 ^ 32" "encode_bytes a @ r = encode_bytes b @ s"
  shows "a = b \<and> r = s"
proof -
  have "u32_at (encode_bytes x @ y) 0 = length x" if "length x < 2 ^ 32" for x y
    using that by (simp add: encode_bytes_def u32_at_0_append unat_of_nat_u32)
  then have "length a = length b" using assms by metis
  with assms(3) show ?thesis by (simp add: encode_bytes_def)
qed

lemma encode_script_nonempty [simp]: "encode_script s \<noteq> []" "[] \<noteq> encode_script s"
  using length_encode_script [of s] by (metis add_is_0 list.size(3) zero_neq_numeral)+

lemma encode_script_opt_inject:
  "(case a of None \<Rightarrow> True | Some t \<Rightarrow> script_valid t) \<Longrightarrow>
   (case b of None \<Rightarrow> True | Some t \<Rightarrow> script_valid t) \<Longrightarrow>
   encode_script_opt a = encode_script_opt b \<longleftrightarrow> a = b"
  by (cases a; cases b) (auto simp: script_codec.enc_inject)

lemma cell_output_delimits:
  assumes "output_valid a" "output_valid b" "encode_cell_output a @ r = encode_cell_output b @ s"
  shows "a = b \<and> r = s"
proof -
  let ?f = "\<lambda>x. [encode_uint64 (out_capacity x), encode_script (out_lock x), encode_script_opt (out_type x)]"
  have "table_valid (?f x)" if "output_valid x" for x
    using that by (simp add: output_valid_def table_valid_def encode_cell_output_def)
  with assms table_delimits [of "?f a" "?f b" r s] have "?f a = ?f b" and rs: "r = s"
    by (auto simp: encode_cell_output_def)
  then have "a = b"
    using assms(1,2)
    by (intro cell_output.equality)
      (auto simp: output_valid_def encode_uint64_def script_codec.enc_inject encode_script_opt_inject)
  with rs show ?thesis by simp
qed

interpretation bytes_delim: self_delimiting encode_bytes "\<lambda>bs. length bs < 2 ^ 32"
  by unfold_locales (use bytes_delimits in blast)+

interpretation cell_output_delim: self_delimiting encode_cell_output output_valid
  by unfold_locales (use cell_output_delimits in blast)+

text \<open>An out point is a struct of 36 bytes; its decoder is not in the sources.\<close>

definition decode_out_point :: "byte list \<Rightarrow> ckb_out_point res" where
  "decode_out_point bs = Inr \<lparr> co_tx_hash = H256 (mk32 (take 32 bs)), co_index = u32_of_le (drop 32 bs) \<rparr>"

interpretation out_point_codec:
  fixed_length_codec encode_out_point decode_out_point "\<lambda>op. True" 36
  by unfold_locales
    (simp_all add: encode_out_point_def decode_out_point_def h256_to_vec_def)

section \<open>Properties\<close>

text \<open>
  The table reader accepts exactly the encodings: a byte string reads as the fields
  \<open>fs\<close> if and only if it is the table the encoder builds from them, for every list of
  fields whose table fits the 32-bit size header.
\<close>

theorem molecule_table_exact:
  assumes "table_valid fs"
  shows "read_table_fields d = Inr fs \<longleftrightarrow> d = encode_table fs"
  using assms by (rule table_codec.dec_iff)

lemma molecule_table_exact_witness:
  "read_table_fields (encode_table [[1, 2], [], [3]]) = Inr [[1, 2], [], [3]]"
  using molecule_table_exact [of "[[1, 2], [], [3]]" "encode_table [[1, 2], [], [3]]"]
  by (simp add: table_valid_def table_size_def)

text \<open>
  Script decoding inverts script encoding and has no second encoding of any script:
  \<open>decode_script\<close> returns \<open>s\<close> on the molecule encoding of \<open>s\<close> and on no other bytes.
\<close>

theorem molecule_script_exact:
  assumes "script_valid s"
  shows "decode_script d = Inr s \<longleftrightarrow> d = encode_script s"
  using assms by (rule script_codec.dec_iff)

lemma molecule_script_exact_witness:
  "decode_script (encode_script \<lparr> s_code_hash = h256_zero, s_hash_type = HData1, s_args = [7, 8] \<rparr>)
     = Inr \<lparr> s_code_hash = h256_zero, s_hash_type = HData1, s_args = [7, 8] \<rparr>"
  using molecule_script_exact [of "\<lparr> s_code_hash = h256_zero, s_hash_type = HData1, s_args = [7, 8] \<rparr>"]
  by (simp add: script_valid_def)

end
