(* ===== verification/Bitcoin.thy ===== *)
theory Bitcoin
  imports Ckb_Types Codec
begin

text \<open>
  \<open>crates/types/src/bitcoin.rs\<close>: txids in display order with the reversal to consensus
  order confined to \<open>to_internal_bytes\<close> and \<open>from_internal_bytes\<close>, out points, block
  hashes, networks and the validation of addresses taken from a URL.
\<close>

section \<open>Txids\<close>

datatype btc_txid = BtcTxid (txid_bytes: bytes32)

text \<open>The derived \<open>Ord\<close>: that of the bytes.\<close>

instantiation btc_txid :: linorder
begin

definition less_eq_btc_txid :: "btc_txid \<Rightarrow> btc_txid \<Rightarrow> bool" where
  "less_eq_btc_txid a b \<longleftrightarrow> txid_bytes a \<le> txid_bytes b"

definition less_btc_txid :: "btc_txid \<Rightarrow> btc_txid \<Rightarrow> bool" where
  "less_btc_txid a b \<longleftrightarrow> txid_bytes a < txid_bytes b"

instance
  by intro_classes (auto simp: less_eq_btc_txid_def less_btc_txid_def less_le_not_le btc_txid.expand)

end

definition from_display_bytes :: "bytes32 \<Rightarrow> btc_txid" where
  "from_display_bytes bs = BtcTxid bs"

definition from_display_slice :: "byte list \<Rightarrow> btc_txid res" where
  "from_display_slice bs =
     (if length bs \<noteq> 32 then Inl (ELength ''BtcTxid'' 32 (length bs)) else Inr (BtcTxid (mk32 bs)))"

definition txid_from_hex :: "ext \<Rightarrow> string \<Rightarrow> btc_txid res" where
  "txid_from_hex e s =
     (let s' = strip_0x s in
      if length s' \<noteq> 64 then Inl (ELength ''BtcTxid hex'' 64 (length s'))
      else case hex_decode e s' of Inl err \<Rightarrow> Inl err | Inr bs \<Rightarrow> from_display_slice bs)"

definition from_internal_bytes :: "byte list \<Rightarrow> btc_txid res" where
  "from_internal_bytes bs = from_display_slice (rev bs)"

definition to_display_vec :: "btc_txid \<Rightarrow> byte list" where
  "to_display_vec t = list32 (txid_bytes t)"

definition to_internal_bytes :: "btc_txid \<Rightarrow> byte list" where
  "to_internal_bytes t = rev (list32 (txid_bytes t))"

definition txid_to_hex :: "ext \<Rightarrow> btc_txid \<Rightarrow> string" where
  "txid_to_hex e t = ex_hex_encode e (to_display_vec t)"

record btc_out_point =
  bo_txid :: btc_txid
  bo_vout :: u32

definition out_point_to_string :: "ext \<Rightarrow> btc_out_point \<Rightarrow> string" where
  "out_point_to_string e op = txid_to_hex e (bo_txid op) @ '':'' @ show_nat (unat (bo_vout op))"

lemma length_to_display_vec [simp]: "length (to_display_vec t) = 32"
  by (simp add: to_display_vec_def)

lemma length_to_internal_bytes [simp]: "length (to_internal_bytes t) = 32"
  by (simp add: to_internal_bytes_def)

lemma from_display_slice_Inr: "from_display_slice bs = Inr t \<longleftrightarrow> bs = to_display_vec t"
  by (cases t) (auto simp: from_display_slice_def to_display_vec_def)

lemma from_internal_bytes_Inr: "from_internal_bytes bs = Inr t \<longleftrightarrow> bs = to_internal_bytes t"
  by (auto simp: from_internal_bytes_def from_display_slice_Inr to_internal_bytes_def to_display_vec_def
      rev_swap)

interpretation txid_display: canonical_codec to_display_vec from_display_slice "\<lambda>t. True"
  by unfold_locales (simp_all add: from_display_slice_Inr)

interpretation txid_internal: canonical_codec to_internal_bytes from_internal_bytes "\<lambda>t. True"
  by unfold_locales (simp_all add: from_internal_bytes_Inr)

lemma txid_hex_roundtrip [simp]: "ext_ok e \<Longrightarrow> txid_from_hex e (txid_to_hex e t) = Inr t"
  by (simp add: txid_from_hex_def txid_to_hex_def length_hex_encode txid_display.dec_enc)

section \<open>Block hashes\<close>

datatype btc_block_hash = BtcBlockHash (bbh_bytes: bytes32)

definition bbh_from_hex :: "ext \<Rightarrow> string \<Rightarrow> btc_block_hash res" where
  "bbh_from_hex e s =
     (case hex_decode e (strip_0x s) of Inl err \<Rightarrow> Inl err
      | Inr bs \<Rightarrow>
        if length bs \<noteq> 32 then Inl (ELength ''BtcBlockHash'' 32 (length bs))
        else Inr (BtcBlockHash (mk32 bs)))"

definition bbh_to_hex :: "ext \<Rightarrow> btc_block_hash \<Rightarrow> string" where
  "bbh_to_hex e h = ex_hex_encode e (list32 (bbh_bytes h))"

definition bbh_to_vec :: "btc_block_hash \<Rightarrow> byte list" where
  "bbh_to_vec h = list32 (bbh_bytes h)"

lemma bbh_hex_roundtrip [simp]: "ext_ok e \<Longrightarrow> bbh_from_hex e (bbh_to_hex e h) = Inr h"
  by (cases h) (simp add: bbh_from_hex_def bbh_to_hex_def)

section \<open>Networks\<close>

datatype btc_network = Mainnet | Testnet | Signet | Regtest

definition network_from_label :: "string \<Rightarrow> btc_network option" where
  "network_from_label label =
     (let l = to_ascii_lowercase label in
      if l \<in> {''mainnet'', ''main'', ''bitcoin''} then Some Mainnet
      else if l \<in> {''testnet'', ''testnet3'', ''testnet4''} then Some Testnet
      else if l = ''signet'' then Some Signet
      else if l = ''regtest'' then Some Regtest
      else None)"

fun network_as_str :: "btc_network \<Rightarrow> string" where
  "network_as_str Mainnet = ''mainnet''"
| "network_as_str Testnet = ''testnet''"
| "network_as_str Signet = ''signet''"
| "network_as_str Regtest = ''regtest''"

datatype addr_family = FMain | FTest | FRegtest

fun address_family :: "btc_network \<Rightarrow> addr_family" where
  "address_family Mainnet = FMain"
| "address_family Testnet = FTest"
| "address_family Signet = FTest"
| "address_family Regtest = FRegtest"

fun family_label :: "addr_family \<Rightarrow> string" where
  "family_label FMain = ''mainnet''"
| "family_label FTest = ''testnet or signet''"
| "family_label FRegtest = ''regtest''"

text \<open>\<open>bech32::Hrp\<close> compares case-insensitively with the constants \<open>bc\<close>, \<open>tb\<close>, \<open>bcrt\<close>.\<close>

definition of_segwit_hrp :: "string \<Rightarrow> addr_family option" where
  "of_segwit_hrp hrp =
     (let h = to_ascii_lowercase hrp in
      if h = ''bc'' then Some FMain
      else if h = ''tb'' then Some FTest
      else if h = ''bcrt'' then Some FRegtest
      else None)"

definition of_base58_version :: "byte \<Rightarrow> addr_family list option" where
  "of_base58_version v =
     (if v = 0x00 \<or> v = 0x05 then Some [FMain]
      else if v = 0x6f \<or> v = 0xc4 then Some [FTest, FRegtest]
      else None)"

definition MAX_ADDRESS_LEN :: nat where "MAX_ADDRESS_LEN = 90"

definition hex2 :: "byte \<Rightarrow> string" where
  "hex2 b = [nibble_char (unat b div 16), nibble_char (unat b mod 16)]"

definition validate_address :: "ext \<Rightarrow> string \<Rightarrow> btc_network \<Rightarrow> unit res" where
  "validate_address e address network =
     (let invalid = (\<lambda>reason. Inl (EMalformed ''bitcoin address'' reason));
          expected = address_family network
      in if length address > MAX_ADDRESS_LEN then invalid ''longer than any Bitcoin address''
      else case ex_segwit_hrp e address of
        Some hrp \<Rightarrow>
          (case of_segwit_hrp hrp of
             Some family \<Rightarrow>
               if family = expected then Inr ()
               else invalid (''a '' @ family_label family @ '' address, but this index follows ''
                             @ network_as_str network)
           | None \<Rightarrow> invalid (''`'' @ hrp @ ''` is not a Bitcoin address prefix''))
      | None \<Rightarrow>
        (case ex_base58check e address of
           Some payload \<Rightarrow>
             if length payload \<noteq> 21 then
               invalid (''base58check payload is '' @ show_nat (length payload) @ '' bytes, not 21'')
             else (case of_base58_version (payload ! 0) of
                 Some families \<Rightarrow>
                   if expected \<in> set families then Inr ()
                   else invalid (''a '' @ family_label (hd families)
                                 @ '' address, but this index follows '' @ network_as_str network)
               | None \<Rightarrow> invalid (''unknown address version byte 0x'' @ hex2 (payload ! 0)))
         | None \<Rightarrow> invalid ''not a valid segwit (bech32/bech32m) or base58check address''))"

lemma network_label_roundtrip: "network_from_label (network_as_str n) = Some n"
  by (cases n) (simp_all add: network_from_label_def to_ascii_lowercase_def ascii_lower_def less_eq_char_def)

text \<open>What an accepted address is: short, and of the family of the configured network.\<close>

definition address_ok :: "ext \<Rightarrow> string \<Rightarrow> btc_network \<Rightarrow> bool" where
  "address_ok e a n \<longleftrightarrow> length a \<le> 90 \<and>
     (case ex_segwit_hrp e a of
        Some hrp \<Rightarrow> of_segwit_hrp hrp = Some (address_family n)
      | None \<Rightarrow>
        (case ex_base58check e a of
           Some p \<Rightarrow> length p = 21 \<and>
             (\<exists>fs. of_base58_version (p ! 0) = Some fs \<and> address_family n \<in> set fs)
         | None \<Rightarrow> False))"

lemma validate_address_iff: "validate_address e a n = Inr () \<longleftrightarrow> address_ok e a n"
  by (auto simp: validate_address_def address_ok_def Let_def MAX_ADDRESS_LEN_def
      split: option.splits if_splits)

section \<open>Properties\<close>

text \<open>
  The two byte orders of a txid: \<open>from_hex\<close> reads back the explorer form, the internal
  form is the reverse of the displayed bytes and is read back by \<open>from_internal_bytes\<close>, and
  the same internal bytes read as display bytes name the txid only if it is a palindrome.
\<close>

theorem txid_byte_orders:
  assumes "ext_ok e"
  shows "txid_from_hex e (txid_to_hex e t) = Inr t \<and>
     from_internal_bytes (to_internal_bytes t) = Inr t \<and>
     to_internal_bytes t = rev (to_display_vec t) \<and>
     (from_display_slice (to_internal_bytes t) = Inr t \<longleftrightarrow> rev (to_display_vec t) = to_display_vec t)"
  using assms
  by (simp add: txid_internal.dec_enc from_display_slice_Inr) (simp add: to_internal_bytes_def to_display_vec_def)

lemma txid_byte_orders_witness:
  "from_internal_bytes (to_internal_bytes (BtcTxid (mk32 (59 # replicate 31 0))))
     = Inr (BtcTxid (mk32 (59 # replicate 31 0)))"
  using txid_byte_orders [OF ref_ext_ok, of "BtcTxid (mk32 (59 # replicate 31 0))"] by blast

text \<open>
  An address passes validation exactly when it is at most 90 bytes and decodes, as
  segwit first and as base58check otherwise, to an address of the family of the configured
  network; everything else from the URL is an error.
\<close>

theorem validate_address_exact:
  "validate_address e a n = Inr () \<longleftrightarrow> address_ok e a n"
  by (rule validate_address_iff)

end
