(* ===== verification/Protocol.thy ===== *)
theory Protocol
  imports Molecule Bitcoin
begin

text \<open>
  \<open>crates/types/src/protocol.rs\<close>: the two locks that define RGB++, the codecs of their
  arguments and the rewriting with a placeholder txid that commitments are computed over.
\<close>

section \<open>Lock kinds and classification\<close>

datatype lock_kind = KRgbpp | KBtcTime

fun lock_kind_as_str :: "lock_kind \<Rightarrow> string" where
  "lock_kind_as_str KRgbpp = ''rgbpp''"
| "lock_kind_as_str KBtcTime = ''btc_time''"

definition lock_kind_from_str_opt :: "string \<Rightarrow> lock_kind option" where
  "lock_kind_from_str_opt s =
     (if s = ''rgbpp'' then Some KRgbpp else if s = ''btc_time'' then Some KBtcTime else None)"

lemma lock_kind_str_roundtrip [simp]: "lock_kind_from_str_opt (lock_kind_as_str k) = Some k"
  by (cases k) (simp_all add: lock_kind_from_str_opt_def)

record script_id =
  id_code_hash :: h256
  id_hash_type :: hash_type

definition script_id_matches :: "script_id \<Rightarrow> script \<Rightarrow> bool" where
  "script_id_matches i s \<longleftrightarrow> s_code_hash s = id_code_hash i \<and> s_hash_type s = id_hash_type i"

record protocol_scripts =
  ps_rgbpp_lock :: script_id
  ps_btc_time_lock :: script_id

definition classify_lock :: "protocol_scripts \<Rightarrow> script \<Rightarrow> lock_kind option" where
  "classify_lock ps lock =
     (if script_id_matches (ps_rgbpp_lock ps) lock then Some KRgbpp
      else if script_id_matches (ps_btc_time_lock ps) lock then Some KBtcTime
      else None)"

section \<open>RGB++ lock arguments\<close>

record rgbpp_lock_args =
  ra_out_index :: u32
  ra_txid :: btc_txid

definition RGBPP_ARGS_LEN :: nat where "RGBPP_ARGS_LEN = 36"

definition rgbpp_parse :: "byte list \<Rightarrow> rgbpp_lock_args res" where
  "rgbpp_parse args =
     (if length args \<noteq> RGBPP_ARGS_LEN then
        Inl (ELength ''rgbpp lock args'' RGBPP_ARGS_LEN (length args))
      else let out_index = u32_of_le (slice args 0 4) in
        case from_internal_bytes (slice args 4 36) of Inl e \<Rightarrow> Inl e
        | Inr txid \<Rightarrow> Inr \<lparr> ra_out_index = out_index, ra_txid = txid \<rparr>)"

definition rgbpp_encode :: "rgbpp_lock_args \<Rightarrow> byte list" where
  "rgbpp_encode a = u32_le (ra_out_index a) @ to_internal_bytes (ra_txid a)"

definition rgbpp_out_point :: "rgbpp_lock_args \<Rightarrow> btc_out_point" where
  "rgbpp_out_point a = \<lparr> bo_txid = ra_txid a, bo_vout = ra_out_index a \<rparr>"

lemma rgbpp_parse_encode: "rgbpp_parse (rgbpp_encode a) = Inr a"
  by (cases a)
    (simp add: rgbpp_parse_def rgbpp_encode_def RGBPP_ARGS_LEN_def slice_def txid_internal.dec_enc)

lemma rgbpp_encode_parse: "rgbpp_parse d = Inr a \<Longrightarrow> rgbpp_encode a = d"
  by (auto simp: rgbpp_parse_def rgbpp_encode_def RGBPP_ARGS_LEN_def slice_def from_internal_bytes_Inr
      Let_def split: if_splits sum.splits) (metis append_take_drop_id)

interpretation rgbpp_codec: canonical_codec rgbpp_encode rgbpp_parse "\<lambda>a. True"
  by unfold_locales (simp_all add: rgbpp_parse_encode rgbpp_encode_parse)

interpretation rgbpp_width: fixed_length_codec rgbpp_encode rgbpp_parse "\<lambda>a. True" 36
  by unfold_locales (simp add: rgbpp_encode_def)

lemma rgbpp_parse_total: "length d = 36 \<Longrightarrow> \<exists>a. rgbpp_parse d = Inr a"
  by (simp add: rgbpp_parse_def RGBPP_ARGS_LEN_def from_internal_bytes_def from_display_slice_def slice_def
      Let_def)

section \<open>BTC time lock arguments\<close>

record btc_time_args =
  ta_target_lock :: script
  ta_after :: u32
  ta_txid :: btc_txid

definition btc_time_parse :: "byte list \<Rightarrow> btc_time_args res" where
  "btc_time_parse args =
     (case read_table_fields args of Inl e \<Rightarrow> Inl e
      | Inr fs \<Rightarrow>
        if length fs \<noteq> 3 then
          Inl (EMalformed ''btc time lock args'' (''expected 3 fields, got '' @ show_nat (length fs)))
        else case decode_script (fs ! 0) of Inl e \<Rightarrow> Inl e
        | Inr target_lock \<Rightarrow>
          if length (fs ! 1) \<noteq> 4 then
            Inl (EMalformed ''btc time lock args'' ''`after` is not a Uint32'')
          else case from_internal_bytes (fs ! 2) of Inl e \<Rightarrow> Inl e
          | Inr txid \<Rightarrow>
            Inr \<lparr> ta_target_lock = target_lock, ta_after = u32_of_le (fs ! 1), ta_txid = txid \<rparr>)"

text \<open>\<open>BtcTimeLockArgs::encode\<close> repeats the body of \<open>encode_table\<close> on its three fields.\<close>

definition btc_time_encode :: "btc_time_args \<Rightarrow> byte list" where
  "btc_time_encode a =
     (let fs = [encode_script (ta_target_lock a), u32_le (ta_after a), to_internal_bytes (ta_txid a)];
          header_len = 4 + 4 * length fs;
          body_len = sum_list (map length fs);
          full_size = header_len + body_len
      in u32_le (of_nat full_size) @ table_offsets header_len fs @ concat fs)"

text \<open>Encodable: the target's arguments leave room for the 105 bytes of the rest.\<close>

definition btc_time_valid :: "btc_time_args \<Rightarrow> bool" where
  "btc_time_valid a \<longleftrightarrow> length (s_args (ta_target_lock a)) + 105 < 2 ^ 32"

lemma btc_time_encode_table:
  "btc_time_encode a =
     encode_table [encode_script (ta_target_lock a), u32_le (ta_after a), to_internal_bytes (ta_txid a)]"
  by (simp add: btc_time_encode_def encode_table_def)

lemma btc_time_parse_encode:
  assumes "btc_time_valid a"
  shows "btc_time_parse (btc_time_encode a) = Inr a"
proof -
  have "table_valid [encode_script (ta_target_lock a), u32_le (ta_after a), to_internal_bytes (ta_txid a)]"
    and "script_valid (ta_target_lock a)"
    using assms
    by (simp_all add: btc_time_valid_def table_valid_def table_size_def length_encode_script script_valid_def)
  then show ?thesis
    by (simp add: btc_time_parse_def btc_time_encode_table table_codec.dec_enc script_codec.dec_enc
        txid_internal.dec_enc)
qed

lemma btc_time_parse_Inr:
  assumes "btc_time_parse d = Inr a"
  shows "\<exists>x. read_table_fields d = Inr [x, u32_le (ta_after a), to_internal_bytes (ta_txid a)] \<and>
           decode_script x = Inr (ta_target_lock a)"
  using assms
  by (auto simp: btc_time_parse_def length_3_conv from_internal_bytes_Inr split: sum.splits if_splits)

lemma btc_time_encode_parse:
  assumes "btc_time_parse d = Inr a"
  shows "btc_time_encode a = d"
proof -
  from btc_time_parse_Inr [OF assms] obtain x where
    "read_table_fields d = Inr [x, u32_le (ta_after a), to_internal_bytes (ta_txid a)]"
    "decode_script x = Inr (ta_target_lock a)" by blast
  then show ?thesis
    by (simp add: btc_time_encode_table script_codec.enc_dec table_codec.enc_dec)
qed

interpretation btc_time_codec: canonical_codec btc_time_encode btc_time_parse btc_time_valid
  by unfold_locales (simp_all add: btc_time_parse_encode btc_time_encode_parse)

lemma length_btc_time_encode:
  "length (btc_time_encode a) = length (s_args (ta_target_lock a)) + 105"
  by (simp add: btc_time_encode_table table_size_def length_encode_script)

text \<open>What was parsed from fewer than \<open>2 ^ 32\<close> bytes can be encoded again.\<close>

lemma btc_time_parse_valid:
  assumes "btc_time_parse d = Inr a"
  shows "btc_time_valid a"
proof -
  from btc_time_parse_Inr [OF assms] obtain x where
    rd: "read_table_fields d = Inr [x, u32_le (ta_after a), to_internal_bytes (ta_txid a)]" by blast
  then have "u32_at d 0 = length d"
    by (auto simp: read_table_fields_def Let_def split: if_splits)
  moreover have "u32_at d 0 < 2 ^ 32"
    unfolding u32_at_def using unsigned_less [of "u32_of_le (slice d 0 (0 + 4))", where ?'a = nat] by simp
  ultimately show ?thesis
    using length_btc_time_encode [of a] btc_time_codec.enc_dec [OF assms] by (simp add: btc_time_valid_def)
qed

section \<open>Placeholder txids\<close>

definition args_with_placeholder_txid :: "lock_kind \<Rightarrow> byte list \<Rightarrow> byte list res" where
  "args_with_placeholder_txid kind args =
     (let placeholder = from_display_bytes zero32 in
      case kind of
        KRgbpp \<Rightarrow>
          (case rgbpp_parse args of Inl e \<Rightarrow> Inl e
           | Inr parsed \<Rightarrow> Inr (rgbpp_encode (parsed\<lparr> ra_txid := placeholder \<rparr>)))
      | KBtcTime \<Rightarrow>
          (case btc_time_parse args of Inl e \<Rightarrow> Inl e
           | Inr parsed \<Rightarrow> Inr (btc_time_encode (parsed\<lparr> ta_txid := placeholder \<rparr>))))"

section \<open>Bindings\<close>

datatype lock_binding = BRgbpp rgbpp_lock_args | BBtcTime btc_time_args

fun binding_kind :: "lock_binding \<Rightarrow> lock_kind" where
  "binding_kind (BRgbpp a) = KRgbpp"
| "binding_kind (BBtcTime a) = KBtcTime"

fun binding_txid :: "lock_binding \<Rightarrow> btc_txid" where
  "binding_txid (BRgbpp a) = ra_txid a"
| "binding_txid (BBtcTime a) = ta_txid a"

fun binding_out_point :: "lock_binding \<Rightarrow> btc_out_point option" where
  "binding_out_point (BRgbpp a) = Some (rgbpp_out_point a)"
| "binding_out_point (BBtcTime a) = None"

definition binding_parse :: "lock_kind \<Rightarrow> byte list \<Rightarrow> lock_binding res" where
  "binding_parse kind args =
     (case kind of
        KRgbpp \<Rightarrow> (case rgbpp_parse args of Inl e \<Rightarrow> Inl e | Inr a \<Rightarrow> Inr (BRgbpp a))
      | KBtcTime \<Rightarrow> (case btc_time_parse args of Inl e \<Rightarrow> Inl e | Inr a \<Rightarrow> Inr (BBtcTime a)))"

lemma binding_parse_kind: "binding_parse k args = Inr b \<Longrightarrow> binding_kind b = k"
  by (auto simp: binding_parse_def split: lock_kind.splits sum.splits)

text \<open>The same binding, but for its txid.\<close>

fun clear_txid :: "lock_binding \<Rightarrow> lock_binding" where
  "clear_txid (BRgbpp a) = BRgbpp (a\<lparr> ra_txid := BtcTxid zero32 \<rparr>)"
| "clear_txid (BBtcTime a) = BBtcTime (a\<lparr> ta_txid := BtcTxid zero32 \<rparr>)"

lemma placeholder_parse:
  assumes "binding_parse k args = Inr b"
  shows "\<exists>args'. args_with_placeholder_txid k args = Inr args' \<and> binding_parse k args' = Inr (clear_txid b)"
proof (cases k)
  case KRgbpp
  with assms show ?thesis
    by (auto simp: binding_parse_def args_with_placeholder_txid_def from_display_bytes_def Let_def
        rgbpp_codec.dec_enc split: sum.splits)
next
  case KBtcTime
  with assms obtain a where a: "btc_time_parse args = Inr a" and b: "b = BBtcTime a"
    by (auto simp: binding_parse_def split: sum.splits)
  have "btc_time_valid (a\<lparr> ta_txid := BtcTxid zero32 \<rparr>)"
    using btc_time_parse_valid [OF a] by (simp add: btc_time_valid_def)
  with a b KBtcTime show ?thesis
    by (simp add: binding_parse_def args_with_placeholder_txid_def from_display_bytes_def Let_def
        btc_time_codec.dec_enc)
qed

lemma placeholder_error:
  "args_with_placeholder_txid k args = Inl e \<longleftrightarrow> binding_parse k args = Inl e"
  by (cases k) (auto simp: binding_parse_def args_with_placeholder_txid_def Let_def split: sum.splits)

lemma placeholder_eq_iff:
  assumes "binding_parse k x = Inr a" "binding_parse k y = Inr b"
  shows "args_with_placeholder_txid k x = args_with_placeholder_txid k y \<longleftrightarrow> clear_txid a = clear_txid b"
proof -
  obtain x' y' where
    x': "args_with_placeholder_txid k x = Inr x'" "binding_parse k x' = Inr (clear_txid a)" and
    y': "args_with_placeholder_txid k y = Inr y'" "binding_parse k y' = Inr (clear_txid b)"
    using placeholder_parse assms by blast
  have "binding_parse k u = Inr c \<Longrightarrow> binding_parse k v = Inr c \<Longrightarrow> u = v" for u v c
    by (cases k) (auto simp: binding_parse_def dest: rgbpp_codec.dec_inject btc_time_codec.dec_inject
        split: sum.splits)
  with x' y' show ?thesis by auto
qed

section \<open>Properties\<close>

text \<open>
  RGB++ lock arguments: parsing accepts exactly the 36-byte encodings, so a lock's
  arguments name one out point and one out point has one form of arguments.
\<close>

theorem rgbpp_args_exact:
  "rgbpp_parse d = Inr a \<longleftrightarrow> d = rgbpp_encode a"
  by (rule rgbpp_codec.dec_iff) simp

text \<open>
  BTC time lock arguments: the hand-written encoder and the table-based parser are
  inverse to each other in both directions, for every value whose target lock leaves room
  in the 32-bit size header.
\<close>

theorem btc_time_args_exact:
  assumes "btc_time_valid a"
  shows "btc_time_parse d = Inr a \<longleftrightarrow> d = btc_time_encode a"
  using assms by (rule btc_time_codec.dec_iff)

lemma btc_time_args_exact_witness:
  "\<exists>a. ta_after a = 6 \<and> btc_time_parse (btc_time_encode a) = Inr a"
proof -
  define a where "a = \<lparr> ta_target_lock = \<lparr> s_code_hash = h256_zero, s_hash_type = HType, s_args = [7, 7] \<rparr>,
     ta_after = 6, ta_txid = BtcTxid zero32 \<rparr>"
  have "btc_time_parse (btc_time_encode a) = Inr a"
    using btc_time_args_exact [of a "btc_time_encode a"] by (simp add: a_def btc_time_valid_def)
  then show ?thesis by (intro exI [of _ a]) (simp add: a_def)
qed

text \<open>
  The committed form of a lock's arguments depends on everything but the txid: two
  argument strings that parse have the same placeholder form exactly when they bind the
  same thing but for the txid, so filling in the real txid afterwards cannot change a
  commitment, and nothing else can be changed without changing it.
\<close>

theorem placeholder_forgets_only_txid:
  assumes "binding_parse k x = Inr a" "binding_parse k y = Inr b"
  shows "args_with_placeholder_txid k x = args_with_placeholder_txid k y \<longleftrightarrow> clear_txid a = clear_txid b"
  using assms by (rule placeholder_eq_iff)

lemma placeholder_forgets_only_txid_witness:
  "args_with_placeholder_txid KRgbpp (replicate 36 1) = args_with_placeholder_txid KRgbpp (replicate 4 1 @ replicate 32 9)"
proof -
  have "binding_parse KRgbpp (replicate 4 1 @ replicate 32 t)
      = Inr (BRgbpp \<lparr> ra_out_index = u32_of_le (replicate 4 1), ra_txid = BtcTxid (mk32 (replicate 32 t)) \<rparr>)" for t
    by (simp add: binding_parse_def rgbpp_parse_def RGBPP_ARGS_LEN_def slice_def from_internal_bytes_def
        from_display_slice_def Let_def)
  from placeholder_forgets_only_txid [OF this [of 1] this [of 9]] show ?thesis
    by (simp add: replicate_add [of 4 32, symmetric, simplified])
qed

end
