(* ===== verification/Asset.thy ===== *)
theory Asset
  imports Protocol
begin

text \<open>
  \<open>crates/types/src/asset.rs\<close>: asset kinds, their recognition by configured type scripts
  and the amount in a UDT cell's data.
\<close>

datatype asset_kind = Xudt | Sudt | Spore | SporeCluster | UnknownAsset | NoAsset

fun asset_as_str :: "asset_kind \<Rightarrow> string" where
  "asset_as_str Xudt = ''xudt''"
| "asset_as_str Sudt = ''sudt''"
| "asset_as_str Spore = ''spore''"
| "asset_as_str SporeCluster = ''spore_cluster''"
| "asset_as_str UnknownAsset = ''unknown''"
| "asset_as_str NoAsset = ''none''"

definition asset_from_str_opt :: "string \<Rightarrow> asset_kind option" where
  "asset_from_str_opt s =
     (if s = ''xudt'' then Some Xudt
      else if s = ''sudt'' then Some Sudt
      else if s = ''spore'' then Some Spore
      else if s = ''spore_cluster'' then Some SporeCluster
      else if s = ''unknown'' then Some UnknownAsset
      else if s = ''none'' then Some NoAsset
      else None)"

lemma asset_str_roundtrip [simp]: "asset_from_str_opt (asset_as_str k) = Some k"
  by (cases k) (simp_all add: asset_from_str_opt_def)

fun is_fungible :: "asset_kind \<Rightarrow> bool" where
  "is_fungible Xudt = True"
| "is_fungible Sudt = True"
| "is_fungible _ = False"

record asset_scripts =
  as_xudt :: "script_id list"
  as_sudt :: "script_id list"
  as_spore :: "script_id list"
  as_spore_cluster :: "script_id list"

fun classify_first :: "(script_id list \<times> asset_kind) list \<Rightarrow> script \<Rightarrow> asset_kind" where
  "classify_first [] s = UnknownAsset"
| "classify_first ((ids, kind) # rest) s =
     (if list_ex (\<lambda>i. script_id_matches i s) ids then kind else classify_first rest s)"

definition classify_asset :: "asset_scripts \<Rightarrow> script option \<Rightarrow> asset_kind" where
  "classify_asset a type_script =
     (case type_script of
        None \<Rightarrow> NoAsset
      | Some s \<Rightarrow>
        classify_first [(as_xudt a, Xudt), (as_sudt a, Sudt), (as_spore a, Spore),
                        (as_spore_cluster a, SporeCluster)] s)"

definition parse_udt_amount :: "byte list \<Rightarrow> u128 option" where
  "parse_udt_amount data =
     (if length data < 16 then None else Some (u128_of_le (slice data 0 16)))"

definition asset_id :: "ext \<Rightarrow> script option \<Rightarrow> h256 option" where
  "asset_id e type_script = map_option (calc_hash e) type_script"

lemma classify_asset_None: "classify_asset a t = NoAsset \<longleftrightarrow> t = None"
  by (cases t) (auto simp: classify_asset_def)

lemma parse_udt_amount_value:
  "parse_udt_amount data = Some n \<Longrightarrow> unat n = le_nat (take 16 data)"
  using le_nat_bound [of "take 16 data"]
  by (auto simp: parse_udt_amount_def u128_of_le_def slice_def unat_of_nat split: if_splits)

end
