(* ===== verification/Status.thy ===== *)
theory Status
  imports Bitcoin
begin

text \<open>
  \<open>crates/types/src/state.rs\<close>: the spend status of a bound UTXO, the cell status derived
  from it, transition kinds and anomaly kinds.
\<close>

datatype spend_status =
    Unknown
  | Unspent
  | SpentUnconfirmed btc_txid
  | SpentConfirmed btc_txid u32

fun is_spent :: "spend_status \<Rightarrow> bool" where
  "is_spent (SpentUnconfirmed t) = True"
| "is_spent (SpentConfirmed t h) = True"
| "is_spent _ = False"

fun status_spender :: "spend_status \<Rightarrow> btc_txid option" where
  "status_spender (SpentUnconfirmed t) = Some t"
| "status_spender (SpentConfirmed t h) = Some t"
| "status_spender _ = None"

fun status_height :: "spend_status \<Rightarrow> u32 option" where
  "status_height (SpentConfirmed t h) = Some h"
| "status_height _ = None"

fun status_as_str :: "spend_status \<Rightarrow> string" where
  "status_as_str Unknown = ''unknown''"
| "status_as_str Unspent = ''unspent''"
| "status_as_str (SpentUnconfirmed t) = ''spent_unconfirmed''"
| "status_as_str (SpentConfirmed t h) = ''spent_confirmed''"

datatype cell_status = Live | PendingCkb | Spent | TimeLocked

fun cell_status_as_str :: "cell_status \<Rightarrow> string" where
  "cell_status_as_str Live = ''live''"
| "cell_status_as_str PendingCkb = ''pending_ckb''"
| "cell_status_as_str Spent = ''spent''"
| "cell_status_as_str TimeLocked = ''time_locked''"

definition derive_cell_status :: "bool \<Rightarrow> spend_status \<Rightarrow> cell_status" where
  "derive_cell_status consumed_on_ckb btc =
     (if consumed_on_ckb then Spent else if is_spent btc then PendingCkb else Live)"

datatype transition_kind = Issuance | Transfer | LeapToCkb | BtcTimeUnlock | Exit

fun transition_as_str :: "transition_kind \<Rightarrow> string" where
  "transition_as_str Issuance = ''issuance''"
| "transition_as_str Transfer = ''transfer''"
| "transition_as_str LeapToCkb = ''leap_to_ckb''"
| "transition_as_str BtcTimeUnlock = ''btc_time_unlock''"
| "transition_as_str Exit = ''exit''"

definition transition_from_str_opt :: "string \<Rightarrow> transition_kind option" where
  "transition_from_str_opt s =
     (if s = ''issuance'' then Some Issuance
      else if s = ''transfer'' then Some Transfer
      else if s = ''leap_to_ckb'' then Some LeapToCkb
      else if s = ''btc_time_unlock'' then Some BtcTimeUnlock
      else if s = ''exit'' then Some Exit
      else None)"

lemma transition_str_roundtrip [simp]: "transition_from_str_opt (transition_as_str k) = Some k"
  by (cases k) (simp_all add: transition_from_str_opt_def)

lemma transition_as_str_inject [simp]: "transition_as_str a = transition_as_str b \<longleftrightarrow> a = b"
  by (metis option.inject transition_str_roundtrip)

datatype anomaly_kind = BtcSpentWithoutCkb | CommitmentMismatch | UnknownBtcTx | NoCommitmentInSpender

fun anomaly_as_str :: "anomaly_kind \<Rightarrow> string" where
  "anomaly_as_str BtcSpentWithoutCkb = ''btc_spent_without_ckb''"
| "anomaly_as_str CommitmentMismatch = ''commitment_mismatch''"
| "anomaly_as_str UnknownBtcTx = ''unknown_btc_tx''"
| "anomaly_as_str NoCommitmentInSpender = ''no_commitment_in_spender''"

lemma anomaly_as_str_inject [simp]: "anomaly_as_str a = anomaly_as_str b \<longleftrightarrow> a = b"
  by (cases a; cases b) simp_all

lemma status_str_spent: "is_spent s \<longleftrightarrow> status_as_str s \<in> {''spent_unconfirmed'', ''spent_confirmed''}"
  by (cases s) simp_all

end
