(* ===== verification/Config.thy ===== *)
theory Config
  imports Asset Status
begin

text \<open>
  \<open>crates/types/src/config.rs\<close>: the configuration records with the sources' defaults,
  the environment overrides, the resolution of the Bitcoin network, the validation, and
  the target height derived from the tip. Deserialisation of TOML is a parameter
  (\<open>toml::from_str\<close> is third-party). \<open>u32\<close>, \<open>u64\<close> and \<open>usize\<close> are words, the
  signed fields \<open>int\<close>.
\<close>

section \<open>The records\<close>

record log_config =
  log_progress_interval_secs :: u64
  log_heartbeat_interval_secs :: u64

definition log_default :: log_config where
  "log_default = \<lparr> log_progress_interval_secs = 15, log_heartbeat_interval_secs = 300 \<rparr>"

definition progress_interval :: "log_config \<Rightarrow> u64" where
  "progress_interval l = max (log_progress_interval_secs l) 1"

definition heartbeat_interval :: "log_config \<Rightarrow> u64 option" where
  "heartbeat_interval l =
     (if log_heartbeat_interval_secs l > 0 then Some (log_heartbeat_interval_secs l) else None)"

record verify_config =
  vf_commitments :: bool
  vf_batch_size :: int
  vf_interval_secs :: u64

definition verify_default :: verify_config where
  "verify_default = \<lparr> vf_commitments = True, vf_batch_size = 100, vf_interval_secs = 30 \<rparr>"

definition verify_interval :: "verify_config \<Rightarrow> u64" where
  "verify_interval v = max (vf_interval_secs v) 1"

record general_config =
  g_network :: string

definition general_default :: general_config where
  "general_default = \<lparr> g_network = ''mainnet'' \<rparr>"

record database_config =
  db_url :: string
  db_max_connections :: u32
  db_acquire_timeout_secs :: u64
  db_auto_migrate :: bool

record ckb_config =
  ckb_rpc_url :: string
  ckb_indexer_rpc_url :: "string option"
  ckb_start_block :: u64
  ckb_reorg_lag :: u64
  ckb_batch_blocks :: u64
  ckb_page_limit :: u32
  ckb_fetch_concurrency :: u64
  ckb_poll_interval_secs :: u64
  ckb_request_timeout_secs :: u64
  ckb_header_retention :: u64

text \<open>The \<open>#[serde(default)]\<close> values of the CKB section, given its two required fields.\<close>

definition ckb_defaults :: "string \<Rightarrow> u64 \<Rightarrow> ckb_config" where
  "ckb_defaults rpc_url start_block = \<lparr>
     ckb_rpc_url = rpc_url, ckb_indexer_rpc_url = None, ckb_start_block = start_block,
     ckb_reorg_lag = 24, ckb_batch_blocks = 500, ckb_page_limit = 200,
     ckb_fetch_concurrency = 8, ckb_poll_interval_secs = 5, ckb_request_timeout_secs = 30,
     ckb_header_retention = 20000 \<rparr>"

definition indexer_url :: "ckb_config \<Rightarrow> string" where
  "indexer_url c = unwrap_or (ckb_rpc_url c) (ckb_indexer_rpc_url c)"

datatype btc_source_kind = Esplora | Blockbook

record btc_config =
  btc_source :: btc_source_kind
  btc_network :: "btc_network option"
  btc_base_url :: string
  btc_request_timeout_secs :: u64
  btc_max_concurrency :: u64
  btc_min_request_interval_ms :: u64
  btc_observation_ttl_secs :: u64

definition btc_defaults :: "btc_source_kind \<Rightarrow> string \<Rightarrow> btc_config" where
  "btc_defaults source base_url = \<lparr>
     btc_source = source, btc_network = None, btc_base_url = base_url,
     btc_request_timeout_secs = 30, btc_max_concurrency = 8,
     btc_min_request_interval_ms = 50, btc_observation_ttl_secs = 60 \<rparr>"

record reconcile_config =
  rc_enabled :: bool
  rc_max_outpoints_per_request :: u64
  rc_queue_interval_secs :: u64
  rc_queue_batch_size :: int
  rc_max_attempts :: int
  rc_address_backfill :: bool
  rc_address_backfill_interval_secs :: u64
  rc_address_backfill_batch :: int

definition reconcile_default :: reconcile_config where
  "reconcile_default = \<lparr>
     rc_enabled = True, rc_max_outpoints_per_request = 200, rc_queue_interval_secs = 3,
     rc_queue_batch_size = 100, rc_max_attempts = 5, rc_address_backfill = True,
     rc_address_backfill_interval_secs = 10, rc_address_backfill_batch = 50 \<rparr>"

record sweep_config =
  sw_enabled :: bool
  sw_interval_secs :: u64
  sw_batch_size :: int
  sw_misspend_grace_confirmations :: u32
  sw_require_synced_within_blocks :: u64

definition sweep_default :: sweep_config where
  "sweep_default = \<lparr>
     sw_enabled = True, sw_interval_secs = 86400, sw_batch_size = 500,
     sw_misspend_grace_confirmations = 6, sw_require_synced_within_blocks = 1000 \<rparr>"

record api_config =
  api_bind :: string
  api_default_page_size :: int
  api_max_page_size :: int

definition api_default :: api_config where
  "api_default = \<lparr> api_bind = ''0.0.0.0:8080'', api_default_page_size = 100, api_max_page_size = 1000 \<rparr>"

record config =
  c_general :: general_config
  c_database :: database_config
  c_ckb :: ckb_config
  c_btc :: btc_config
  c_protocol :: protocol_scripts
  c_assets :: asset_scripts
  c_reconcile :: reconcile_config
  c_sweep :: sweep_config
  c_api :: api_config
  c_verify :: verify_config
  c_log :: log_config

section \<open>Environment overrides\<close>

text \<open>\<open>str::trim\<close> on ASCII white space.\<close>

definition is_space :: "char \<Rightarrow> bool" where
  "is_space c = (let n = (of_char c :: nat) in n = 32 \<or> (9 \<le> n \<and> n \<le> 13))"

definition trim :: "string \<Rightarrow> string" where
  "trim s = rev (dropWhile is_space (rev (dropWhile is_space s)))"

definition env_get :: "(string \<Rightarrow> string option) \<Rightarrow> string \<Rightarrow> string option" where
  "env_get env key =
     (case env key of None \<Rightarrow> None | Some v \<Rightarrow> if trim v = [] then None else Some (trim v))"

definition apply_numeric :: "(string \<Rightarrow> 'a option) \<Rightarrow> string \<Rightarrow> 'a \<Rightarrow> 'a" where
  "apply_numeric parse raw target = unwrap_or target (parse (filter (\<lambda>c. c \<noteq> CHR ''_'') raw))"

definition on_env :: "(string \<Rightarrow> string option) \<Rightarrow> string \<Rightarrow> (string \<Rightarrow> 'c \<Rightarrow> 'c) \<Rightarrow> 'c \<Rightarrow> 'c" where
  "on_env get key f c = (case get key of None \<Rightarrow> c | Some v \<Rightarrow> f v c)"

definition override_source :: "string \<Rightarrow> btc_source_kind \<Rightarrow> btc_source_kind" where
  "override_source v s =
     (if v = ''esplora'' then Esplora else if v = ''blockbook'' then Blockbook else s)"

text \<open>The overrides that land in one section of the configuration, in the sources' order.\<close>

definition override_database :: "(string \<Rightarrow> string option) \<Rightarrow> database_config \<Rightarrow> database_config" where
  "override_database get d =
     on_env get ''DB_MAX_CONNECTIONS''
       (\<lambda>v d. d\<lparr> db_max_connections := apply_numeric parse_u32 v (db_max_connections d) \<rparr>)
     (on_env get ''DATABASE_URL'' (\<lambda>v d. d\<lparr> db_url := v \<rparr>) d)"

definition override_ckb :: "(string \<Rightarrow> string option) \<Rightarrow> ckb_config \<Rightarrow> ckb_config" where
  "override_ckb get c =
     (let c1 = on_env get ''CKB_RPC_URL'' (\<lambda>v c. c\<lparr> ckb_rpc_url := v \<rparr>) c;
          c2 = on_env get ''CKB_INDEXER_RPC_URL'' (\<lambda>v c. c\<lparr> ckb_indexer_rpc_url := Some v \<rparr>) c1;
          c3 = on_env get ''CKB_START_BLOCK''
                 (\<lambda>v c. c\<lparr> ckb_start_block := apply_numeric parse_u64 v (ckb_start_block c) \<rparr>) c2;
          c4 = on_env get ''REORG_LAG''
                 (\<lambda>v c. c\<lparr> ckb_reorg_lag := apply_numeric parse_u64 v (ckb_reorg_lag c) \<rparr>) c3;
          c5 = on_env get ''CKB_PAGE_LIMIT''
                 (\<lambda>v c. c\<lparr> ckb_page_limit := apply_numeric parse_u32 v (ckb_page_limit c) \<rparr>) c4;
          c6 = on_env get ''CKB_FETCH_CONCURRENCY''
                 (\<lambda>v c. c\<lparr> ckb_fetch_concurrency := apply_numeric parse_u64 v (ckb_fetch_concurrency c) \<rparr>) c5;
          c7 = on_env get ''CKB_BATCH_BLOCKS''
                 (\<lambda>v c. c\<lparr> ckb_batch_blocks := apply_numeric parse_u64 v (ckb_batch_blocks c) \<rparr>) c6
      in on_env get ''CKB_POLL_INTERVAL_SECS''
           (\<lambda>v c. c\<lparr> ckb_poll_interval_secs := apply_numeric parse_u64 v (ckb_poll_interval_secs c) \<rparr>) c7)"

definition override_btc :: "(string \<Rightarrow> string option) \<Rightarrow> btc_config \<Rightarrow> btc_config" where
  "override_btc get b =
     (let b1 = on_env get ''BTC_BASE_URL'' (\<lambda>v b. b\<lparr> btc_base_url := v \<rparr>) b;
          b2 = on_env get ''BTC_SOURCE'' (\<lambda>v b. b\<lparr> btc_source := override_source v (btc_source b) \<rparr>) b1;
          b3 = on_env get ''BTC_MAX_CONCURRENCY''
                 (\<lambda>v b. b\<lparr> btc_max_concurrency := apply_numeric parse_u64 v (btc_max_concurrency b) \<rparr>) b2
      in on_env get ''BTC_MIN_REQUEST_INTERVAL_MS''
           (\<lambda>v b. b\<lparr> btc_min_request_interval_ms :=
                     apply_numeric parse_u64 v (btc_min_request_interval_ms b) \<rparr>) b3)"

definition override_api :: "(string \<Rightarrow> string option) \<Rightarrow> api_config \<Rightarrow> api_config" where
  "override_api get a = on_env get ''API_BIND'' (\<lambda>v a. a\<lparr> api_bind := v \<rparr>) a"

definition apply_overrides :: "(string \<Rightarrow> string option) \<Rightarrow> config \<Rightarrow> config" where
  "apply_overrides get c = c\<lparr>
     c_database := override_database get (c_database c),
     c_ckb := override_ckb get (c_ckb c),
     c_btc := override_btc get (c_btc c),
     c_api := override_api get (c_api c) \<rparr>"

section \<open>Loading\<close>

definition resolve_btc_network :: "config \<Rightarrow> config res" where
  "resolve_btc_network c =
     (if btc_network (c_btc c) \<noteq> None then Inr c
      else let label = g_network (c_general c) in
      case network_from_label label of
        Some n \<Rightarrow> Inr (c\<lparr> c_btc := (c_btc c)\<lparr> btc_network := Some n \<rparr> \<rparr>)
      | None \<Rightarrow> Inl (EConfig (''general.network = '' @ label @
          '' names no Bitcoin network; set btc.network to one of mainnet, testnet, signet or regtest'')))"

text \<open>The explanation after the dash of the \<open>rgbpp_lock\<close> message is left out.\<close>

definition validate_config :: "config \<Rightarrow> unit res" where
  "validate_config c =
     (if db_url (c_database c) = [] then Inl (EConfig ''database.url is empty'')
      else if ckb_rpc_url (c_ckb c) = [] then Inl (EConfig ''ckb.rpc_url is empty'')
      else if btc_base_url (c_btc c) = [] then Inl (EConfig ''btc.base_url is empty'')
      else if ckb_page_limit (c_ckb c) = 0 then Inl (EConfig ''ckb.page_limit must be positive'')
      else if ckb_fetch_concurrency (c_ckb c) = 0 then
        Inl (EConfig ''ckb.fetch_concurrency must be positive'')
      else if ckb_batch_blocks (c_ckb c) = 0 then Inl (EConfig ''ckb.batch_blocks must be positive'')
      else if id_code_hash (ps_rgbpp_lock (c_protocol c)) = h256_zero then
        Inl (EConfig ''protocol.rgbpp_lock.code_hash is unset'')
      else if id_code_hash (ps_btc_time_lock (c_protocol c)) = h256_zero then
        Inl (EConfig ''protocol.btc_time_lock.code_hash is unset'')
      else Inr ())"

definition from_toml_str ::
  "(string \<Rightarrow> string + config) \<Rightarrow> (string \<Rightarrow> string option) \<Rightarrow> string \<Rightarrow> config res" where
  "from_toml_str toml env s =
     (case toml s of Inl e \<Rightarrow> Inl (EConfig (''invalid TOML: '' @ e))
      | Inr c \<Rightarrow>
        (case resolve_btc_network (apply_overrides (env_get env) c) of Inl e \<Rightarrow> Inl e
         | Inr c' \<Rightarrow> (case validate_config c' of Inl e \<Rightarrow> Inl e | Inr _ \<Rightarrow> Inr c')))"

definition safe_ckb_target :: "config \<Rightarrow> u64 \<Rightarrow> u64 option" where
  "safe_ckb_target c tip =
     (case checked_sub tip (ckb_reorg_lag (c_ckb c)) of
        Some target \<Rightarrow> if target \<ge> ckb_start_block (c_ckb c) then Some target else None
      | None \<Rightarrow> None)"

section \<open>What loading guarantees\<close>

definition config_ok :: "config \<Rightarrow> bool" where
  "config_ok c \<longleftrightarrow>
     btc_network (c_btc c) \<noteq> None \<and> db_url (c_database c) \<noteq> [] \<and> ckb_rpc_url (c_ckb c) \<noteq> [] \<and>
     btc_base_url (c_btc c) \<noteq> [] \<and> ckb_page_limit (c_ckb c) \<noteq> 0 \<and>
     ckb_fetch_concurrency (c_ckb c) \<noteq> 0 \<and> ckb_batch_blocks (c_ckb c) \<noteq> 0 \<and>
     id_code_hash (ps_rgbpp_lock (c_protocol c)) \<noteq> h256_zero \<and>
     id_code_hash (ps_btc_time_lock (c_protocol c)) \<noteq> h256_zero"

lemma resolve_btc_network_Inr:
  "resolve_btc_network c = Inr c' \<Longrightarrow> btc_network (c_btc c') \<noteq> None"
  by (auto simp: resolve_btc_network_def Let_def split: if_splits option.splits)

lemma validate_config_Inr:
  "validate_config c = Inr () \<Longrightarrow> btc_network (c_btc c) \<noteq> None \<Longrightarrow> config_ok c"
  by (simp add: validate_config_def config_ok_def split: if_splits)

lemma from_toml_str_ok: "from_toml_str toml env s = Inr c \<Longrightarrow> config_ok c"
  using resolve_btc_network_Inr validate_config_Inr
  by (auto simp: from_toml_str_def split: sum.splits)

lemma safe_ckb_target_Some:
  "safe_ckb_target c tip = Some t \<longleftrightarrow>
   ckb_reorg_lag (c_ckb c) \<le> tip \<and> t = tip - ckb_reorg_lag (c_ckb c) \<and> ckb_start_block (c_ckb c) \<le> t"
  by (auto simp: safe_ckb_target_def checked_sub_def split: option.splits if_splits)

lemma on_env_None: "get key = None \<Longrightarrow> on_env get key f c = c"
  by (simp add: on_env_def)

lemma apply_overrides_unset:
  assumes "\<And>key. env_get env key = None"
  shows "apply_overrides (env_get env) c = c"
  using assms
  by (simp add: apply_overrides_def override_database_def override_ckb_def override_btc_def
      override_api_def on_env_None Let_def)

section \<open>Properties\<close>

definition sample_config :: config where
  "sample_config = \<lparr>
     c_general = general_default,
     c_database = \<lparr> db_url = ''postgres://db'', db_max_connections = 16, db_acquire_timeout_secs = 30,
                    db_auto_migrate = True \<rparr>,
     c_ckb = ckb_defaults ''http://ckb'' 100,
     c_btc = btc_defaults Esplora ''http://btc'',
     c_protocol = \<lparr> ps_rgbpp_lock = \<lparr> id_code_hash = H256 (mk32 (replicate 32 1)), id_hash_type = HType \<rparr>,
                    ps_btc_time_lock = \<lparr> id_code_hash = H256 (mk32 (replicate 32 2)), id_hash_type = HType \<rparr> \<rparr>,
     c_assets = \<lparr> as_xudt = [], as_sudt = [], as_spore = [], as_spore_cluster = [] \<rparr>,
     c_reconcile = reconcile_default, c_sweep = sweep_default, c_api = api_default,
     c_verify = verify_default, c_log = log_default \<rparr>"

definition mainnet_config :: config where
  "mainnet_config = sample_config\<lparr> c_btc := (btc_defaults Esplora ''http://btc'')\<lparr> btc_network := Some Mainnet \<rparr> \<rparr>"

lemma mainnet_config_sel [simp]:
  "c_protocol mainnet_config = c_protocol sample_config" "c_ckb mainnet_config = c_ckb sample_config"
  by (simp_all add: mainnet_config_def)

lemma mk32_replicate_neq_zero: "b \<noteq> 0 \<Longrightarrow> H256 (mk32 (replicate 32 b)) \<noteq> h256_zero"
proof
  assume "b \<noteq> 0" "H256 (mk32 (replicate 32 b)) = h256_zero"
  then have "list32 (mk32 (replicate 32 b)) = list32 zero32" by (simp add: h256_zero_def)
  then have "replicate 32 b = replicate 32 0" by simp
  with \<open>b \<noteq> 0\<close> show False by (simp add: replicate_eq_replicate)
qed

text \<open>The sample loads, whatever its \<open>[api]\<close> section says.\<close>

lemma any_api_loads: "from_toml_str (\<lambda>_. Inr (sample_config\<lparr> c_api := a \<rparr>)) (\<lambda>_. None) [] = Inr (mainnet_config\<lparr> c_api := a \<rparr>)"
proof -
  have over: "apply_overrides (env_get (\<lambda>_. None)) (sample_config\<lparr> c_api := a \<rparr>) = sample_config\<lparr> c_api := a \<rparr>"
    by (rule apply_overrides_unset) (simp add: env_get_def)
  have net: "network_from_label ''mainnet'' = Some Mainnet"
    using network_label_roundtrip [of Mainnet] by simp
  have res: "resolve_btc_network (sample_config\<lparr> c_api := a \<rparr>) = Inr (mainnet_config\<lparr> c_api := a \<rparr>)"
    by (simp add: resolve_btc_network_def mainnet_config_def sample_config_def btc_defaults_def general_default_def net)
  have val: "validate_config (mainnet_config\<lparr> c_api := a \<rparr>) = Inr ()"
    by (simp add: validate_config_def mainnet_config_def sample_config_def btc_defaults_def ckb_defaults_def
        mk32_replicate_neq_zero)
  show ?thesis by (simp add: from_toml_str_def over res val)
qed

text \<open>
  The highest block the CKB indexer may touch is the tip minus the reorg lag, and only
  when that is neither below zero nor below the configured start block.
\<close>

theorem safe_target_exact:
  "safe_ckb_target c tip = Some t \<longleftrightarrow>
     ckb_reorg_lag (c_ckb c) \<le> tip \<and> t = tip - ckb_reorg_lag (c_ckb c) \<and> ckb_start_block (c_ckb c) \<le> t"
  by (rule safe_ckb_target_Some)

end
