(* ===== verification/Tables.thy ===== *)
theory Tables
  imports Prelude "HOL-Library.Product_Lexorder"
begin

text \<open>
  SQL tables as lists of rows with a primary key, and the statements the store issues on
  them: \<open>INSERT ... ON CONFLICT (key) DO UPDATE\<close> as \<open>upsert\<close> with a merge function of the
  old row and the excluded one, \<open>DO NOTHING\<close> as the merge that keeps the old row,
  \<open>UPDATE ... WHERE\<close>, \<open>DELETE ... WHERE\<close>, \<open>SELECT DISTINCT ... ORDER BY\<close>. The order of
  a list is the physical order, which no query relies on. The locales state what a table
  needs for its key to stay unique and for a replayed insert to change nothing; the theory
  of each table interprets them.
\<close>

definition lookup_row :: "('r \<Rightarrow> 'k) \<Rightarrow> 'k \<Rightarrow> 'r list \<Rightarrow> 'r option" where
  "lookup_row key k rows = find (\<lambda>r. key r = k) rows"

fun upsert :: "('r \<Rightarrow> 'k) \<Rightarrow> ('r \<Rightarrow> 'r \<Rightarrow> 'r) \<Rightarrow> 'r \<Rightarrow> 'r list \<Rightarrow> 'r list" where
  "upsert key merge new [] = [new]"
| "upsert key merge new (r # rows) =
     (if key r = key new then merge r new # rows else r # upsert key merge new rows)"

definition keep_old :: "'r \<Rightarrow> 'r \<Rightarrow> 'r" where "keep_old old new = old"

definition update_where :: "('r \<Rightarrow> bool) \<Rightarrow> ('r \<Rightarrow> 'r) \<Rightarrow> 'r list \<Rightarrow> 'r list" where
  "update_where p f rows = map (\<lambda>r. if p r then f r else r) rows"

definition delete_where :: "('r \<Rightarrow> bool) \<Rightarrow> 'r list \<Rightarrow> 'r list" where
  "delete_where p rows = filter (\<lambda>r. \<not> p r) rows"

definition affected :: "('r \<Rightarrow> bool) \<Rightarrow> 'r list \<Rightarrow> nat" where
  "affected p rows = length (filter p rows)"

text \<open>\<open>SELECT DISTINCT ... ORDER BY\<close> all the selected columns.\<close>

definition distinct_sorted :: "'a::linorder list \<Rightarrow> 'a list" where
  "distinct_sorted xs = remdups (sort xs)"

text \<open>\<open>ORDER BY ... LIMIT\<close>; a \<open>LIMIT\<close> below zero, which the server refuses, reads as zero.\<close>

definition limit_rows :: "int \<Rightarrow> 'a list \<Rightarrow> 'a list" where
  "limit_rows limit rows = take (nat limit) rows"

lemma sorted_remdups: "sorted xs \<Longrightarrow> sorted (remdups xs)"
  by (induction xs) auto

lemma distinct_sorted_props [simp]:
  "set (distinct_sorted xs) = set xs" "distinct (distinct_sorted xs)" "sorted (distinct_sorted xs)"
  by (simp_all add: distinct_sorted_def sorted_remdups)

lemma distinct_sorted_strict: "sorted_wrt (<) (distinct_sorted xs)"
  by (simp add: strict_sorted_iff)

text \<open>A limited ordered query keeps the smallest keys.\<close>

lemma take_sort_key_le:
  assumes "p \<in> set (take n (sort_key k xs))" "q \<in> set xs" "q \<notin> set (take n (sort_key k xs))"
  shows "k p \<le> k q"
proof -
  have "q \<in> set (sort_key k xs)" using assms(2) by simp
  then have "q \<in> set (drop n (sort_key k xs))"
    using assms(3) by (metis Un_iff append_take_drop_id set_append)
  moreover have "sorted (map k (take n (sort_key k xs)) @ map k (drop n (sort_key k xs)))"
    by (simp only: append_take_drop_id sorted_sort_key flip: map_append)
  ultimately show ?thesis using assms(1) by (auto simp: sorted_append simp del: append_take_drop_id)
qed

lemma lookup_row_key: "lookup_row key k rows = Some r \<Longrightarrow> key r = k \<and> r \<in> set rows"
  by (induction rows) (auto simp: lookup_row_def split: if_splits)

lemma lookup_row_None: "lookup_row key k rows = None \<longleftrightarrow> k \<notin> key ` set rows"
  by (auto simp: lookup_row_def find_None_iff)

lemma lookup_row_in:
  "distinct (map key rows) \<Longrightarrow> r \<in> set rows \<Longrightarrow> lookup_row key (key r) rows = Some r"
  by (induction rows) (auto simp: lookup_row_def rev_image_eqI)

lemma update_where_keys:
  "(\<And>r. p r \<Longrightarrow> key (f r) = key r) \<Longrightarrow> map key (update_where p f rows) = map key rows"
  by (auto simp: update_where_def)

lemma length_update_where [simp]: "length (update_where p f rows) = length rows"
  by (simp add: update_where_def)

lemma distinct_delete_where: "distinct (map key rows) \<Longrightarrow> distinct (map key (delete_where p rows))"
  by (simp add: delete_where_def distinct_map_filter)

lemma update_where_map_id: "(\<And>r. p r \<Longrightarrow> g (f r) = g r) \<Longrightarrow> map g (update_where p f rows) = map g rows"
  by (auto simp: update_where_def)

lemma lookup_update_where:
  "(\<And>r. p r \<Longrightarrow> key (f r) = key r) \<Longrightarrow>
   lookup_row key k (update_where p f rows) =
     map_option (\<lambda>r. if p r then f r else r) (lookup_row key k rows)"
  by (induction rows) (auto simp: lookup_row_def update_where_def)

section \<open>Primary keys\<close>

locale pk_table =
  fixes key :: "'r \<Rightarrow> 'k"
    and merge :: "'r \<Rightarrow> 'r \<Rightarrow> 'r"
  assumes key_merge: "key old = key new \<Longrightarrow> key (merge old new) = key new"
begin

lemma upsert_keys: "set (map key (upsert key merge n rows)) = insert (key n) (set (map key rows))"
  by (induction rows) (auto simp: key_merge)

lemma upsert_distinct: "distinct (map key rows) \<Longrightarrow> distinct (map key (upsert key merge n rows))"
proof (induction rows)
  case (Cons r rows)
  then show ?case using upsert_keys [of n rows] by (auto simp: key_merge)
qed simp

lemma lookup_upsert:
  "lookup_row key k (upsert key merge n rows) =
     (if k = key n then Some (case lookup_row key k rows of None \<Rightarrow> n | Some r \<Rightarrow> merge r n)
      else lookup_row key k rows)"
  by (induction rows) (auto simp: lookup_row_def key_merge)

lemma upsert_present_length: "key n \<in> key ` set rows \<Longrightarrow> length (upsert key merge n rows) = length rows"
  by (induction rows) auto

lemma foldl_upsert_distinct:
  "distinct (map key rows) \<Longrightarrow> distinct (map key (fold (upsert key merge) ns rows))"
  by (induction ns arbitrary: rows) (auto simp: upsert_distinct)

lemma fold_upsert_keys:
  "set (map key (fold (upsert key merge) ns rows)) = set (map key ns) \<union> set (map key rows)"
proof (induction ns arbitrary: rows)
  case (Cons n ns)
  then show ?case using upsert_keys [of n rows] by auto
qed simp

end

text \<open>A replayed insert finds what it wrote.\<close>

locale replayable_table = pk_table key merge
  for key :: "'r \<Rightarrow> 'k" and merge :: "'r \<Rightarrow> 'r \<Rightarrow> 'r" +
  assumes merge_again: "key old = key new \<Longrightarrow> merge (merge old new) new = merge old new"
    and merge_self: "merge new new = new"
begin

lemma upsert_again: "upsert key merge n (upsert key merge n rows) = upsert key merge n rows"
  by (induction rows) (auto simp: key_merge merge_again merge_self)

lemma upsert_settles:
  "\<exists>r \<in> set (upsert key merge n rows). key r = key n \<and> merge r n = r"
  by (induction rows) (auto simp: key_merge merge_again merge_self)

lemma upsert_keeps_settled:
  "key m \<noteq> key n \<Longrightarrow> \<exists>r \<in> set rows. key r = key n \<and> merge r n = r \<Longrightarrow>
   \<exists>r \<in> set (upsert key merge m rows). key r = key n \<and> merge r n = r"
  by (induction rows) auto

end

text \<open>Where a second insert of a key overwrites whatever the first one changed, the last one decides.\<close>

text \<open>The last of the new rows with a key.\<close>

definition last_of :: "('r \<Rightarrow> 'k) \<Rightarrow> 'k \<Rightarrow> 'r list \<Rightarrow> 'r option" where
  "last_of key k ns = find (\<lambda>n. key n = k) (rev ns)"

locale last_wins_table = replayable_table key merge
  for key :: "'r \<Rightarrow> 'k" and merge :: "'r \<Rightarrow> 'r \<Rightarrow> 'r" +
  assumes merge_last: "key old = key a \<Longrightarrow> key a = key b \<Longrightarrow> merge (merge old a) b = merge old b"
begin

lemma last_of_snoc: "last_of key k (ns @ [n]) = (if key n = k then Some n else last_of key k ns)"
  by (simp add: last_of_def)

lemma last_of_key: "last_of key k ns = Some n \<Longrightarrow> key n = k \<and> n \<in> set ns"
  by (auto simp: last_of_def find_Some_iff in_set_conv_nth) (metis length_rev nth_mem set_rev in_set_conv_nth)

lemma upsert_present:
  "distinct (map key rows) \<Longrightarrow> key n \<in> key ` set rows \<Longrightarrow>
   upsert key merge n rows = map (\<lambda>r. if key r = key n then merge r n else r) rows"
proof (induction rows)
  case (Cons r rows)
  show ?case
  proof (cases "key r = key n")
    case True
    with Cons.prems(1) have "map (\<lambda>r. if key r = key n then merge r n else r) rows = rows"
      by (intro map_idI) (auto simp: image_iff)
    with True show ?thesis by simp
  next
    case False
    with Cons show ?thesis by auto
  qed
qed simp

lemma fold_present:
  "distinct (map key rows) \<Longrightarrow> key ` set ns \<subseteq> key ` set rows \<Longrightarrow>
   fold (upsert key merge) ns rows =
     map (\<lambda>r. case last_of key (key r) ns of None \<Rightarrow> r | Some n \<Rightarrow> merge r n) rows"
proof (induction ns rule: rev_induct)
  case Nil
  then show ?case by (simp add: last_of_def)
next
  case (snoc n ns)
  let ?f = "\<lambda>ns r. case last_of key (key r) ns of None \<Rightarrow> r | Some n \<Rightarrow> merge r n"
  have key: "key (?f ns r) = key r" for r
    by (auto simp: key_merge dest: last_of_key split: option.split)
  have IH: "fold (upsert key merge) ns rows = map (?f ns) rows" using snoc by simp
  have "upsert key merge n (map (?f ns) rows) =
      map (\<lambda>r. if key r = key n then merge r n else r) (map (?f ns) rows)"
    using snoc.prems by (intro upsert_present) (simp_all add: comp_def key image_image)
  also have "\<dots> = map (?f (ns @ [n])) rows"
    by (auto simp: comp_def key last_of_snoc dest: last_of_key intro!: merge_last split: option.split)
  finally show ?case using IH by simp
qed

lemma fold_settles_last:
  "last_of key k ns = Some n \<Longrightarrow> \<exists>r \<in> set (fold (upsert key merge) ns rows). key r = k \<and> merge r n = r"
proof (induction ns rule: rev_induct)
  case (snoc m ns)
  show ?case
  proof (cases "key m = k")
    case True
    with snoc.prems show ?thesis using upsert_settles [of m "fold (upsert key merge) ns rows"] by (simp add: last_of_snoc)
  next
    case False
    with snoc have "last_of key k ns = Some n" by (simp add: last_of_snoc)
    moreover from last_of_key [OF this] have "key n = k" by simp
    ultimately show ?thesis
      using upsert_keeps_settled [of m n "fold (upsert key merge) ns rows"] snoc.IH False by simp
  qed
qed (simp add: last_of_def)

text \<open>Rows that every last insert finds settled absorb all the inserts.\<close>

lemma fold_settled:
  assumes "distinct (map key rows)" "\<And>k n. last_of key k ns = Some n \<Longrightarrow> \<exists>r \<in> set rows. key r = k \<and> merge r n = r"
  shows "fold (upsert key merge) ns rows = rows"
proof -
  have some: "\<exists>m. last_of key (key n) ns = Some m" if "n \<in> set ns" for n
    using that by (induction ns rule: rev_induct) (auto simp: last_of_snoc)
  have present: "key ` set ns \<subseteq> key ` set rows"
  proof
    fix k assume "k \<in> key ` set ns"
    then obtain m where "last_of key k ns = Some m" using some by blast
    from assms(2) [OF this] show "k \<in> key ` set rows" by blast
  qed
  have "merge r n = r" if "r \<in> set rows" "last_of key (key r) ns = Some n" for r n
    using assms(2) [OF that(2)] that(1) assms(1) by (metis (mono_tags) distinct_map inj_on_def)
  then show ?thesis
    unfolding fold_present [OF assms(1) present] by (intro map_idI) (auto split: option.split)
qed

end

end
