(* ===== verification/Models.thy ===== *)
theory Models
  imports Config Tables
begin

text \<open>
  \<open>crates/store/src/models.rs\<close> and \<open>error.rs\<close>: the rows and batches that cross the database boundary,
  their conversions to the domain types, the freshness of an observation and the activity
  cursor. Rows have SQL-shaped fields as in the sources: \<open>bytea\<close> is a byte list, \<open>INT\<close>
  and \<open>BIGINT\<close> are \<open>int\<close>, \<open>TEXT\<close> is \<open>string\<close>, a nullable column is an option, a
  \<open>TIMESTAMPTZ\<close> is a number of microseconds. A \<open>NUMERIC\<close> amount is the natural number it
  denotes.
\<close>

section \<open>JSON values\<close>

text \<open>\<open>serde_json::Value\<close>; an object is the list of its members.\<close>

datatype json =
    JNull | JBool bool | JInt int | JStr string
  | JArr "json list" | JObj "(string \<times> json) list"

definition json_opt :: "('a \<Rightarrow> json) \<Rightarrow> 'a option \<Rightarrow> json" where
  "json_opt f x = (case x of None \<Rightarrow> JNull | Some y \<Rightarrow> f y)"

section \<open>Errors\<close>

datatype store_error =
    SESqlx string
  | SEMigrate string
  | SEMapping string
  | SETypes terr

section \<open>Writes\<close>

record block_record =
  br_number :: int
  br_hash :: "byte list"
  br_parent_hash :: "byte list"
  br_timestamp :: int
  br_has_activity :: bool

record new_cell =
  nc_tx_hash :: "byte list"
  nc_index :: int
  nc_lock_kind :: lock_kind
  nc_btc_txid :: "byte list"
  nc_btc_vout :: "int option"
  nc_time_after :: "int option"
  nc_target_lock_hash :: "byte list option"
  nc_target_lock :: "json option"
  nc_lock_hash :: "byte list"
  nc_lock_args :: "byte list"
  nc_type_hash :: "byte list option"
  nc_type_script :: "json option"
  nc_asset_kind :: asset_kind
  nc_udt_amount :: "nat option"
  nc_capacity :: int
  nc_cell_data :: "byte list"
  nc_block_number :: int
  nc_block_hash :: "byte list"
  nc_created_tx_index :: int

record cell_spend =
  cs_tx_hash :: "byte list"
  cs_index :: int
  cs_block_number :: int
  cs_block_hash :: "byte list"
  cs_consumed_tx :: "byte list"
  cs_tx_index :: int
  cs_input_index :: int

datatype commitment_status = Unchecked | Match | Mismatch | BtcUnknown | Missing | NotApplicable

fun commitment_as_str :: "commitment_status \<Rightarrow> string" where
  "commitment_as_str Unchecked = ''unchecked''"
| "commitment_as_str Match = ''match''"
| "commitment_as_str Mismatch = ''mismatch''"
| "commitment_as_str BtcUnknown = ''btc_unknown''"
| "commitment_as_str Missing = ''missing''"
| "commitment_as_str NotApplicable = ''not_applicable''"

definition commitment_from_str_opt :: "string \<Rightarrow> commitment_status option" where
  "commitment_from_str_opt s =
     (if s = ''unchecked'' then Some Unchecked
      else if s = ''match'' then Some Match
      else if s = ''mismatch'' then Some Mismatch
      else if s = ''btc_unknown'' then Some BtcUnknown
      else if s = ''missing'' then Some Missing
      else if s = ''not_applicable'' then Some NotApplicable
      else None)"

lemma commitment_str_roundtrip [simp]: "commitment_from_str_opt (commitment_as_str c) = Some c"
  by (cases c) (simp_all add: commitment_from_str_opt_def)

lemma commitment_as_str_inject [simp]: "commitment_as_str a = commitment_as_str b \<longleftrightarrow> a = b"
  by (metis commitment_str_roundtrip option.inject)

record new_transition =
  nt_tx_hash :: "byte list"
  nt_block_number :: int
  nt_block_hash :: "byte list"
  nt_tx_index :: int
  nt_timestamp :: "int option"
  nt_kind :: transition_kind
  nt_btc_txid :: "byte list option"
  nt_input_count :: int
  nt_output_count :: int
  nt_expected :: "byte list option"

record index_batch =
  ib_blocks :: "block_record list"
  ib_cells :: "new_cell list"
  ib_spends :: "cell_spend list"
  ib_transitions :: "new_transition list"
  ib_checkpoint_number :: int
  ib_checkpoint_hash :: "byte list option"
  ib_chain_tip :: int
  ib_target :: int
  ib_reorg_lag :: int

record apply_stats =
  as_blocks :: nat
  as_cells :: nat
  as_spends :: nat
  as_transitions :: nat

section \<open>Reads\<close>

text \<open>A row of the \<open>rgbpp_cell_status\<close> view.\<close>

record cell_row =
  cr_tx_hash :: "byte list"
  cr_index :: int
  cr_lock_kind :: string
  cr_btc_txid :: "byte list"
  cr_btc_vout :: "int option"
  cr_time_after :: "int option"
  cr_target_lock :: "json option"
  cr_lock_hash :: "byte list"
  cr_lock_args :: "byte list"
  cr_type_hash :: "byte list option"
  cr_type_script :: "json option"
  cr_asset_kind :: string
  cr_udt_amount :: "nat option"
  cr_capacity :: int
  cr_cell_data :: "byte list"
  cr_created_block :: int
  cr_created_tx_index :: int
  cr_consumed_block :: "int option"
  cr_consumed_tx :: "byte list option"
  cr_btc_status :: "string option"
  cr_btc_spender :: "byte list option"
  cr_btc_spent_height :: "int option"
  cr_btc_observed_at :: "int option"
  cr_btc_address :: "string option"
  cr_status :: string

definition cell_row_out_point :: "cell_row \<Rightarrow> store_error + ckb_out_point" where
  "cell_row_out_point r =
     (case h256_from_slice (cr_tx_hash r) of Inl e \<Rightarrow> Inl (SETypes e)
      | Inr h \<Rightarrow> Inr \<lparr> co_tx_hash = h, co_index = as_u32 (cr_index r) \<rparr>)"

definition cell_row_btc_out_point :: "cell_row \<Rightarrow> store_error + btc_out_point option" where
  "cell_row_btc_out_point r =
     (case cr_btc_vout r of None \<Rightarrow> Inr None
      | Some vout \<Rightarrow>
        (case from_display_slice (cr_btc_txid r) of Inl e \<Rightarrow> Inl (SETypes e)
         | Inr t \<Rightarrow> Inr (Some \<lparr> bo_txid = t, bo_vout = as_u32 vout \<rparr>)))"

definition cell_row_status :: "cell_row \<Rightarrow> cell_status" where
  "cell_row_status r =
     (if cr_status r = ''spent'' then Spent
      else if cr_status r = ''pending_ckb'' then PendingCkb
      else if cr_status r = ''time_locked'' then TimeLocked
      else Live)"

definition cell_row_lock_kind :: "cell_row \<Rightarrow> store_error + lock_kind" where
  "cell_row_lock_kind r =
     ok_or (SEMapping (''unknown lock_kind '' @ cr_lock_kind r)) (lock_kind_from_str_opt (cr_lock_kind r))"

definition cell_row_asset_kind :: "cell_row \<Rightarrow> asset_kind" where
  "cell_row_asset_kind r = unwrap_or UnknownAsset (asset_from_str_opt (cr_asset_kind r))"

text \<open>A row of \<open>rgbpp_transitions\<close>, all of whose columns \<open>TransitionRow\<close> selects.\<close>

record transition_row =
  tr_tx_hash :: "byte list"
  tr_block_number :: int
  tr_block_hash :: "byte list"
  tr_tx_index :: int
  tr_timestamp :: "int option"
  tr_kind :: string
  tr_btc_txid :: "byte list option"
  tr_input_count :: int
  tr_output_count :: int
  tr_expected :: "byte list option"
  tr_observed :: "byte list option"
  tr_commitment_status :: string
  tr_indexed_at :: int

record observation_row =
  ob_txid :: "byte list"
  ob_vout :: int
  ob_status :: string
  ob_spender :: "byte list option"
  ob_spent_height :: "int option"
  ob_address :: "string option"
  ob_source :: string
  ob_first_seen_at :: int
  ob_observed_at :: int
  ob_invalidated_at :: "int option"

definition observation_out_point :: "observation_row \<Rightarrow> store_error + btc_out_point" where
  "observation_out_point r =
     (case from_display_slice (ob_txid r) of Inl e \<Rightarrow> Inl (SETypes e)
      | Inr t \<Rightarrow> Inr \<lparr> bo_txid = t, bo_vout = as_u32 (ob_vout r) \<rparr>)"

definition opt_txid :: "byte list option \<Rightarrow> btc_txid option res" where
  "opt_txid x = (case x of None \<Rightarrow> Inr None
      | Some bs \<Rightarrow> (case from_display_slice bs of Inl e \<Rightarrow> Inl e | Inr t \<Rightarrow> Inr (Some t)))"

definition observation_spend_status :: "observation_row \<Rightarrow> store_error + spend_status" where
  "observation_spend_status r =
     (case opt_txid (ob_spender r) of Inl e \<Rightarrow> Inl (SETypes e)
      | Inr spender \<Rightarrow> Inr
        (if ob_status r = ''unspent'' then Unspent
         else if ob_status r = ''spent_unconfirmed'' then
           (case spender of Some t \<Rightarrow> SpentUnconfirmed t | None \<Rightarrow> Unknown)
         else if ob_status r = ''spent_confirmed'' then
           (case spender of
              Some t \<Rightarrow> SpentConfirmed t (as_u32 (max 0 (unwrap_or 0 (ob_spent_height r))))
            | None \<Rightarrow> Unknown)
         else Unknown))"

text \<open>\<open>Duration::num_seconds\<close> truncates towards zero.\<close>

definition num_seconds :: "int \<Rightarrow> int" where
  "num_seconds us = (if us < 0 then - ((- us) div 1000000) else us div 1000000)"

definition is_fresh :: "observation_row \<Rightarrow> int \<Rightarrow> int \<Rightarrow> bool" where
  "is_fresh r ttl_secs now \<longleftrightarrow>
     ob_invalidated_at r = None \<and> num_seconds (now - ob_observed_at r) < ttl_secs"

record stream_state =
  st_stream :: string
  st_last_block_number :: int
  st_last_block_hash :: "byte list option"
  st_target :: "int option"
  st_chain_tip :: "int option"
  st_reorg_lag :: int
  st_last_error :: "string option"
  st_updated_at :: int

record block_row =
  bk_number :: int
  bk_hash :: "byte list"
  bk_parent_hash :: "byte list"
  bk_timestamp :: int
  bk_has_activity :: bool
  bk_indexed_at :: int

record queue_item =
  qi_txid :: "byte list"
  qi_vout :: int
  qi_reason :: string
  qi_priority :: int
  qi_attempts :: int

definition queue_item_out_point :: "queue_item \<Rightarrow> store_error + btc_out_point" where
  "queue_item_out_point q =
     (case from_display_slice (qi_txid q) of Inl e \<Rightarrow> Inl (SETypes e)
      | Inr t \<Rightarrow> Inr \<lparr> bo_txid = t, bo_vout = as_u32 (qi_vout q) \<rparr>)"

record anomaly_row =
  an_id :: int
  an_kind :: string
  an_dedup_key :: string
  an_btc_txid :: "byte list option"
  an_btc_vout :: "int option"
  an_ckb_tx :: "byte list option"
  an_ckb_index :: "int option"
  an_detail :: json
  an_detected_at :: int
  an_last_seen_at :: int
  an_resolved_at :: "int option"

record asset_balance_row =
  ab_type_hash :: "byte list option"
  ab_asset_kind :: string
  ab_cell_count :: nat
  ab_total_capacity :: int
  ab_total_amount :: nat

record asset_row =
  ar_type_hash :: "byte list"
  ar_asset_kind :: string
  ar_cell_count :: nat
  ar_live_cell_count :: nat
  ar_live_seal_count :: nat
  ar_total_amount :: "nat option"
  ar_first_block :: int
  ar_first_tx :: "byte list"
  ar_last_block :: int
  ar_holder_count :: nat
  ar_unlabelled_count :: nat

text \<open>\<open>BigDecimal::from_str\<close> of a decimal numeral never fails and is exact.\<close>

definition udt_amount_to_decimal :: "u128 \<Rightarrow> nat" where
  "udt_amount_to_decimal a = unat a"

section \<open>Activity\<close>

record activity_row =
  ac_tx_hash :: "byte list"
  ac_block_number :: int
  ac_tx_index :: int
  ac_timestamp :: "int option"
  ac_kind :: string
  ac_btc_txid :: "byte list option"
  ac_btc_height :: "int option"
  ac_btc_block_hash :: "byte list option"
  ac_btc_time :: "int option"
  ac_btc_fee :: "int option"

definition activity_cursor :: "activity_row \<Rightarrow> string" where
  "activity_cursor r = show_int (ac_block_number r) @ '':'' @ show_int (ac_tx_index r)"

record activity_cell_row =
  al_tx_hash :: "byte list"
  al_role :: string
  al_cell_tx :: "byte list"
  al_index :: int
  al_btc_txid :: "byte list"
  al_btc_vout :: "int option"
  al_asset_kind :: string
  al_type_hash :: "byte list option"
  al_udt_amount :: "nat option"
  al_capacity :: int

definition parse_activity_cursor :: "string \<Rightarrow> (int \<times> int) option" where
  "parse_activity_cursor cursor =
     (case split_once CHR '':'' cursor of None \<Rightarrow> None
      | Some (block, index) \<Rightarrow>
        (case parse_signed (2 ^ 63) block of None \<Rightarrow> None
         | Some b \<Rightarrow> (case parse_signed (2 ^ 31) index of None \<Rightarrow> None | Some i \<Rightarrow> Some (b, i))))"

lemma colon_notin_show_nat: "CHR '':'' \<notin> set (show_nat n)"
proof
  assume "CHR '':'' \<in> set (show_nat n)"
  then obtain d where "char_digit CHR '':'' = Some d" using show_nat_digits by blast
  then show False by (simp add: char_digit_def split: if_splits)
qed

lemma colon_notin_show_int: "CHR '':'' \<notin> set (show_int i)"
  by (simp add: show_int_def colon_notin_show_nat)

lemma activity_cursor_roundtrip:
  assumes "- (2 ^ 63) \<le> ac_block_number r" "ac_block_number r < 2 ^ 63"
    and "- (2 ^ 31) \<le> ac_tx_index r" "ac_tx_index r < 2 ^ 31"
  shows "parse_activity_cursor (activity_cursor r) = Some (ac_block_number r, ac_tx_index r)"
proof -
  have "split_once CHR '':'' (activity_cursor r) = Some (show_int (ac_block_number r), show_int (ac_tx_index r))"
    by (simp add: activity_cursor_def split_once_append colon_notin_show_int)
  moreover have "parse_signed (2 ^ 63) (show_int (ac_block_number r)) = Some (ac_block_number r)"
    and "parse_signed (2 ^ 31) (show_int (ac_tx_index r)) = Some (ac_tx_index r)"
    using assms by (auto intro!: parse_signed_show_int)
  ultimately show ?thesis by (simp add: parse_activity_cursor_def)
qed

section \<open>Properties\<close>

text \<open>
  An activity cursor is read back as the position it was made from, for every block
  number and index that fit their columns.
\<close>

theorem activity_cursor_reads_back:
  assumes "- (2 ^ 63) \<le> ac_block_number r" "ac_block_number r < 2 ^ 63"
    and "- (2 ^ 31) \<le> ac_tx_index r" "ac_tx_index r < 2 ^ 31"
  shows "parse_activity_cursor (activity_cursor r) = Some (ac_block_number r, ac_tx_index r)"
  using assms by (rule activity_cursor_roundtrip)

lemma activity_cursor_reads_back_witness:
  "\<exists>r. ac_block_number r = 11800000 \<and> parse_activity_cursor (activity_cursor r) = Some (11800000, 3)"
proof -
  define r where "r = \<lparr> ac_tx_hash = [], ac_block_number = 11800000, ac_tx_index = 3, ac_timestamp = None,
     ac_kind = [], ac_btc_txid = None, ac_btc_height = None, ac_btc_block_hash = None, ac_btc_time = None,
     ac_btc_fee = None \<rparr>"
  have "parse_activity_cursor (activity_cursor r) = Some (11800000, 3)"
    using activity_cursor_reads_back [of r] by (simp add: r_def)
  then show ?thesis by (intro exI [of _ r]) (simp add: r_def)
qed

end
