(* ===== verification/Db.thy ===== *)
theory Db
  imports Models
begin

text \<open>
  The database as a record of tables (the schema of \<open>migrations/\<close>), and the effects of the
  asynchronous code as functions on a world: the database and a counter that advances with
  every statement sent to the server and every request sent to a node or data source. The
  environment, an argument of every worker, says for each value of the counter whether a
  statement fails, what the server's \<open>now()\<close> and the process's \<open>Utc::now()\<close> return, and (in the theories of the clients) what a
  remote party answers, so a theorem about a worker holds for every schedule of failures
  and answers. A function that returns \<open>Result\<close> has type \<open>('e, 'a) io\<close>: what it wrote
  before an error stays written, unless it ran inside a transaction.
\<close>

section \<open>Tables\<close>

text \<open>
  \<open>rgbpp_cells\<close>: the inserted columns and the consumption columns. \<open>lock_kind\<close> and
  \<open>asset_kind\<close> are \<open>TEXT\<close> columns that only ever receive \<open>as_str\<close> of the enums held here.
\<close>

record cell_db = new_cell +
  cd_created_at :: int
  cd_consumed_block :: "int option"
  cd_consumed_hash :: "byte list option"
  cd_consumed_tx :: "byte list option"
  cd_consumed_tx_index :: "int option"
  cd_consumed_input :: "int option"
  cd_consumed_at :: "int option"

record btc_tx_row =
  bt_txid :: "byte list"
  bt_block_height :: "int option"
  bt_block_hash :: "byte list option"
  bt_block_time :: "int option"
  bt_commitment :: "byte list option"
  bt_input_count :: int
  bt_output_count :: int
  bt_fee :: "int option"
  bt_source :: string
  bt_observed_at :: int
  bt_invalidated_at :: "int option"

record queue_row = queue_item +
  qr_last_error :: "string option"
  qr_requested_at :: int
  qr_next_attempt_at :: int

record sweep_row =
  sr_id :: int
  sr_started_at :: int
  sr_finished_at :: "int option"
  sr_outpoints_checked :: int
  sr_status_changed :: int
  sr_anomalies_found :: int
  sr_status :: string
  sr_error :: "string option"

record db =
  d_cells :: "cell_db list"
  d_transitions :: "transition_row list"
  d_blocks :: "block_row list"
  d_streams :: "stream_state list"
  d_outpoints :: "observation_row list"
  d_txs :: "btc_tx_row list"
  d_queue :: "queue_row list"
  d_anomalies :: "anomaly_row list"
  d_anomaly_seq :: int
  d_sweeps :: "sweep_row list"
  d_sweep_seq :: int

definition empty_db :: db where
  "empty_db = \<lparr> d_cells = [], d_transitions = [], d_blocks = [], d_streams = [], d_outpoints = [],
     d_txs = [], d_queue = [], d_anomalies = [], d_anomaly_seq = 1, d_sweeps = [], d_sweep_seq = 1 \<rparr>"

section \<open>Effects\<close>

record env =
  e_fault :: "nat \<Rightarrow> string option"
  e_now :: "nat \<Rightarrow> int"
  e_clock :: "nat \<Rightarrow> int"

record world =
  w_db :: db
  w_tick :: nat

type_synonym ('e, 'a) io = "world \<Rightarrow> ('e + 'a) \<times> world"

definition tick :: "world \<Rightarrow> world" where "tick w = w\<lparr> w_tick := Suc (w_tick w) \<rparr>"

definition io_ret :: "'a \<Rightarrow> ('e, 'a) io" where "io_ret x w = (Inr x, w)"
definition io_fail :: "'e \<Rightarrow> ('e, 'a) io" where "io_fail e w = (Inl e, w)"

text \<open>\<open>let x = m.await?; k\<close>.\<close>

definition io_bind :: "('e, 'a) io \<Rightarrow> ('a \<Rightarrow> ('e, 'b) io) \<Rightarrow> ('e, 'b) io" where
  "io_bind m k w = (case m w of (Inl e, w') \<Rightarrow> (Inl e, w') | (Inr x, w') \<Rightarrow> k x w')"

text \<open>\<open>match m.await { .. }\<close>: the error becomes a value.\<close>

definition io_attempt :: "('e, 'a) io \<Rightarrow> ('f, 'e + 'a) io" where
  "io_attempt m w = (case m w of (r, w') \<Rightarrow> (Inr r, w'))"

definition io_map_err :: "('e \<Rightarrow> 'f) \<Rightarrow> ('e, 'a) io \<Rightarrow> ('f, 'a) io" where
  "io_map_err g m w = (case m w of (r, w') \<Rightarrow> (map_err g r, w'))"

definition io_of :: "'e + 'a \<Rightarrow> ('e, 'a) io" where "io_of r w = (r, w)"

text \<open>A \<open>for\<close> loop over a list with a local variable.\<close>

fun io_for :: "'a list \<Rightarrow> 's \<Rightarrow> ('a \<Rightarrow> 's \<Rightarrow> ('e, 's) io) \<Rightarrow> ('e, 's) io" where
  "io_for [] s body = io_ret s"
| "io_for (x # xs) s body = io_bind (body x s) (\<lambda>s'. io_for xs s' body)"

text \<open>A request to a remote party, which answers according to the counter.\<close>

definition io_call :: "(nat \<Rightarrow> 'e + 'a) \<Rightarrow> ('e, 'a) io" where
  "io_call f w = (f (w_tick w), tick w)"

text \<open>\<open>Utc::now()\<close>.\<close>

definition io_clock :: "env \<Rightarrow> ('e, int) io" where
  "io_clock e w = (Inr (e_clock e (w_tick w)), w)"

text \<open>One statement outside any transaction: \<open>f\<close> gets \<open>now()\<close> and the database.\<close>

definition sql :: "env \<Rightarrow> (int \<Rightarrow> db \<Rightarrow> 'a \<times> db) \<Rightarrow> (store_error, 'a) io" where
  "sql e f w =
     (case e_fault e (w_tick w) of
        Some m \<Rightarrow> (Inl (SESqlx m), tick w)
      | None \<Rightarrow> (case f (e_now e (w_tick w)) (w_db w) of (x, d) \<Rightarrow> (Inr x, (tick w)\<lparr> w_db := d \<rparr>)))"

text \<open>A statement the server can refuse: \<open>f\<close> answers \<open>Inl\<close> the reason.\<close>

definition sql_res :: "env \<Rightarrow> (int \<Rightarrow> db \<Rightarrow> string + ('a \<times> db)) \<Rightarrow> (store_error, 'a) io" where
  "sql_res e f w =
     (case e_fault e (w_tick w) of
        Some m \<Rightarrow> (Inl (SESqlx m), tick w)
      | None \<Rightarrow>
        (case f (e_now e (w_tick w)) (w_db w) of
           Inl m \<Rightarrow> (Inl (SESqlx m), tick w)
         | Inr (x, d) \<Rightarrow> (Inr x, (tick w)\<lparr> w_db := d \<rparr>)))"

definition query :: "env \<Rightarrow> (int \<Rightarrow> db \<Rightarrow> 'a) \<Rightarrow> (store_error, 'a) io" where
  "query e f = sql e (\<lambda>now d. (f now d, d))"

definition execute :: "env \<Rightarrow> (int \<Rightarrow> db \<Rightarrow> db) \<Rightarrow> (store_error, unit) io" where
  "execute e f = sql e (\<lambda>now d. ((), f now d))"

text \<open>
  A transaction: \<open>BEGIN\<close> and \<open>COMMIT\<close> are statements of their own, \<open>now()\<close> is the time of
  the \<open>BEGIN\<close> throughout, and whatever fails before the commit is answered drops it, which
  rolls back.
\<close>

definition transaction :: "env \<Rightarrow> (int \<Rightarrow> (store_error, 'a) io) \<Rightarrow> (store_error, 'a) io" where
  "transaction e body w =
     (case io_bind (execute e (\<lambda>now d. d))
             (\<lambda>_. io_bind (body (e_now e (w_tick w)))
             (\<lambda>x. io_bind (execute e (\<lambda>now d. d)) (\<lambda>_. io_ret x))) w of
        (Inl err, w') \<Rightarrow> (Inl err, w'\<lparr> w_db := w_db w \<rparr>)
      | (Inr x, w') \<Rightarrow> (Inr x, w'))"

lemma w_db_tick [simp]: "w_db (tick w) = w_db w"
  by (simp add: tick_def)

lemma io_bind_Inr:
  "io_bind m k w = (Inr y, w'') \<longleftrightarrow> (\<exists>x w'. m w = (Inr x, w') \<and> k x w' = (Inr y, w''))"
  by (auto simp: io_bind_def split: prod.splits sum.splits)

lemma io_bind_Inl:
  "io_bind m k w = (Inl e, w'') \<longleftrightarrow>
   m w = (Inl e, w'') \<or> (\<exists>x w'. m w = (Inr x, w') \<and> k x w' = (Inl e, w''))"
  by (auto simp: io_bind_def split: prod.splits sum.splits)

lemma io_simps [simp]:
  "io_ret x w = (r, w') \<longleftrightarrow> r = Inr x \<and> w' = w"
  "io_fail e w = (r', w') \<longleftrightarrow> r' = Inl e \<and> w' = w"
  by (auto simp: io_ret_def io_fail_def)

lemma sql_Inr:
  "sql e f w = (Inr x, w') \<longleftrightarrow>
   e_fault e (w_tick w) = None \<and>
   (\<exists>d. f (e_now e (w_tick w)) (w_db w) = (x, d) \<and> w' = (tick w)\<lparr> w_db := d \<rparr>)"
  by (auto simp: sql_def split: option.splits prod.splits)

lemma sql_Inl: "sql e f w = (Inl err, w') \<Longrightarrow> w_db w' = w_db w"
  by (auto simp: sql_def split: option.splits prod.splits)

lemma execute_Inr: "execute e f w = (Inr x, w') \<Longrightarrow> w_db w' = f (e_now e (w_tick w)) (w_db w)"
  by (auto simp: execute_def sql_Inr)

lemma transaction_Inr:
  assumes "transaction e body w = (Inr x, w')"
  shows "\<exists>w0 w1. w_db w0 = w_db w \<and> body (e_now e (w_tick w)) w0 = (Inr x, w1) \<and> w_db w' = w_db w1"
proof -
  let ?nop = "execute e (\<lambda>now d. d)"
  from assms have "io_bind ?nop (\<lambda>_. io_bind (body (e_now e (w_tick w)))
      (\<lambda>x. io_bind ?nop (\<lambda>_. io_ret x))) w = (Inr x, w')"
    by (auto simp: transaction_def split: prod.splits sum.splits)
  then obtain w0 w1 w2 where w0: "?nop w = (Inr (), w0)"
    and body: "body (e_now e (w_tick w)) w0 = (Inr x, w1)" and w2: "?nop w1 = (Inr (), w2)" "w' = w2"
    by (auto simp: io_bind_Inr)
  from execute_Inr [OF w0] execute_Inr [OF w2(1)] have "w_db w0 = w_db w" "w_db w' = w_db w1"
    using w2(2) by simp_all
  with body show ?thesis by blast
qed

lemma transaction_Inl: "transaction e body w = (Inl err, w') \<Longrightarrow> w_db w' = w_db w"
  by (auto simp: transaction_def split: prod.splits sum.splits)

section \<open>What a worker does to the database, whatever happens\<close>

text \<open>Every run of \<open>m\<close>, successful or not, takes the database along \<open>R\<close>.\<close>

definition obeys :: "(db \<Rightarrow> db \<Rightarrow> bool) \<Rightarrow> ('e, 'a) io \<Rightarrow> bool" where
  "obeys R m \<longleftrightarrow> (\<forall>w. R (w_db w) (w_db (snd (m w))))"

locale db_relation =
  fixes R :: "db \<Rightarrow> db \<Rightarrow> bool"
  assumes rel_refl: "R d d"
    and rel_trans: "R a b \<Longrightarrow> R b c \<Longrightarrow> R a c"
begin

lemma obeys_ret: "obeys R (io_ret x)"
  by (simp add: obeys_def io_ret_def rel_refl)

lemma obeys_fail: "obeys R (io_fail x)"
  by (simp add: obeys_def io_fail_def rel_refl)

lemma obeys_of: "obeys R (io_of x)"
  by (simp add: obeys_def io_of_def rel_refl)

lemma obeys_call: "obeys R (io_call f)"
  by (simp add: obeys_def io_call_def rel_refl)

lemma obeys_clock: "obeys R (io_clock e)"
  by (simp add: obeys_def io_clock_def rel_refl)

lemma obeys_bind: "obeys R m \<Longrightarrow> (\<And>x. obeys R (k x)) \<Longrightarrow> obeys R (io_bind m k)"
proof (unfold obeys_def, intro allI)
  fix w
  assume m: "\<forall>w. R (w_db w) (w_db (snd (m w)))" and k: "\<And>x. \<forall>w. R (w_db w) (w_db (snd (k x w)))"
  obtain r w' where mw: "m w = (r, w')" by (cases "m w")
  with m have "R (w_db w) (w_db w')" by (metis snd_conv)
  with mw k rel_trans show "R (w_db w) (w_db (snd (io_bind m k w)))"
    by (cases r) (auto simp: io_bind_def)
qed

lemma obeys_attempt: "obeys R m \<Longrightarrow> obeys R (io_attempt m)"
  by (auto simp: obeys_def io_attempt_def split: prod.splits) (metis snd_conv)

lemma obeys_map_err: "obeys R m \<Longrightarrow> obeys R (io_map_err g m)"
  by (auto simp: obeys_def io_map_err_def split: prod.splits) (metis snd_conv)

lemma obeys_for: "(\<And>x s. obeys R (body x s)) \<Longrightarrow> obeys R (io_for xs s body)"
  by (induction xs arbitrary: s) (auto intro!: obeys_ret obeys_bind)

lemma obeys_sql: "(\<And>now d. R d (snd (f now d))) \<Longrightarrow> obeys R (sql e f)"
  by (auto simp: obeys_def sql_def rel_refl split: option.splits prod.splits) (metis snd_conv)

lemma obeys_sql_res:
  assumes "\<And>now d x d'. f now d = Inr (x, d') \<Longrightarrow> R d d'"
  shows "obeys R (sql_res e f)"
  unfolding obeys_def
proof
  fix w
  show "R (w_db w) (w_db (snd (sql_res e f w)))"
    using assms [of "e_now e (w_tick w)" "w_db w"]
    by (auto simp: sql_res_def rel_refl split: option.splits sum.splits prod.splits)
qed

lemma obeys_query: "obeys R (query e f)"
  unfolding query_def by (rule obeys_sql) (simp add: rel_refl)

lemma obeys_execute: "(\<And>now d. R d (f now d)) \<Longrightarrow> obeys R (execute e f)"
  unfolding execute_def by (rule obeys_sql) simp

lemma obeys_transaction:
  assumes "\<And>now. obeys R (body now)"
  shows "obeys R (transaction e body)"
proof -
  have m: "obeys R (io_bind (execute e (\<lambda>now d. d)) (\<lambda>_. io_bind (body n)
      (\<lambda>x. io_bind (execute e (\<lambda>now d. d)) (\<lambda>_. io_ret x))))" for n
    by (intro obeys_bind obeys_execute obeys_ret assms rel_refl)
  show ?thesis
    unfolding obeys_def
  proof
    fix w
    show "R (w_db w) (w_db (snd (transaction e body w)))"
      using m [of "e_now e (w_tick w)", unfolded obeys_def, rule_format, of w]
      by (auto simp: transaction_def rel_refl split: prod.splits sum.splits)
  qed
qed

lemma obeys_if: "obeys R a \<Longrightarrow> obeys R b \<Longrightarrow> obeys R (if c then a else b)"
  by simp

lemma obeys_option:
  "obeys R a \<Longrightarrow> (\<And>x. obeys R (b x)) \<Longrightarrow>
   obeys R (case opt of None \<Rightarrow> a | Some x \<Rightarrow> b x)"
  by (cases opt) auto

lemma obeys_sum:
  "(\<And>x. obeys R (a x)) \<Longrightarrow> (\<And>x. obeys R (b x)) \<Longrightarrow>
   obeys R (case r of Inl x \<Rightarrow> a x | Inr x \<Rightarrow> b x)"
  by (cases r) auto

lemma obeys_prod: "(\<And>x y. obeys R (f x y)) \<Longrightarrow> obeys R (case p of (x, y) \<Rightarrow> f x y)"
  by (cases p) auto

lemmas obeys_rules =
  obeys_ret obeys_fail obeys_of obeys_call obeys_clock obeys_bind obeys_attempt
  obeys_map_err obeys_for obeys_query obeys_if obeys_option obeys_sum obeys_prod

end

text \<open>Two families of such relations: a projection is unchanged, a predicate is kept.\<close>

definition keeps :: "(db \<Rightarrow> 'x) \<Rightarrow> db \<Rightarrow> db \<Rightarrow> bool" where
  "keeps f a b \<longleftrightarrow> f b = f a"

definition preserves :: "(db \<Rightarrow> bool) \<Rightarrow> db \<Rightarrow> db \<Rightarrow> bool" where
  "preserves P a b \<longleftrightarrow> (P a \<longrightarrow> P b)"

interpretation keeps: db_relation "keeps f" for f
  by unfold_locales (simp_all add: keeps_def)

interpretation preserves: db_relation "preserves P" for P
  by unfold_locales (simp_all add: preserves_def)

lemma obeys_keepsD: "obeys (keeps f) m \<Longrightarrow> m w = (r, w') \<Longrightarrow> f (w_db w') = f (w_db w)"
  unfolding obeys_def keeps_def by (metis snd_conv)

lemma obeys_preservesD:
  "obeys (preserves P) m \<Longrightarrow> m w = (r, w') \<Longrightarrow> P (w_db w) \<Longrightarrow> P (w_db w')"
  unfolding obeys_def preserves_def by (metis snd_conv)

section \<open>Reading phases\<close>

text \<open>
  Started on the database \<open>d\<close>, \<open>m\<close> leaves it alone whatever happens, and a value it
  returns satisfies \<open>Q\<close>.
\<close>

definition reads :: "db \<Rightarrow> ('e, 'a) io \<Rightarrow> ('a \<Rightarrow> bool) \<Rightarrow> bool" where
  "reads d m Q \<longleftrightarrow> (\<forall>w. w_db w = d \<longrightarrow> w_db (snd (m w)) = d \<and> (\<forall>x. fst (m w) = Inr x \<longrightarrow> Q x))"

lemma readsD: "reads d m Q \<Longrightarrow> m w = (Inr x, w') \<Longrightarrow> w_db w = d \<Longrightarrow> w_db w' = d \<and> Q x"
  unfolding reads_def by (metis fst_conv snd_conv)

lemma reads_db: "reads d m Q \<Longrightarrow> m w = (r, w') \<Longrightarrow> w_db w = d \<Longrightarrow> w_db w' = d"
  unfolding reads_def by (metis snd_conv)

lemma reads_mono: "reads d m Q \<Longrightarrow> (\<And>x. Q x \<Longrightarrow> Q' x) \<Longrightarrow> reads d m Q'"
  unfolding reads_def by blast

lemma reads_ret: "Q x \<Longrightarrow> reads d (io_ret x) Q"
  by (simp add: reads_def io_ret_def)

lemma reads_fail: "reads d (io_fail e) Q"
  by (simp add: reads_def io_fail_def)

lemma reads_of: "(\<And>x. r = Inr x \<Longrightarrow> Q x) \<Longrightarrow> reads d (io_of r) Q"
  by (simp add: reads_def io_of_def)

lemma reads_call: "(\<And>n x. f n = Inr x \<Longrightarrow> Q x) \<Longrightarrow> reads d (io_call f) Q"
  by (simp add: reads_def io_call_def)

lemma reads_clock: "(\<And>x. Q x) \<Longrightarrow> reads d (io_clock e) Q"
  by (simp add: reads_def io_clock_def)

lemma reads_query: "(\<And>now. Q (f now d)) \<Longrightarrow> reads d (query e f) Q"
  by (auto simp: reads_def query_def sql_def split: option.split)

lemma reads_map_err: "reads d m Q \<Longrightarrow> reads d (io_map_err g m) Q"
  by (auto simp: reads_def io_map_err_def split: prod.split)

lemma reads_bind: "reads d m Q \<Longrightarrow> (\<And>x. Q x \<Longrightarrow> reads d (k x) Q') \<Longrightarrow> reads d (io_bind m k) Q'"
  unfolding reads_def io_bind_def by (auto split: prod.split sum.split)

lemma reads_attempt:
  assumes "reads d m Q" "\<And>e. Q' (Inl e)" "\<And>x. Q x \<Longrightarrow> Q' (Inr x)"
  shows "reads d (io_attempt m) Q'"
  unfolding reads_def
proof (intro allI impI)
  fix w :: world assume w: "w_db w = d"
  obtain r w' where m: "m w = (r, w')" by (cases "m w")
  have "Q' r"
  proof (cases r)
    case (Inl e)
    then show ?thesis by (simp only: assms(2))
  next
    case (Inr x)
    with m have "Q x" using readsD [OF assms(1) _ w] by blast
    then show ?thesis unfolding Inr by (rule assms(3))
  qed
  with m reads_db [OF assms(1) m w]
  show "w_db (snd (io_attempt m w)) = d \<and> (\<forall>x. fst (io_attempt m w) = Inr x \<longrightarrow> Q' x)"
    by (simp add: io_attempt_def)
qed

lemma reads_for:
  "Inv s \<Longrightarrow> (\<And>x s. x \<in> set xs \<Longrightarrow> Inv s \<Longrightarrow> reads d (body x s) Inv) \<Longrightarrow> reads d (io_for xs s body) Inv"
proof (induction xs arbitrary: s)
  case (Cons x xs)
  show ?case
    unfolding io_for.simps using Cons.prems
    by (intro reads_bind [where Q = Inv] Cons.IH) auto
qed (simp add: reads_ret)

text \<open>What one pass establishes for its element, and later passes keep, holds at the end.\<close>

lemma reads_for_each:
  assumes "Inv s" "\<And>x s. x \<in> set xs \<Longrightarrow> Inv s \<Longrightarrow>
      reads d (body x s) (\<lambda>s'. Inv s' \<and> P x s' \<and> (\<forall>y. P y s \<longrightarrow> P y s'))"
  shows "reads d (io_for xs s body) (\<lambda>s'. Inv s' \<and> (\<forall>x \<in> set xs. P x s') \<and> (\<forall>y. P y s \<longrightarrow> P y s'))"
  using assms
proof (induction xs arbitrary: s)
  case (Cons x xs)
  have "reads d (io_for xs s' body) (\<lambda>s''. Inv s'' \<and> (\<forall>x \<in> set (x # xs). P x s'') \<and> (\<forall>y. P y s \<longrightarrow> P y s''))"
    if s': "Inv s' \<and> P x s' \<and> (\<forall>y. P y s \<longrightarrow> P y s')" for s'
    by (rule reads_mono, rule Cons.IH) (use Cons.prems s' in auto)
  then show ?case
    unfolding io_for.simps
  proof (rule reads_bind [rotated])
    show "reads d (body x s) (\<lambda>s'. Inv s' \<and> P x s' \<and> (\<forall>y. P y s \<longrightarrow> P y s'))"
      using Cons.prems by simp
  qed
qed (simp add: reads_ret)

section \<open>Phases that cannot fail\<close>

text \<open>Started on the database \<open>d\<close>, \<open>m\<close> returns a value, whatever the counter is.\<close>

definition answers :: "db \<Rightarrow> ('e, 'a) io \<Rightarrow> bool" where
  "answers d m \<longleftrightarrow> (\<forall>w. w_db w = d \<longrightarrow> (\<exists>x. fst (m w) = Inr x))"

lemma answersD: "answers d m \<Longrightarrow> w_db w = d \<Longrightarrow> \<exists>x w'. m w = (Inr x, w')"
  unfolding answers_def by (metis prod.collapse)

lemma answers_ret: "answers d (io_ret x)"
  by (simp add: answers_def io_ret_def)

lemma answers_of: "r = Inr x \<Longrightarrow> answers d (io_of r)"
  by (simp add: answers_def io_of_def)

lemma answers_call: "(\<And>n. \<exists>x. f n = Inr x) \<Longrightarrow> answers d (io_call f)"
  by (simp add: answers_def io_call_def)

lemma answers_clock: "answers d (io_clock e)"
  by (simp add: answers_def io_clock_def)

lemma answers_attempt: "answers d (io_attempt m)"
  by (auto simp: answers_def io_attempt_def split: prod.split)

lemma answers_map_err: "answers d m \<Longrightarrow> answers d (io_map_err g m)"
  by (force simp: answers_def io_map_err_def split: prod.split)

lemma answers_query: "(\<And>n. e_fault e n = None) \<Longrightarrow> answers d (query e f)"
  by (simp add: answers_def query_def sql_def)

lemma answers_bind:
  assumes "answers d m" "reads d m Q" "\<And>x. Q x \<Longrightarrow> answers d (k x)"
  shows "answers d (io_bind m k)"
  unfolding answers_def
proof (intro allI impI)
  fix w :: world assume w: "w_db w = d"
  from answersD [OF assms(1) w] obtain x w' where m: "m w = (Inr x, w')" by blast
  from readsD [OF assms(2) m w] have "w_db w' = d" "Q x" by simp_all
  with answersD [OF assms(3)] obtain y w'' where "k x w' = (Inr y, w'')" by blast
  with m show "\<exists>y. fst (io_bind m k w) = Inr y" by (simp add: io_bind_def)
qed

lemma answers_for:
  "Inv s \<Longrightarrow> (\<And>x s. x \<in> set xs \<Longrightarrow> Inv s \<Longrightarrow> reads d (body x s) Inv \<and> answers d (body x s)) \<Longrightarrow>
   answers d (io_for xs s body)"
proof (induction xs arbitrary: s)
  case (Cons x xs)
  show ?case
    unfolding io_for.simps using Cons.prems
    by (intro answers_bind [where Q = Inv] Cons.IH) auto
qed (simp add: answers_ret)

section \<open>A quiet environment\<close>

text \<open>A server that never fails, at time zero, for the witnesses.\<close>

definition quiet_env :: env where
  "quiet_env = \<lparr> e_fault = (\<lambda>_. None), e_now = (\<lambda>_. 0), e_clock = (\<lambda>_. 0) \<rparr>"

definition world_of :: "db \<Rightarrow> world" where
  "world_of d = \<lparr> w_db = d, w_tick = 0 \<rparr>"

lemma quiet_env_sel [simp]: "e_fault quiet_env n = None" "e_now quiet_env n = 0" "e_clock quiet_env n = 0"
  by (simp_all add: quiet_env_def)

end
