(* ===== verification/Store_Ckb.thy ===== *)
theory Store_Ckb
  imports Db
begin

text \<open>
  The CKB side of the store: \<open>cells.rs\<close>, \<open>transitions.rs\<close>, \<open>blocks.rs\<close> and \<open>state.rs\<close> of
  \<open>crates/store/src\<close>, with the \<open>rgbpp_cell_status\<close> view of the migrations. Each statement
  is a function on the database; the operations of \<open>Store\<close> run them as statements, and
  \<open>apply_batch\<close> runs a whole scan round in one transaction.
\<close>

section \<open>Cells\<close>

definition cell_key :: "cell_db \<Rightarrow> byte list \<times> int" where
  "cell_key c = (nc_tx_hash c, nc_index c)"

text \<open>The \<open>DO UPDATE\<close> of \<open>insert_cell\<close>: only the creation anchor is refreshed.\<close>

definition cell_merge :: "cell_db \<Rightarrow> cell_db \<Rightarrow> cell_db" where
  "cell_merge old new = old\<lparr>
     nc_block_number := nc_block_number new,
     nc_block_hash := nc_block_hash new,
     nc_created_tx_index := nc_created_tx_index new \<rparr>"

definition fresh_cell :: "int \<Rightarrow> new_cell \<Rightarrow> cell_db" where
  "fresh_cell now c = new_cell.extend c
     \<lparr> cd_created_at = now, cd_consumed_block = None, cd_consumed_hash = None,
       cd_consumed_tx = None, cd_consumed_tx_index = None, cd_consumed_input = None,
       cd_consumed_at = None \<rparr>"

definition insert_cell :: "new_cell \<Rightarrow> int \<Rightarrow> db \<Rightarrow> db" where
  "insert_cell c now d = d\<lparr> d_cells := upsert cell_key cell_merge (fresh_cell now c) (d_cells d) \<rparr>"

definition spend_matches :: "cell_spend \<Rightarrow> cell_db \<Rightarrow> bool" where
  "spend_matches s c \<longleftrightarrow> nc_tx_hash c = cs_tx_hash s \<and> nc_index c = cs_index s"

definition spend_cell :: "cell_spend \<Rightarrow> int \<Rightarrow> cell_db \<Rightarrow> cell_db" where
  "spend_cell s now c = c\<lparr>
     cd_consumed_block := Some (cs_block_number s),
     cd_consumed_hash := Some (cs_block_hash s),
     cd_consumed_tx := Some (cs_consumed_tx s),
     cd_consumed_tx_index := Some (cs_tx_index s),
     cd_consumed_input := Some (cs_input_index s),
     cd_consumed_at := Some now \<rparr>"

text \<open>\<open>apply_spend\<close> returns the number of rows it updated.\<close>

definition apply_spend :: "cell_spend \<Rightarrow> int \<Rightarrow> db \<Rightarrow> nat \<times> db" where
  "apply_spend s now d =
     (affected (spend_matches s) (d_cells d),
      d\<lparr> d_cells := update_where (spend_matches s) (spend_cell s now) (d_cells d) \<rparr>)"

section \<open>Transitions\<close>

definition transition_key :: "transition_row \<Rightarrow> byte list" where
  "transition_key t = tr_tx_hash t"

definition fresh_transition :: "int \<Rightarrow> new_transition \<Rightarrow> transition_row" where
  "fresh_transition now t = \<lparr>
     tr_tx_hash = nt_tx_hash t, tr_block_number = nt_block_number t, tr_block_hash = nt_block_hash t,
     tr_tx_index = nt_tx_index t, tr_timestamp = nt_timestamp t, tr_kind = transition_as_str (nt_kind t),
     tr_btc_txid = nt_btc_txid t, tr_input_count = nt_input_count t,
     tr_output_count = nt_output_count t, tr_expected = nt_expected t, tr_observed = None,
     tr_commitment_status = ''unchecked'', tr_indexed_at = now \<rparr>"

definition transition_merge :: "transition_row \<Rightarrow> transition_row \<Rightarrow> transition_row" where
  "transition_merge old new = new\<lparr>
     tr_observed := tr_observed old,
     tr_commitment_status := tr_commitment_status old,
     tr_indexed_at := tr_indexed_at old \<rparr>"

definition insert_transition :: "new_transition \<Rightarrow> int \<Rightarrow> db \<Rightarrow> db" where
  "insert_transition t now d = d\<lparr>
     d_transitions := upsert transition_key transition_merge (fresh_transition now t) (d_transitions d) \<rparr>"

definition transition_by_ckb_tx :: "byte list \<Rightarrow> db \<Rightarrow> transition_row option" where
  "transition_by_ckb_tx h d = lookup_row transition_key h (d_transitions d)"

definition transitions_by_ckb_txs :: "byte list list \<Rightarrow> db \<Rightarrow> transition_row list" where
  "transitions_by_ckb_txs hs d = filter (\<lambda>t. tr_tx_hash t \<in> set hs) (d_transitions d)"

definition transitions_by_btc_txid :: "byte list \<Rightarrow> db \<Rightarrow> transition_row list" where
  "transitions_by_btc_txid txid d =
     sort_key (\<lambda>t. (tr_block_number t, tr_tx_index t))
       (filter (\<lambda>t. tr_btc_txid t = Some txid) (d_transitions d))"

text \<open>\<open>ORDER BY .. DESC\<close> on integers sorts by the negated column.\<close>

definition recent_transitions :: "int \<Rightarrow> db \<Rightarrow> transition_row list" where
  "recent_transitions limit d =
     limit_rows limit (sort_key (\<lambda>t. (- tr_block_number t, - tr_tx_index t)) (d_transitions d))"

definition set_commitment_result ::
  "byte list \<Rightarrow> byte list option \<Rightarrow> commitment_status \<Rightarrow> db \<Rightarrow> db" where
  "set_commitment_result h observed status d = d\<lparr>
     d_transitions := update_where (\<lambda>t. tr_tx_hash t = h)
       (\<lambda>t. t\<lparr> tr_observed := observed, tr_commitment_status := commitment_as_str status \<rparr>)
       (d_transitions d) \<rparr>"

definition unchecked_transitions :: "int \<Rightarrow> db \<Rightarrow> transition_row list" where
  "unchecked_transitions limit d =
     limit_rows limit (sort_key tr_block_number
       (filter (\<lambda>t. tr_commitment_status t = ''unchecked'' \<and> tr_btc_txid t \<noteq> None) (d_transitions d)))"

section \<open>Blocks\<close>

definition fresh_block :: "int \<Rightarrow> block_record \<Rightarrow> block_row" where
  "fresh_block now b = \<lparr>
     bk_number = br_number b, bk_hash = br_hash b, bk_parent_hash = br_parent_hash b,
     bk_timestamp = br_timestamp b, bk_has_activity = br_has_activity b, bk_indexed_at = now \<rparr>"

definition block_merge :: "block_row \<Rightarrow> block_row \<Rightarrow> block_row" where
  "block_merge old new = old\<lparr>
     bk_hash := bk_hash new, bk_parent_hash := bk_parent_hash new,
     bk_timestamp := bk_timestamp new,
     bk_has_activity := bk_has_activity old \<or> bk_has_activity new \<rparr>"

definition upsert_block_in :: "block_record \<Rightarrow> int \<Rightarrow> db \<Rightarrow> db" where
  "upsert_block_in b now d = d\<lparr>
     d_blocks := upsert bk_number block_merge (fresh_block now b) (d_blocks d) \<rparr>"

definition get_block :: "int \<Rightarrow> db \<Rightarrow> block_row option" where
  "get_block number d = lookup_row bk_number number (d_blocks d)"

definition blocks_descending_from :: "int \<Rightarrow> int \<Rightarrow> db \<Rightarrow> block_row list" where
  "blocks_descending_from number limit d =
     limit_rows limit (sort_key (\<lambda>b. - bk_number b) (filter (\<lambda>b. bk_number b \<le> number) (d_blocks d)))"

definition prune_blocks_below :: "int \<Rightarrow> db \<Rightarrow> nat \<times> db" where
  "prune_blocks_below keep_from d =
     (affected (\<lambda>b. bk_number b < keep_from) (d_blocks d),
      d\<lparr> d_blocks := delete_where (\<lambda>b. bk_number b < keep_from) (d_blocks d) \<rparr>)"

section \<open>Checkpoints\<close>

definition CKB_STREAM :: string where "CKB_STREAM = ''ckb''"

definition get_stream_state :: "string \<Rightarrow> db \<Rightarrow> stream_state option" where
  "get_stream_state stream d = lookup_row st_stream stream (d_streams d)"

text \<open>The statement of \<open>init_stream\<close>; the remaining columns take their defaults.\<close>

definition insert_stream :: "string \<Rightarrow> u64 \<Rightarrow> int \<Rightarrow> db \<Rightarrow> db" where
  "insert_stream stream start_block now d = d\<lparr>
     d_streams := upsert st_stream keep_old
       \<lparr> st_stream = stream, st_last_block_number = as_i64 (saturating_sub start_block 1),
         st_last_block_hash = None, st_target = None, st_chain_tip = None, st_reorg_lag = 0,
         st_last_error = None, st_updated_at = now \<rparr> (d_streams d) \<rparr>"

definition init_stream :: "env \<Rightarrow> string \<Rightarrow> u64 \<Rightarrow> (store_error, stream_state) io" where
  "init_stream e stream start_block =
     io_bind (execute e (insert_stream stream start_block))
     (\<lambda>_. io_bind (query e (\<lambda>now d. get_stream_state stream d))
     (\<lambda>row. io_of (ok_or (SEMapping ''stream row vanished after insert'') row)))"

definition set_stream_error :: "string \<Rightarrow> string option \<Rightarrow> int \<Rightarrow> db \<Rightarrow> db" where
  "set_stream_error stream err now d = d\<lparr>
     d_streams := update_where (\<lambda>s. st_stream s = stream)
       (\<lambda>s. s\<lparr> st_last_error := err, st_updated_at := now \<rparr>) (d_streams d) \<rparr>"

definition record_chain_progress :: "string \<Rightarrow> u64 \<Rightarrow> u64 \<Rightarrow> u64 \<Rightarrow> int \<Rightarrow> db \<Rightarrow> db" where
  "record_chain_progress stream chain_tip target lag now d = d\<lparr>
     d_streams := update_where (\<lambda>s. st_stream s = stream)
       (\<lambda>s. s\<lparr> st_chain_tip := Some (as_i64 chain_tip), st_target := Some (as_i64 target),
              st_reorg_lag := as_i64 lag, st_updated_at := now \<rparr>) (d_streams d) \<rparr>"

text \<open>The checkpoint statement that closes \<open>apply_batch\<close>.\<close>

definition publish_checkpoint :: "index_batch \<Rightarrow> int \<Rightarrow> db \<Rightarrow> db" where
  "publish_checkpoint b now d = d\<lparr>
     d_streams := update_where (\<lambda>s. st_stream s = CKB_STREAM)
       (\<lambda>s. s\<lparr> st_last_block_number := ib_checkpoint_number b,
              st_last_block_hash := ib_checkpoint_hash b,
              st_target := Some (ib_target b), st_chain_tip := Some (ib_chain_tip b),
              st_reorg_lag := ib_reorg_lag b, st_last_error := None, st_updated_at := now \<rparr>)
       (d_streams d) \<rparr>"

section \<open>One scan round\<close>

text \<open>
  The statements of the transaction, in order; \<open>at\<close> is its \<open>now()\<close>. The loops count what
  they wrote, spends by affected rows.
\<close>

definition execute_at :: "env \<Rightarrow> int \<Rightarrow> (int \<Rightarrow> db \<Rightarrow> db) \<Rightarrow> (store_error, unit) io" where
  "execute_at e at f = execute e (\<lambda>_. f at)"

definition apply_batch_in :: "env \<Rightarrow> index_batch \<Rightarrow> int \<Rightarrow> (store_error, apply_stats) io" where
  "apply_batch_in e b at =
     io_bind (io_for (ib_blocks b) 0
       (\<lambda>block n. io_bind (execute_at e at (upsert_block_in block)) (\<lambda>_. io_ret (Suc n))))
     (\<lambda>blocks. io_bind (io_for (ib_cells b) 0
       (\<lambda>cell n. io_bind (execute_at e at (insert_cell cell)) (\<lambda>_. io_ret (Suc n))))
     (\<lambda>cells. io_bind (io_for (ib_spends b) 0
       (\<lambda>spend n. io_bind (sql e (\<lambda>_. apply_spend spend at)) (\<lambda>rows. io_ret (n + rows))))
     (\<lambda>spends. io_bind (io_for (ib_transitions b) 0
       (\<lambda>t n. io_bind (execute_at e at (insert_transition t)) (\<lambda>_. io_ret (Suc n))))
     (\<lambda>transitions. io_bind (execute_at e at (publish_checkpoint b))
     (\<lambda>_. io_ret \<lparr> as_blocks = blocks, as_cells = cells, as_spends = spends,
                   as_transitions = transitions \<rparr>)))))"

definition apply_batch :: "env \<Rightarrow> index_batch \<Rightarrow> (store_error, apply_stats) io" where
  "apply_batch e b = transaction e (apply_batch_in e b)"

section \<open>Reads\<close>

text \<open>The \<open>LEFT JOIN\<close> of the view: the observation of the cell's binding.\<close>

definition outpoint_key :: "observation_row \<Rightarrow> byte list \<times> int" where
  "outpoint_key r = (ob_txid r, ob_vout r)"

definition binding_observation :: "db \<Rightarrow> cell_db \<Rightarrow> observation_row option" where
  "binding_observation d c =
     (case nc_btc_vout c of None \<Rightarrow> None
      | Some v \<Rightarrow> lookup_row outpoint_key (nc_btc_txid c, v) (d_outpoints d))"

definition view_status :: "cell_db \<Rightarrow> observation_row option \<Rightarrow> string" where
  "view_status c o' =
     (if cd_consumed_block c \<noteq> None then ''spent''
      else case o' of
        None \<Rightarrow> ''live''
      | Some r \<Rightarrow>
        if ob_invalidated_at r = None \<and> ob_status r \<in> {''spent_unconfirmed'', ''spent_confirmed''}
        then ''pending_ckb'' else ''live'')"

definition cell_status_row :: "db \<Rightarrow> cell_db \<Rightarrow> cell_row" where
  "cell_status_row d c = (let o' = binding_observation d c in
     \<lparr> cr_tx_hash = nc_tx_hash c, cr_index = nc_index c,
       cr_lock_kind = lock_kind_as_str (nc_lock_kind c), cr_btc_txid = nc_btc_txid c,
       cr_btc_vout = nc_btc_vout c, cr_time_after = nc_time_after c,
       cr_target_lock = nc_target_lock c, cr_lock_hash = nc_lock_hash c,
       cr_lock_args = nc_lock_args c, cr_type_hash = nc_type_hash c,
       cr_type_script = nc_type_script c, cr_asset_kind = asset_as_str (nc_asset_kind c),
       cr_udt_amount = nc_udt_amount c, cr_capacity = nc_capacity c,
       cr_cell_data = nc_cell_data c, cr_created_block = nc_block_number c,
       cr_created_tx_index = nc_created_tx_index c, cr_consumed_block = cd_consumed_block c,
       cr_consumed_tx = cd_consumed_tx c, cr_btc_status = map_option ob_status o',
       cr_btc_spender = Option.bind o' ob_spender,
       cr_btc_spent_height = Option.bind o' ob_spent_height,
       cr_btc_observed_at = map_option ob_observed_at o',
       cr_btc_address = Option.bind o' ob_address,
       cr_status = view_status c o' \<rparr>)"

definition cell_status_view :: "db \<Rightarrow> cell_row list" where
  "cell_status_view d = map (cell_status_row d) (d_cells d)"

definition cell_order :: "cell_row \<Rightarrow> int \<times> int \<times> int" where
  "cell_order r = (cr_created_block r, cr_created_tx_index r, cr_index r)"

definition cells_by_btc_outpoints :: "(byte list \<times> int) list \<Rightarrow> bool \<Rightarrow> db \<Rightarrow> cell_row list" where
  "cells_by_btc_outpoints ops include_spent d =
     sort_key cell_order (filter (\<lambda>r.
        (case cr_btc_vout r of None \<Rightarrow> False | Some v \<Rightarrow> (cr_btc_txid r, v) \<in> set ops) \<and>
        (include_spent \<or> cr_consumed_block r = None)) (cell_status_view d))"

definition cells_by_btc_txid :: "byte list \<Rightarrow> db \<Rightarrow> cell_row list" where
  "cells_by_btc_txid txid d =
     sort_key cell_order (filter (\<lambda>r. cr_btc_txid r = txid) (cell_status_view d))"

definition cell_by_out_point :: "byte list \<Rightarrow> int \<Rightarrow> db \<Rightarrow> cell_row option" where
  "cell_by_out_point h i d = find (\<lambda>r. cr_tx_hash r = h \<and> cr_index r = i) (cell_status_view d)"

definition cells_consumed_by :: "byte list \<Rightarrow> db \<Rightarrow> cell_row list" where
  "cells_consumed_by h d =
     sort_key cr_index (filter (\<lambda>r. cr_consumed_tx r = Some h) (cell_status_view d))"

definition cell_exists :: "byte list \<Rightarrow> int \<Rightarrow> db \<Rightarrow> bool" where
  "cell_exists h i d = (lookup_row cell_key (h, i) (d_cells d) \<noteq> None)"

text \<open>The sweeper's work list: the outpoints of live cells past a keyset cursor.\<close>

definition live_binding :: "cell_db \<Rightarrow> (byte list \<times> int) option" where
  "live_binding c =
     (if cd_consumed_block c = None then map_option (\<lambda>v. (nc_btc_txid c, v)) (nc_btc_vout c) else None)"

definition live_bound_outpoints_after ::
  "byte list option \<Rightarrow> int \<Rightarrow> int \<Rightarrow> db \<Rightarrow> (byte list \<times> int) list" where
  "live_bound_outpoints_after after_txid after_vout limit d =
     limit_rows limit (distinct_sorted (filter (\<lambda>op.
        case after_txid of None \<Rightarrow> True | Some t \<Rightarrow> op > (t, after_vout))
       (List.map_filter live_binding (d_cells d))))"

end
