(* ===== verification/Store_Btc.thy ===== *)
theory Store_Btc
  imports Store_Ckb
begin

text \<open>
  The Bitcoin side of the store: the observation cache of \<open>crates/store/src/btc.rs\<close>, the
  refresh queue of \<open>queue.rs\<close> and the anomalies of \<open>anomalies.rs\<close>. An
  \<open>INSERT .. SELECT .. ON CONFLICT DO UPDATE\<close> that proposes one key twice is refused by the
  server, and so it is here.
\<close>

section \<open>Observations\<close>

definition coalesce :: "'a option \<Rightarrow> 'a option \<Rightarrow> 'a option" where
  "coalesce a b = (case a of Some x \<Rightarrow> Some x | None \<Rightarrow> b)"

definition get_observation :: "byte list \<Rightarrow> int \<Rightarrow> db \<Rightarrow> observation_row option" where
  "get_observation txid vout d = lookup_row outpoint_key (txid, vout) (d_outpoints d)"

definition get_observations :: "(byte list \<times> int) list \<Rightarrow> db \<Rightarrow> observation_row list" where
  "get_observations ops d = filter (\<lambda>r. outpoint_key r \<in> set ops) (d_outpoints d)"

definition observation_merge :: "observation_row \<Rightarrow> observation_row \<Rightarrow> observation_row" where
  "observation_merge old new = old\<lparr>
     ob_status := ob_status new, ob_spender := ob_spender new, ob_spent_height := ob_spent_height new,
     ob_address := coalesce (ob_address new) (ob_address old),
     ob_source := ob_source new, ob_observed_at := ob_observed_at new, ob_invalidated_at := None \<rparr>"

definition observed_row ::
  "byte list \<Rightarrow> int \<Rightarrow> spend_status \<Rightarrow> string option \<Rightarrow> string \<Rightarrow> int \<Rightarrow> observation_row" where
  "observed_row txid vout status address source now = \<lparr>
     ob_txid = txid, ob_vout = vout, ob_status = status_as_str status,
     ob_spender = map_option to_display_vec (status_spender status),
     ob_spent_height = map_option as_i32 (status_height status),
     ob_address = address, ob_source = source, ob_first_seen_at = now, ob_observed_at = now,
     ob_invalidated_at = None \<rparr>"

text \<open>The result is whether the status string differs from the previous row's.\<close>

definition upsert_observation ::
  "byte list \<Rightarrow> int \<Rightarrow> spend_status \<Rightarrow> string option \<Rightarrow> string \<Rightarrow> int \<Rightarrow> db \<Rightarrow> bool \<times> db" where
  "upsert_observation txid vout status address source now d =
     (map_option ob_status (get_observation txid vout d) \<noteq> Some (status_as_str status),
      d\<lparr> d_outpoints := upsert outpoint_key observation_merge
           (observed_row txid vout status address source now) (d_outpoints d) \<rparr>)"

text \<open>The join yields a row per live cell bound to the outpoint.\<close>

definition pending_ckb_outpoints :: "int \<Rightarrow> db \<Rightarrow> observation_row list" where
  "pending_ckb_outpoints limit d =
     limit_rows limit (sort_key ob_observed_at
       (concat (map (\<lambda>o'. map (\<lambda>c. o')
          (filter (\<lambda>c. nc_btc_txid c = ob_txid o' \<and> nc_btc_vout c = Some (ob_vout o') \<and>
                       cd_consumed_block c = None) (d_cells d)))
        (filter (\<lambda>o'. ob_invalidated_at o' = None \<and>
                      ob_status o' \<in> {''spent_unconfirmed'', ''spent_confirmed''}) (d_outpoints d)))))"

section \<open>Bitcoin transactions\<close>

definition btc_tx_merge :: "btc_tx_row \<Rightarrow> btc_tx_row \<Rightarrow> btc_tx_row" where
  "btc_tx_merge old new = new\<lparr> bt_fee := coalesce (bt_fee new) (bt_fee old) \<rparr>"

definition upsert_btc_tx ::
  "byte list \<Rightarrow> int option \<Rightarrow> byte list option \<Rightarrow> int option \<Rightarrow> byte list option \<Rightarrow> int \<Rightarrow> int \<Rightarrow>
   int option \<Rightarrow> string \<Rightarrow> int \<Rightarrow> db \<Rightarrow> db" where
  "upsert_btc_tx txid height block_hash block_time commitment input_count output_count fee source now d =
     d\<lparr> d_txs := upsert bt_txid btc_tx_merge
       \<lparr> bt_txid = txid, bt_block_height = height, bt_block_hash = block_hash, bt_block_time = block_time,
         bt_commitment = commitment, bt_input_count = input_count, bt_output_count = output_count,
         bt_fee = fee, bt_source = source, bt_observed_at = now, bt_invalidated_at = None \<rparr> (d_txs d) \<rparr>"

section \<open>Addresses\<close>

definition bound_cell :: "db \<Rightarrow> byte list \<times> int \<Rightarrow> bool" where
  "bound_cell d op = list_ex (\<lambda>c. nc_btc_txid c = fst op \<and> nc_btc_vout c = Some (snd op)) (d_cells d)"

text \<open>The row an address label proposes: an \<open>unknown\<close> status with the default timestamps.\<close>

definition label_row :: "string \<Rightarrow> int \<Rightarrow> (byte list \<times> int) \<times> string \<Rightarrow> observation_row" where
  "label_row source now l = \<lparr>
     ob_txid = fst (fst l), ob_vout = snd (fst l), ob_status = ''unknown'', ob_spender = None,
     ob_spent_height = None, ob_address = Some (snd l), ob_source = source, ob_first_seen_at = now,
     ob_observed_at = now, ob_invalidated_at = None \<rparr>"

definition label_merge :: "observation_row \<Rightarrow> observation_row \<Rightarrow> observation_row" where
  "label_merge old new = old\<lparr> ob_address := ob_address new \<rparr>"

definition label_outpoints ::
  "string \<Rightarrow> ((byte list \<times> int) \<times> string) list \<Rightarrow> int \<Rightarrow> db \<Rightarrow> string + (nat \<times> db)" where
  "label_outpoints source labels now d =
     (let rows = map (label_row source now) (filter (\<lambda>l. bound_cell d (fst l)) labels)
      in if distinct (map outpoint_key rows)
         then Inr (length rows, d\<lparr> d_outpoints := fold (upsert outpoint_key label_merge) rows (d_outpoints d) \<rparr>)
         else Inl ''ON CONFLICT DO UPDATE command cannot affect row a second time'')"

definition record_binding_addresses ::
  "env \<Rightarrow> byte list \<Rightarrow> (int \<times> string) list \<Rightarrow> (store_error, nat) io" where
  "record_binding_addresses e txid outputs =
     (if outputs = [] then io_ret 0
      else sql_res e (label_outpoints ''funding-tx'' (map (\<lambda>(v, a). ((txid, v), a)) outputs)))"

definition record_outpoint_addresses ::
  "env \<Rightarrow> (byte list \<times> int) list \<Rightarrow> string \<Rightarrow> (store_error, nat) io" where
  "record_outpoint_addresses e ops address =
     (if ops = [] then io_ret 0
      else sql_res e (label_outpoints ''address-lookup'' (map (\<lambda>op. (op, address)) ops)))"

definition missing_address :: "db \<Rightarrow> cell_db \<Rightarrow> bool" where
  "missing_address d c \<longleftrightarrow>
     nc_btc_vout c \<noteq> None \<and>
     (case binding_observation d c of None \<Rightarrow> True | Some r \<Rightarrow> ob_address r = None)"

definition funding_txids_missing_address :: "byte list option \<Rightarrow> int \<Rightarrow> db \<Rightarrow> byte list list" where
  "funding_txids_missing_address after limit d =
     limit_rows limit (distinct_sorted (filter (\<lambda>t. case after of None \<Rightarrow> True | Some a \<Rightarrow> t > a)
       (map nc_btc_txid (filter (missing_address d) (d_cells d)))))"

definition bindings_missing_address :: "db \<Rightarrow> nat" where
  "bindings_missing_address d = affected (missing_address d) (d_cells d)"

definition live_bound_outpoints_for_address :: "string \<Rightarrow> db \<Rightarrow> (byte list \<times> int) list" where
  "live_bound_outpoints_for_address address d =
     distinct_sorted (List.map_filter live_binding
       (filter (\<lambda>c. case binding_observation d c of None \<Rightarrow> False | Some r \<Rightarrow> ob_address r = Some address)
         (d_cells d)))"

section \<open>The refresh queue\<close>

definition ON_DEMAND :: int where "ON_DEMAND = 10"
definition PENDING_FOLLOW_UP :: int where "PENDING_FOLLOW_UP = 50"
definition SWEEP :: int where "SWEEP = 100"

definition queue_key :: "queue_row \<Rightarrow> byte list \<times> int" where
  "queue_key q = (qi_txid q, qi_vout q)"

definition fresh_entry :: "byte list \<times> int \<Rightarrow> string \<Rightarrow> int \<Rightarrow> int \<Rightarrow> queue_row" where
  "fresh_entry op reason priority now = \<lparr>
     qi_txid = fst op, qi_vout = snd op, qi_reason = reason, qi_priority = priority, qi_attempts = 0,
     qr_last_error = None, qr_requested_at = now, qr_next_attempt_at = now \<rparr>"

definition promote :: "queue_row \<Rightarrow> queue_row \<Rightarrow> queue_row" where
  "promote old new = old\<lparr>
     qi_priority := min (qi_priority old) (qi_priority new),
     qr_next_attempt_at := min (qr_next_attempt_at old) (qr_next_attempt_at new) \<rparr>"

definition promote_reason :: "queue_row \<Rightarrow> queue_row \<Rightarrow> queue_row" where
  "promote_reason old new = (promote old new)\<lparr> qi_reason := qi_reason new \<rparr>"

definition enqueue_refresh :: "byte list \<Rightarrow> int \<Rightarrow> string \<Rightarrow> int \<Rightarrow> int \<Rightarrow> db \<Rightarrow> db" where
  "enqueue_refresh txid vout reason priority now d = d\<lparr>
     d_queue := upsert queue_key promote_reason (fresh_entry (txid, vout) reason priority now) (d_queue d) \<rparr>"

definition enqueue_rows ::
  "(byte list \<times> int) list \<Rightarrow> string \<Rightarrow> int \<Rightarrow> int \<Rightarrow> db \<Rightarrow> string + (nat \<times> db)" where
  "enqueue_rows ops reason priority now d =
     (if distinct ops
      then Inr (length ops, d\<lparr> d_queue := fold (upsert queue_key promote)
             (map (\<lambda>op. fresh_entry op reason priority now) ops) (d_queue d) \<rparr>)
      else Inl ''ON CONFLICT DO UPDATE command cannot affect row a second time'')"

definition enqueue_refresh_many ::
  "env \<Rightarrow> (byte list \<times> int) list \<Rightarrow> string \<Rightarrow> int \<Rightarrow> (store_error, nat) io" where
  "enqueue_refresh_many e ops reason priority =
     (if ops = [] then io_ret 0 else sql_res e (enqueue_rows ops reason priority))"

text \<open>\<open>now() + make_interval(secs => LEAST(300, POWER(2, attempts + 1)))\<close>.\<close>

definition backoff :: "int \<Rightarrow> int" where
  "backoff attempts = min 300 (2 ^ nat (attempts + 1)) * 1000000"

definition due_batch :: "int \<Rightarrow> int \<Rightarrow> queue_row list \<Rightarrow> queue_row list" where
  "due_batch limit now queue =
     limit_rows limit (sort_key (\<lambda>q. (qi_priority q, qr_next_attempt_at q))
       (filter (\<lambda>q. qr_next_attempt_at q \<le> now) queue))"

definition claim_row :: "int \<Rightarrow> queue_row \<Rightarrow> queue_row" where
  "claim_row now q = q\<lparr>
     qi_attempts := qi_attempts q + 1, qr_next_attempt_at := now + backoff (qi_attempts q) \<rparr>"

text \<open>The rows come back as claimed; the server fixes no order for \<open>RETURNING\<close>.\<close>

definition claim_refresh_batch :: "int \<Rightarrow> int \<Rightarrow> db \<Rightarrow> queue_item list \<times> db" where
  "claim_refresh_batch limit now d =
     (let picked = due_batch limit now (d_queue d) in
      (map (\<lambda>q. queue_item.truncate (claim_row now q)) picked,
       d\<lparr> d_queue := update_where (\<lambda>q. queue_key q \<in> set (map queue_key picked)) (claim_row now) (d_queue d) \<rparr>))"

definition complete_refresh :: "byte list \<Rightarrow> int \<Rightarrow> db \<Rightarrow> db" where
  "complete_refresh txid vout d = d\<lparr>
     d_queue := delete_where (\<lambda>q. queue_key q = (txid, vout)) (d_queue d) \<rparr>"

definition fail_refresh :: "byte list \<Rightarrow> int \<Rightarrow> string \<Rightarrow> db \<Rightarrow> db" where
  "fail_refresh txid vout err d = d\<lparr>
     d_queue := update_where (\<lambda>q. queue_key q = (txid, vout)) (\<lambda>q. q\<lparr> qr_last_error := Some err \<rparr>) (d_queue d) \<rparr>"

definition drop_exhausted_refreshes :: "int \<Rightarrow> db \<Rightarrow> queue_item list \<times> db" where
  "drop_exhausted_refreshes max_attempts d =
     (map queue_item.truncate (filter (\<lambda>q. qi_attempts q \<ge> max_attempts) (d_queue d)),
      d\<lparr> d_queue := delete_where (\<lambda>q. qi_attempts q \<ge> max_attempts) (d_queue d) \<rparr>)"

definition refresh_queue_depth :: "db \<Rightarrow> nat" where
  "refresh_queue_depth d = length (d_queue d)"

section \<open>Anomalies\<close>

definition dedup_key :: "anomaly_kind \<Rightarrow> string \<Rightarrow> string" where
  "dedup_key kind subject = anomaly_as_str kind @ '':'' @ subject"

definition anomaly_merge :: "anomaly_row \<Rightarrow> anomaly_row \<Rightarrow> anomaly_row" where
  "anomaly_merge old new = old\<lparr>
     an_detail := an_detail new, an_last_seen_at := an_last_seen_at new, an_resolved_at := None \<rparr>"

text \<open>The sequence behind \<open>BIGSERIAL\<close> advances also when the insert turns into an update.\<close>

definition record_anomaly ::
  "anomaly_kind \<Rightarrow> string \<Rightarrow> byte list option \<Rightarrow> int option \<Rightarrow> byte list option \<Rightarrow> int option \<Rightarrow> json \<Rightarrow>
   int \<Rightarrow> db \<Rightarrow> db" where
  "record_anomaly kind key btc_txid btc_vout ckb_tx ckb_index detail now d = d\<lparr>
     d_anomaly_seq := d_anomaly_seq d + 1,
     d_anomalies := upsert an_dedup_key anomaly_merge
       \<lparr> an_id = d_anomaly_seq d, an_kind = anomaly_as_str kind, an_dedup_key = key,
         an_btc_txid = btc_txid, an_btc_vout = btc_vout, an_ckb_tx = ckb_tx, an_ckb_index = ckb_index,
         an_detail = detail, an_detected_at = now, an_last_seen_at = now, an_resolved_at = None \<rparr>
       (d_anomalies d) \<rparr>"

definition resolve_where :: "(anomaly_row \<Rightarrow> bool) \<Rightarrow> int \<Rightarrow> db \<Rightarrow> nat \<times> db" where
  "resolve_where p now d =
     (let q = (\<lambda>a. an_resolved_at a = None \<and> p a) in
      (affected q (d_anomalies d),
       d\<lparr> d_anomalies := update_where q (\<lambda>a. a\<lparr> an_resolved_at := Some now \<rparr>) (d_anomalies d) \<rparr>))"

definition resolve_anomaly :: "string \<Rightarrow> int \<Rightarrow> db \<Rightarrow> bool \<times> db" where
  "resolve_anomaly key now d =
     (case resolve_where (\<lambda>a. an_dedup_key a = key) now d of (n, d') \<Rightarrow> (n > 0, d'))"

definition resolve_anomalies_for_outpoint :: "byte list \<Rightarrow> int \<Rightarrow> int \<Rightarrow> db \<Rightarrow> nat \<times> db" where
  "resolve_anomalies_for_outpoint txid vout now d =
     resolve_where (\<lambda>a. an_btc_txid a = Some txid \<and> an_btc_vout a = Some vout) now d"

definition list_anomalies :: "string option \<Rightarrow> bool \<Rightarrow> int \<Rightarrow> db \<Rightarrow> anomaly_row list" where
  "list_anomalies kind include_resolved limit d =
     limit_rows limit (sort_key (\<lambda>a. - an_last_seen_at a)
       (filter (\<lambda>a. (case kind of None \<Rightarrow> True | Some k \<Rightarrow> an_kind a = k) \<and>
                    (include_resolved \<or> an_resolved_at a = None)) (d_anomalies d)))"

definition open_anomaly_count :: "db \<Rightarrow> nat" where
  "open_anomaly_count d = affected (\<lambda>a. an_resolved_at a = None) (d_anomalies d)"

end
