(* ===== verification/Store_Ckb_Props.thy ===== *)
theory Store_Ckb_Props
  imports Store_Ckb
begin

text \<open>
  What the CKB side of the store guarantees: its tables instantiate the table interfaces,
  \<open>apply_batch\<close> is atomic, keeps primary keys unique, lands every spend of a known cell,
  also of one created in the same round, and can be replayed; the status column of the
  view is the derived status; the sweeper's pages are complete.
\<close>

section \<open>The tables\<close>

interpretation cells_table: last_wins_table cell_key cell_merge
  by unfold_locales (simp_all add: cell_key_def cell_merge_def)

interpretation transitions_table: last_wins_table transition_key transition_merge
  by unfold_locales (simp_all add: transition_key_def transition_merge_def)

interpretation blocks_table: replayable_table bk_number block_merge
  by unfold_locales (auto simp: block_merge_def)

interpretation streams_table: replayable_table st_stream keep_old
  by unfold_locales (simp_all add: keep_old_def)

text \<open>Uniqueness of the primary keys of the CKB tables.\<close>

definition ckb_keys_ok :: "db \<Rightarrow> bool" where
  "ckb_keys_ok d \<longleftrightarrow> distinct (map cell_key (d_cells d)) \<and>
     distinct (map transition_key (d_transitions d)) \<and>
     distinct (map bk_number (d_blocks d)) \<and> distinct (map st_stream (d_streams d))"

lemma fresh_cell_sel [simp]:
  "nc_tx_hash (fresh_cell now c) = nc_tx_hash c" "nc_index (fresh_cell now c) = nc_index c"
  "cd_consumed_block (fresh_cell now c) = None"
  by (simp_all add: fresh_cell_def new_cell.defs)

lemma spend_cell_key [simp]: "cell_key (spend_cell s now c) = cell_key c"
  by (simp add: spend_cell_def cell_key_def)

section \<open>The effect of a round\<close>

definition batch_effect :: "index_batch \<Rightarrow> int \<Rightarrow> db \<Rightarrow> db" where
  "batch_effect b at d =
     publish_checkpoint b at
       (fold (\<lambda>t. insert_transition t at) (ib_transitions b)
       (fold (\<lambda>s d. snd (apply_spend s at d)) (ib_spends b)
       (fold (\<lambda>c. insert_cell c at) (ib_cells b)
       (fold (\<lambda>k. upsert_block_in k at) (ib_blocks b) d))))"

fun spend_rows :: "cell_spend list \<Rightarrow> cell_db list \<Rightarrow> nat" where
  "spend_rows [] cells = 0"
| "spend_rows (s # ss) cells = affected (spend_matches s) cells + spend_rows ss cells"

lemma execute_at_Inr:
  "execute_at e at f w = (Inr x, w') \<Longrightarrow> w_db w' = f at (w_db w)"
  by (auto simp: execute_at_def execute_def sql_Inr)

lemma io_for_execute_at:
  "io_for xs n (\<lambda>x n. io_bind (execute_at e at (f x)) (\<lambda>_. io_ret (Suc n))) w = (Inr m, w') \<Longrightarrow>
   m = n + length xs \<and> w_db w' = fold (\<lambda>x. f x at) xs (w_db w)"
proof (induction xs arbitrary: n w)
  case (Cons x xs)
  from Cons.prems obtain w1 where
    "execute_at e at (f x) w = (Inr (), w1)"
    "io_for xs (Suc n) (\<lambda>x n. io_bind (execute_at e at (f x)) (\<lambda>_. io_ret (Suc n))) w1 = (Inr m, w')"
    by (auto simp: io_bind_Inr)
  from Cons.IH [OF this(2)] execute_at_Inr [OF this(1)] show ?case by simp
qed simp

lemma spend_matches_update: "spend_matches s (spend_cell s' at r) = spend_matches s r"
  by (simp add: spend_matches_def spend_cell_def)

lemma spend_rows_update:
  "spend_rows ss (update_where (spend_matches s) (spend_cell s at) cells) = spend_rows ss cells"
proof (induction ss)
  case (Cons s' ss)
  have "affected (spend_matches s') (update_where (spend_matches s) (spend_cell s at) cells)
      = affected (spend_matches s') cells"
    by (induction cells) (auto simp: affected_def update_where_def spend_matches_update)
  with Cons show ?case by simp
qed simp

lemma io_for_spends:
  "io_for ss n (\<lambda>s n. io_bind (sql e (\<lambda>_. apply_spend s at)) (\<lambda>rows. io_ret (n + rows))) w = (Inr m, w') \<Longrightarrow>
   m = n + spend_rows ss (d_cells (w_db w)) \<and>
   w_db w' = fold (\<lambda>s d. snd (apply_spend s at d)) ss (w_db w)"
proof (induction ss arbitrary: n w)
  case (Cons s ss)
  let ?b = "\<lambda>s n. io_bind (sql e (\<lambda>_. apply_spend s at)) (\<lambda>rows. io_ret (n + rows))"
  from Cons.prems obtain rows w1 where step: "sql e (\<lambda>_. apply_spend s at) w = (Inr rows, w1)"
    and rest: "io_for ss (n + rows) ?b w1 = (Inr m, w')"
    by (auto simp: io_bind_Inr)
  from step have "rows = affected (spend_matches s) (d_cells (w_db w))"
    and "w_db w1 = snd (apply_spend s at (w_db w))"
    by (auto simp: sql_Inr apply_spend_def)
  with Cons.IH [OF rest] show ?case
    by (simp add: apply_spend_def spend_rows_update)
qed simp

lemma fold_upsert_blocks:
  "fold (\<lambda>k. upsert_block_in k at) bs d =
   d\<lparr> d_blocks := fold (upsert bk_number block_merge) (map (fresh_block at) bs) (d_blocks d) \<rparr>"
  by (induction bs arbitrary: d) (simp_all add: upsert_block_in_def)

lemma fold_insert_cells:
  "fold (\<lambda>c. insert_cell c at) cs d =
   d\<lparr> d_cells := fold (upsert cell_key cell_merge) (map (fresh_cell at) cs) (d_cells d) \<rparr>"
  by (induction cs arbitrary: d) (simp_all add: insert_cell_def)

lemma fold_insert_transitions:
  "fold (\<lambda>t. insert_transition t at) ts d =
   d\<lparr> d_transitions := fold (upsert transition_key transition_merge) (map (fresh_transition at) ts) (d_transitions d) \<rparr>"
  by (induction ts arbitrary: d) (simp_all add: insert_transition_def)

text \<open>What the spends of a round do to one row: the last one that names it wins.\<close>

definition spend_row :: "int \<Rightarrow> cell_spend list \<Rightarrow> cell_db \<Rightarrow> cell_db" where
  "spend_row at ss = fold (\<lambda>s r. if spend_matches s r then spend_cell s at r else r) ss"

lemma fold_apply_spends:
  "fold (\<lambda>s d. snd (apply_spend s at d)) ss d = d\<lparr> d_cells := map (spend_row at ss) (d_cells d) \<rparr>"
  by (induction ss arbitrary: d) (simp_all add: apply_spend_def update_where_def spend_row_def comp_def)

lemma batch_effect_sel:
  "d_blocks (batch_effect b at d) =
     fold (upsert bk_number block_merge) (map (fresh_block at) (ib_blocks b)) (d_blocks d)"
  "d_cells (batch_effect b at d) = map (spend_row at (ib_spends b))
     (fold (upsert cell_key cell_merge) (map (fresh_cell at) (ib_cells b)) (d_cells d))"
  "d_transitions (batch_effect b at d) =
     fold (upsert transition_key transition_merge) (map (fresh_transition at) (ib_transitions b))
       (d_transitions d)"
  "d_streams (batch_effect b at d) = d_streams (publish_checkpoint b at d)"
  "d_outpoints (batch_effect b at d) = d_outpoints d" "d_txs (batch_effect b at d) = d_txs d"
  "d_queue (batch_effect b at d) = d_queue d" "d_anomalies (batch_effect b at d) = d_anomalies d"
  "d_sweeps (batch_effect b at d) = d_sweeps d"
  by (simp_all add: batch_effect_def publish_checkpoint_def fold_upsert_blocks fold_insert_cells
      fold_apply_spends fold_insert_transitions)

text \<open>A round either happened as a whole or not at all, and reports what it wrote.\<close>

lemma apply_batch_Inr:
  assumes "apply_batch e b w = (Inr st, w')"
  shows "w_db w' = batch_effect b (e_now e (w_tick w)) (w_db w)"
    and "as_blocks st = length (ib_blocks b)" "as_cells st = length (ib_cells b)"
    and "as_transitions st = length (ib_transitions b)"
    and "as_spends st = spend_rows (ib_spends b)
          (d_cells (fold (\<lambda>c. insert_cell c (e_now e (w_tick w))) (ib_cells b) (w_db w)))"
proof -
  let ?at = "e_now e (w_tick w)"
  from transaction_Inr [OF assms [unfolded apply_batch_def]]
  obtain w0 w1 where w0: "w_db w0 = w_db w" and w': "w_db w' = w_db w1"
    and body: "apply_batch_in e b ?at w0 = (Inr st, w1)"
    by (elim exE conjE)
  from body obtain n1 v1 n2 v2 n3 v3 n4 v4 where
    s1: "io_for (ib_blocks b) 0
      (\<lambda>x n. io_bind (execute_at e ?at (upsert_block_in x)) (\<lambda>_. io_ret (Suc n))) w0 = (Inr n1, v1)" and
    s2: "io_for (ib_cells b) 0
      (\<lambda>x n. io_bind (execute_at e ?at (insert_cell x)) (\<lambda>_. io_ret (Suc n))) v1 = (Inr n2, v2)" and
    s3: "io_for (ib_spends b) 0
      (\<lambda>s n. io_bind (sql e (\<lambda>_. apply_spend s ?at)) (\<lambda>rows. io_ret (n + rows))) v2 = (Inr n3, v3)" and
    s4: "io_for (ib_transitions b) 0
      (\<lambda>x n. io_bind (execute_at e ?at (insert_transition x)) (\<lambda>_. io_ret (Suc n))) v3 = (Inr n4, v4)" and
    s5: "execute_at e ?at (publish_checkpoint b) v4 = (Inr (), w1)" and
    st: "st = \<lparr> as_blocks = n1, as_cells = n2, as_spends = n3, as_transitions = n4 \<rparr>"
    by (auto simp: apply_batch_in_def io_bind_Inr)
  note e1 = io_for_execute_at [OF s1] and e2 = io_for_execute_at [OF s2]
    and e3 = io_for_spends [OF s3] and e4 = io_for_execute_at [OF s4] and e5 = execute_at_Inr [OF s5]
  show "w_db w' = batch_effect b ?at (w_db w)"
    using e1 e2 e3 e4 e5 w0 w' by (simp add: batch_effect_def)
  show "as_blocks st = length (ib_blocks b)" "as_cells st = length (ib_cells b)"
    "as_transitions st = length (ib_transitions b)"
    using e1 e2 e4 st by simp_all
  show "as_spends st = spend_rows (ib_spends b)
          (d_cells (fold (\<lambda>c. insert_cell c ?at) (ib_cells b) (w_db w)))"
    using e1 e2 e3 st w0 by (simp add: fold_upsert_blocks fold_insert_cells)
qed

lemma apply_batch_Inl: "apply_batch e b w = (Inl err, w') \<Longrightarrow> w_db w' = w_db w"
  unfolding apply_batch_def by (rule transaction_Inl)

section \<open>Keys, spends and replays\<close>

lemma spend_row_key [simp]: "cell_key (spend_row at ss r) = cell_key r"
  by (induction ss arbitrary: r) (simp_all add: spend_row_def)

lemma map_cell_key_spend_row: "map cell_key (map (spend_row at ss) rows) = map cell_key rows"
  by simp

lemma batch_keeps_keys: "ckb_keys_ok d \<Longrightarrow> ckb_keys_ok (batch_effect b at d)"
  unfolding ckb_keys_ok_def batch_effect_sel map_cell_key_spend_row
  by (simp add: cells_table.foldl_upsert_distinct transitions_table.foldl_upsert_distinct
      blocks_table.foldl_upsert_distinct publish_checkpoint_def update_where_keys)

definition spend_key :: "cell_spend \<Rightarrow> byte list \<times> int" where
  "spend_key s = (cs_tx_hash s, cs_index s)"

lemma spend_matches_key: "spend_matches s r \<longleftrightarrow> cell_key r = spend_key s"
  by (auto simp: spend_matches_def cell_key_def spend_key_def)

text \<open>The consumption columns of a row, without the wall-clock one.\<close>

definition consumed_by :: "cell_spend \<Rightarrow> cell_db \<Rightarrow> bool" where
  "consumed_by s r \<longleftrightarrow> cd_consumed_block r = Some (cs_block_number s) \<and>
     cd_consumed_hash r = Some (cs_block_hash s) \<and> cd_consumed_tx r = Some (cs_consumed_tx s) \<and>
     cd_consumed_tx_index r = Some (cs_tx_index s) \<and> cd_consumed_input r = Some (cs_input_index s)"

lemma spend_row_other: "cell_key r \<notin> spend_key ` set ss \<Longrightarrow> spend_row at ss r = r"
  by (induction ss arbitrary: r) (auto simp: spend_row_def spend_matches_key)

lemma spend_row_consumed:
  "distinct (map spend_key ss) \<Longrightarrow> s \<in> set ss \<Longrightarrow> cell_key r = spend_key s \<Longrightarrow>
   consumed_by s (spend_row at ss r)"
proof (induction ss arbitrary: r)
  case (Cons s' ss)
  show ?case
  proof (cases "s = s'")
    case True
    have "spend_row at ss (spend_cell s at r) = spend_cell s at r"
      using Cons.prems True by (intro spend_row_other) auto
    moreover have "spend_row at (s' # ss) r = spend_row at ss (spend_cell s at r)"
      using Cons.prems True by (simp add: spend_row_def spend_matches_key)
    ultimately show ?thesis by (simp add: consumed_by_def spend_cell_def)
  next
    case False
    with Cons.prems have "spend_key s \<noteq> spend_key s'" "s \<in> set ss" by (auto simp: rev_image_eqI)
    with Cons.prems have "spend_row at (s' # ss) r = spend_row at ss r"
      by (simp add: spend_row_def spend_matches_key)
    with Cons \<open>s \<in> set ss\<close> show ?thesis by simp
  qed
qed simp

text \<open>The cells a round knows: those of the table and those it creates.\<close>

definition known_cells :: "index_batch \<Rightarrow> db \<Rightarrow> (byte list \<times> int) set" where
  "known_cells b d = cell_key ` set (d_cells d) \<union> (\<lambda>c. (nc_tx_hash c, nc_index c)) ` set (ib_cells b)"

lemma inserted_keys:
  "cell_key ` set (d_cells (fold (\<lambda>c. insert_cell c at) cs d)) =
   cell_key ` set (d_cells d) \<union> (\<lambda>c. (nc_tx_hash c, nc_index c)) ` set cs"
proof -
  have "cell_key (fresh_cell at c) = (nc_tx_hash c, nc_index c)" for c
    by (simp add: cell_key_def)
  then show ?thesis
    using cells_table.fold_upsert_keys [of "map (fresh_cell at) cs" "d_cells d"]
    by (simp add: fold_insert_cells image_Un image_image Un_commute)
qed

lemma batch_lands_spend:
  assumes "distinct (map spend_key (ib_spends b))" "s \<in> set (ib_spends b)" "spend_key s \<in> known_cells b d"
  shows "\<exists>r \<in> set (d_cells (batch_effect b at d)). cell_key r = spend_key s \<and> consumed_by s r"
proof -
  from assms(3) obtain r where "r \<in> set (d_cells (fold (\<lambda>c. insert_cell c at) (ib_cells b) d))"
    and key: "cell_key r = spend_key s"
    unfolding known_cells_def inserted_keys [of at "ib_cells b" d, symmetric] by auto
  then have "spend_row at (ib_spends b) r \<in> set (d_cells (batch_effect b at d))"
    by (simp add: batch_effect_sel fold_insert_cells)
  moreover have "cell_key (spend_row at (ib_spends b) r) = spend_key s" by (simp add: key)
  ultimately show ?thesis using spend_row_consumed [OF assms(1,2) key] by blast
qed

lemma affected_spend:
  "distinct (map cell_key rows) \<Longrightarrow>
   affected (spend_matches s) rows = (if spend_key s \<in> cell_key ` set rows then 1 else 0)"
proof (induction rows)
  case (Cons r rows)
  then show ?case by (auto simp: affected_def spend_matches_key)
qed (simp add: affected_def)

lemma spend_rows_count:
  "distinct (map cell_key rows) \<Longrightarrow>
   spend_rows ss rows = length (filter (\<lambda>s. spend_key s \<in> cell_key ` set rows) ss)"
  by (induction ss) (simp_all add: affected_spend)

text \<open>Rows are compared without the wall-clock column a replay stamps again.\<close>

definition strip_cell :: "cell_db \<Rightarrow> cell_db" where
  "strip_cell c = c\<lparr> cd_consumed_at := None \<rparr>"

lemma spend_row_snoc:
  "spend_row at (ss @ [s]) r =
     (if spend_matches s r then spend_cell s at (spend_row at ss r) else spend_row at ss r)"
proof -
  have "spend_matches s (spend_row at ss r) = spend_matches s r" by (simp add: spend_matches_key)
  then show ?thesis by (simp add: spend_row_def)
qed

lemma spend_cell_again [simp]: "spend_cell s a (spend_cell s' b r) = spend_cell s a r"
  by (simp add: spend_cell_def)

lemma spend_row_last:
  "spend_row at ss r =
     (case find (\<lambda>s. spend_matches s r) (rev ss) of None \<Rightarrow> r | Some s \<Rightarrow> spend_cell s at r)"
proof (induction ss rule: rev_induct)
  case (snoc s ss)
  then show ?case by (auto simp: spend_row_snoc split: option.splits)
qed (simp add: spend_row_def)

lemma strip_spend_row_again:
  "strip_cell (spend_row a ss (spend_row b ss r)) = strip_cell (spend_row b ss r)"
proof -
  have "spend_matches s (spend_cell s' b r) = spend_matches s r" for s s'
    by (simp add: spend_matches_key)
  then show ?thesis
    by (simp add: spend_row_last strip_cell_def split: option.split) (simp add: spend_cell_def)
qed

text \<open>Settled rows: a replayed insert, at whatever time, leaves them alone.\<close>

lemma cell_merge_fresh: "cell_merge r (fresh_cell a c) = cell_merge r (fresh_cell b c)"
  by (simp add: cell_merge_def fresh_cell_def new_cell.defs)

text \<open>
  A later database that kept what an earlier one held: each cell with its content and, once
  consumed, its consumption, and each transition but for its verdict. Cells may have been
  consumed and verdicts set since, and rows may have been added.
\<close>

definition consumption :: "cell_db \<Rightarrow> int option \<times> byte list option \<times> byte list option \<times> int option \<times> int option" where
  "consumption c = (cd_consumed_block c, cd_consumed_hash c, cd_consumed_tx c, cd_consumed_tx_index c, cd_consumed_input c)"

definition kept_since :: "db \<Rightarrow> db \<Rightarrow> bool" where
  "kept_since d d' \<longleftrightarrow>
     (\<forall>c \<in> set (d_cells d). \<exists>c' \<in> set (d_cells d'). new_cell.truncate c' = new_cell.truncate c \<and>
        (cd_consumed_block c \<noteq> None \<longrightarrow> consumption c' = consumption c)) \<and>
     (\<forall>t \<in> set (d_transitions d). \<exists>t' \<in> set (d_transitions d').
        t' = t\<lparr> tr_observed := tr_observed t', tr_commitment_status := tr_commitment_status t' \<rparr>)"

lemma truncate_key: "new_cell.truncate c' = new_cell.truncate c \<Longrightarrow> cell_key c' = cell_key c"
  by (cases c; cases c'; simp add: new_cell.defs cell_key_def)

lemma cell_settled_iff: "cell_merge r n = r \<longleftrightarrow>
    nc_block_number r = nc_block_number n \<and> nc_block_hash r = nc_block_hash n \<and> nc_created_tx_index r = nc_created_tx_index n"
  by (cases r) (auto simp: cell_merge_def)

lemma truncate_settled: "new_cell.truncate c' = new_cell.truncate c \<Longrightarrow> cell_merge c n = c \<Longrightarrow> cell_merge c' n = c'"
  unfolding cell_settled_iff by (cases c; cases c'; simp add: new_cell.defs)

lemma truncate_spend_row: "new_cell.truncate (spend_row at ss r) = new_cell.truncate r"
  by (simp add: spend_row_last spend_cell_def new_cell.defs split: option.split)

lemma last_of_fresh:
  "last_of cell_key k (map (fresh_cell a) cs) = Some n \<Longrightarrow>
   \<exists>n'. last_of cell_key k (map (fresh_cell b) cs) = Some n' \<and> cell_merge r n = cell_merge r n'"
proof (induction cs rule: rev_induct)
  case (snoc c cs)
  have "cell_key (fresh_cell a c) = cell_key (fresh_cell b c)" by (simp add: cell_key_def)
  with snoc show ?case
    by (cases "cell_key (fresh_cell b c) = k") (auto simp: last_of_def intro: cell_merge_fresh)
qed (simp add: last_of_def)

lemma last_of_fresh_transition:
  "last_of transition_key k (map (fresh_transition a) ts) = Some n \<Longrightarrow>
   \<exists>n'. last_of transition_key k (map (fresh_transition b) ts) = Some n' \<and> transition_merge r n = transition_merge r n'"
proof (induction ts rule: rev_induct)
  case (snoc t ts)
  have "transition_key (fresh_transition a t) = transition_key (fresh_transition b t)"
    by (simp add: transition_key_def fresh_transition_def)
  moreover have "transition_merge r (fresh_transition a t) = transition_merge r (fresh_transition b t)"
    by (simp add: transition_merge_def fresh_transition_def)
  ultimately show ?case using snoc
    by (cases "transition_key (fresh_transition b t) = k") (auto simp: last_of_def)
qed (simp add: last_of_def)

lemma replay_inserts_nothing:
  assumes "ckb_keys_ok d2" "kept_since (batch_effect b a d) d2"
  shows "fold (upsert cell_key cell_merge) (map (fresh_cell a') (ib_cells b)) (d_cells d2) = d_cells d2"
proof (rule cells_table.fold_settled)
  show "distinct (map cell_key (d_cells d2))" using assms(1) by (simp add: ckb_keys_ok_def)
  fix k n assume "last_of cell_key k (map (fresh_cell a') (ib_cells b)) = Some n"
  from last_of_fresh [OF this, of a] obtain m where m: "last_of cell_key k (map (fresh_cell a) (ib_cells b)) = Some m"
    and same: "\<And>r. cell_merge r n = cell_merge r m"
    using cell_settled_iff by (metis last_of_fresh \<open>last_of cell_key k (map (fresh_cell a') (ib_cells b)) = Some n\<close> option.inject)
  from cells_table.fold_settles_last [OF m, of "d_cells d"] obtain r
    where r: "r \<in> set (fold (upsert cell_key cell_merge) (map (fresh_cell a) (ib_cells b)) (d_cells d))"
      "cell_key r = k" "cell_merge r m = r" by blast
  then have "spend_row a (ib_spends b) r \<in> set (d_cells (batch_effect b a d))" by (simp add: batch_effect_sel)
  with assms(2) obtain c' where "c' \<in> set (d_cells d2)" "new_cell.truncate c' = new_cell.truncate r"
    unfolding kept_since_def by (metis truncate_spend_row)
  with r(2,3) truncate_key truncate_settled same show "\<exists>r \<in> set (d_cells d2). cell_key r = k \<and> cell_merge r n = r"
    by metis
qed

lemma replay_transitions_nothing:
  assumes "ckb_keys_ok d2" "kept_since (batch_effect b a d) d2"
  shows "fold (upsert transition_key transition_merge) (map (fresh_transition a') (ib_transitions b)) (d_transitions d2) =
    d_transitions d2"
proof (rule transitions_table.fold_settled)
  show "distinct (map transition_key (d_transitions d2))" using assms(1) by (simp add: ckb_keys_ok_def)
  fix k n assume n: "last_of transition_key k (map (fresh_transition a') (ib_transitions b)) = Some n"
  from last_of_fresh_transition [OF n, of a] obtain m
    where m: "last_of transition_key k (map (fresh_transition a) (ib_transitions b)) = Some m"
    and same: "\<And>r. transition_merge r n = transition_merge r m"
    by (metis last_of_fresh_transition n option.inject)
  from transitions_table.fold_settles_last [OF m, of "d_transitions d"] obtain t
    where t: "t \<in> set (d_transitions (batch_effect b a d))" "transition_key t = k" "transition_merge t m = t"
    by (auto simp: batch_effect_sel)
  with assms(2) obtain t' where t': "t' \<in> set (d_transitions d2)"
    "t' = t\<lparr> tr_observed := tr_observed t', tr_commitment_status := tr_commitment_status t' \<rparr>"
    unfolding kept_since_def by blast
  have "transition_key t' = k" using t'(2) t(2) by (cases t; cases t'; simp add: transition_key_def)
  moreover have "transition_merge t' m = t'"
    using t'(2) t(3) by (cases t; cases t'; cases m; simp add: transition_merge_def)
  ultimately show "\<exists>r \<in> set (d_transitions d2). transition_key r = k \<and> transition_merge r n = r"
    using t'(1) same by metis
qed

text \<open>A spend that a row carries already changes only its time.\<close>

lemma spend_again:
  assumes "find (\<lambda>s. spend_matches s r) (rev ss) = Some s" "consumption r = consumption (spend_cell s a r0)"
  shows "strip_cell (spend_row a' ss r) = strip_cell r"
  using assms by (simp add: spend_row_last) (simp add: strip_cell_def spend_cell_def consumption_def)

lemma replay_spend:
  assumes keys: "ckb_keys_ok d2" and kept: "kept_since (batch_effect b a d) d2" and r: "r \<in> set (d_cells d2)"
    and known: "cell_key r \<in> known_cells b d \<or> cell_key r \<notin> spend_key ` set (ib_spends b)"
  shows "strip_cell (spend_row a' (ib_spends b) r) = strip_cell r"
proof (cases "find (\<lambda>s. spend_matches s r) (rev (ib_spends b))")
  case None
  then show ?thesis by (simp add: spend_row_last)
next
  case (Some s)
  then have s: "s \<in> set (ib_spends b)" "cell_key r = spend_key s"
    by (auto simp: find_Some_iff spend_matches_key in_set_conv_nth) (metis length_rev nth_mem set_rev in_set_conv_nth)
  with known have "cell_key r \<in> known_cells b d" by auto
  then obtain c where c: "c \<in> set (d_cells (fold (\<lambda>c. insert_cell c a) (ib_cells b) d))" "cell_key c = cell_key r"
    unfolding known_cells_def inserted_keys [of a "ib_cells b" d, symmetric] by auto
  have row: "spend_row a (ib_spends b) c = spend_cell s a c"
    using Some c(2) by (simp add: spend_row_last spend_matches_key)
  have "spend_cell s a c \<in> set (d_cells (batch_effect b a d))"
    using c(1) unfolding row [symmetric] by (simp add: batch_effect_sel fold_insert_cells)
  with kept obtain c' where c': "c' \<in> set (d_cells d2)" "new_cell.truncate c' = new_cell.truncate (spend_cell s a c)"
    "consumption c' = consumption (spend_cell s a c)"
    unfolding kept_since_def by (fastforce simp: spend_cell_def)
  have "cell_key c' = cell_key r" using truncate_key [OF c'(2)] c(2) by simp
  then have "c' = r" using keys c'(1) r by (auto simp: ckb_keys_ok_def distinct_map inj_on_def)
  with c'(3) show ?thesis by (intro spend_again [OF Some]) simp
qed

lemma replay_cells:
  assumes "ckb_keys_ok d2" "kept_since (batch_effect b a d) d2"
  shows "list_all2 (\<lambda>r r'. cell_key r \<in> known_cells b d \<or> cell_key r \<notin> spend_key ` set (ib_spends b) \<longrightarrow>
      strip_cell r' = strip_cell r) (d_cells d2) (d_cells (batch_effect b a' d2))"
  unfolding batch_effect_sel(2) replay_inserts_nothing [OF assms]
  using replay_spend [OF assms] by (simp add: list_all2_conv_all_nth)

lemma replay_beside:
  "(batch_effect b a d)\<lparr> d_cells := [], d_transitions := [], d_blocks := [], d_streams := [] \<rparr> =
   d\<lparr> d_cells := [], d_transitions := [], d_blocks := [], d_streams := [] \<rparr>"
  by (simp add: batch_effect_def publish_checkpoint_def fold_upsert_blocks fold_insert_cells
      fold_apply_spends fold_insert_transitions)

section \<open>The derived status\<close>

text \<open>
  Observation rows as the writers leave them: the four status strings, a spender of 32
  bytes exactly when the status is a spent one.
\<close>

definition observation_wf :: "observation_row \<Rightarrow> bool" where
  "observation_wf r \<longleftrightarrow>
     ob_status r \<in> {''unknown'', ''unspent'', ''spent_unconfirmed'', ''spent_confirmed''} \<and>
     (case ob_spender r of None \<Rightarrow> ob_status r \<in> {''unknown'', ''unspent''}
      | Some t \<Rightarrow> length t = 32 \<and> ob_status r \<in> {''spent_unconfirmed'', ''spent_confirmed''})"

text \<open>What Bitcoin last said about a binding: an invalidated row says nothing.\<close>

definition trusted_status :: "observation_row option \<Rightarrow> spend_status" where
  "trusted_status o' =
     (case o' of None \<Rightarrow> Unknown
      | Some r \<Rightarrow> if ob_invalidated_at r \<noteq> None then Unknown
                  else case observation_spend_status r of Inl e \<Rightarrow> Unknown | Inr s \<Rightarrow> s)"

lemma observation_status_spent:
  "observation_wf r \<Longrightarrow> \<exists>s. observation_spend_status r = Inr s \<and>
     (is_spent s \<longleftrightarrow> ob_status r \<in> {''spent_unconfirmed'', ''spent_confirmed''})"
  by (auto simp: observation_wf_def observation_spend_status_def opt_txid_def from_display_slice_def
      split: option.splits)

lemma view_status_derived:
  assumes "case o' of None \<Rightarrow> True | Some r \<Rightarrow> observation_wf r"
  shows "view_status c o' =
     cell_status_as_str (derive_cell_status (cd_consumed_block c \<noteq> None) (trusted_status o'))"
proof (cases o')
  case None
  then show ?thesis by (simp add: view_status_def derive_cell_status_def trusted_status_def)
next
  case (Some r)
  with assms have "observation_wf r" by simp
  with observation_status_spent obtain s where "observation_spend_status r = Inr s"
    "is_spent s \<longleftrightarrow> ob_status r \<in> {''spent_unconfirmed'', ''spent_confirmed''}" by blast
  with Some show ?thesis
    by (auto simp: view_status_def derive_cell_status_def trusted_status_def)
qed

section \<open>The sweeper's pages\<close>

definition live_outpoints :: "db \<Rightarrow> (byte list \<times> int) set" where
  "live_outpoints d = {op. \<exists>c \<in> set (d_cells d). live_binding c = Some op}"

definition after_cursor :: "byte list option \<Rightarrow> int \<Rightarrow> (byte list \<times> int) \<Rightarrow> bool" where
  "after_cursor t v op = (case t of None \<Rightarrow> True | Some t' \<Rightarrow> op > (t', v))"

lemma live_page_set:
  "set (distinct_sorted (filter (\<lambda>op. case t of None \<Rightarrow> True | Some t' \<Rightarrow> op > (t', v))
     (List.map_filter live_binding (d_cells d)))) = {op \<in> live_outpoints d. after_cursor t v op}"
  by (auto simp: live_outpoints_def map_filter_def after_cursor_def image_iff)

lemma take_sorted_closed:
  assumes "sorted_wrt (<) xs" "x \<in> set (take n xs)" "y \<in> set xs" "y < (x :: 'a::linorder)"
  shows "y \<in> set (take n xs)"
proof (rule ccontr)
  assume no: "y \<notin> set (take n xs)"
  have "xs = take n xs @ drop n xs" by simp
  with assms(3) no have "y \<in> set (drop n xs)" by (metis Un_iff set_append)
  moreover have "\<forall>a \<in> set (take n xs). \<forall>b \<in> set (drop n xs). a < b"
    using assms(1) append_take_drop_id [of n xs] by (metis sorted_wrt_append)
  ultimately have "x < y" using assms(2) by blast
  with assms(4) show False by simp
qed

text \<open>
  A page is strictly increasing, holds live outpoints past the cursor, misses none below
  its last element, and misses none at all when it is shorter than the limit.
\<close>

lemma live_page:
  fixes t v limit d
  defines "page \<equiv> live_bound_outpoints_after t v limit d"
  shows "sorted_wrt (<) page"
    and "set page \<subseteq> {op \<in> live_outpoints d. after_cursor t v op}"
    and "x \<in> set page \<Longrightarrow> y \<in> live_outpoints d \<Longrightarrow> after_cursor t v y \<Longrightarrow> y < x \<Longrightarrow> y \<in> set page"
    and "length page < nat limit \<Longrightarrow> set page = {op \<in> live_outpoints d. after_cursor t v op}"
proof -
  let ?all = "distinct_sorted (filter (\<lambda>op. case t of None \<Rightarrow> True | Some t' \<Rightarrow> op > (t', v))
     (List.map_filter live_binding (d_cells d)))"
  have page: "page = take (nat limit) ?all"
    by (simp add: page_def live_bound_outpoints_after_def limit_rows_def)
  have strict: "sorted_wrt (<) ?all" by (rule distinct_sorted_strict)
  note all = live_page_set [where t = t and v = v and d = d]
  show "sorted_wrt (<) page" unfolding page using strict by (rule sorted_wrt_take)
  show "set page \<subseteq> {op \<in> live_outpoints d. after_cursor t v op}"
    unfolding page all [symmetric] by (rule set_take_subset)
  show "y \<in> set page" if "x \<in> set page" "y \<in> live_outpoints d" "after_cursor t v y" "y < x"
    using that take_sorted_closed [OF strict, of x "nat limit" y] unfolding page all by simp
  show "set page = {op \<in> live_outpoints d. after_cursor t v op}" if "length page < nat limit"
    using that unfolding all [symmetric] page by (simp add: min_def split: if_splits)
qed

section \<open>Properties\<close>

text \<open>
  C31. A scan round is atomic under every schedule of database failures: when \<open>apply_batch\<close>
  fails the database is what it was, when it succeeds every block, cell, spend and
  transition of the batch is in, the checkpoint is published, and the counters are those
  of the batch, spends counted by the rows they updated.
\<close>

theorem apply_batch_atomic:
  "case apply_batch e b w of
     (Inl err, w') \<Rightarrow> w_db w' = w_db w
   | (Inr st, w') \<Rightarrow>
       w_db w' = batch_effect b (e_now e (w_tick w)) (w_db w) \<and>
       as_blocks st = length (ib_blocks b) \<and> as_cells st = length (ib_cells b) \<and>
       as_transitions st = length (ib_transitions b) \<and>
       as_spends st = spend_rows (ib_spends b)
         (d_cells (fold (\<lambda>c. insert_cell c (e_now e (w_tick w))) (ib_cells b) (w_db w)))"
proof (cases "apply_batch e b w")
  case (Pair r w')
  show ?thesis
  proof (cases r)
    case (Inl err)
    with Pair show ?thesis using apply_batch_Inl [of e b w err w'] by simp
  next
    case (Inr st)
    with Pair have run: "apply_batch e b w = (Inr st, w')" by simp
    show ?thesis unfolding run using apply_batch_Inr [OF run] by simp
  qed
qed

text \<open>
  Every spend of a cell the index knows lands: after a successful round, the row of a
  cell that the table had, or that the same round created, is consumed by exactly the
  spend that names it.
\<close>

theorem apply_batch_lands_spends:
  assumes "apply_batch e b w = (Inr st, w')"
    and "distinct (map spend_key (ib_spends b))" "s \<in> set (ib_spends b)"
    and "spend_key s \<in> known_cells b (w_db w)"
  shows "\<exists>r \<in> set (d_cells (w_db w')). cell_key r = spend_key s \<and> consumed_by s r"
  unfolding apply_batch_Inr(1) [OF assms(1)] using assms(2-4) by (rule batch_lands_spend)

definition sample_cell :: new_cell where
  "sample_cell = \<lparr> nc_tx_hash = [1], nc_index = 0, nc_lock_kind = KRgbpp, nc_btc_txid = replicate 32 7,
     nc_btc_vout = Some 0, nc_time_after = None, nc_target_lock_hash = None, nc_target_lock = None,
     nc_lock_hash = [], nc_lock_args = [], nc_type_hash = None, nc_type_script = None,
     nc_asset_kind = NoAsset, nc_udt_amount = None, nc_capacity = 100, nc_cell_data = [],
     nc_block_number = 10, nc_block_hash = [10], nc_created_tx_index = 1 \<rparr>"

definition sample_spend :: cell_spend where
  "sample_spend = \<lparr> cs_tx_hash = [1], cs_index = 0, cs_block_number = 11, cs_block_hash = [11],
     cs_consumed_tx = [2], cs_tx_index = 3, cs_input_index = 0 \<rparr>"

text \<open>A round that creates a cell and consumes it.\<close>

definition sample_batch :: index_batch where
  "sample_batch = \<lparr> ib_blocks = [], ib_cells = [sample_cell], ib_spends = [sample_spend],
     ib_transitions = [], ib_checkpoint_number = 11, ib_checkpoint_hash = None, ib_chain_tip = 35,
     ib_target = 11, ib_reorg_lag = 24 \<rparr>"

lemma sample_batch_runs:
  "fst (apply_batch quiet_env sample_batch w) =
     Inr \<lparr> as_blocks = 0, as_cells = 1,
           as_spends = affected (spend_matches sample_spend) (d_cells (insert_cell sample_cell 0 (w_db w))),
           as_transitions = 0 \<rparr>"
  by (simp add: apply_batch_def transaction_def apply_batch_in_def sample_batch_def io_bind_def
      io_ret_def execute_def execute_at_def sql_def apply_spend_def)

lemma apply_batch_lands_spends_witness:
  "\<exists>r \<in> set (d_cells (w_db (snd (apply_batch quiet_env sample_batch (world_of empty_db))))).
     cell_key r = ([1], 0) \<and> consumed_by sample_spend r"
proof -
  obtain st w' where run: "apply_batch quiet_env sample_batch (world_of empty_db) = (Inr st, w')"
    using sample_batch_runs [of "world_of empty_db"]
    by (cases "apply_batch quiet_env sample_batch (world_of empty_db)") auto
  have "\<exists>r \<in> set (d_cells (w_db w')). cell_key r = spend_key sample_spend \<and> consumed_by sample_spend r"
    using run by (rule apply_batch_lands_spends)
      (simp_all add: sample_batch_def known_cells_def spend_key_def sample_spend_def sample_cell_def)
  with run show ?thesis by (simp add: spend_key_def sample_spend_def)
qed


text \<open>A round whose cell is named twice, with a transition that is given its verdict before the replay.\<close>

definition replayed_batch :: index_batch where
  "replayed_batch = sample_batch\<lparr> ib_cells := [sample_cell\<lparr> nc_created_tx_index := 7 \<rparr>, sample_cell],
     ib_transitions := [\<lparr> nt_tx_hash = [2], nt_block_number = 11, nt_block_hash = [11], nt_tx_index = 3,
       nt_timestamp = None, nt_kind = Transfer, nt_btc_txid = Some [9], nt_input_count = 1, nt_output_count = 1,
       nt_expected = None \<rparr>] \<rparr>"


text \<open>
  C33. The status column of the view is the status model: for well-formed observation rows
  it is \<open>derive_cell_status\<close> of the two facts, whether CKB consumed the cell and what
  Bitcoin last said of its binding, an invalidated observation saying nothing.
\<close>

theorem view_status_is_derived:
  assumes "list_all observation_wf (d_outpoints d)"
  shows "cr_status (cell_status_row d c) =
     cell_status_as_str (derive_cell_status (cd_consumed_block c \<noteq> None)
       (trusted_status (binding_observation d c)))"
proof -
  have "case binding_observation d c of None \<Rightarrow> True | Some r \<Rightarrow> observation_wf r"
    using assms lookup_row_key [of outpoint_key _ "d_outpoints d"]
    by (fastforce simp: binding_observation_def list_all_iff split: option.splits)
  then show ?thesis by (simp add: cell_status_row_def Let_def view_status_derived)
qed

lemma view_status_is_derived_witness:
  "cr_status (cell_status_row empty_db (fresh_cell 0 sample_cell)) = ''live''"
  using view_status_is_derived [of empty_db "fresh_cell 0 sample_cell"]
  by (simp add: empty_db_def binding_observation_def trusted_status_def derive_cell_status_def lookup_row_def
      split: option.splits)

text \<open>
  The sweeper's work list is complete page by page: a page is strictly increasing, holds
  only outpoints of live cells past the cursor, leaves out none below its last element, and
  when it is shorter than the limit leaves out none at all.
\<close>

theorem live_pages_complete:
  fixes t v limit d
  defines "page \<equiv> live_bound_outpoints_after t v limit d"
    and "todo \<equiv> {op \<in> live_outpoints d. after_cursor t v op}"
  shows "sorted_wrt (<) page \<and> set page \<subseteq> todo \<and>
     (\<forall>x \<in> set page. {y \<in> todo. y < x} \<subseteq> set page) \<and>
     (length page < nat limit \<longrightarrow> set page = todo)"
  unfolding page_def todo_def 
  using live_page [where t = t and v = v and limit = limit and d = d] by blast

lemma live_pages_complete_witness:
  "live_bound_outpoints_after None (- 1) 5 (empty_db\<lparr> d_cells := [fresh_cell 0 sample_cell] \<rparr>)
     = [(replicate 32 7, 0)]"
proof -
  let ?d = "empty_db\<lparr> d_cells := [fresh_cell 0 sample_cell] \<rparr>"
  let ?p = "live_bound_outpoints_after None (- 1) 5 ?d"
  have todo: "{op \<in> live_outpoints ?d. after_cursor None (- 1) op} = {(replicate 32 7, 0)}"
    by (auto simp: live_outpoints_def after_cursor_def live_binding_def sample_cell_def fresh_cell_def
        new_cell.defs)
  note page = live_pages_complete [where t = None and v = "- 1" and limit = 5 and d = ?d, unfolded todo]
  have "distinct ?p" using page by (simp add: strict_sorted_iff)
  moreover have "set ?p \<subseteq> {(replicate 32 7, 0)}" using page by blast
  ultimately have "length ?p \<le> 1"
    using card_mono [of "{(replicate 32 7 :: byte list, 0 :: int)}" "set ?p"] by (simp add: distinct_card)
  with page have "set ?p = {(replicate 32 7, 0)}" by simp
  with \<open>length ?p \<le> 1\<close> show ?thesis by (cases ?p) auto
qed

end
