(* ===== verification/Store_Btc_Props.thy ===== *)
theory Store_Btc_Props
  imports Store_Btc Store_Ckb_Props
begin

text \<open>
  What the Bitcoin side of the store guarantees: its tables instantiate the table
  interfaces, every writer keeps observation rows well formed, an observation answers what
  was last written, a claim takes the most urgent due work and backs it off, and an anomaly
  has one row however often it is found.
\<close>

section \<open>The tables\<close>

interpretation outpoints_table: pk_table outpoint_key observation_merge
  by unfold_locales (simp add: outpoint_key_def observation_merge_def)

interpretation labels_table: replayable_table outpoint_key label_merge
  by unfold_locales (simp_all add: outpoint_key_def label_merge_def)

interpretation txs_table: pk_table bt_txid btc_tx_merge
  by unfold_locales (simp add: btc_tx_merge_def)

interpretation queue_table: replayable_table queue_key promote
  by unfold_locales (simp_all add: queue_key_def promote_def)

interpretation queue_reason_table: replayable_table queue_key promote_reason
  by unfold_locales (simp_all add: queue_key_def promote_reason_def promote_def)

interpretation anomalies_table: pk_table an_dedup_key anomaly_merge
  by unfold_locales (simp add: anomaly_merge_def)

section \<open>Well-formed observations\<close>

definition observations_ok :: "db \<Rightarrow> bool" where
  "observations_ok d \<longleftrightarrow>
     distinct (map outpoint_key (d_outpoints d)) \<and> list_all observation_wf (d_outpoints d)"

lemma upsert_list_all:
  "list_all P rows \<Longrightarrow> P n \<Longrightarrow> (\<And>r. P r \<Longrightarrow> P (merge r n)) \<Longrightarrow> list_all P (upsert key merge n rows)"
  by (induction rows) auto

lemma fold_upsert_list_all:
  "list_all P rows \<Longrightarrow> list_all P ns \<Longrightarrow> (\<And>r n. P r \<Longrightarrow> n \<in> set ns \<Longrightarrow> P (merge r n)) \<Longrightarrow>
   list_all P (fold (upsert key merge) ns rows)"
  by (induction ns arbitrary: rows) (auto simp: upsert_list_all)

lemma observed_row_wf [simp]: "observation_wf (observed_row txid vout status address source now)"
  by (cases status) (simp_all add: observation_wf_def observed_row_def)

lemma observation_wf_cong:
  "ob_status a = ob_status b \<Longrightarrow> ob_spender a = ob_spender b \<Longrightarrow> observation_wf a = observation_wf b"
  unfolding observation_wf_def by (simp only:)

lemma observation_merge_wf: "observation_wf (observation_merge r n) = observation_wf n"
  by (rule observation_wf_cong) (simp_all add: observation_merge_def)

lemma label_row_wf [simp]: "observation_wf (label_row source now l)"
  by (simp add: observation_wf_def label_row_def)

lemma label_merge_wf: "observation_wf (label_merge r n) = observation_wf r"
  by (rule observation_wf_cong) (simp_all add: label_merge_def)

lemma upsert_observation_ok:
  "observations_ok d \<Longrightarrow> observations_ok (snd (upsert_observation txid vout status address source now d))"
  by (simp add: observations_ok_def upsert_observation_def outpoints_table.upsert_distinct
      upsert_list_all observation_merge_wf)

lemma label_outpoints_ok:
  assumes "observations_ok d" "label_outpoints source labels now d = Inr (n, d')"
  shows "observations_ok d'"
proof -
  let ?rows = "map (label_row source now) (filter (\<lambda>l. bound_cell d (fst l)) labels)"
  have d': "d_outpoints d' = fold (upsert outpoint_key label_merge) ?rows (d_outpoints d)"
    using assms(2) by (auto simp: label_outpoints_def Let_def split: if_splits)
  have "list_all observation_wf ?rows" by (auto simp: list_all_iff)
  with assms(1) show ?thesis
    unfolding observations_ok_def d'
    by (auto simp: labels_table.foldl_upsert_distinct label_merge_wf intro!: fold_upsert_list_all)
qed

section \<open>Reading back an observation\<close>

lemma outpoint_key_observed [simp]:
  "outpoint_key (observed_row txid vout status address source now) = (txid, vout)"
  by (simp add: outpoint_key_def observed_row_def)

lemma get_upsert_observation:
  "get_observation t v (snd (upsert_observation txid vout status address source now d)) =
     (if (t, v) = (txid, vout)
      then Some (case get_observation txid vout d of
                   None \<Rightarrow> observed_row txid vout status address source now
                 | Some r \<Rightarrow> observation_merge r (observed_row txid vout status address source now))
      else get_observation t v d)"
  by (auto simp: get_observation_def upsert_observation_def outpoints_table.lookup_upsert)

lemma as_u32_max_as_i32: "as_i32 h \<ge> 0 \<Longrightarrow> as_u32 (max 0 (as_i32 h)) = h"
  by (simp add: max_def)

lemma spend_status_observed:
  assumes "case status_height status of None \<Rightarrow> True | Some h \<Rightarrow> as_i32 h \<ge> 0"
    and "ob_status r = status_as_str status" "ob_spender r = map_option to_display_vec (status_spender status)"
    and "ob_spent_height r = map_option as_i32 (status_height status)"
  shows "observation_spend_status r = Inr status"
  using assms
  by (cases status) (auto simp: observation_spend_status_def opt_txid_def txid_display.dec_enc as_u32_max_as_i32)

section \<open>The queue\<close>

definition queue_ok :: "db \<Rightarrow> bool" where
  "queue_ok d \<longleftrightarrow> distinct (map queue_key (d_queue d)) \<and> list_all (\<lambda>q. qi_attempts q \<ge> 0) (d_queue d)"

lemma backoff_bounds:
  assumes "a \<ge> 0"
  shows "2000000 \<le> backoff a" "backoff a \<le> 300000000"
proof -
  have "(2 :: int) ^ 1 \<le> 2 ^ nat (a + 1)" using assms by (intro power_increasing) auto
  then show "2000000 \<le> backoff a" "backoff a \<le> 300000000" by (simp_all add: backoff_def)
qed

lemma claim_row_key [simp]: "queue_key (claim_row now q) = queue_key q"
  by (simp add: claim_row_def queue_key_def)

lemma due_batch_props:
  fixes limit now queue
  defines "batch \<equiv> due_batch limit now queue"
  shows "set batch \<subseteq> {q \<in> set queue. qr_next_attempt_at q \<le> now}"
    and "length batch \<le> nat limit"
    and "distinct queue \<Longrightarrow> q \<in> set queue \<Longrightarrow> qr_next_attempt_at q \<le> now \<Longrightarrow> q \<notin> set batch \<Longrightarrow>
      p \<in> set batch \<Longrightarrow> (qi_priority p, qr_next_attempt_at p) \<le> (qi_priority q, qr_next_attempt_at q)"
    and "q \<in> set queue \<Longrightarrow> qr_next_attempt_at q \<le> now \<Longrightarrow> length batch < nat limit \<Longrightarrow> q \<in> set batch"
proof -
  let ?k = "\<lambda>q. (qi_priority q, qr_next_attempt_at q)"
  let ?all = "sort_key ?k (filter (\<lambda>q. qr_next_attempt_at q \<le> now) queue)"
  have batch: "batch = take (nat limit) ?all"
    by (simp add: batch_def due_batch_def limit_rows_def)
  show "set batch \<subseteq> {q \<in> set queue. qr_next_attempt_at q \<le> now}"
    unfolding batch using set_take_subset [of "nat limit" ?all] by auto
  show "length batch \<le> nat limit" by (simp add: batch)
  show "?k p \<le> ?k q" if "q \<in> set queue" "qr_next_attempt_at q \<le> now" "q \<notin> set batch" "p \<in> set batch"
    using that take_sort_key_le [of p "nat limit" ?k "filter (\<lambda>q. qr_next_attempt_at q \<le> now) queue" q]
    unfolding batch by simp
  show "q \<in> set batch" if "q \<in> set queue" "qr_next_attempt_at q \<le> now" "length batch < nat limit"
  proof -
    have "batch = ?all" using that(3) unfolding batch by (simp add: min_def split: if_splits)
    with that show ?thesis by simp
  qed
qed

lemma distinct_keys_inj: "distinct (map key rows) \<Longrightarrow> p \<in> set rows \<Longrightarrow> q \<in> set rows \<Longrightarrow> key p = key q \<Longrightarrow> p = q"
  by (metis distinct_map inj_on_eq_iff)

text \<open>What the claim does to a row of the queue.\<close>

lemma claimed_row:
  assumes "queue_ok d" "claim_refresh_batch limit now d = (items, d')"
  shows "d_queue d' = map (\<lambda>q. if q \<in> set (due_batch limit now (d_queue d)) then claim_row now q else q) (d_queue d)"
proof -
  let ?b = "due_batch limit now (d_queue d)"
  have "queue_key q \<in> queue_key ` set ?b \<longleftrightarrow> q \<in> set ?b" if "q \<in> set (d_queue d)" for q
  proof
    assume "queue_key q \<in> queue_key ` set ?b"
    then obtain p where p: "p \<in> set ?b" "queue_key q = queue_key p" by blast
    then have "p \<in> set (d_queue d)" using due_batch_props(1) [of limit now "d_queue d"] by blast
    then have "q = p"
      using that p(2) assms(1) distinct_keys_inj [of queue_key "d_queue d" q p] by (simp add: queue_ok_def)
    with p show "q \<in> set ?b" by simp
  qed simp
  then show ?thesis
    using assms(2) by (auto simp: claim_refresh_batch_def Let_def update_where_def)
qed

lemma claim_keeps_queue_ok: "queue_ok d \<Longrightarrow> queue_ok (snd (claim_refresh_batch limit now d))"
  by (auto simp: queue_ok_def claim_refresh_batch_def Let_def update_where_keys list_all_iff)
    (auto simp: update_where_def claim_row_def)

section \<open>Two behaviours to know\<close>

text \<open>
  The change flag compares status strings only: when a replacement transaction takes the
  place of the spender in the mempool, the row changes and the flag says it did not.
\<close>

lemma replaced_spender_not_reported:
  "fst (upsert_observation txid vout (SpentUnconfirmed t') address source now'
     (snd (upsert_observation txid vout (SpentUnconfirmed t) address source now d))) = False"
proof -
  let ?d = "snd (upsert_observation txid vout (SpentUnconfirmed t) address source now d)"
  have "map_option ob_status (get_observation txid vout ?d) = Some ''spent_unconfirmed''"
    unfolding get_upsert_observation
    by (simp add: observed_row_def observation_merge_def split: option.split)
  then show ?thesis by (simp add: upsert_observation_def [of _ _ _ _ _ now'])
qed

text \<open>Re-queuing an entry makes it due at once, whatever back-off its last claim set.\<close>

lemma requeue_defeats_backoff:
  "\<exists>q. lookup_row queue_key (txid, vout) (d_queue (enqueue_refresh txid vout reason p now d)) = Some q \<and>
     qr_next_attempt_at q \<le> now"
proof -
  have "queue_key (fresh_entry (txid, vout) reason p now) = (txid, vout)"
    by (simp add: queue_key_def fresh_entry_def)
  then show ?thesis
    by (simp add: enqueue_refresh_def queue_reason_table.lookup_upsert)
      (simp add: promote_reason_def promote_def fresh_entry_def split: option.split)
qed

section \<open>Properties\<close>

text \<open>
  An observation answers what was last written: the row of the outpoint reads back as
  the written status, trusted and stamped now, keeps a known address when the new one
  carries none, no other outpoint changes, and the reported flag is whether the status
  string differs from the previous row's. (Heights fit the signed column.)
\<close>

theorem observation_answers_last_write:
  assumes "case status_height status of None \<Rightarrow> True | Some h \<Rightarrow> as_i32 h \<ge> 0"
    and "upsert_observation txid vout status address source now d = (changed, d')"
  shows "\<exists>r. get_observation txid vout d' = Some r \<and>
      trusted_status (Some r) = status \<and> ob_observed_at r = now \<and>
      ob_address r = coalesce address (Option.bind (get_observation txid vout d) ob_address) \<and>
      (\<forall>t v. (t, v) \<noteq> (txid, vout) \<longrightarrow> get_observation t v d' = get_observation t v d) \<and>
      (changed \<longleftrightarrow> map_option ob_status (get_observation txid vout d) \<noteq> Some (status_as_str status))"
proof -
  let ?n = "observed_row txid vout status address source now"
  let ?old = "get_observation txid vout d"
  let ?r = "case ?old of None \<Rightarrow> ?n | Some r \<Rightarrow> observation_merge r ?n"
  have d': "d' = snd (upsert_observation txid vout status address source now d)"
    and ch: "changed = (map_option ob_status ?old \<noteq> Some (status_as_str status))"
    using assms(2) by (simp_all add: upsert_observation_def)
  have get: "get_observation t v d' = (if (t, v) = (txid, vout) then Some ?r else get_observation t v d)" for t v
    unfolding d' by (rule get_upsert_observation)
  have cols: "ob_status ?r = status_as_str status" "ob_spender ?r = map_option to_display_vec (status_spender status)"
    "ob_spent_height ?r = map_option as_i32 (status_height status)" "ob_invalidated_at ?r = None"
    "ob_observed_at ?r = now" "ob_address ?r = coalesce address (Option.bind ?old ob_address)"
    by (simp_all add: observed_row_def observation_merge_def coalesce_def split: option.split)
  have "observation_spend_status ?r = Inr status"
    using assms(1) cols(1-3) by (rule spend_status_observed)
  with cols have "trusted_status (Some ?r) = status" by (simp add: trusted_status_def)
  with get cols ch show ?thesis by (intro exI [of _ ?r]) simp
qed

lemma observation_answers_last_write_witness:
  "\<exists>r. get_observation [7] 0 (snd (upsert_observation [7] 0 (SpentConfirmed (BtcTxid zero32) 800000) None ''s'' 5 empty_db))
     = Some r \<and> trusted_status (Some r) = SpentConfirmed (BtcTxid zero32) 800000"
  using observation_answers_last_write [of "SpentConfirmed (BtcTxid zero32) 800000" "[7]" 0 None "''s''" 5 empty_db
      "fst (upsert_observation [7] 0 (SpentConfirmed (BtcTxid zero32) 800000) None ''s'' 5 empty_db)"
      "snd (upsert_observation [7] 0 (SpentConfirmed (BtcTxid zero32) 800000) None ''s'' 5 empty_db)"]
  by (auto simp: as_i32_def)

text \<open>
  A claim takes the most urgent due work and backs it off: it returns at most \<open>limit\<close>
  entries, all due; what is due and not taken has no smaller priority and due time than
  anything taken; a taken entry counts one more attempt and is not due again for at least
  two seconds and at most five minutes; every other entry is untouched.
\<close>

theorem claim_takes_most_urgent:
  assumes "queue_ok d" "claim_refresh_batch limit now d = (items, d')"
  defines "taken \<equiv> due_batch limit now (d_queue d)"
  shows "items = map (\<lambda>q. queue_item.truncate (claim_row now q)) taken \<and> length items \<le> nat limit \<and>
     (\<forall>q \<in> set taken. q \<in> set (d_queue d) \<and> qr_next_attempt_at q \<le> now \<and>
        qi_attempts (claim_row now q) = qi_attempts q + 1 \<and>
        now + 2000000 \<le> qr_next_attempt_at (claim_row now q) \<and>
        qr_next_attempt_at (claim_row now q) \<le> now + 300000000) \<and>
     (\<forall>q \<in> set (d_queue d) - set taken. qr_next_attempt_at q \<le> now \<longrightarrow>
        (\<forall>p \<in> set taken. (qi_priority p, qr_next_attempt_at p) \<le> (qi_priority q, qr_next_attempt_at q))) \<and>
     d_queue d' = map (\<lambda>q. if q \<in> set taken then claim_row now q else q) (d_queue d)"
proof -
  note due = due_batch_props [where limit = limit and now = now and queue = "d_queue d", folded taken_def]
  have dist: "distinct (d_queue d)" using assms(1) by (auto simp: queue_ok_def distinct_map)
  have att: "qi_attempts q \<ge> 0" if "q \<in> set taken" for q
    using that due(1) assms(1) by (auto simp: queue_ok_def list_all_iff)
  have "items = map (\<lambda>q. queue_item.truncate (claim_row now q)) taken"
    using assms(2) by (simp add: claim_refresh_batch_def Let_def taken_def)
  moreover have "d_queue d' = map (\<lambda>q. if q \<in> set taken then claim_row now q else q) (d_queue d)"
    unfolding taken_def using assms(1,2) by (rule claimed_row)
  moreover have "now + 2000000 \<le> qr_next_attempt_at (claim_row now q) \<and>
      qr_next_attempt_at (claim_row now q) \<le> now + 300000000" if "q \<in> set taken" for q
    using backoff_bounds [OF att [OF that]] by (simp add: claim_row_def)
  ultimately show ?thesis using due(1,2,3) dist by (auto simp: claim_row_def)
qed

definition sample_queue :: db where
  "sample_queue = enqueue_refresh [2] 0 ''sweep'' SWEEP 0 (enqueue_refresh [1] 0 ''api'' ON_DEMAND 0 empty_db)"

lemma claim_takes_most_urgent_witness:
  "map qi_txid (fst (claim_refresh_batch 1 0 sample_queue)) = [[1]] \<and>
   length (fst (claim_refresh_batch 1 0 sample_queue)) \<le> nat 1"
proof -
  have ok: "queue_ok sample_queue"
    by (simp add: queue_ok_def sample_queue_def enqueue_refresh_def empty_db_def queue_key_def
        fresh_entry_def)
  have "length (fst (claim_refresh_batch 1 0 sample_queue)) \<le> nat 1"
    using claim_takes_most_urgent [OF ok prod.collapse [symmetric], of 1 0] by blast
  moreover have "map qi_txid (fst (claim_refresh_batch 1 0 sample_queue)) = [[1]]"
    by (simp add: claim_refresh_batch_def due_batch_def limit_rows_def sample_queue_def enqueue_refresh_def
        empty_db_def queue_key_def fresh_entry_def ON_DEMAND_def SWEEP_def claim_row_def queue_item.defs)
  ultimately show ?thesis by simp
qed

text \<open>
  An anomaly is one row however often it is found: recording it leaves exactly one row
  under its key, open and with the new detail, which is the earlier row with its identity,
  subject and first detection when there was one (also when that one had been resolved);
  every other finding is untouched.
\<close>

theorem anomaly_recorded_once:
  fixes kind key txid vout ckb_tx idx detail now d
  assumes "distinct (map an_dedup_key (d_anomalies d))"
  defines "d' \<equiv> record_anomaly kind key txid vout ckb_tx idx detail now d"
  shows "distinct (map an_dedup_key (d_anomalies d')) \<and>
    (\<exists>r. lookup_row an_dedup_key key (d_anomalies d') = Some r \<and>
       an_resolved_at r = None \<and> an_detail r = detail \<and> an_last_seen_at r = now \<and>
       (case lookup_row an_dedup_key key (d_anomalies d) of
          None \<Rightarrow> an_kind r = anomaly_as_str kind \<and> an_detected_at r = now \<and> an_btc_txid r = txid \<and> an_btc_vout r = vout
        | Some old \<Rightarrow> an_id r = an_id old \<and> an_kind r = an_kind old \<and> an_detected_at r = an_detected_at old \<and>
            an_btc_txid r = an_btc_txid old \<and> an_btc_vout r = an_btc_vout old)) \<and>
    (\<forall>k. k \<noteq> key \<longrightarrow> lookup_row an_dedup_key k (d_anomalies d') = lookup_row an_dedup_key k (d_anomalies d))"
  unfolding d'_def record_anomaly_def
  using assms(1)
  by (simp add: anomalies_table.upsert_distinct anomalies_table.lookup_upsert)
    (simp add: anomaly_merge_def split: option.split)

lemma anomaly_recorded_once_witness:
  "distinct (map an_dedup_key (d_anomalies
     (record_anomaly UnknownBtcTx ''k'' None None None None JNull 9
       (record_anomaly UnknownBtcTx ''k'' None None None None JNull 5 empty_db))))"
  using anomaly_recorded_once [of "record_anomaly UnknownBtcTx ''k'' None None None None JNull 5 empty_db"
      UnknownBtcTx "''k''" None None None None JNull 9]
  by (simp add: record_anomaly_def empty_db_def)

end
