(* ===== verification/Commitment.thy ===== *)
theory Commitment
  imports Protocol
begin

text \<open>
  \<open>crates/types/src/commitment.rs\<close>: the committed pre-image of a CKB transaction, its
  double SHA-256, and the search for a published commitment among output scripts. The
  pre-image is an injective encoding of its fields for at most 255 inputs and outputs
  (the counts are one byte each).
\<close>

definition RGBPP_TAG :: "byte list" where "RGBPP_TAG = ascii_bytes ''RGB++''"
definition DEFAULT_VERSION :: u16 where "DEFAULT_VERSION = 0"

record commitment_preimage =
  cp_version :: u16
  cp_inputs :: "ckb_out_point list"
  cp_outputs :: "(cell_output \<times> byte list) list"

definition preimage_new :: "ckb_out_point list \<Rightarrow> (cell_output \<times> byte list) list \<Rightarrow> commitment_preimage" where
  "preimage_new ins outs = \<lparr> cp_version = DEFAULT_VERSION, cp_inputs = ins, cp_outputs = outs \<rparr>"

definition u16_be :: "u16 \<Rightarrow> byte list" where
  "u16_be v = [of_nat (unat v div 256), of_nat (unat v mod 256)]"

definition encode_output_data :: "cell_output \<times> byte list \<Rightarrow> byte list" where
  "encode_output_data od = encode_cell_output (fst od) @ encode_bytes (snd od)"

definition preimage_encode :: "commitment_preimage \<Rightarrow> byte list" where
  "preimage_encode p =
     RGBPP_TAG @ u16_be (cp_version p)
     @ [of_nat (length (cp_inputs p)), of_nat (length (cp_outputs p))]
     @ concat (map encode_out_point (cp_inputs p))
     @ concat (map encode_output_data (cp_outputs p))"

definition double_sha256 :: "ext \<Rightarrow> byte list \<Rightarrow> bytes32" where
  "double_sha256 e data = mk32 (ex_sha256 e (ex_sha256 e data))"

definition commitment_of :: "ext \<Rightarrow> commitment_preimage \<Rightarrow> bytes32" where
  "commitment_of e p = double_sha256 e (preimage_encode p)"

section \<open>Reading a published commitment\<close>

definition op_return_payload :: "byte list \<Rightarrow> byte list option" where
  "op_return_payload script_pubkey =
     (case strip_prefix [0x6a] script_pubkey of None \<Rightarrow> None
      | Some [] \<Rightarrow> None
      | Some (opcode # args) \<Rightarrow>
        (let body = (\<lambda>len rest. if length rest < len then None else Some (take len rest)) in
         if 0x01 \<le> opcode \<and> opcode \<le> 0x4b then body (unat opcode) args
         else if opcode = 0x4c then
           (if length args < 1 then None else body (unat (args ! 0)) (drop 1 args))
         else if opcode = 0x4d then
           (if length args < 2 then None else body (le_nat (take 2 args)) (drop 2 args))
         else if opcode = 0x4e then
           (if length args < 4 then None else body (le_nat (take 4 args)) (drop 4 args))
         else None))"

fun find_commitment_from :: "bytes32 option \<Rightarrow> byte list list \<Rightarrow> bytes32 option" where
  "find_commitment_from fallback [] = fallback"
| "find_commitment_from fallback (script # scripts) =
     (case op_return_payload script of
        None \<Rightarrow> find_commitment_from fallback scripts
      | Some payload \<Rightarrow>
        (case strip_prefix RGBPP_TAG payload of
           Some tagged \<Rightarrow>
             if length tagged = 32 then Some (mk32 tagged)
             else find_commitment_from
                    (if length payload = 32 \<and> fallback = None then Some (mk32 payload) else fallback) scripts
         | None \<Rightarrow>
             find_commitment_from
               (if length payload = 32 \<and> fallback = None then Some (mk32 payload) else fallback) scripts))"

definition find_commitment :: "byte list list \<Rightarrow> bytes32 option" where
  "find_commitment scripts = find_commitment_from None scripts"

section \<open>The pre-image is injective\<close>

lemma u16_be_inject [simp]: "u16_be a = u16_be b \<longleftrightarrow> a = b"
proof
  assume eq: "u16_be a = u16_be b"
  have lt: "unat w div 256 < 256" for w :: u16
    using unsigned_less [of w, where ?'a = nat] by (simp add: less_mult_imp_div_less)
  have split: "unat (of_nat (unat w div 256) :: byte) * 256 + unat (of_nat (unat w mod 256) :: byte) = unat w"
    for w :: u16
    using lt [of w] by (simp add: unat_of_nat)
  from eq split [of a] split [of b] show "a = b"
    by (simp add: u16_be_def word_unat_eq_iff)
qed simp

lemma length_u16_be [simp]: "length (u16_be v) = 2"
  by (simp add: u16_be_def)

definition output_data_valid :: "cell_output \<times> byte list \<Rightarrow> bool" where
  "output_data_valid od \<longleftrightarrow> output_valid (fst od) \<and> length (snd od) < 2 ^ 32"

interpretation output_data_delim: self_delimiting encode_output_data output_data_valid
proof
  fix a b r s
  assume v: "output_data_valid a" "output_data_valid b"
    and eq: "encode_output_data a @ r = encode_output_data b @ s"
  from eq have "encode_cell_output (fst a) @ (encode_bytes (snd a) @ r)
      = encode_cell_output (fst b) @ (encode_bytes (snd b) @ s)"
    by (simp add: encode_output_data_def)
  with v have "fst a = fst b \<and> encode_bytes (snd a) @ r = encode_bytes (snd b) @ s"
    unfolding output_data_valid_def by (intro cell_output_delim.delimits) auto
  moreover from this v have "snd a = snd b \<and> r = s"
    unfolding output_data_valid_def by (intro bytes_delim.delimits) auto
  ultimately show "a = b \<and> r = s" by (simp add: prod_eq_iff)
qed

definition preimage_valid :: "commitment_preimage \<Rightarrow> bool" where
  "preimage_valid p \<longleftrightarrow> length (cp_inputs p) < 256 \<and> length (cp_outputs p) < 256 \<and>
     list_all output_data_valid (cp_outputs p)"

lemma of_nat_byte_inject: "m < 256 \<Longrightarrow> n < 256 \<Longrightarrow> (of_nat m :: byte) = of_nat n \<longleftrightarrow> m = n"
  by (auto simp: of_nat_eq_iff word_of_nat_eq_iff take_bit_nat_eq_self)

lemma preimage_encode_inject:
  assumes "preimage_valid p" "preimage_valid q" "preimage_encode p = preimage_encode q"
  shows "p = q"
proof -
  have head: "u16_be (cp_version p) = u16_be (cp_version q)"
      "(of_nat (length (cp_inputs p)) :: byte) = of_nat (length (cp_inputs q))"
      "(of_nat (length (cp_outputs p)) :: byte) = of_nat (length (cp_outputs q))"
      "concat (map encode_out_point (cp_inputs p)) @ concat (map encode_output_data (cp_outputs p))
       = concat (map encode_out_point (cp_inputs q)) @ concat (map encode_output_data (cp_outputs q))"
    using assms(3) by (auto simp: preimage_encode_def append_eq_append_conv)
  have lens: "length (cp_inputs p) = length (cp_inputs q)" "length (cp_outputs p) = length (cp_outputs q)"
    using assms(1,2) head(2,3) by (auto simp: preimage_valid_def of_nat_byte_inject)
  have "cp_inputs p = cp_inputs q \<and>
      concat (map encode_output_data (cp_outputs p)) = concat (map encode_output_data (cp_outputs q))"
    using head(4) lens(1) by (intro out_point_codec.concat_delimits) (auto simp: list_all_iff)
  moreover from this have "cp_outputs p = cp_outputs q"
    using assms(1,2) lens(2) output_data_delim.concat_delimits [of "cp_outputs p" "cp_outputs q" "[]" "[]"]
    by (auto simp: preimage_valid_def)
  ultimately show ?thesis
    using head(1) by (intro commitment_preimage.equality) auto
qed

section \<open>The search prefers a tagged payload\<close>

text \<open>The first script carrying the tag and 32 bytes, and the first carrying 32 bare bytes.\<close>

definition tagged_commitment :: "byte list \<Rightarrow> bytes32 option" where
  "tagged_commitment script =
     (case op_return_payload script of
        Some p \<Rightarrow> (case strip_prefix RGBPP_TAG p of
                     Some t \<Rightarrow> if length t = 32 then Some (mk32 t) else None | None \<Rightarrow> None)
      | None \<Rightarrow> None)"

definition bare_commitment :: "byte list \<Rightarrow> bytes32 option" where
  "bare_commitment script =
     (case op_return_payload script of
        Some p \<Rightarrow> if length p = 32 then Some (mk32 p) else None
      | None \<Rightarrow> None)"

fun first_some :: "('a \<Rightarrow> 'b option) \<Rightarrow> 'a list \<Rightarrow> 'b option" where
  "first_some f [] = None"
| "first_some f (x # xs) = (case f x of Some y \<Rightarrow> Some y | None \<Rightarrow> first_some f xs)"

definition or_else :: "'a option \<Rightarrow> 'a option \<Rightarrow> 'a option" where
  "or_else a b = (case a of Some x \<Rightarrow> Some x | None \<Rightarrow> b)"

lemma find_commitment_from_spec:
  "find_commitment_from fb ss
     = or_else (first_some tagged_commitment ss) (or_else fb (first_some bare_commitment ss))"
  by (induction ss arbitrary: fb)
    (auto simp: tagged_commitment_def bare_commitment_def or_else_def split: option.splits)

text \<open>
  The four ways a payload of some length is announced after \<open>OP_RETURN\<close>. A longer form than
  needed is a form too.
\<close>

definition push_header :: "nat \<Rightarrow> byte list \<Rightarrow> bool" where
  "push_header n h \<longleftrightarrow>
     (1 \<le> n \<and> n \<le> 75 \<and> h = [of_nat n]) \<or>
     (n < 256 \<and> h = [0x4c, of_nat n]) \<or>
     (n < 2 ^ 16 \<and> h = 0x4d # le_bytes 2 n) \<or>
     (n < 2 ^ 32 \<and> h = 0x4e # le_bytes 4 n)"

lemma op_return_push:
  assumes "push_header (length p) h"
  shows "op_return_payload (0x6a # h @ p @ rest) = Some p"
proof -
  have small: "0x01 \<le> (of_nat n :: byte) \<and> (of_nat n :: byte) \<le> 0x4b \<and> unat (of_nat n :: byte) = n"
    if "1 \<le> n" "n \<le> 75" for n
    using that by (simp add: word_le_nat_alt unat_of_nat)
  have le: "le_nat (le_bytes k n) = n" if "n < 256 ^ k" for k n
    using that by (simp add: le_nat_le_bytes)
  show ?thesis
    using assms small [of "length p"] le [of "length p" 2] le [of "length p" 4]
    by (auto simp: push_header_def op_return_payload_def Let_def unat_of_nat)
qed

lemma op_return_pushed:
  assumes "op_return_payload script = Some p"
  shows "\<exists>h rest. push_header (length p) h \<and> script = 0x6a # h @ p @ rest"
proof -
  from assms obtain opcode args where script: "script = 0x6a # opcode # args"
    by (cases script; cases "tl script"; auto simp: op_return_payload_def split: if_splits)
  have split: "\<exists>h rest. push_header (length p) h \<and> script = 0x6a # h @ p @ rest"
    if "push_header n (opcode # take k args)" "n \<le> length (drop k args)" "p = take n (drop k args)" for n k
  proof (intro exI conjI)
    show "push_header (length p) (opcode # take k args)" using that by simp
    have "p @ drop n (drop k args) = drop k args" by (simp only: that(3) append_take_drop_id)
    then show "script = 0x6a # (opcode # take k args) @ p @ drop n (drop k args)" by (simp add: script)
  qed
  consider "0x01 \<le> opcode \<and> opcode \<le> 0x4b" | "opcode = 0x4c" | "opcode = 0x4d" | "opcode = 0x4e"
    using assms by (fastforce simp: op_return_payload_def script Let_def split: if_splits)
  then show ?thesis
  proof cases
    case 1
    with assms show ?thesis
      by (intro split [of "unat opcode" 0])
        (auto simp: op_return_payload_def script Let_def push_header_def word_le_nat_alt split: if_splits)
  next
    case 2
    with assms show ?thesis
      using unsigned_less [of "args ! 0"]
      by (intro split [of "unat (args ! 0)" 1])
        (cases args; auto simp: op_return_payload_def script Let_def push_header_def split: if_splits)+
  next
    case 3
    then have n: "2 \<le> length args" "le_nat (take 2 args) \<le> length (drop 2 args)" "p = take (le_nat (take 2 args)) (drop 2 args)"
      using assms by (auto simp: op_return_payload_def script Let_def split: if_splits)
    then have "length (take 2 args) = 2" by simp
    with 3 n le_nat_bound [of "take 2 args"] le_bytes_le_nat [of "take 2 args"] show ?thesis
      by (intro split [of "le_nat (take 2 args)" 2]) (simp_all add: push_header_def)
  next
    case 4
    then have n: "4 \<le> length args" "le_nat (take 4 args) \<le> length (drop 4 args)" "p = take (le_nat (take 4 args)) (drop 4 args)"
      using assms by (auto simp: op_return_payload_def script Let_def split: if_splits)
    then have "length (take 4 args) = 4" by simp
    with 4 n le_nat_bound [of "take 4 args"] le_bytes_le_nat [of "take 4 args"] show ?thesis
      by (intro split [of "le_nat (take 4 args)" 4]) (simp_all add: push_header_def)
  qed
qed

section \<open>Properties\<close>

text \<open>
  C34. The committed pre-image determines the version, the inputs and the outputs with their
  data: two pre-images of at most 255 inputs and outputs have the same bytes only if they
  are equal, so a commitment collision is a collision of the hash.
\<close>

theorem preimage_encode_injective:
  assumes "preimage_valid p" "preimage_valid q"
  shows "preimage_encode p = preimage_encode q \<longleftrightarrow> p = q"
  using assms preimage_encode_inject by blast

lemma preimage_encode_injective_witness:
  "preimage_encode (preimage_new [\<lparr> co_tx_hash = h256_zero, co_index = 1 \<rparr>] []) \<noteq>
   preimage_encode (preimage_new [\<lparr> co_tx_hash = h256_zero, co_index = 2 \<rparr>] [])"
  using preimage_encode_injective [of "preimage_new [\<lparr> co_tx_hash = h256_zero, co_index = 1 \<rparr>] []"
      "preimage_new [\<lparr> co_tx_hash = h256_zero, co_index = 2 \<rparr>] []"]
  by (simp add: preimage_valid_def preimage_new_def)

text \<open>
  The commitment of a transaction is the first payload carrying the \<open>RGB++\<close> tag and 32
  bytes, wherever it stands among the outputs; only when there is none is it the first
  payload of exactly 32 bytes.
\<close>

theorem find_commitment_prefers_tagged:
  "find_commitment scripts =
     or_else (first_some tagged_commitment scripts) (first_some bare_commitment scripts)"
  by (simp add: find_commitment_def find_commitment_from_spec) (simp add: or_else_def)


end
