(* ===== verification/Btc_Source.thy ===== *)
theory Btc_Source
  imports Db Commitment
begin

text \<open>
  \<open>crates/btc/src\<close>: the error type, the data-source interface of \<open>source.rs\<close> as a record of
  the remote's answers (each a function of the request counter, so two requests may be
  answered differently), \<open>observe_many\<close>, and the request spacing of \<open>throttle.rs\<close>.
\<close>

section \<open>Errors\<close>

text \<open>A transport error carries whether it is a timeout, connection or request error.\<close>

datatype btc_error =
    BETransport string bool
  | BEStatus nat string
  | BERateLimited string
  | BEDecode string string
  | BEUnsupported string string
  | BETypes terr

fun is_transient :: "btc_error \<Rightarrow> bool" where
  "is_transient (BETransport m retryable) = retryable"
| "is_transient (BERateLimited url) = True"
| "is_transient (BEStatus status url) = ((500 \<le> status \<and> status < 600) \<or> status = 429)"
| "is_transient _ = False"

section \<open>The interface\<close>

record btc_tip =
  tip_height :: u32
  tip_hash :: btc_block_hash

record btc_block_ref =
  bf_height :: u32
  bf_hash :: btc_block_hash
  bf_time :: int

record btc_tx_output =
  bx_value :: u64
  bx_script_pubkey :: "byte list"
  bx_address :: "string option"

record btc_tx_info =
  ti_txid :: btc_txid
  ti_confirmation :: "btc_block_ref option"
  ti_inputs :: "btc_out_point list"
  ti_outputs :: "btc_tx_output list"
  ti_fee :: "u64 option"

definition tx_commitment :: "btc_tx_info \<Rightarrow> bytes32 option" where
  "tx_commitment tx = find_commitment (map bx_script_pubkey (ti_outputs tx))"

definition tx_spends :: "btc_tx_info \<Rightarrow> btc_out_point \<Rightarrow> bool" where
  "tx_spends tx op \<longleftrightarrow> op \<in> set (ti_inputs tx)"

record btc_utxo =
  bu_outpoint :: btc_out_point
  bu_value :: u64
  bu_confirmation :: "btc_block_ref option"

record btc_data_source =
  bs_name :: string
  bs_tip :: "nat \<Rightarrow> btc_error + btc_tip"
  bs_block_hash_at :: "nat \<Rightarrow> u32 \<Rightarrow> btc_error + btc_block_hash option"
  bs_transaction :: "nat \<Rightarrow> btc_txid \<Rightarrow> btc_error + btc_tx_info option"
  bs_outpoint_status :: "nat \<Rightarrow> btc_out_point \<Rightarrow> btc_error + spend_status"
  bs_tx_outspends :: "nat \<Rightarrow> btc_txid \<Rightarrow> btc_error + spend_status list option"
  bs_address_utxos :: "nat \<Rightarrow> string \<Rightarrow> btc_error + btc_utxo list"

section \<open>Observing many outpoints\<close>

text \<open>\<open>by_txid\<close>, a map in txid order.\<close>

definition group_by_txid :: "btc_out_point list \<Rightarrow> (btc_txid \<times> u32 list) list" where
  "group_by_txid ops =
     map (\<lambda>t. (t, map bo_vout (filter (\<lambda>op. bo_txid op = t) ops))) (distinct_sorted (map bo_txid ops))"

definition mk_out_point :: "btc_txid \<Rightarrow> u32 \<Rightarrow> btc_out_point" where
  "mk_out_point t v = \<lparr> bo_txid = t, bo_vout = v \<rparr>"

type_synonym 'e observing = "('e, (btc_out_point \<times> (btc_error + spend_status)) list) io"

text \<open>Never fails itself: an error is the answer for its outpoint.\<close>

definition observe_each ::
  "btc_data_source \<Rightarrow> btc_txid \<Rightarrow> u32 list \<Rightarrow> 'e observing" where
  "observe_each src txid vouts =
     io_for vouts [] (\<lambda>vout out.
       io_bind (io_attempt (io_call (\<lambda>n. bs_outpoint_status src n (mk_out_point txid vout))))
       (\<lambda>status. io_ret (out @ [(mk_out_point txid vout, status)])))"

definition observe_group ::
  "btc_data_source \<Rightarrow> btc_txid \<times> u32 list \<Rightarrow> 'e observing" where
  "observe_group src g =
     (let txid = fst g; vouts = distinct_sorted (snd g) in
      if length vouts > 1 then
        io_bind (io_attempt (io_call (\<lambda>n. bs_tx_outspends src n txid)))
        (\<lambda>r. case r of
           Inr (Some statuses) \<Rightarrow>
             io_ret (map (\<lambda>vout. (mk_out_point txid vout,
               Inr (if unat vout < length statuses then statuses ! unat vout else Unknown))) vouts)
         | Inr None \<Rightarrow> observe_each src txid vouts
         | Inl err \<Rightarrow> observe_each src txid vouts)
      else observe_each src txid vouts)"

text \<open>Groups run concurrently in the sources; the results are collected in group order here.\<close>

definition observe_many ::
  "btc_data_source \<Rightarrow> btc_out_point list \<Rightarrow> 'e observing" where
  "observe_many src ops =
     io_for (group_by_txid ops) [] (\<lambda>g out. io_bind (observe_group src g) (\<lambda>rs. io_ret (out @ rs)))"

lemma observe_each_run:
  fixes w :: world
  shows "\<exists>rs w'. io_for vouts out (\<lambda>vout out.
       io_bind (io_attempt (io_call (\<lambda>n. bs_outpoint_status src n (mk_out_point txid vout))))
       (\<lambda>status. io_ret (out @ [(mk_out_point txid vout, status)]))) w = (Inr (out @ rs), w') \<and>
     map fst rs = map (mk_out_point txid) vouts \<and> w_db w' = w_db w"
proof (induction vouts arbitrary: out w)
  case (Cons v vs)
  let ?r = "(mk_out_point txid v, bs_outpoint_status src (w_tick w) (mk_out_point txid v))"
  from Cons.IH [of "out @ [?r]" "tick w"] show ?case
    by (fastforce simp: io_bind_def io_attempt_def io_call_def io_ret_def)
qed (simp add: io_ret_def)

lemma observe_group_run:
  "\<exists>rs w'. (observe_group src g :: 'e observing) w = (Inr rs, w') \<and>
     map fst rs = map (mk_out_point (fst g)) (distinct_sorted (snd g)) \<and> w_db w' = w_db w"
proof -
  have each: "\<exists>rs w'. (observe_each src (fst g) vs :: 'e observing) w1 = (Inr rs, w') \<and>
      map fst rs = map (mk_out_point (fst g)) vs \<and> w_db w' = w_db w1" for vs w1
    unfolding observe_each_def
    using observe_each_run [of vs "[]" src "fst g" w1] by simp
  show ?thesis
    using each [of "distinct_sorted (snd g)" "tick w"] each [of "distinct_sorted (snd g)" w]
    by (auto simp: observe_group_def Let_def io_bind_def io_attempt_def io_call_def io_ret_def comp_def
        split: sum.split option.split)
qed

lemma observe_groups_run:
  "\<exists>rs w'. io_for gs out (\<lambda>g out. io_bind (observe_group src g :: 'e observing) (\<lambda>rs. io_ret (out @ rs))) w = (Inr (out @ rs), w') \<and>
     map fst rs = concat (map (\<lambda>g. map (mk_out_point (fst g)) (distinct_sorted (snd g))) gs) \<and>
     w_db w' = w_db w"
proof (induction gs arbitrary: out w)
  case (Cons g gs)
  from observe_group_run [of src g w] obtain rs w1 where
    g: "(observe_group src g :: 'e observing) w = (Inr rs, w1)" "w_db w1 = w_db w"
    "map fst rs = map (mk_out_point (fst g)) (distinct_sorted (snd g))" by blast
  from Cons.IH [of "out @ rs" w1] g show ?case
    by (fastforce simp: io_bind_def io_ret_def)
qed (simp add: io_ret_def)

lemma mk_out_point_collapse [simp]: "mk_out_point (bo_txid x) (bo_vout x) = x"
  by (simp add: mk_out_point_def)

lemma mk_out_point_sel [simp]: "bo_txid (mk_out_point t v) = t" "bo_vout (mk_out_point t v) = v"
  by (simp_all add: mk_out_point_def)

lemma group_points:
  defines "points \<equiv> \<lambda>ops. concat (map (\<lambda>g. map (mk_out_point (fst g)) (distinct_sorted (snd g))) (group_by_txid ops))"
  shows "set (points ops) = set ops" "distinct (points ops)"
proof -
  show "set (points ops) = set ops"
  proof (intro set_eqI iffI)
    fix x assume "x \<in> set (points ops)"
    then show "x \<in> set ops"
      unfolding points_def group_by_txid_def by (auto dest: sym)
  next
    fix x assume "x \<in> set ops"
    then have "x \<in> mk_out_point (bo_txid x) ` bo_vout ` {y \<in> set ops. bo_txid y = bo_txid x}"
      by (intro image_eqI [of _ _ "bo_vout x"]) auto
    with \<open>x \<in> set ops\<close> show "x \<in> set (points ops)"
      unfolding points_def group_by_txid_def by (auto intro!: bexI [of _ x])
  qed
  have "distinct (concat (map (\<lambda>t. map (mk_out_point t) (vs t)) ts))"
    if "distinct ts" "\<And>t. distinct (vs t)" for ts and vs :: "btc_txid \<Rightarrow> u32 list"
    using that by (induction ts) (auto simp: distinct_map mk_out_point_def inj_on_def)
  then show "distinct (points ops)"
    unfolding points_def group_by_txid_def by (simp add: comp_def)
qed

lemma observe_many_run:
  "\<exists>rs w'. (observe_many src ops :: 'e observing) w = (Inr rs, w') \<and> set (map fst rs) = set ops \<and> distinct (map fst rs) \<and>
     w_db w' = w_db w"
proof -
  from observe_groups_run [of "group_by_txid ops" "[]" src w] obtain rs w' where
    "(observe_many src ops :: 'e observing) w = (Inr rs, w')" "w_db w' = w_db w"
    "map fst rs = concat (map (\<lambda>g. map (mk_out_point (fst g)) (distinct_sorted (snd g))) (group_by_txid ops))"
    unfolding observe_many_def by auto
  then show ?thesis using group_points [of ops] by (intro exI [of _ rs] exI [of _ w']) metis
qed

context db_relation
begin

lemma obeys_observe_many: "obeys R (observe_many src ops)"
  unfolding obeys_def
proof
  fix w
  show "R (w_db w) (w_db (snd (observe_many src ops w)))"
    using observe_many_run [of src ops w] rel_refl by (metis snd_conv)
qed

end

section \<open>Request spacing\<close>

text \<open>
  The throttle serialises the starts of requests under a lock. A waiter that gets the lock
  at time \<open>now\<close> starts at \<open>start_after\<close>, which becomes the next \<open>last_start\<close>; times are
  milliseconds, the semaphore only delays \<open>now\<close> further.
\<close>

record throttle =
  th_permits :: nat
  th_min_interval :: nat
  th_last_start :: "nat option"

definition throttle_new :: "u64 \<Rightarrow> u64 \<Rightarrow> throttle" where
  "throttle_new max_concurrency min_interval_ms =
     \<lparr> th_permits = unat (max max_concurrency 1), th_min_interval = unat min_interval_ms, th_last_start = None \<rparr>"

definition acquire :: "throttle \<Rightarrow> nat \<Rightarrow> nat \<times> throttle" where
  "acquire t now =
     (if th_min_interval t = 0 then (now, t)
      else let start = (case th_last_start t of None \<Rightarrow> now
             | Some previous \<Rightarrow>
               let elapsed = now - previous in
               if elapsed < th_min_interval t then now + (th_min_interval t - elapsed) else now)
           in (start, t\<lparr> th_last_start := Some start \<rparr>))"

fun acquire_all :: "throttle \<Rightarrow> nat list \<Rightarrow> nat list" where
  "acquire_all t [] = []"
| "acquire_all t (now # nows) = (case acquire t now of (start, t') \<Rightarrow> start # acquire_all t' nows)"

text \<open>Arrivals at the lock: not before the previous start, as the lock is held until then.\<close>

fun arrivals_ok :: "throttle \<Rightarrow> nat list \<Rightarrow> bool" where
  "arrivals_ok t [] = True"
| "arrivals_ok t (now # nows) =
     ((case th_last_start t of None \<Rightarrow> True | Some p \<Rightarrow> p \<le> now) \<and>
      arrivals_ok (snd (acquire t now)) nows)"

fun spaced :: "nat \<Rightarrow> nat list \<Rightarrow> bool" where
  "spaced d (a # b # xs) = (a + d \<le> b \<and> spaced d (b # xs))"
| "spaced d xs = True"

lemma acquire_spaced:
  "arrivals_ok t nows \<Longrightarrow> th_min_interval t > 0 \<Longrightarrow>
   spaced (th_min_interval t) (case th_last_start t of None \<Rightarrow> acquire_all t nows | Some p \<Rightarrow> p # acquire_all t nows)"
proof (induction nows arbitrary: t)
  case Nil
  then show ?case by (simp split: option.split)
next
  case (Cons now nows)
  let ?t' = "snd (acquire t now)" and ?s = "fst (acquire t now)"
  have t': "th_min_interval ?t' = th_min_interval t" "th_last_start ?t' = Some ?s"
    using Cons.prems(2) by (simp_all add: acquire_def Let_def)
  have "spaced (th_min_interval t) (?s # acquire_all ?t' nows)"
    using Cons.IH [of ?t'] Cons.prems t' by simp
  moreover have "th_last_start t = Some p \<Longrightarrow> p + th_min_interval t \<le> ?s" for p
    using Cons.prems by (auto simp: acquire_def Let_def)
  ultimately show ?case
    by (auto simp: case_prod_beta split: option.split)
qed

end
