(* ===== verification/Ckb_Client.thy ===== *)
theory Ckb_Client
  imports Db Protocol "HOL-Library.Multiset"
begin

text \<open>
  \<open>crates/ckb/src\<close>: the error type, the hexadecimal integers and payload types of \<open>types.rs\<close>,
  the JSON-RPC retry loop of \<open>rpc.rs\<close> and the client of \<open>client.rs\<close>. The answers of the
  node and of the rich indexer are functions of the request counter, after decoding by the
  derived deserialisers. The paging loop of \<open>collect_transactions_in_range\<close> may not end
  against a hostile indexer, so it takes fuel and answers \<open>None\<close> when that runs out.
\<close>

section \<open>Errors\<close>

datatype ckb_error =
    CETransport string
  | CERpc string int string
  | CEPayload string string
  | CEDecode terr
  | CEJson string

section \<open>Hexadecimal integers\<close>

definition hex_digit :: "char \<Rightarrow> nat option" where
  "hex_digit c = (let n = (of_char c :: nat) in
     if 48 \<le> n \<and> n \<le> 57 then Some (n - 48)
     else if 97 \<le> n \<and> n \<le> 102 then Some (n - 87)
     else if 65 \<le> n \<and> n \<le> 70 then Some (n - 55) else None)"

definition hex_digit_char :: "nat \<Rightarrow> char" where
  "hex_digit_char d = (if d < 10 then char_of (48 + d) else char_of (87 + d))"

fun show_hex :: "nat \<Rightarrow> string" where
  "show_hex n = (if n < 16 then [hex_digit_char n] else show_hex (n div 16) @ [hex_digit_char (n mod 16)])"

declare show_hex.simps [simp del]

fun parse_hex_digits :: "nat \<Rightarrow> string \<Rightarrow> nat option" where
  "parse_hex_digits acc [] = Some acc"
| "parse_hex_digits acc (c # cs) =
     (case hex_digit c of None \<Rightarrow> None | Some d \<Rightarrow> parse_hex_digits (acc * 16 + d) cs)"

text \<open>\<open>from_str_radix(s, 16)\<close>: an optional plus sign, digits, no overflow.\<close>

definition from_str_radix_16 :: "nat \<Rightarrow> string \<Rightarrow> nat option" where
  "from_str_radix_16 bound s =
     (let t = unwrap_or s (strip_prefix ''+'' s) in
      if t = [] then None
      else case parse_hex_digits 0 t of None \<Rightarrow> None | Some n \<Rightarrow> if n < bound then Some n else None)"

definition hex_uint_to_string :: "nat \<Rightarrow> string" where
  "hex_uint_to_string n = ''0x'' @ show_hex n"

definition hex_uint_from_string :: "nat \<Rightarrow> string \<Rightarrow> nat option" where
  "hex_uint_from_string bound s =
     (case strip_prefix ''0x'' s of None \<Rightarrow> None | Some stripped \<Rightarrow> from_str_radix_16 bound stripped)"

section \<open>Payload types\<close>

datatype script_type = SLock | SType
datatype search_mode = MPrefix | MExact | MPartial
datatype order = Asc | Desc
datatype io_type = Input | Output

record search_filter =
  sf_script :: "script option"
  sf_script_len_range :: "(u64 \<times> u64) option"
  sf_output_data_len_range :: "(u64 \<times> u64) option"
  sf_output_capacity_range :: "(u64 \<times> u64) option"
  sf_block_range :: "(u64 \<times> u64) option"

definition filter_default :: search_filter where
  "filter_default = \<lparr> sf_script = None, sf_script_len_range = None, sf_output_data_len_range = None,
     sf_output_capacity_range = None, sf_block_range = None \<rparr>"

record search_key =
  sk_script :: script
  sk_script_type :: script_type
  sk_mode :: "search_mode option"
  sk_filter :: "search_filter option"
  sk_with_data :: "bool option"
  sk_group :: "bool option"

definition lock_exact :: "script \<Rightarrow> search_key" where
  "lock_exact s = \<lparr> sk_script = s, sk_script_type = SLock, sk_mode = Some MExact, sk_filter = None,
     sk_with_data = Some True, sk_group = None \<rparr>"

definition lock_prefix :: "script \<Rightarrow> search_key" where
  "lock_prefix s = \<lparr> sk_script = s, sk_script_type = SLock, sk_mode = Some MPrefix, sk_filter = None,
     sk_with_data = None, sk_group = Some True \<rparr>"

definition with_block_range :: "u64 \<Rightarrow> u64 \<Rightarrow> search_key \<Rightarrow> search_key" where
  "with_block_range from to_exclusive k =
     k\<lparr> sk_filter := Some ((unwrap_or filter_default (sk_filter k))\<lparr> sf_block_range := Some (from, to_exclusive) \<rparr>) \<rparr>"

record matched_cell =
  mc_io_type :: io_type
  mc_io_index :: u32

record tx_record =
  txr_hash :: h256
  txr_block_number :: u64
  txr_index :: u32
  txr_cells :: "matched_cell list"

record 'a pagination =
  pg_objects :: "'a list"
  pg_last_cursor :: "byte list"

record cell_record =
  ce_out_point :: ckb_out_point
  ce_output :: cell_output
  ce_output_data :: "byte list option"
  ce_block_number :: u64
  ce_tx_index :: u32

record indexer_tip =
  it_block_hash :: h256
  it_block_number :: u64

record rpc_cell_input =
  ri_previous_output :: ckb_out_point
  ri_since :: u64

record rpc_transaction =
  rt_hash :: h256
  rt_version :: u32
  rt_inputs :: "rpc_cell_input list"
  rt_outputs :: "cell_output list"
  rt_outputs_data :: "byte list list"

datatype tx_status_kind = TxPending | TxProposed | TxCommitted | TxUnknown | TxRejected

record tx_status =
  ts_status :: tx_status_kind
  ts_block_hash :: "h256 option"
  ts_block_number :: "u64 option"
  ts_reason :: "string option"

record tx_with_status =
  ws_transaction :: "rpc_transaction option"
  ws_status :: tx_status

record rpc_header =
  rh_hash :: h256
  rh_number :: u64
  rh_parent_hash :: h256
  rh_timestamp :: u64
  rh_epoch :: u64

section \<open>The retry loop\<close>

text \<open>
  A post either fails in transport (connection, status or body) or returns a JSON payload;
  the payload decides between result and application error.
\<close>

datatype http_reply = HTransport string | HPayload json

definition json_get :: "string \<Rightarrow> json \<Rightarrow> json option" where
  "json_get k v = (case v of JObj ms \<Rightarrow> map_of ms k | _ \<Rightarrow> None)"

definition json_int :: "json \<Rightarrow> int option" where
  "json_int v = (case v of JInt i \<Rightarrow> if - (2 ^ 63) \<le> i \<and> i < 2 ^ 63 then Some i else None | _ \<Rightarrow> None)"

definition json_str :: "json \<Rightarrow> string option" where
  "json_str v = (case v of JStr s \<Rightarrow> Some s | _ \<Rightarrow> None)"

definition try_once :: "string \<Rightarrow> http_reply \<Rightarrow> ckb_error + json" where
  "try_once rpc reply =
     (case reply of
        HTransport m \<Rightarrow> Inl (CETransport m)
      | HPayload payload \<Rightarrow>
        let result = (case json_get ''result'' payload of
              Some v \<Rightarrow> Inr v
            | None \<Rightarrow> Inl (CEPayload rpc ''response had neither `result` nor `error`'')) in
        (case json_get ''error'' payload of
           None \<Rightarrow> result
         | Some err \<Rightarrow>
           if err = JNull then result
           else Inl (CERpc rpc
             (unwrap_or 0 (Option.bind (json_get ''code'' err) json_int))
             (unwrap_or ''<no message>'' (Option.bind (json_get ''message'' err) json_str)))))"

fun retryable :: "ckb_error \<Rightarrow> bool" where
  "retryable (CERpc rpc code msg) = False"
| "retryable (CEPayload rpc reason) = False"
| "retryable _ = True"

text \<open>\<open>left\<close> is \<open>max_retries - attempt\<close>; the back-off sleeps between attempts are left out.\<close>

fun call_from :: "(nat \<Rightarrow> http_reply) \<Rightarrow> string \<Rightarrow> nat \<Rightarrow> (ckb_error, json) io" where
  "call_from post rpc left =
     io_bind (io_attempt (io_call (\<lambda>n. try_once rpc (post n))))
     (\<lambda>r. case r of
        Inr v \<Rightarrow> io_ret v
      | Inl e \<Rightarrow>
        if retryable e then (case left of 0 \<Rightarrow> io_fail e | Suc k \<Rightarrow> call_from post rpc k) else io_fail e)"

declare call_from.simps [simp del]

definition MAX_RETRIES :: nat where "MAX_RETRIES = 3"

definition call_value :: "(nat \<Rightarrow> http_reply) \<Rightarrow> string \<Rightarrow> (ckb_error, json) io" where
  "call_value post rpc = call_from post rpc MAX_RETRIES"

section \<open>The client\<close>

record ckb_node =
  cn_tip :: "nat \<Rightarrow> ckb_error + u64"
  cn_header :: "nat \<Rightarrow> u64 \<Rightarrow> ckb_error + rpc_header option"
  cn_transaction :: "nat \<Rightarrow> h256 \<Rightarrow> ckb_error + tx_with_status option"
  cn_indexer_tip :: "nat \<Rightarrow> ckb_error + indexer_tip option"
  cn_transactions :: "nat \<Rightarrow> search_key \<Rightarrow> order \<Rightarrow> u32 \<Rightarrow> string option \<Rightarrow> ckb_error + tx_record pagination"
  cn_cells :: "nat \<Rightarrow> search_key \<Rightarrow> order \<Rightarrow> u32 \<Rightarrow> ckb_error + cell_record pagination"

definition synced_tip :: "ckb_node \<Rightarrow> (ckb_error, u64) io" where
  "synced_tip ck =
     io_bind (io_call (cn_tip ck))
     (\<lambda>node_tip. io_bind (io_call (cn_indexer_tip ck))
     (\<lambda>t. case t of
        Some indexer_tip \<Rightarrow> io_ret (min node_tip (it_block_number indexer_tip))
      | None \<Rightarrow> io_ret node_tip))"

definition get_transaction :: "ckb_node \<Rightarrow> h256 \<Rightarrow> (ckb_error, tx_with_status option) io" where
  "get_transaction ck h = io_call (\<lambda>n. cn_transaction ck n h)"

definition get_header_by_number :: "ckb_node \<Rightarrow> u64 \<Rightarrow> (ckb_error, rpc_header option) io" where
  "get_header_by_number ck number = io_call (\<lambda>n. cn_header ck n number)"

definition get_cells :: "ckb_node \<Rightarrow> search_key \<Rightarrow> u32 \<Rightarrow> (ckb_error, cell_record list) io" where
  "get_cells ck key limit =
     io_bind (io_call (\<lambda>n. cn_cells ck n key Asc limit)) (\<lambda>page. io_ret (pg_objects page))"

definition in_range :: "u64 \<Rightarrow> u64 \<Rightarrow> tx_record \<Rightarrow> bool" where
  "in_range from to r \<longleftrightarrow> \<not> (txr_block_number r < from \<or> txr_block_number r > to)"

text \<open>\<open>page_limit.max(1)\<close> of \<open>CkbClient::new\<close>.\<close>

definition client_page_limit :: "u32 \<Rightarrow> u32" where "client_page_limit limit = max limit 1"

fun collect_pages ::
  "nat \<Rightarrow> ext \<Rightarrow> ckb_node \<Rightarrow> search_key \<Rightarrow> u32 \<Rightarrow> u64 \<Rightarrow> u64 \<Rightarrow> string option \<Rightarrow> tx_record list \<Rightarrow>
   (ckb_error, tx_record list option) io" where
  "collect_pages 0 x ck key limit from to cursor out = io_ret None"
| "collect_pages (Suc fuel) x ck key limit from to cursor out =
     io_bind (io_call (\<lambda>n. cn_transactions ck n key Asc limit cursor))
     (\<lambda>page.
        let out' = out @ filter (in_range from to) (pg_objects page) in
        if length (pg_objects page) < unat limit \<or> pg_last_cursor page = [] then io_ret (Some out')
        else collect_pages fuel x ck key limit from to (Some (bytes_to_hex x (pg_last_cursor page))) out')"

definition record_position :: "tx_record \<Rightarrow> u64 \<times> u32" where
  "record_position r = (txr_block_number r, txr_index r)"

definition collect_transactions_in_range ::
  "nat \<Rightarrow> ext \<Rightarrow> ckb_node \<Rightarrow> u32 \<Rightarrow> script \<Rightarrow> u64 \<Rightarrow> u64 \<Rightarrow> (ckb_error, tx_record list option) io" where
  "collect_transactions_in_range fuel x ck page_limit script from to =
     (if from > to then io_ret (Some [])
      else let key = with_block_range from (to + 1) (lock_prefix script) in
        io_bind (collect_pages fuel x ck key (client_page_limit page_limit) from to None [])
        (\<lambda>out. io_ret (map_option (sort_key record_position) out)))"

definition any_args :: "h256 \<Rightarrow> hash_type \<Rightarrow> script" where
  "any_args code_hash ht = \<lparr> s_code_hash = code_hash, s_hash_type = ht, s_args = [] \<rparr>"

section \<open>Hexadecimal integers read back\<close>

lemma hex_digit_char [simp]: "d < 16 \<Longrightarrow> hex_digit (hex_digit_char d) = Some d"
  by (auto simp: hex_digit_def hex_digit_char_def)

lemma parse_hex_append:
  "parse_hex_digits acc (s @ t) =
     (case parse_hex_digits acc s of None \<Rightarrow> None | Some a \<Rightarrow> parse_hex_digits a t)"
  by (induction acc s rule: parse_hex_digits.induct) (auto split: option.splits)

lemma parse_show_hex: "parse_hex_digits 0 (show_hex n) = Some n"
proof (induction n rule: show_hex.induct)
  case (1 n)
  show ?case
  proof (cases "n < 16")
    case True
    then show ?thesis by (subst show_hex.simps) simp
  next
    case False
    then have "show_hex n = show_hex (n div 16) @ [hex_digit_char (n mod 16)]"
      by (subst show_hex.simps) simp
    with 1 False show ?thesis by (simp add: parse_hex_append)
  qed
qed

lemma show_hex_head: "\<exists>d s. d < 16 \<and> show_hex n = hex_digit_char d # s"
proof (induction n rule: show_hex.induct)
  case (1 n)
  show ?case
  proof (cases "n < 16")
    case True
    then show ?thesis by (subst show_hex.simps) auto
  next
    case False
    then have "show_hex n = show_hex (n div 16) @ [hex_digit_char (n mod 16)]"
      by (subst show_hex.simps) simp
    with 1 False show ?thesis by auto
  qed
qed

lemma hex_uint_reads_back: "n < bound \<Longrightarrow> hex_uint_from_string bound (hex_uint_to_string n) = Some n"
proof -
  assume n: "n < bound"
  obtain d s where hd: "d < 16" "show_hex n = hex_digit_char d # s" using show_hex_head by blast
  have "hex_digit CHR ''+'' = None" by (simp add: hex_digit_def)
  moreover have "hex_digit (hex_digit_char d) \<noteq> None" using hd(1) by simp
  ultimately have "hex_digit_char d \<noteq> CHR ''+''" by metis
  with hd have "strip_prefix ''+'' (show_hex n) = None" "show_hex n \<noteq> []" by auto
  with n show ?thesis
    by (simp add: hex_uint_from_string_def hex_uint_to_string_def from_str_radix_16_def Let_def parse_show_hex)
qed

section \<open>Retries are bounded\<close>

lemma call_from_run:
  "call_from post rpc left w = (r, w') \<Longrightarrow>
   w_tick w < w_tick w' \<and> w_tick w' \<le> w_tick w + Suc left \<and>
   r = try_once rpc (post (w_tick w' - 1)) \<and>
   (\<forall>n. w_tick w \<le> n \<and> n < w_tick w' - 1 \<longrightarrow> (\<exists>e. try_once rpc (post n) = Inl e \<and> retryable e)) \<and>
   (\<forall>e. r = Inl e \<and> retryable e \<longrightarrow> w_tick w' = w_tick w + Suc left) \<and> w_db w' = w_db w"
proof (induction left arbitrary: w)
  case 0
  then show ?case
    by (subst (asm) call_from.simps)
      (auto simp: io_bind_def io_attempt_def io_call_def io_ret_def io_fail_def tick_def
        split: sum.splits if_splits)
next
  case (Suc left)
  show ?case
  proof (cases "\<exists>e. try_once rpc (post (w_tick w)) = Inl e \<and> retryable e")
    case False
    with Suc.prems have "r = try_once rpc (post (w_tick w)) \<and> w' = tick w"
      by (subst (asm) call_from.simps)
        (auto simp: io_bind_def io_attempt_def io_call_def io_ret_def io_fail_def split: sum.splits if_splits)
    with False show ?thesis by (auto simp: tick_def)
  next
    case True
    with Suc.prems have "call_from post rpc left (tick w) = (r, w')"
      by (subst (asm) call_from.simps)
        (auto simp: io_bind_def io_attempt_def io_call_def split: sum.splits if_splits)
    note IH = Suc.IH [OF this]
    have t: "w_tick (tick w) = Suc (w_tick w)" by (simp add: tick_def)
    note lo = IH [THEN conjunct1] and IH1 = IH [THEN conjunct2]
    note hi = IH1 [THEN conjunct1] and IH2 = IH1 [THEN conjunct2]
    note r = IH2 [THEN conjunct1] and IH3 = IH2 [THEN conjunct2]
    have before: "\<exists>e. try_once rpc (post n) = Inl e \<and> retryable e"
      if n: "w_tick w \<le> n" "n < w_tick w' - 1" for n
    proof (cases "n = w_tick w")
      case False
      with n t have "w_tick (tick w) \<le> n" by simp
      with n(2) IH3 show ?thesis by blast
    qed (use True in simp)
    have "w_tick w' = w_tick w + Suc (Suc left)" if "r = Inl e" "retryable e" for e
      using IH3 that t by simp
    moreover have "w_db w' = w_db w" using IH3 by simp
    ultimately show ?thesis using lo hi t r before by simp
  qed
qed


section \<open>Paging\<close>

text \<open>
  An indexer that pages through a fixed list of records. It need not respect the block
  range of the key, and it may number its cursors in any way, empty cursors apart.
\<close>

definition page_at :: "(nat \<Rightarrow> byte list) \<Rightarrow> tx_record list \<Rightarrow> nat \<Rightarrow> nat \<Rightarrow> tx_record pagination" where
  "page_at enc all i limit =
     \<lparr> pg_objects = take limit (drop i all), pg_last_cursor = enc (i + length (take limit (drop i all))) \<rparr>"

definition cursor_at :: "ext \<Rightarrow> (nat \<Rightarrow> byte list) \<Rightarrow> nat \<Rightarrow> string option" where
  "cursor_at x enc i = (if i = 0 then None else Some (bytes_to_hex x (enc i)))"

definition pages_through ::
  "ext \<Rightarrow> ckb_node \<Rightarrow> search_key \<Rightarrow> (nat \<Rightarrow> byte list) \<Rightarrow> tx_record list \<Rightarrow> bool" where
  "pages_through x ck key enc all \<longleftrightarrow>
     (\<forall>i. enc i \<noteq> []) \<and>
     (\<forall>n i limit. cn_transactions ck n key Asc limit (cursor_at x enc i) = Inr (page_at enc all i (unat limit)))"

lemma collect_pages_run:
  assumes "pages_through x ck key enc all" and "0 < limit"
  shows "length all - i < fuel \<Longrightarrow> \<exists>w'.
    collect_pages fuel x ck key limit from to (cursor_at x enc i) out w =
      (Inr (Some (out @ filter (in_range from to) (drop i all))), w') \<and> w_db w' = w_db w"
proof (induction fuel arbitrary: i out w)
  case (Suc fuel)
  let ?objs = "take (unat limit) (drop i all)"
  have page: "\<And>n. cn_transactions ck n key Asc limit (cursor_at x enc i) = Inr (page_at enc all i (unat limit))"
    using assms(1) by (simp add: pages_through_def)
  have enc: "\<And>j. enc j \<noteq> []" using assms(1) by (simp add: pages_through_def)
  have lim: "0 < unat limit" using assms(2) by (simp add: unat_gt_0 word_gt_0)
  show ?case
  proof (cases "length ?objs < unat limit")
    case True
    then have "?objs = drop i all" by simp
    with True page show ?thesis
      by (intro exI [of _ "tick w"])
        (simp add: io_bind_def io_call_def io_ret_def page_at_def Let_def del: length_take)
  next
    case False
    then have len: "length ?objs = unat limit" "i + unat limit \<le> length all"
      using lim by auto
    have cur: "cursor_at x enc (i + unat limit) = Some (bytes_to_hex x (enc (i + unat limit)))"
      using lim by (simp add: cursor_at_def)
    have "length all - (i + unat limit) < fuel" using Suc.prems lim len(2) by linarith
    from Suc.IH [OF this, of "out @ filter (in_range from to) ?objs" "tick w"] obtain w' where
      "collect_pages fuel x ck key limit from to (cursor_at x enc (i + unat limit))
         (out @ filter (in_range from to) ?objs) (tick w) =
       (Inr (Some ((out @ filter (in_range from to) ?objs) @
         filter (in_range from to) (drop (i + unat limit) all))), w')" "w_db w' = w_db (tick w)"
      by blast
    moreover have "filter (in_range from to) ?objs @ filter (in_range from to) (drop (i + unat limit) all) =
        filter (in_range from to) (drop i all)"
      by (simp flip: filter_append) (metis add.commute append_take_drop_id drop_drop)
    ultimately show ?thesis
      using len(1) page enc cur
      by (intro exI [of _ w']) (simp add: io_bind_def io_call_def page_at_def Let_def del: length_take)
  qed
qed simp

text \<open>A node that serves fixed lists; its cursors are zero bytes, one more than the position.\<close>

definition ref_enc :: "nat \<Rightarrow> byte list" where "ref_enc i = replicate (Suc i) 0"

definition ref_node ::
  "u64 \<Rightarrow> rpc_header list \<Rightarrow> tx_with_status list \<Rightarrow> (script \<Rightarrow> tx_record list) \<Rightarrow> ckb_node" where
  "ref_node tip headers txs records =
     \<lparr> cn_tip = (\<lambda>n. Inr tip),
       cn_header = (\<lambda>n number. Inr (find (\<lambda>h. rh_number h = number) headers)),
       cn_transaction = (\<lambda>n h. Inr (find (\<lambda>t. map_option rt_hash (ws_transaction t) = Some h) txs)),
       cn_indexer_tip = (\<lambda>n. Inr None),
       cn_transactions = (\<lambda>n key ord limit cursor. Inr (page_at ref_enc (records (sk_script key))
         (case cursor of None \<Rightarrow> 0 | Some s \<Rightarrow> length s div 2 - 2) (unat limit))),
       cn_cells = (\<lambda>n key ord limit. Inr \<lparr> pg_objects = [], pg_last_cursor = [] \<rparr>) \<rparr>"

lemma ref_node_pages:
  "pages_through ref_ext (ref_node tip headers txs records) key ref_enc (records (sk_script key))"
proof -
  have "length (bytes_to_hex ref_ext (ref_enc i)) div 2 - 2 = i" for i
    using length_hex_encode [OF ref_ext_ok, of "ref_enc i"] by (simp add: bytes_to_hex_def ref_enc_def)
  then show ?thesis
    by (simp add: pages_through_def ref_node_def cursor_at_def) (simp add: ref_enc_def)
qed

section \<open>The synced tip\<close>

lemma synced_tip_run:
  assumes "synced_tip ck w = (Inr t, w')"
  shows "(\<exists>node. cn_tip ck (w_tick w) = Inr node \<and> t \<le> node) \<and>
    (\<forall>it. cn_indexer_tip ck (Suc (w_tick w)) = Inr (Some it) \<longrightarrow> t \<le> it_block_number it)"
  using assms
  by (auto simp: synced_tip_def io_bind_Inr io_call_def tick_def min_def split: option.splits if_splits)


section \<open>Properties\<close>

text \<open>
  Hexadecimal integers on the wire: \<open>HexUint\<close> parses what it prints, for every width.
\<close>

theorem hex_uint_wire: "n < bound \<Longrightarrow> hex_uint_from_string bound (hex_uint_to_string n) = Some n"
  by (rule hex_uint_reads_back)

lemma hex_uint_wire_witness: "hex_uint_from_string (2 ^ 64) (hex_uint_to_string 4660) = Some 4660"
  by (rule hex_uint_wire) simp

text \<open>
  A JSON-RPC call sends between one and four requests. Every request but the last failed
  in transport, the outcome is that of the last one, an application error is final at once,
  and a transport error is only reported after all four attempts.
\<close>

theorem rpc_retries_only_transport:
  assumes "call_value post rpc w = (r, w')"
  shows "w_tick w < w_tick w' \<and> w_tick w' \<le> w_tick w + 4 \<and>
    r = try_once rpc (post (w_tick w' - 1)) \<and>
    (\<forall>n. w_tick w \<le> n \<and> n < w_tick w' - 1 \<longrightarrow> (\<exists>m. post n = HTransport m)) \<and>
    (\<forall>m. r = Inl (CETransport m) \<longrightarrow> w_tick w' = w_tick w + 4) \<and> w_db w' = w_db w"
proof -
  have transport: "\<exists>m. post n = HTransport m"
    if "\<exists>e. try_once rpc (post n) = Inl e \<and> retryable e" for n
    using that by (auto simp: try_once_def Let_def split: http_reply.splits option.splits if_splits)
  note run = call_from_run [OF assms [unfolded call_value_def MAX_RETRIES_def]]
  note lo = run [THEN conjunct1] and run1 = run [THEN conjunct2]
  note hi = run1 [THEN conjunct1] and run2 = run1 [THEN conjunct2]
  note r = run2 [THEN conjunct1] and run3 = run2 [THEN conjunct2]
  note before = run3 [THEN conjunct1] and run4 = run3 [THEN conjunct2]
  note last = run4 [THEN conjunct1] and db = run4 [THEN conjunct2]
  have "\<exists>m. post n = HTransport m" if "w_tick w \<le> n \<and> n < w_tick w' - 1" for n
    by (rule transport, rule before [rule_format, OF that])
  moreover have "w_tick w' = w_tick w + 4" if "r = Inl (CETransport m)" for m
    using last [rule_format, of "CETransport m"] that by (simp add: numeral_eq_Suc)
  moreover have "w_tick w' \<le> w_tick w + 4" using hi by (simp add: numeral_eq_Suc)
  ultimately show ?thesis using lo r db by blast
qed

lemma rpc_retries_only_transport_witness:
  "\<exists>r w'. call_value (\<lambda>n. if n < 2 then HTransport ''reset'' else HPayload (JObj [(''result'', JInt 7)])) ''get_tip'' (world_of empty_db) = (r, w') \<and>
     w_tick w' \<le> 4"
proof -
  let ?post = "\<lambda>n. if n < 2 then HTransport ''reset'' else HPayload (JObj [(''result'', JInt 7)])"
  have run: "call_value ?post ''get_tip'' (world_of empty_db) =
      (fst (call_value ?post ''get_tip'' (world_of empty_db)), snd (call_value ?post ''get_tip'' (world_of empty_db)))"
    by (rule prod.collapse [symmetric])
  have "w_tick (world_of empty_db) = 0" by (simp add: world_of_def)
  with rpc_retries_only_transport [OF run, THEN conjunct2, THEN conjunct1] run show ?thesis
    by (metis add_0)
qed

text \<open>
  C38.
  Collecting a range: whatever cursors the indexer uses and even if it ignores the block
  range it was asked for, every record of the range is returned, each as often as the
  indexer holds it, in the order of block and position, and the loop ends.
\<close>

theorem collect_transactions_complete:
  assumes "pages_through x ck (with_block_range from (to + 1) (lock_prefix script)) enc all"
    and "from \<le> to" and "length all < fuel"
  shows "\<exists>out w'. collect_transactions_in_range fuel x ck limit script from to w = (Inr (Some out), w') \<and>
    mset out = mset (filter (in_range from to) all) \<and> sorted (map record_position out) \<and> w_db w' = w_db w"
proof -
  have "0 < client_page_limit limit" by (simp add: client_page_limit_def less_max_iff_disj)
  from collect_pages_run [OF assms(1) this, of 0 fuel "from" to "[]" w] assms(3) obtain w' where
    "collect_pages fuel x ck (with_block_range from (to + 1) (lock_prefix script)) (client_page_limit limit) from to None [] w =
      (Inr (Some (filter (in_range from to) all)), w')" "w_db w' = w_db w"
    by (auto simp: cursor_at_def)
  moreover have "\<not> to < from" using assms(2) by simp
  ultimately show ?thesis
    by (intro exI [of _ "sort_key record_position (filter (in_range from to) all)"] exI [of _ w'])
      (simp add: collect_transactions_in_range_def io_bind_def io_ret_def Let_def)
qed

definition ref_record :: "u64 \<Rightarrow> tx_record" where
  "ref_record b = \<lparr> txr_hash = h256_zero, txr_block_number = b, txr_index = 0, txr_cells = [] \<rparr>"

lemma collect_transactions_complete_witness:
  "\<exists>out w'. collect_transactions_in_range 4 ref_ext (ref_node 9 [] [] (\<lambda>_. map ref_record [2, 7, 5])) 1
     (any_args h256_zero HData) 2 6 (world_of empty_db) = (Inr (Some out), w') \<and>
     mset out = mset (map ref_record [2, 5])"
proof -
  have "filter (in_range 2 6) (map ref_record [2, 7, 5]) = map ref_record [2, 5]"
    by (simp add: in_range_def ref_record_def)
  then show ?thesis
    using collect_transactions_complete [OF ref_node_pages, of 2 6 "\<lambda>_. map ref_record [2, 7, 5]" "any_args h256_zero HData" 4
        9 "[]" "[]" 1 "world_of empty_db"] by auto
qed

text \<open>
  The synced tip is never above the node's tip nor above the indexer's.
\<close>

theorem synced_tip_behind_both:
  assumes "synced_tip ck w = (Inr t, w')"
  shows "(\<exists>node. cn_tip ck (w_tick w) = Inr node \<and> t \<le> node) \<and>
    (\<forall>it. cn_indexer_tip ck (Suc (w_tick w)) = Inr (Some it) \<longrightarrow> t \<le> it_block_number it)"
  using assms by (rule synced_tip_run)

lemma synced_tip_behind_both_witness:
  "\<exists>w'. synced_tip (ref_node 9 [] [] (\<lambda>_. [])) (world_of empty_db) = (Inr 9, w')"
proof -
  have run: "synced_tip (ref_node 9 [] [] (\<lambda>_. [])) (world_of empty_db) = (Inr 9, tick (tick (world_of empty_db)))"
    by (simp add: synced_tip_def ref_node_def io_bind_def io_call_def io_ret_def)
  from synced_tip_behind_both [OF run] run show ?thesis by blast
qed

end
