(* ===== verification/Extract.thy ===== *)
theory Extract
  imports Btc_Source Ckb_Client Store_Ckb
begin

text \<open>
  \<open>crates/indexer/src\<close>: the error type (\<open>error.rs\<close>), the interpretation of one CKB
  transaction (\<open>extract.rs\<close>) and the reconstruction of a cell from its stored row
  (\<open>resolve.rs\<close>). All of it is pure. The lemmas say that storing and rebuilding a cell is
  the identity, from a database row and from a pending row of the batch alike.
\<close>

section \<open>Errors\<close>

text \<open>\<open>IEDiverged\<close> is not an error of the program: it marks that the fuel of a loop ran out.\<close>

datatype indexer_error =
    IECkb ckb_error
  | IEBtc btc_error
  | IEStore store_error
  | IETypes terr
  | IEReorg u64 string string
  | IEInconsistent string
  | IEDiverged

section \<open>Reading a transaction\<close>

record resolved_input =
  rz_input_index :: u32
  rz_out_point :: ckb_out_point
  rz_binding :: lock_binding
  rz_cell :: cell_output
  rz_data :: "byte list"

record block_context =
  bctx_number :: u64
  bctx_hash :: h256
  bctx_timestamp :: int
  bctx_tx_index :: u32

record extracted_tx =
  et_cells :: "new_cell list"
  et_spends :: "cell_spend list"
  et_transition :: "new_transition option"

record rgbpp_output =
  ro_index :: u32
  ro_binding :: lock_binding
  ro_cell :: cell_output
  ro_data :: "byte list"

text \<open>\<open>classify_outputs\<close> never returns an error; the warning it logs is left out.\<close>

fun classify_outputs_from ::
  "protocol_scripts \<Rightarrow> byte list list \<Rightarrow> nat \<Rightarrow> cell_output list \<Rightarrow> rgbpp_output list" where
  "classify_outputs_from protocol outputs_data index [] = []"
| "classify_outputs_from protocol outputs_data index (cell # outputs) =
     (let rest = classify_outputs_from protocol outputs_data (Suc index) outputs in
      case classify_lock protocol (out_lock cell) of
        None \<Rightarrow> rest
      | Some kind \<Rightarrow>
        (case binding_parse kind (s_args (out_lock cell)) of
           Inl e \<Rightarrow> rest
         | Inr binding \<Rightarrow>
           \<lparr> ro_index = of_nat index, ro_binding = binding, ro_cell = cell,
             ro_data = (if index < length outputs_data then outputs_data ! index else []) \<rparr> # rest))"

definition classify_outputs ::
  "protocol_scripts \<Rightarrow> cell_output list \<Rightarrow> byte list list \<Rightarrow> rgbpp_output list" where
  "classify_outputs protocol outputs outputs_data = classify_outputs_from protocol outputs_data 0 outputs"

definition classify_transition :: "resolved_input list \<Rightarrow> rgbpp_output list \<Rightarrow> transition_kind" where
  "classify_transition inputs outputs =
     (let btc_time_in = length (filter (\<lambda>i. binding_kind (rz_binding i) = KBtcTime) inputs);
          rgbpp_in = length inputs - btc_time_in;
          rgbpp_out = length (filter (\<lambda>out. binding_kind (ro_binding out) = KRgbpp) outputs);
          btc_time_out = length outputs - rgbpp_out
      in if btc_time_in > 0 then BtcTimeUnlock
         else if rgbpp_in = 0 then Issuance
         else if rgbpp_out = 0 \<and> btc_time_out > 0 then LeapToCkb
         else if rgbpp_out > 0 then Transfer
         else Exit)"

fun derive_btc_txid_from :: "btc_txid option \<Rightarrow> rgbpp_output list \<Rightarrow> btc_txid option" where
  "derive_btc_txid_from txid [] = txid"
| "derive_btc_txid_from txid (out # outputs) =
     (let candidate = binding_txid (ro_binding out) in
      case txid of
        None \<Rightarrow> derive_btc_txid_from (Some candidate) outputs
      | Some existing \<Rightarrow> if existing \<noteq> candidate then None else derive_btc_txid_from txid outputs)"

definition derive_btc_txid :: "rgbpp_output list \<Rightarrow> btc_txid option" where
  "derive_btc_txid outputs = derive_btc_txid_from None outputs"

text \<open>One output as it is committed to.\<close>

definition committed_output :: "rgbpp_output \<Rightarrow> (cell_output \<times> byte list) res" where
  "committed_output out =
     (case args_with_placeholder_txid (binding_kind (ro_binding out)) (s_args (out_lock (ro_cell out))) of
        Inl e \<Rightarrow> Inl e
      | Inr args \<Rightarrow>
        Inr ((ro_cell out)\<lparr> out_lock := (out_lock (ro_cell out))\<lparr> s_args := args \<rparr> \<rparr>, ro_data out))"

definition expected_commitment ::
  "ext \<Rightarrow> resolved_input list \<Rightarrow> rgbpp_output list \<Rightarrow> bytes32 option" where
  "expected_commitment x inputs outputs =
     (if inputs = [] \<and> outputs = [] then None
      else case collect committed_output outputs of
        Inl e \<Rightarrow> None
      | Inr output_pairs \<Rightarrow>
        Some (commitment_of x (preimage_new (map rz_out_point inputs) output_pairs)))"

text \<open>\<open>udt_amount_to_decimal\<close> does not fail, so neither does \<open>fungible_amount\<close>.\<close>

definition fungible_amount :: "asset_kind \<Rightarrow> byte list \<Rightarrow> nat option" where
  "fungible_amount kind data =
     (if \<not> is_fungible kind then None else map_option udt_amount_to_decimal (parse_udt_amount data))"

definition script_to_json :: "ext \<Rightarrow> script \<Rightarrow> json" where
  "script_to_json x s = JObj
     [(''code_hash'', JStr (h256_to_hex x (s_code_hash s))),
      (''hash_type'', JStr (hash_type_as_str (s_hash_type s))),
      (''args'', JStr (bytes_to_hex x (s_args s)))]"

definition build_new_cell ::
  "ext \<Rightarrow> asset_scripts \<Rightarrow> h256 \<Rightarrow> rgbpp_output \<Rightarrow> block_context \<Rightarrow> new_cell" where
  "build_new_cell x assets tx_hash out block =
     (let cell = ro_cell out;
          asset_kind = classify_asset assets (out_type cell);
          btc_vout = (case ro_binding out of BRgbpp a \<Rightarrow> Some (as_i32 (ra_out_index a)) | BBtcTime a \<Rightarrow> None);
          btc_time_after = (case ro_binding out of BRgbpp a \<Rightarrow> None | BBtcTime a \<Rightarrow> Some (as_i32 (ta_after a)));
          target_lock_hash = (case ro_binding out of BRgbpp a \<Rightarrow> None
            | BBtcTime a \<Rightarrow> Some (h256_to_vec (calc_hash x (ta_target_lock a))));
          target_lock_json = (case ro_binding out of BRgbpp a \<Rightarrow> None
            | BBtcTime a \<Rightarrow> Some (script_to_json x (ta_target_lock a)))
      in \<lparr> nc_tx_hash = h256_to_vec tx_hash, nc_index = as_i32 (ro_index out),
           nc_lock_kind = binding_kind (ro_binding out),
           nc_btc_txid = to_display_vec (binding_txid (ro_binding out)),
           nc_btc_vout = btc_vout, nc_time_after = btc_time_after,
           nc_target_lock_hash = target_lock_hash, nc_target_lock = target_lock_json,
           nc_lock_hash = h256_to_vec (calc_hash x (out_lock cell)),
           nc_lock_args = s_args (out_lock cell),
           nc_type_hash = map_option (\<lambda>t. h256_to_vec (calc_hash x t)) (out_type cell),
           nc_type_script = map_option (script_to_json x) (out_type cell),
           nc_asset_kind = asset_kind, nc_udt_amount = fungible_amount asset_kind (ro_data out),
           nc_capacity = as_i64 (out_capacity cell), nc_cell_data = ro_data out,
           nc_block_number = as_i64 (bctx_number block), nc_block_hash = h256_to_vec (bctx_hash block),
           nc_created_tx_index = as_i32 (bctx_tx_index block) \<rparr>)"

definition spend_of :: "h256 \<Rightarrow> block_context \<Rightarrow> resolved_input \<Rightarrow> cell_spend" where
  "spend_of tx_hash block i =
     \<lparr> cs_tx_hash = h256_to_vec (co_tx_hash (rz_out_point i)),
       cs_index = as_i32 (co_index (rz_out_point i)),
       cs_block_number = as_i64 (bctx_number block), cs_block_hash = h256_to_vec (bctx_hash block),
       cs_consumed_tx = h256_to_vec tx_hash, cs_tx_index = as_i32 (bctx_tx_index block),
       cs_input_index = as_i32 (rz_input_index i) \<rparr>"

definition transition_of ::
  "ext \<Rightarrow> h256 \<Rightarrow> resolved_input list \<Rightarrow> rgbpp_output list \<Rightarrow> block_context \<Rightarrow> new_transition" where
  "transition_of x tx_hash resolved_inputs rgbpp_outputs block =
     (let kind = classify_transition resolved_inputs rgbpp_outputs;
          btc_txid = map_option to_display_vec (derive_btc_txid rgbpp_outputs);
          commitment = expected_commitment x resolved_inputs rgbpp_outputs
      in \<lparr> nt_tx_hash = h256_to_vec tx_hash, nt_block_number = as_i64 (bctx_number block),
           nt_block_hash = h256_to_vec (bctx_hash block), nt_tx_index = as_i32 (bctx_tx_index block),
           nt_timestamp = Some (bctx_timestamp block), nt_kind = kind, nt_btc_txid = btc_txid,
           nt_input_count = as_i32 (of_nat (length resolved_inputs)),
           nt_output_count = as_i32 (of_nat (length rgbpp_outputs)),
           nt_expected = map_option list32 commitment \<rparr>)"

definition extract_tx ::
  "ext \<Rightarrow> protocol_scripts \<Rightarrow> asset_scripts \<Rightarrow> h256 \<Rightarrow> cell_output list \<Rightarrow> byte list list \<Rightarrow>
   resolved_input list \<Rightarrow> block_context \<Rightarrow> indexer_error + extracted_tx" where
  "extract_tx x protocol assets tx_hash outputs outputs_data resolved_inputs block =
     (let rgbpp_outputs = classify_outputs protocol outputs outputs_data in
      if rgbpp_outputs = [] \<and> resolved_inputs = [] then
        Inl (IEInconsistent (''transaction '' @ h256_to_hex x tx_hash @
          '' matched an RGB++ lock but has no readable RGB++ cells''))
      else Inr \<lparr> et_cells = map (\<lambda>out. build_new_cell x assets tx_hash out block) rgbpp_outputs,
                et_spends = map (spend_of tx_hash block) resolved_inputs,
                et_transition = Some (transition_of x tx_hash resolved_inputs rgbpp_outputs block) \<rparr>)"

lemma transition_of_sel [simp]:
  "nt_tx_hash (transition_of x h ins outs b) = h256_to_vec h"
  "nt_btc_txid (transition_of x h ins outs b) = map_option to_display_vec (derive_btc_txid outs)"
  by (simp_all add: transition_of_def Let_def)

text \<open>\<open>now\<close> is what \<open>Utc::now()\<close> answers, in microseconds.\<close>

definition ckb_timestamp :: "ext \<Rightarrow> int \<Rightarrow> u64 \<Rightarrow> int" where
  "ckb_timestamp x now millis = (if ex_millis_ok x (as_i64 millis) then as_i64 millis * 1000 else now)"

section \<open>Rebuilding a cell\<close>

definition UNKNOWN_TX_INDEX :: int where "UNKNOWN_TX_INDEX = -1"

definition script_from_json :: "ext \<Rightarrow> json \<Rightarrow> indexer_error + script" where
  "script_from_json x v =
     (case Option.bind (json_get ''code_hash'' v) json_str of
        None \<Rightarrow> Inl (IEInconsistent ''stored script has no code_hash'')
      | Some code_hash \<Rightarrow>
        (case Option.bind (json_get ''hash_type'' v) json_str of
           None \<Rightarrow> Inl (IEInconsistent ''stored script has no hash_type'')
         | Some ht \<Rightarrow>
           let args = unwrap_or ''0x'' (Option.bind (json_get ''args'' v) json_str) in
           case h256_from_hex x code_hash of Inl e \<Rightarrow> Inl (IETypes e)
           | Inr h \<Rightarrow>
             (case hash_type_from_str_opt ht of
                None \<Rightarrow> Inl (IEInconsistent (''stored script has unknown hash_type '' @ ht))
              | Some t \<Rightarrow>
                (case bytes_from_hex x args of Inl e \<Rightarrow> Inl (IETypes e)
                 | Inr bs \<Rightarrow> Inr \<lparr> s_code_hash = h, s_hash_type = t, s_args = bs \<rparr>))))"

definition lock_of_kind :: "protocol_scripts \<Rightarrow> lock_kind \<Rightarrow> byte list \<Rightarrow> script" where
  "lock_of_kind protocol kind args =
     (let script_id = (case kind of KRgbpp \<Rightarrow> ps_rgbpp_lock protocol | KBtcTime \<Rightarrow> ps_btc_time_lock protocol)
      in \<lparr> s_code_hash = id_code_hash script_id, s_hash_type = id_hash_type script_id, s_args = args \<rparr>)"

text \<open>\<open>row.type_script.as_ref().map(script_from_json).transpose()?\<close>.\<close>

definition type_from_json :: "ext \<Rightarrow> json option \<Rightarrow> indexer_error + script option" where
  "type_from_json x v =
     (case v of None \<Rightarrow> Inr None
      | Some j \<Rightarrow> (case script_from_json x j of Inl e \<Rightarrow> Inl e | Inr s \<Rightarrow> Inr (Some s)))"

definition cell_output_from_row :: "ext \<Rightarrow> protocol_scripts \<Rightarrow> cell_row \<Rightarrow> indexer_error + cell_output" where
  "cell_output_from_row x protocol row =
     (case cell_row_lock_kind row of Inl e \<Rightarrow> Inl (IEStore e)
      | Inr kind \<Rightarrow>
        let lock = lock_of_kind protocol kind (cr_lock_args row) in
        if h256_to_vec (calc_hash x lock) \<noteq> cr_lock_hash row then
          Inl (IEInconsistent (''stored cell '' @ ex_hex_encode x (cr_tx_hash row) @ '':'' @ show_int (cr_index row)
            @ '' was indexed under a different '' @ lock_kind_as_str kind
            @ '' deployment; its lock hash does not match the configured code hash''))
        else case type_from_json x (cr_type_script row) of Inl e \<Rightarrow> Inl e
        | Inr t \<Rightarrow> Inr \<lparr> out_capacity = as_u64 (cr_capacity row), out_lock = lock, out_type = t \<rparr>)"

definition binding_from_row :: "cell_row \<Rightarrow> indexer_error + lock_binding" where
  "binding_from_row row =
     (case cell_row_lock_kind row of Inl e \<Rightarrow> Inl (IEStore e)
      | Inr kind \<Rightarrow> map_err IETypes (binding_parse kind (cr_lock_args row)))"

text \<open>From \<open>scanner.rs\<close>: the same from a row that is still in the batch, unchecked.\<close>

definition resolved_from_new_cell ::
  "ext \<Rightarrow> protocol_scripts \<Rightarrow> new_cell \<Rightarrow> ckb_out_point \<Rightarrow> u32 \<Rightarrow> indexer_error + resolved_input" where
  "resolved_from_new_cell x protocol cell out_point input_index =
     (let lock = lock_of_kind protocol (nc_lock_kind cell) (nc_lock_args cell) in
      case type_from_json x (nc_type_script cell) of Inl e \<Rightarrow> Inl e
      | Inr t \<Rightarrow>
        (case binding_parse (nc_lock_kind cell) (nc_lock_args cell) of Inl e \<Rightarrow> Inl (IETypes e)
         | Inr binding \<Rightarrow> Inr
           \<lparr> rz_input_index = input_index, rz_out_point = out_point, rz_binding = binding,
             rz_cell = \<lparr> out_capacity = as_u64 (nc_capacity cell), out_lock = lock, out_type = t \<rparr>,
             rz_data = nc_cell_data cell \<rparr>))"

definition resolved_from_row ::
  "ext \<Rightarrow> protocol_scripts \<Rightarrow> cell_row \<Rightarrow> ckb_out_point \<Rightarrow> u32 \<Rightarrow> indexer_error + resolved_input" where
  "resolved_from_row x protocol row out_point input_index =
     (case binding_from_row row of Inl e \<Rightarrow> Inl e
      | Inr binding \<Rightarrow>
        (case cell_output_from_row x protocol row of Inl e \<Rightarrow> Inl e
         | Inr cell \<Rightarrow> Inr
           \<lparr> rz_input_index = input_index, rz_out_point = out_point, rz_binding = binding,
             rz_cell = cell, rz_data = cr_cell_data row \<rparr>))"

section \<open>Which outputs are read\<close>

lemma to_display_vec_inject [simp]: "to_display_vec a = to_display_vec b \<longleftrightarrow> a = b"
  by (cases a; cases b) (simp add: to_display_vec_def)

text \<open>An output whose lock is one of the two locks, with readable arguments.\<close>

definition readable_output :: "protocol_scripts \<Rightarrow> rgbpp_output \<Rightarrow> bool" where
  "readable_output protocol out \<longleftrightarrow>
     classify_lock protocol (out_lock (ro_cell out)) = Some (binding_kind (ro_binding out)) \<and>
     binding_parse (binding_kind (ro_binding out)) (s_args (out_lock (ro_cell out))) = Inr (ro_binding out)"

definition output_data :: "byte list list \<Rightarrow> nat \<Rightarrow> byte list" where
  "output_data outputs_data i = (if i < length outputs_data then outputs_data ! i else [])"

lemma classify_outputs_from_nth:
  "out \<in> set (classify_outputs_from protocol dat n outs) \<longleftrightarrow>
   (\<exists>i < length outs. ro_index out = of_nat (n + i) \<and> ro_cell out = outs ! i \<and>
      ro_data out = output_data dat (n + i) \<and> readable_output protocol out)"
proof (induction outs arbitrary: n)
  case (Cons cell outs)
  have shift: "(\<exists>i < length (cell # outs). P i) \<longleftrightarrow> P 0 \<or> (\<exists>i < length outs. P (Suc i))" for P
    by (auto simp: less_Suc_eq_0_disj)
  show ?case
    unfolding shift using Cons.IH [of "Suc n"]
    by (cases out)
      (auto simp: readable_output_def output_data_def Let_def dest: binding_parse_kind
        split: option.splits sum.splits)
qed simp

lemma classify_outputs_readable: "out \<in> set (classify_outputs protocol outs dat) \<Longrightarrow> readable_output protocol out"
  by (auto simp: classify_outputs_def classify_outputs_from_nth)

lemma classify_outputs_index:
  assumes "n + length outs \<le> 2 ^ 32"
  shows "distinct (map ro_index (classify_outputs_from protocol dat n outs))"
  using assms
proof (induction outs arbitrary: n)
  case (Cons cell outs)
  have "(of_nat n :: u32) \<notin> ro_index ` set (classify_outputs_from protocol dat (Suc n) outs)"
  proof
    assume "(of_nat n :: u32) \<in> ro_index ` set (classify_outputs_from protocol dat (Suc n) outs)"
    then obtain i where "i < length outs" "(of_nat n :: u32) = of_nat (Suc n + i)"
      by (auto simp: classify_outputs_from_nth)
    from this(2) have "unat (of_nat n :: u32) = unat (of_nat (Suc n + i) :: u32)" by (rule arg_cong)
    moreover have "n < 2 ^ 32" "Suc n + i < 2 ^ 32" using Cons.prems \<open>i < length outs\<close> by simp_all
    moreover have "m < 2 ^ 32 \<Longrightarrow> unat (of_nat m :: u32) = m" for m by (simp add: unat_of_nat)
    ultimately show False by (metis add_Suc_shift n_not_Suc_n add_left_cancel nat.distinct(1) add_cancel_left_right add_Suc)
  qed
  with Cons show ?case by (auto simp: Let_def split: option.splits sum.splits)
qed simp

section \<open>Storing and rebuilding\<close>

lemma script_json_reads_back: "ext_ok x \<Longrightarrow> script_from_json x (script_to_json x s) = Inr s"
  by (cases s) (simp add: script_from_json_def script_to_json_def json_get_def json_str_def Let_def unwrap_or_def)

lemma type_json_reads_back: "ext_ok x \<Longrightarrow> type_from_json x (map_option (script_to_json x) t) = Inr t"
  by (cases t) (simp_all add: type_from_json_def script_json_reads_back)

lemma lock_of_kind_classified: "classify_lock protocol lock = Some k \<Longrightarrow> lock_of_kind protocol k (s_args lock) = lock"
  by (cases lock)
    (auto simp: classify_lock_def lock_of_kind_def script_id_matches_def Let_def split: if_splits)

definition resolved_output :: "rgbpp_output \<Rightarrow> ckb_out_point \<Rightarrow> u32 \<Rightarrow> resolved_input" where
  "resolved_output out op i =
     \<lparr> rz_input_index = i, rz_out_point = op, rz_binding = ro_binding out, rz_cell = ro_cell out, rz_data = ro_data out \<rparr>"

lemma build_new_cell_sel [simp]:
  "nc_tx_hash (build_new_cell x assets h out b) = h256_to_vec h"
  "nc_index (build_new_cell x assets h out b) = as_i32 (ro_index out)"
  "nc_lock_kind (build_new_cell x assets h out b) = binding_kind (ro_binding out)"
  "nc_lock_args (build_new_cell x assets h out b) = s_args (out_lock (ro_cell out))"
  "nc_type_script (build_new_cell x assets h out b) = map_option (script_to_json x) (out_type (ro_cell out))"
  "nc_capacity (build_new_cell x assets h out b) = as_i64 (out_capacity (ro_cell out))"
  "nc_cell_data (build_new_cell x assets h out b) = ro_data out"
  "nc_lock_hash (build_new_cell x assets h out b) = h256_to_vec (calc_hash x (out_lock (ro_cell out)))"
  by (simp_all add: build_new_cell_def Let_def)

text \<open>A stored row that still has the content it was inserted with.\<close>

definition same_content :: "cell_db \<Rightarrow> new_cell \<Rightarrow> bool" where
  "same_content c n \<longleftrightarrow>
     nc_lock_kind c = nc_lock_kind n \<and> nc_lock_args c = nc_lock_args n \<and> nc_lock_hash c = nc_lock_hash n \<and>
     nc_type_script c = nc_type_script n \<and> nc_capacity c = nc_capacity n \<and> nc_cell_data c = nc_cell_data n"

lemma rebuilt_from_row:
  assumes "ext_ok x" "readable_output protocol out" "same_content c (build_new_cell x assets h out b)"
  shows "resolved_from_row x protocol (cell_status_row d c) op i = Inr (resolved_output out op i)"
  using assms
  by (simp add: resolved_from_row_def binding_from_row_def cell_output_from_row_def cell_row_lock_kind_def
      cell_status_row_def same_content_def readable_output_def Let_def lock_of_kind_classified
      type_json_reads_back resolved_output_def)

lemma rebuilt_from_batch:
  assumes "ext_ok x" "readable_output protocol out"
  shows "resolved_from_new_cell x protocol (build_new_cell x assets h out b) op i = Inr (resolved_output out op i)"
  using assms
  by (simp add: resolved_from_new_cell_def readable_output_def Let_def lock_of_kind_classified
      type_json_reads_back resolved_output_def)

section \<open>Commitments\<close>

lemma committed_output_readable:
  assumes "readable_output protocol out"
  shows "\<exists>p. committed_output out = Inr p"
  using placeholder_parse [of "binding_kind (ro_binding out)" "s_args (out_lock (ro_cell out))" "ro_binding out"] assms
  by (auto simp: committed_output_def readable_output_def)

text \<open>Two outputs that differ at most in the Bitcoin txid they are bound to.\<close>

definition same_but_txid :: "rgbpp_output \<Rightarrow> rgbpp_output \<Rightarrow> bool" where
  "same_but_txid a b \<longleftrightarrow>
     clear_txid (ro_binding a) = clear_txid (ro_binding b) \<and> ro_data a = ro_data b \<and>
     (\<exists>args. ro_cell b = (ro_cell a)\<lparr> out_lock := (out_lock (ro_cell a))\<lparr> s_args := args \<rparr> \<rparr>)"

lemma clear_txid_kind: "clear_txid a = clear_txid b \<Longrightarrow> binding_kind a = binding_kind b"
  by (cases a; cases b) simp_all

lemma committed_output_same:
  assumes "readable_output protocol a" "readable_output protocol b" "same_but_txid a b"
  shows "committed_output a = committed_output b"
proof -
  have k: "binding_kind (ro_binding a) = binding_kind (ro_binding b)"
    using assms(3) by (auto simp: same_but_txid_def intro: clear_txid_kind)
  have "args_with_placeholder_txid (binding_kind (ro_binding b)) (s_args (out_lock (ro_cell a))) =
        args_with_placeholder_txid (binding_kind (ro_binding b)) (s_args (out_lock (ro_cell b)))"
    using assms k
    by (subst placeholder_eq_iff [of _ _ "ro_binding a" _ "ro_binding b"])
      (simp_all add: readable_output_def same_but_txid_def)
  with assms(3) k show ?thesis
    by (auto simp: committed_output_def same_but_txid_def split: sum.split)
qed

lemma collect_cong2: "list_all2 (\<lambda>a b. f a = f b) xs ys \<Longrightarrow> collect f xs = collect f ys"
  by (induction rule: list_all2_induct) (auto split: sum.split)

lemma derive_btc_txid_from_Some:
  "derive_btc_txid_from (Some t) outs = Some t' \<longleftrightarrow> t' = t \<and> (\<forall>out \<in> set outs. binding_txid (ro_binding out) = t)"
  by (induction outs) (auto simp: Let_def)

section \<open>Properties\<close>

text \<open>
  C39.
  A cell survives being stored: rebuilt from its database row (even after a replay moved
  its creation anchor) or from the pending row of the batch, the consumed cell is the one
  that was created, with its lock, type script, capacity, data and binding.
\<close>

theorem stored_cell_rebuilt:
  assumes "ext_ok x" "out \<in> set (classify_outputs protocol outs dat)"
    and "same_content c (build_new_cell x assets h out b)"
  shows "resolved_from_row x protocol (cell_status_row d c) op i = Inr (resolved_output out op i) \<and>
    resolved_from_new_cell x protocol (build_new_cell x assets h out b) op i = Inr (resolved_output out op i)"
  using rebuilt_from_row [OF assms(1) classify_outputs_readable [OF assms(2)] assms(3)]
    rebuilt_from_batch [OF assms(1) classify_outputs_readable [OF assms(2)]] by blast

definition sample_protocol :: protocol_scripts where
  "sample_protocol = \<lparr> ps_rgbpp_lock = \<lparr> id_code_hash = H256 (mk32 (replicate 32 1)), id_hash_type = HType \<rparr>,
     ps_btc_time_lock = \<lparr> id_code_hash = H256 (mk32 (replicate 32 2)), id_hash_type = HType \<rparr> \<rparr>"

definition sample_assets :: asset_scripts where
  "sample_assets = \<lparr> as_xudt = [], as_sudt = [], as_spore = [], as_spore_cluster = [] \<rparr>"

text \<open>An output bound to the given output of the Bitcoin transaction of the given digit.\<close>

definition sample_output :: "u32 \<Rightarrow> byte \<Rightarrow> cell_output" where
  "sample_output vout t = \<lparr> out_capacity = 100,
     out_lock = lock_of_kind sample_protocol KRgbpp
       (rgbpp_encode \<lparr> ra_out_index = vout, ra_txid = BtcTxid (mk32 (replicate 32 t)) \<rparr>),
     out_type = None \<rparr>"

definition sample_read :: "u32 \<Rightarrow> u32 \<Rightarrow> byte \<Rightarrow> rgbpp_output" where
  "sample_read index vout t = \<lparr> ro_index = index,
     ro_binding = BRgbpp \<lparr> ra_out_index = vout, ra_txid = BtcTxid (mk32 (replicate 32 t)) \<rparr>,
     ro_cell = sample_output vout t, ro_data = [] \<rparr>"

lemma classify_sample: "classify_outputs sample_protocol [sample_output v t] [[]] = [sample_read 0 v t]"
  by (simp add: classify_outputs_def sample_output_def sample_read_def classify_lock_def lock_of_kind_def
      script_id_matches_def binding_parse_def rgbpp_parse_encode Let_def)

definition sample_block :: block_context where
  "sample_block = \<lparr> bctx_number = 5, bctx_hash = h256_zero, bctx_timestamp = 0, bctx_tx_index = 2 \<rparr>"

lemma stored_cell_rebuilt_witness:
  "resolved_from_row ref_ext sample_protocol
     (cell_status_row empty_db (fresh_cell 0 (build_new_cell ref_ext sample_assets h256_zero (sample_read 0 1 7) sample_block)))
     \<lparr> co_tx_hash = h256_zero, co_index = 0 \<rparr> 3 = Inr (resolved_output (sample_read 0 1 7) \<lparr> co_tx_hash = h256_zero, co_index = 0 \<rparr> 3)"
proof (rule stored_cell_rebuilt [OF ref_ext_ok, THEN conjunct1])
  show "sample_read 0 1 7 \<in> set (classify_outputs sample_protocol [sample_output 1 7] [[]])"
    by (simp add: classify_sample)
  show "same_content (fresh_cell 0 (build_new_cell ref_ext sample_assets h256_zero (sample_read 0 1 7) sample_block))
      (build_new_cell ref_ext sample_assets h256_zero (sample_read 0 1 7) sample_block)"
    by (simp add: same_content_def fresh_cell_def new_cell.defs)
qed

text \<open>
  The expected commitment does not depend on the Bitcoin transaction the outputs are bound
  to: two transactions with the same RGB++ inputs whose readable outputs differ only in
  the txid of their lock arguments expect the same commitment, and some commitment is
  always expected.
\<close>

theorem commitment_ignores_btc_txid:
  assumes "list_all2 same_but_txid (classify_outputs protocol outs dat) (classify_outputs protocol outs' dat')"
    and "map rz_out_point ins = map rz_out_point ins'"
  shows "expected_commitment x ins (classify_outputs protocol outs dat) =
         expected_commitment x ins' (classify_outputs protocol outs' dat') \<and>
    (expected_commitment x ins (classify_outputs protocol outs dat) = None \<longleftrightarrow>
         ins = [] \<and> classify_outputs protocol outs dat = [])"
proof -
  let ?a = "classify_outputs protocol outs dat" and ?b = "classify_outputs protocol outs' dat'"
  have "list_all2 (\<lambda>a b. committed_output a = committed_output b) ?a ?b"
    using assms(1)
    by (rule list.rel_mono_strong) (blast intro: committed_output_same classify_outputs_readable)
  then have "collect committed_output ?a = collect committed_output ?b" by (rule collect_cong2)
  moreover have "(?a = []) = (?b = [])" using assms(1) by auto
  moreover have "(ins = []) = (ins' = [])" using assms(2) by (metis map_is_Nil_conv)
  ultimately have eq: "expected_commitment x ins ?a = expected_commitment x ins' ?b"
    using assms(2) by (simp add: expected_commitment_def split: sum.split)
  have "\<exists>ps. collect committed_output ?a = Inr ps"
  proof (cases "collect committed_output ?a")
    case (Inl e)
    then obtain out where "out \<in> set ?a" "committed_output out = Inl e" by (blast dest: collect_Inl)
    with committed_output_readable [OF classify_outputs_readable] show ?thesis by fastforce
  qed simp
  then have "expected_commitment x ins ?a = None \<longleftrightarrow> ins = [] \<and> ?a = []"
    by (auto simp: expected_commitment_def)
  with eq show ?thesis by (intro conjI)
qed

lemma commitment_ignores_btc_txid_witness:
  "expected_commitment ref_ext [] (classify_outputs sample_protocol [sample_output 1 7] [[]]) =
   expected_commitment ref_ext [] (classify_outputs sample_protocol [sample_output 1 9] [[]])"
proof (rule commitment_ignores_btc_txid [THEN conjunct1])
  have "sample_output 1 9 = (sample_output 1 7)\<lparr> out_lock := (out_lock (sample_output 1 7))
      \<lparr> s_args := s_args (out_lock (sample_output 1 9)) \<rparr> \<rparr>"
    by (simp add: sample_output_def lock_of_kind_def Let_def)
  then show "list_all2 same_but_txid (classify_outputs sample_protocol [sample_output 1 7] [[]])
      (classify_outputs sample_protocol [sample_output 1 9] [[]])"
    by (auto simp: classify_sample same_but_txid_def) (auto simp: sample_read_def)
qed simp

section \<open>What a transaction contributes\<close>

text \<open>The outputs that carry a readable binding, by their position, and what they commit to.\<close>

definition binding_of :: "protocol_scripts \<Rightarrow> cell_output \<Rightarrow> lock_binding option" where
  "binding_of protocol cell =
     (case classify_lock protocol (out_lock cell) of
        None \<Rightarrow> None
      | Some kind \<Rightarrow> (case binding_parse kind (s_args (out_lock cell)) of Inl e \<Rightarrow> None | Inr b \<Rightarrow> Some b))"

definition bound_from :: "protocol_scripts \<Rightarrow> nat \<Rightarrow> cell_output list \<Rightarrow> (nat \<times> lock_binding) list" where
  "bound_from protocol n outs =
     List.map_filter (\<lambda>i. map_option (Pair i) (binding_of protocol (outs ! (i - n)))) [n ..< n + length outs]"

definition read_at :: "cell_output list \<Rightarrow> byte list list \<Rightarrow> nat \<times> lock_binding \<Rightarrow> rgbpp_output" where
  "read_at outs dat p = \<lparr> ro_index = of_nat (fst p), ro_binding = snd p, ro_cell = outs ! fst p, ro_data = output_data dat (fst p) \<rparr>"

text \<open>An output as it is committed to: its arguments parse to its binding without the txid.\<close>

definition commits_to :: "cell_output list \<Rightarrow> byte list list \<Rightarrow> nat \<times> lock_binding \<Rightarrow> cell_output \<times> byte list \<Rightarrow> bool" where
  "commits_to outs dat p c \<longleftrightarrow> snd c = output_data dat (fst p) \<and>
     (\<exists>args. fst c = (outs ! fst p)\<lparr> out_lock := (out_lock (outs ! fst p))\<lparr> s_args := args \<rparr> \<rparr> \<and>
       binding_parse (binding_kind (snd p)) args = Inr (clear_txid (snd p)))"

lemma map_filter_rec:
  "List.map_filter f (y # ys) = (case f y of None \<Rightarrow> List.map_filter f ys | Some z \<Rightarrow> z # List.map_filter f ys)"
  by (simp add: map_filter_simps)

lemma map_filter_same: "(\<And>y. y \<in> set ys \<Longrightarrow> f y = g y) \<Longrightarrow> List.map_filter f ys = List.map_filter g ys"
  by (induction ys) (simp_all add: map_filter_rec map_filter_simps split: option.split)

lemma bound_from_Cons:
  "bound_from protocol n (cell # outs) =
     (case binding_of protocol cell of None \<Rightarrow> bound_from protocol (Suc n) outs | Some b \<Rightarrow> (n, b) # bound_from protocol (Suc n) outs)"
proof -
  let ?f = "\<lambda>i. map_option (Pair i) (binding_of protocol ((cell # outs) ! (i - n)))"
  have range: "[n ..< n + length (cell # outs)] = n # [Suc n ..< Suc n + length outs]"
    using upt_conv_Cons [of n "n + length (cell # outs)"] by simp
  have rest: "List.map_filter ?f [Suc n ..< Suc n + length outs] = bound_from protocol (Suc n) outs"
    unfolding bound_from_def
  proof (rule map_filter_same)
    fix i assume "i \<in> set [Suc n ..< Suc n + length outs]"
    then have "i - n = Suc (i - Suc n)" by auto
    then show "?f i = map_option (Pair i) (binding_of protocol (outs ! (i - Suc n)))" by simp
  qed
  have "bound_from protocol n (cell # outs) = List.map_filter ?f (n # [Suc n ..< Suc n + length outs])"
    unfolding bound_from_def range ..
  then show ?thesis unfolding map_filter_rec rest by (simp split: option.split)
qed

lemma bound_from_in:
  "p \<in> set (bound_from protocol n outs) \<longleftrightarrow>
   n \<le> fst p \<and> fst p < n + length outs \<and> binding_of protocol (outs ! (fst p - n)) = Some (snd p)"
proof -
  have "set (List.map_filter f xs) = {z. \<exists>y \<in> set xs. f y = Some z}" for f :: "nat \<Rightarrow> (nat \<times> lock_binding) option" and xs
    by (force simp: map_filter_def)
  then show ?thesis by (cases p) (auto simp: bound_from_def)
qed

lemma bound_from_le: "p \<in> set (bound_from protocol n outs) \<Longrightarrow> n \<le> fst p \<and> fst p < n + length outs"
  by (simp add: bound_from_in)

lemma classify_outputs_bound:
  "classify_outputs_from protocol dat n outs = map (\<lambda>p. \<lparr> ro_index = of_nat (fst p), ro_binding = snd p, ro_cell = outs ! (fst p - n),
     ro_data = output_data dat (fst p) \<rparr>) (bound_from protocol n outs)"
proof (induction outs arbitrary: n)
  case (Cons cell outs)
  have "map (\<lambda>p. \<lparr> ro_index = of_nat (fst p), ro_binding = snd p, ro_cell = (cell # outs) ! (fst p - n), ro_data = output_data dat (fst p) \<rparr>)
      (bound_from protocol (Suc n) outs) =
    map (\<lambda>p. \<lparr> ro_index = of_nat (fst p), ro_binding = snd p, ro_cell = outs ! (fst p - Suc n), ro_data = output_data dat (fst p) \<rparr>)
      (bound_from protocol (Suc n) outs)"
    by (rule map_cong) (auto simp: Suc_diff_le [symmetric] dest!: bound_from_le)
  then show ?case
    by (auto simp: Cons.IH bound_from_Cons binding_of_def output_data_def split: option.splits sum.splits)
qed (simp add: bound_from_def map_filter_simps)

lemma classify_outputs_read_at: "classify_outputs protocol outs dat = map (read_at outs dat) (bound_from protocol 0 outs)"
  unfolding classify_outputs_def classify_outputs_bound by (simp add: read_at_def)

lemma collect_list_all2: "collect f xs = Inr ys \<longleftrightarrow> list_all2 (\<lambda>x y. f x = Inr y) xs ys"
  unfolding collect_Inr_iff by (auto simp: list_all2_conv_all_nth list_eq_iff_nth_eq)

lemma bound_parses:
  "p \<in> set (bound_from protocol n outs) \<Longrightarrow>
   binding_parse (binding_kind (snd p)) (s_args (out_lock (outs ! (fst p - n)))) = Inr (snd p)"
  by (auto simp: bound_from_in binding_of_def dest: binding_parse_kind split: option.splits sum.splits)

lemma commitment_covers:
  assumes "bound = bound_from protocol 0 outs" "ins \<noteq> [] \<or> bound \<noteq> []"
  shows "\<exists>committed. list_all2 (commits_to outs dat) bound committed \<and>
    expected_commitment x ins (map (read_at outs dat) bound) = Some (commitment_of x (preimage_new (map rz_out_point ins) committed))"
proof -
  have "\<exists>c. committed_output (read_at outs dat p) = Inr c \<and> commits_to outs dat p c" if "p \<in> set bound" for p
  proof -
    from placeholder_parse [OF bound_parses [of p protocol 0 outs]] that assms(1) obtain args where
      "args_with_placeholder_txid (binding_kind (snd p)) (s_args (out_lock (outs ! fst p))) = Inr args"
      "binding_parse (binding_kind (snd p)) args = Inr (clear_txid (snd p))" by auto
    then show ?thesis by (auto simp: committed_output_def read_at_def commits_to_def)
  qed
  then obtain f where f: "\<forall>p \<in> set bound. committed_output (read_at outs dat p) = Inr (f p) \<and> commits_to outs dat p (f p)"
    by metis
  then have "collect committed_output (map (read_at outs dat) bound) = Inr (map f bound)"
    by (simp add: collect_list_all2 list_all2_conv_all_nth)
  moreover have "list_all2 (commits_to outs dat) bound (map f bound)" using f by (simp add: list_all2_conv_all_nth)
  ultimately show ?thesis using assms(2) by (auto simp: expected_commitment_def)
qed

text \<open>
  The kind of a transition, by what the transaction consumes and creates: a consumed time
  lock makes it an unlock, no consumed cell an issuance, a created RGB++ cell a transfer, a
  created time lock alone a leap, and nothing created an exit.
\<close>

lemma transition_kind_decided:
  "classify_transition ins outs =
     (if \<exists>i \<in> set ins. binding_kind (rz_binding i) = KBtcTime then BtcTimeUnlock
      else if ins = [] then Issuance
      else if \<exists>out \<in> set outs. binding_kind (ro_binding out) = KRgbpp then Transfer
      else if outs \<noteq> [] then LeapToCkb else Exit)"
proof -
  have k: "(length (filter P xs) = 0) = (\<forall>y \<in> set xs. \<not> P y)" for P and xs :: "'z list"
    by (simp add: filter_empty_conv)
  have none: "(\<forall>y \<in> set xs. \<not> P y) \<Longrightarrow> length xs - length (filter P xs) = length xs" for P and xs :: "'z list"
    by simp
  show ?thesis
    using k [of "\<lambda>i. binding_kind (rz_binding i) = KBtcTime" ins]
      k [of "\<lambda>out. binding_kind (ro_binding out) = KRgbpp" outs]
    by (auto simp: classify_transition_def Let_def none filter_empty_conv)
qed



end
