(* ===== verification/Scanner.thy ===== *)
theory Scanner
  imports Extract Store_Ckb_Props
begin

text \<open>
  \<open>crates/indexer/src/scanner.rs\<close>: the discovery loop. A round merges the two lock searches,
  fetches the headers and the bodies, interprets every transaction into one batch and
  applies that batch. Requests that the program issues concurrently are issued in order
  here; as the answers are arbitrary functions of the request counter, this only fixes their
  numbering. The fuel bounds the paging of one search.
\<close>

record scan_round =
  rd_from :: u64
  rd_to :: u64
  rd_chain_tip :: u64
  rd_target :: u64
  rd_transactions :: nat
  rd_cells :: nat
  rd_spends :: nat
  rd_backfilled :: nat
  rd_idle :: bool

definition round_default :: scan_round where
  "round_default = \<lparr> rd_from = 0, rd_to = 0, rd_chain_tip = 0, rd_target = 0, rd_transactions = 0,
     rd_cells = 0, rd_spends = 0, rd_backfilled = 0, rd_idle = False \<rparr>"

type_synonym 'a scan_io = "(indexer_error, 'a) io"

definition of_store :: "(store_error, 'a) io \<Rightarrow> 'a scan_io" where "of_store m = io_map_err IEStore m"
definition of_ckb :: "(ckb_error, 'a) io \<Rightarrow> 'a scan_io" where "of_ckb m = io_map_err IECkb m"

section \<open>Collecting a range\<close>

definition lock_search_script :: "protocol_scripts \<Rightarrow> lock_kind \<Rightarrow> script" where
  "lock_search_script protocol kind =
     (let id' = (case kind of KRgbpp \<Rightarrow> ps_rgbpp_lock protocol | KBtcTime \<Rightarrow> ps_btc_time_lock protocol)
      in \<lparr> s_code_hash = id_code_hash id', s_hash_type = id_hash_type id', s_args = [] \<rparr>)"

definition record_key :: "tx_record \<Rightarrow> u64 \<times> u32 \<times> h256" where
  "record_key r = (txr_block_number r, txr_index r, txr_hash r)"

definition push_cell :: "matched_cell \<Rightarrow> matched_cell list \<Rightarrow> matched_cell list" where
  "push_cell c cs = (if c \<in> set cs then cs else cs @ [c])"

definition merge_record :: "tx_record \<Rightarrow> tx_record \<Rightarrow> tx_record" where
  "merge_record existing r = existing\<lparr> txr_cells := fold push_cell (txr_cells r) (txr_cells existing) \<rparr>"

text \<open>The \<open>BTreeMap\<close>: one record per key, read out in key order.\<close>

definition collect_range ::
  "nat \<Rightarrow> ext \<Rightarrow> ckb_node \<Rightarrow> config \<Rightarrow> u64 \<Rightarrow> u64 \<Rightarrow> tx_record list scan_io" where
  "collect_range fuel x ck cfg from to =
     io_bind (io_for [KRgbpp, KBtcTime] [] (\<lambda>kind merged.
       io_bind (of_ckb (collect_transactions_in_range fuel x ck (ckb_page_limit (c_ckb cfg))
          (lock_search_script (c_protocol cfg) kind) from to))
       (\<lambda>records. case records of
          None \<Rightarrow> io_fail IEDiverged
        | Some rs \<Rightarrow> io_ret (fold (upsert record_key merge_record) rs merged))))
     (\<lambda>merged. io_ret (sort_key record_key merged))"

section \<open>Headers\<close>

definition header_at :: "ckb_node \<Rightarrow> u64 \<Rightarrow> rpc_header scan_io" where
  "header_at ck number =
     io_bind (of_ckb (get_header_by_number ck number))
     (\<lambda>h. io_of (ok_or (IEInconsistent (''node has no header at '' @ show_nat (unat number))) h))"

text \<open>All the requests are made; then the first error, in block order, is returned.\<close>

definition fetch_headers :: "ckb_node \<Rightarrow> tx_record list \<Rightarrow> (u64 \<times> rpc_header) list scan_io" where
  "fetch_headers ck records =
     io_bind (io_for (distinct_sorted (map txr_block_number records)) [] (\<lambda>number out.
       io_bind (io_attempt (header_at ck number)) (\<lambda>r. io_ret (out @ [(number, r)]))))
     (\<lambda>fetched. io_of (collect (\<lambda>(number, r). case r of Inl e \<Rightarrow> Inl e | Inr h \<Rightarrow> Inr (number, h)) fetched))"

definition assert_checkpoint_still_canonical :: "ext \<Rightarrow> ckb_node \<Rightarrow> stream_state \<Rightarrow> unit scan_io" where
  "assert_checkpoint_still_canonical x ck state =
     (case st_last_block_hash state of
        None \<Rightarrow> io_ret ()
      | Some stored_hash \<Rightarrow>
        if \<not> st_last_block_number state > 0 then io_ret ()
        else let number = as_u64 (st_last_block_number state) in
          io_bind (of_ckb (get_header_by_number ck number))
          (\<lambda>h. case h of
             None \<Rightarrow> io_fail (IEInconsistent (''node has no header at our checkpoint '' @ show_nat (unat number)))
           | Some header \<Rightarrow>
             if h256_to_vec (rh_hash header) = stored_hash then io_ret ()
             else io_fail (IEReorg number (ex_hex_encode x stored_hash) (h256_to_hex x (rh_hash header)))))"

section \<open>Resolving inputs\<close>

text \<open>What the processing loop carries: the batch and the count of backfilled cells.\<close>

type_synonym scan_acc = "index_batch \<times> nat"

definition add_cell :: "new_cell \<Rightarrow> index_batch \<Rightarrow> index_batch" where
  "add_cell c b = b\<lparr> ib_cells := ib_cells b @ [c] \<rparr>"

text \<open>\<open>backfill_input\<close> once the node has answered.\<close>

definition backfill_answer ::
  "env \<Rightarrow> ext \<Rightarrow> config \<Rightarrow> ckb_out_point \<Rightarrow> u32 \<Rightarrow> scan_acc \<Rightarrow> tx_with_status option \<Rightarrow>
   (resolved_input option \<times> scan_acc) scan_io" where
  "backfill_answer e x cfg out_point input_index acc answer =
     (case answer of None \<Rightarrow> io_ret (None, acc) | Some with_status \<Rightarrow>
       case ws_transaction with_status of None \<Rightarrow> io_ret (None, acc) | Some tx \<Rightarrow>
       let i = unat (co_index out_point) in
       if \<not> i < length (rt_outputs tx) then io_ret (None, acc)
       else let cell = rt_outputs tx ! i;
                dat = (if i < length (rt_outputs_data tx) then rt_outputs_data tx ! i else []) in
       case classify_lock (c_protocol cfg) (out_lock cell) of None \<Rightarrow> io_ret (None, acc) | Some kind \<Rightarrow>
       case binding_parse kind (s_args (out_lock cell)) of Inl err \<Rightarrow> io_fail (IETypes err) | Inr binding \<Rightarrow>
       let status = ws_status with_status;
           created_number = unwrap_or 0 (map_option as_i64 (ts_block_number status));
           created_hash = unwrap_or [] (map_option h256_to_vec (ts_block_hash status));
           out = \<lparr> ro_index = co_index out_point, ro_binding = binding, ro_cell = cell, ro_data = dat \<rparr> in
       io_bind (io_clock e) (\<lambda>now.
       let new_cell = (build_new_cell x (c_assets cfg) (co_tx_hash out_point) out
             \<lparr> bctx_number = as_u64 (max 0 created_number),
               bctx_hash = unwrap_or h256_zero (ts_block_hash status),
               bctx_timestamp = now, bctx_tx_index = 0 \<rparr>)
             \<lparr> nc_block_hash := created_hash, nc_created_tx_index := UNKNOWN_TX_INDEX \<rparr> in
       io_ret (Some \<lparr> rz_input_index = input_index, rz_out_point = out_point, rz_binding = binding,
                      rz_cell = cell, rz_data = dat \<rparr>,
               (add_cell new_cell (fst acc), Suc (snd acc)))))"

definition backfill_input ::
  "env \<Rightarrow> ext \<Rightarrow> ckb_node \<Rightarrow> config \<Rightarrow> ckb_out_point \<Rightarrow> u32 \<Rightarrow> scan_acc \<Rightarrow>
   (resolved_input option \<times> scan_acc) scan_io" where
  "backfill_input e x ck cfg out_point input_index acc =
     io_bind (of_ckb (get_transaction ck (co_tx_hash out_point)))
       (backfill_answer e x cfg out_point input_index acc)"

definition resolve_input ::
  "env \<Rightarrow> ext \<Rightarrow> ckb_node \<Rightarrow> config \<Rightarrow> ckb_out_point \<Rightarrow> u32 \<Rightarrow> scan_acc \<Rightarrow>
   (resolved_input option \<times> scan_acc) scan_io" where
  "resolve_input e x ck cfg out_point input_index acc =
     (let hash = h256_to_vec (co_tx_hash out_point); index = as_i32 (co_index out_point) in
      case find (\<lambda>c. nc_tx_hash c = hash \<and> nc_index c = index) (ib_cells (fst acc)) of
        Some pending \<Rightarrow>
          io_bind (io_of (resolved_from_new_cell x (c_protocol cfg) pending out_point input_index))
          (\<lambda>r. io_ret (Some r, acc))
      | None \<Rightarrow>
          io_bind (of_store (query e (\<lambda>now. cell_by_out_point hash index)))
          (\<lambda>found. case found of
             Some row \<Rightarrow>
               io_bind (io_of (resolved_from_row x (c_protocol cfg) row out_point input_index))
               (\<lambda>r. io_ret (Some r, acc))
           | None \<Rightarrow> backfill_input e x ck cfg out_point input_index acc))"

section \<open>One transaction\<close>

definition resolve_inputs ::
  "env \<Rightarrow> ext \<Rightarrow> ckb_node \<Rightarrow> config \<Rightarrow> tx_record \<Rightarrow> rpc_transaction \<Rightarrow> scan_acc \<Rightarrow>
   (resolved_input list \<times> scan_acc) scan_io" where
  "resolve_inputs e x ck cfg r tx acc =
     io_for (filter (\<lambda>c. mc_io_type c = Input) (txr_cells r)) ([], acc)
       (\<lambda>matched st. case st of (resolved, acc) \<Rightarrow>
          if \<not> unat (mc_io_index matched) < length (rt_inputs tx) then
            io_fail (IEInconsistent (''transaction '' @ h256_to_hex x (txr_hash r) @ '' has no input at index ''
              @ show_nat (unat (mc_io_index matched))))
          else
            io_bind (resolve_input e x ck cfg (ri_previous_output (rt_inputs tx ! unat (mc_io_index matched)))
                      (mc_io_index matched) acc)
            (\<lambda>(found, acc). case found of
               Some i \<Rightarrow> io_ret (resolved @ [i], acc)
             | None \<Rightarrow> io_ret (resolved, acc)))"

text \<open>The rows of one transaction join the batch; one that cannot be read contributes nothing.\<close>

definition add_extracted :: "indexer_error + extracted_tx \<Rightarrow> index_batch \<Rightarrow> index_batch" where
  "add_extracted r b =
     (case r of Inl e \<Rightarrow> b
      | Inr et \<Rightarrow> b\<lparr> ib_cells := ib_cells b @ et_cells et, ib_spends := ib_spends b @ et_spends et,
          ib_transitions := ib_transitions b @ (case et_transition et of None \<Rightarrow> [] | Some t \<Rightarrow> [t]) \<rparr>)"

definition process_transaction ::
  "env \<Rightarrow> ext \<Rightarrow> ckb_node \<Rightarrow> config \<Rightarrow> tx_record \<Rightarrow> block_context \<Rightarrow> tx_with_status \<Rightarrow> scan_acc \<Rightarrow>
   scan_acc scan_io" where
  "process_transaction e x ck cfg r block with_status acc =
     (case ws_transaction with_status of
        None \<Rightarrow> io_fail (IEInconsistent (''node returned transaction '' @ h256_to_hex x (txr_hash r)
          @ '' without a body''))
      | Some tx \<Rightarrow>
        io_bind (resolve_inputs e x ck cfg r tx acc)
        (\<lambda>(resolved_inputs, batch, backfilled).
          io_ret (add_extracted (extract_tx x (c_protocol cfg) (c_assets cfg) (txr_hash r) (rt_outputs tx)
                    (rt_outputs_data tx) resolved_inputs block) batch, backfilled)))"

text \<open>One step of the loop over the fetched bodies.\<close>

definition scan_record ::
  "env \<Rightarrow> ext \<Rightarrow> ckb_node \<Rightarrow> config \<Rightarrow> (u64 \<times> rpc_header) list \<Rightarrow> tx_record \<Rightarrow> scan_acc \<Rightarrow> scan_acc scan_io" where
  "scan_record e x ck cfg headers r acc =
     io_bind (of_ckb (get_transaction ck (txr_hash r)))
     (\<lambda>result. case result of
        None \<Rightarrow> io_fail (IEInconsistent (''rich indexer reported transaction '' @ h256_to_hex x (txr_hash r)
          @ '' which the node cannot return''))
      | Some with_status \<Rightarrow>
        (case map_of headers (txr_block_number r) of
           None \<Rightarrow> io_fail (IEInconsistent (''no header fetched for block '' @ show_nat (unat (txr_block_number r))))
         | Some header \<Rightarrow>
           io_bind (io_clock e) (\<lambda>now.
             process_transaction e x ck cfg r
               \<lparr> bctx_number = txr_block_number r, bctx_hash = rh_hash header,
                 bctx_timestamp = ckb_timestamp x now (rh_timestamp header), bctx_tx_index = txr_index r \<rparr>
               with_status acc)))"

section \<open>One round\<close>

definition block_of :: "ext \<Rightarrow> int \<Rightarrow> bool \<Rightarrow> u64 \<times> rpc_header \<Rightarrow> block_record" where
  "block_of x now activity nh =
     \<lparr> br_number = as_i64 (fst nh), br_hash = h256_to_vec (rh_hash (snd nh)),
       br_parent_hash = h256_to_vec (rh_parent_hash (snd nh)),
       br_timestamp = ckb_timestamp x now (rh_timestamp (snd nh)), br_has_activity = activity \<rparr>"

definition batch_start :: "config \<Rightarrow> u64 \<Rightarrow> u64 \<Rightarrow> index_batch" where
  "batch_start cfg chain_tip target =
     \<lparr> ib_blocks = [], ib_cells = [], ib_spends = [], ib_transitions = [], ib_checkpoint_number = 0,
       ib_checkpoint_hash = None, ib_chain_tip = as_i64 chain_tip, ib_target = as_i64 target,
       ib_reorg_lag = as_i64 (ckb_reorg_lag (c_ckb cfg)) \<rparr>"

text \<open>Header rows for every active block and for the checkpoint, and the checkpoint itself.\<close>

definition add_blocks ::
  "ext \<Rightarrow> int \<Rightarrow> (u64 \<times> rpc_header) list \<Rightarrow> u64 \<Rightarrow> rpc_header \<Rightarrow> index_batch \<Rightarrow> index_batch" where
  "add_blocks x now headers to checkpoint_header b =
     (let active = ib_blocks b @ map (block_of x now True) headers;
          blocks = (if list_all (\<lambda>k. br_number k \<noteq> as_i64 to) active
                    then active @ [block_of x now False (to, checkpoint_header)] else active)
      in b\<lparr> ib_blocks := blocks, ib_checkpoint_number := as_i64 to,
            ib_checkpoint_hash := Some (h256_to_vec (rh_hash checkpoint_header)) \<rparr>)"

definition scan_range ::
  "nat \<Rightarrow> env \<Rightarrow> ext \<Rightarrow> ckb_node \<Rightarrow> config \<Rightarrow> u64 \<Rightarrow> u64 \<Rightarrow> u64 \<Rightarrow> u64 \<Rightarrow> (index_batch \<times> nat \<times> nat) scan_io" where
  "scan_range fuel e x ck cfg chain_tip target from to =
     io_bind (collect_range fuel x ck cfg from to)
     (\<lambda>records. io_bind (fetch_headers ck records)
     (\<lambda>headers. io_bind (io_for records (batch_start cfg chain_tip target, 0) (scan_record e x ck cfg headers))
     (\<lambda>(batch, backfilled). io_bind (case map_of headers to of Some h \<Rightarrow> io_ret h | None \<Rightarrow> header_at ck to)
     (\<lambda>checkpoint_header. io_bind (io_clock e)
     (\<lambda>now. io_ret (add_blocks x now headers to checkpoint_header batch, backfilled, length records))))))"

text \<open>After the batch: header retention.\<close>

definition prune_headers :: "env \<Rightarrow> config \<Rightarrow> u64 \<Rightarrow> unit scan_io" where
  "prune_headers e cfg to =
     (let keep_from = saturating_sub to (ckb_header_retention (c_ckb cfg)) in
      if keep_from > 0 then
        io_bind (of_store (sql e (\<lambda>now. prune_blocks_below (as_i64 keep_from)))) (\<lambda>n. io_ret ())
      else io_ret ())"

definition scan_from :: "config \<Rightarrow> int \<Rightarrow> u64" where
  "scan_from cfg checkpoint = as_u64 (max (checkpoint + 1) (as_i64 (ckb_start_block (c_ckb cfg))))"

definition scan_to :: "config \<Rightarrow> u64 \<Rightarrow> u64 \<Rightarrow> u64" where
  "scan_to cfg target from = min target (from + ckb_batch_blocks (c_ckb cfg) - 1)"

text \<open>The part of a round that extends the checkpoint.\<close>

definition scan_extend ::
  "nat \<Rightarrow> env \<Rightarrow> ext \<Rightarrow> ckb_node \<Rightarrow> config \<Rightarrow> stream_state \<Rightarrow> u64 \<Rightarrow> u64 \<Rightarrow> scan_round scan_io" where
  "scan_extend fuel e x ck cfg state chain_tip target =
     io_bind (assert_checkpoint_still_canonical x ck state)
     (\<lambda>_. let from = scan_from cfg (st_last_block_number state); to = scan_to cfg target from in
       io_bind (scan_range fuel e x ck cfg chain_tip target from to)
       (\<lambda>(batch, backfilled, transactions). io_bind (of_store (apply_batch e batch))
       (\<lambda>stats. io_bind (prune_headers e cfg to)
       (\<lambda>_. io_ret \<lparr> rd_from = from, rd_to = to, rd_chain_tip = chain_tip, rd_target = target,
              rd_transactions = transactions, rd_cells = as_cells stats, rd_spends = as_spends stats,
              rd_backfilled = backfilled, rd_idle = False \<rparr>))))"

definition scan_once :: "nat \<Rightarrow> env \<Rightarrow> ext \<Rightarrow> ckb_node \<Rightarrow> config \<Rightarrow> scan_round scan_io" where
  "scan_once fuel e x ck cfg =
     io_bind (of_store (init_stream e CKB_STREAM (ckb_start_block (c_ckb cfg))))
     (\<lambda>state. io_bind (of_ckb (synced_tip ck))
     (\<lambda>chain_tip. case safe_ckb_target cfg chain_tip of
        None \<Rightarrow>
          io_bind (of_store (execute e (record_chain_progress CKB_STREAM chain_tip 0 (ckb_reorg_lag (c_ckb cfg)))))
          (\<lambda>_. io_ret (round_default\<lparr> rd_chain_tip := chain_tip, rd_idle := True \<rparr>))
      | Some target \<Rightarrow>
          io_bind (of_store (execute e (record_chain_progress CKB_STREAM chain_tip target (ckb_reorg_lag (c_ckb cfg)))))
          (\<lambda>_. if as_i64 target \<le> st_last_block_number state then
                 io_ret (round_default\<lparr> rd_chain_tip := chain_tip, rd_target := target, rd_idle := True \<rparr>)
               else scan_extend fuel e x ck cfg state chain_tip target)))"

text \<open>
  One pass of \<open>run\<close>'s loop: the failure is noted in the stream row, and a failure to note it
  is ignored. The result says whether the next pass follows without a pause.
\<close>

definition scan_pass ::
  "nat \<Rightarrow> env \<Rightarrow> ext \<Rightarrow> ckb_node \<Rightarrow> config \<Rightarrow> (indexer_error \<Rightarrow> string) \<Rightarrow> bool scan_io" where
  "scan_pass fuel e x ck cfg render =
     io_bind (io_attempt (scan_once fuel e x ck cfg))
     (\<lambda>r. case r of
        Inr round \<Rightarrow> io_ret (\<not> rd_idle round \<and> rd_to round < rd_target round)
      | Inl err \<Rightarrow>
        io_bind (io_attempt (execute e (set_stream_error CKB_STREAM (Some (render err))))) (\<lambda>_. io_ret False))"

text \<open>
  The passes that follow one another without a pause, while no shutdown is requested. The
  fuel counts passes; the result says whether a backlog is left when it is used up.
\<close>

fun scan_burst ::
  "nat \<Rightarrow> nat \<Rightarrow> env \<Rightarrow> ext \<Rightarrow> ckb_node \<Rightarrow> config \<Rightarrow> (indexer_error \<Rightarrow> string) \<Rightarrow> bool scan_io" where
  "scan_burst 0 fuel e x ck cfg render = io_ret True"
| "scan_burst (Suc n) fuel e x ck cfg render =
     io_bind (scan_pass fuel e x ck cfg render)
     (\<lambda>backlog. if backlog then scan_burst n fuel e x ck cfg render else io_ret False)"

text \<open>
  The start of \<open>run\<close>: the stream row is created, and a failure to create it ends the task
  before its first pass.
\<close>

definition scanner_start ::
  "nat \<Rightarrow> nat \<Rightarrow> env \<Rightarrow> ext \<Rightarrow> ckb_node \<Rightarrow> config \<Rightarrow> (indexer_error \<Rightarrow> string) \<Rightarrow> bool scan_io" where
  "scanner_start n fuel e x ck cfg render =
     io_bind (io_attempt (init_stream e CKB_STREAM (ckb_start_block (c_ckb cfg))))
     (\<lambda>state. case state of
        Inl err \<Rightarrow> io_ret False
      | Inr s \<Rightarrow> scan_burst n fuel e x ck cfg render)"

end
