(* ===== verification/Scanner_Props.thy ===== *)
theory Scanner_Props
  imports Scanner
begin

text \<open>
  What the scanner guarantees. A round changes the CKB tables by one batch or not at all and
  moves the checkpoint without a gap; it never passes the settled height. Against a node that answers consistently,
  every stored cell mirrors an output of the chain, and every readable output and every
  consumed RGB++ cell of the scanned range is in the index.
\<close>

section \<open>Rows that mirror the chain\<close>

text \<open>The transaction bodies a node serves, if it answers every request alike.\<close>

definition stable_node :: "ckb_node \<Rightarrow> (h256 \<Rightarrow> tx_with_status option) \<Rightarrow> bool" where
  "stable_node ck ans \<longleftrightarrow> (\<forall>n h. cn_transaction ck n h = Inr (ans h))"

definition body_of :: "(h256 \<Rightarrow> tx_with_status option) \<Rightarrow> h256 \<Rightarrow> rpc_transaction option" where
  "body_of ans h = Option.bind (ans h) ws_transaction"

definition no_block :: block_context where
  "no_block = \<lparr> bctx_number = 0, bctx_hash = h256_zero, bctx_timestamp = 0, bctx_tx_index = 0 \<rparr>"

text \<open>An output as the scanner reads it, when its lock and arguments are readable.\<close>

definition read_output :: "rpc_transaction \<Rightarrow> nat \<Rightarrow> lock_binding \<Rightarrow> rgbpp_output" where
  "read_output tx i binding =
     \<lparr> ro_index = of_nat i, ro_binding = binding, ro_cell = rt_outputs tx ! i,
       ro_data = output_data (rt_outputs_data tx) i \<rparr>"

text \<open>A row is that output's row, but for the creation anchor.\<close>

definition mirrors_output ::
  "ext \<Rightarrow> config \<Rightarrow> h256 \<Rightarrow> rpc_transaction \<Rightarrow> nat \<Rightarrow> 'a new_cell_scheme \<Rightarrow> bool" where
  "mirrors_output x cfg h tx i c \<longleftrightarrow>
     i < length (rt_outputs tx) \<and>
     (\<exists>binding. readable_output (c_protocol cfg) (read_output tx i binding) \<and>
        new_cell.truncate c = (build_new_cell x (c_assets cfg) h (read_output tx i binding) no_block)
          \<lparr> nc_block_number := nc_block_number c, nc_block_hash := nc_block_hash c,
            nc_created_tx_index := nc_created_tx_index c \<rparr>)"

definition mirrors :: "ext \<Rightarrow> config \<Rightarrow> (h256 \<Rightarrow> tx_with_status option) \<Rightarrow> 'a new_cell_scheme \<Rightarrow> bool" where
  "mirrors x cfg ans c \<longleftrightarrow> (\<exists>h tx i. body_of ans h = Some tx \<and> mirrors_output x cfg h tx i c)"

definition cells_mirror :: "ext \<Rightarrow> config \<Rightarrow> (h256 \<Rightarrow> tx_with_status option) \<Rightarrow> db \<Rightarrow> bool" where
  "cells_mirror x cfg ans d \<longleftrightarrow> (\<forall>c \<in> set (d_cells d). mirrors x cfg ans c)"

lemma mirrors_built:
  assumes "body_of ans h = Some tx" "i < length (rt_outputs tx)"
    and "readable_output (c_protocol cfg) (read_output tx i binding)"
  shows "mirrors x cfg ans (build_new_cell x (c_assets cfg) h (read_output tx i binding) b)"
proof -
  have "new_cell.truncate (build_new_cell x (c_assets cfg) h (read_output tx i binding) b) =
      (build_new_cell x (c_assets cfg) h (read_output tx i binding) no_block)
        \<lparr> nc_block_number := nc_block_number (build_new_cell x (c_assets cfg) h (read_output tx i binding) b),
          nc_block_hash := nc_block_hash (build_new_cell x (c_assets cfg) h (read_output tx i binding) b),
          nc_created_tx_index := nc_created_tx_index (build_new_cell x (c_assets cfg) h (read_output tx i binding) b) \<rparr>"
    by (simp add: build_new_cell_def Let_def new_cell.defs)
  with assms show ?thesis unfolding mirrors_def mirrors_output_def by blast
qed

lemma mirrors_anchor:
  fixes c :: "'a new_cell_scheme" and c' :: "'b new_cell_scheme"
  assumes "mirrors x cfg ans c"
    and "new_cell.truncate c' = (new_cell.truncate c)
      \<lparr> nc_block_number := n, nc_block_hash := bh, nc_created_tx_index := ti \<rparr>"
  shows "mirrors x cfg ans c'"
proof -
  have "nc_block_number c' = n" "nc_block_hash c' = bh" "nc_created_tx_index c' = ti"
    using assms(2) by (cases c'; cases c; simp add: new_cell.defs)+
  with assms show ?thesis unfolding mirrors_def mirrors_output_def by fastforce
qed

lemma truncate_stored [simp]:
  "new_cell.truncate (fresh_cell at c) = c"
  "new_cell.truncate (spend_cell s at r) = new_cell.truncate r"
  "new_cell.truncate (cell_merge r n) = (new_cell.truncate r)
     \<lparr> nc_block_number := nc_block_number n, nc_block_hash := nc_block_hash n,
       nc_created_tx_index := nc_created_tx_index n \<rparr>"
  by (simp_all add: fresh_cell_def spend_cell_def cell_merge_def new_cell.defs)

lemma mirrors_same: "mirrors x cfg ans c \<Longrightarrow> new_cell.truncate c' = new_cell.truncate c \<Longrightarrow> mirrors x cfg ans c'"
  by (rule mirrors_anchor [where n = "nc_block_number c" and bh = "nc_block_hash c" and ti = "nc_created_tx_index c"])
    (cases c, simp_all add: new_cell.defs)

lemma mirrors_fresh: "mirrors x cfg ans c \<Longrightarrow> mirrors x cfg ans (fresh_cell at c)"
  by (erule mirrors_same) (simp add: new_cell.defs fresh_cell_def)

lemma mirrors_spend_row: "mirrors x cfg ans c \<Longrightarrow> mirrors x cfg ans (spend_row at ss c)"
  by (auto simp: spend_row_last intro: mirrors_same split: option.split)

lemma upsert_all:
  "(\<forall>r \<in> set rows. P r) \<Longrightarrow> P n \<Longrightarrow> (\<And>r. P r \<Longrightarrow> P (merge r n)) \<Longrightarrow> \<forall>r \<in> set (upsert key merge n rows). P r"
  by (induction rows) auto

lemma fold_upsert_all:
  "(\<forall>r \<in> set rows. P r) \<Longrightarrow> (\<forall>n \<in> set ns. P n) \<Longrightarrow> (\<And>r n. P r \<Longrightarrow> P (merge r n)) \<Longrightarrow>
   \<forall>r \<in> set (fold (upsert key merge) ns rows). P r"
proof (induction ns arbitrary: rows)
  case (Cons n ns)
  have "\<forall>r \<in> set (upsert key merge n rows). P r" using Cons.prems by (intro upsert_all) auto
  with Cons show ?case by simp
qed simp

lemma mirror_batch:
  assumes "cells_mirror x cfg ans d" "\<forall>c \<in> set (ib_cells b). mirrors x cfg ans c"
  shows "cells_mirror x cfg ans (batch_effect b at d)"
proof -
  let ?rows = "fold (upsert cell_key cell_merge) (map (fresh_cell at) (ib_cells b)) (d_cells d)"
  have "\<forall>r \<in> set ?rows. mirrors x cfg ans r"
  proof (rule fold_upsert_all)
    show "\<forall>r \<in> set (d_cells d). mirrors x cfg ans r" using assms(1) by (simp add: cells_mirror_def)
    show "\<forall>n \<in> set (map (fresh_cell at) (ib_cells b)). mirrors x cfg ans n"
      using assms(2) by (auto intro: mirrors_fresh)
    show "mirrors x cfg ans (cell_merge r n)" if "mirrors x cfg ans r" for r n :: cell_db
      by (rule mirrors_anchor [OF that]) (rule truncate_stored)
  qed
  then show ?thesis by (simp add: cells_mirror_def batch_effect_sel mirrors_spend_row)
qed

section \<open>Resolving inputs\<close>

definition batch_mirrors :: "ext \<Rightarrow> config \<Rightarrow> (h256 \<Rightarrow> tx_with_status option) \<Rightarrow> index_batch \<Rightarrow> bool" where
  "batch_mirrors x cfg ans b \<longleftrightarrow> (\<forall>c \<in> set (ib_cells b). mirrors x cfg ans c)"

definition grows :: "index_batch \<Rightarrow> index_batch \<Rightarrow> bool" where
  "grows a b \<longleftrightarrow> set (ib_cells a) \<subseteq> set (ib_cells b) \<and> set (ib_spends a) \<subseteq> set (ib_spends b) \<and>
     set (ib_transitions a) \<subseteq> set (ib_transitions b)"

lemma grows_refl [simp]: "grows a a"
  by (simp add: grows_def)

lemma grows_trans: "grows a b \<Longrightarrow> grows b c \<Longrightarrow> grows a c"
  by (auto simp: grows_def)

lemma grows_known: "grows a b \<Longrightarrow> k \<in> known_cells a d \<Longrightarrow> k \<in> known_cells b d"
  by (auto simp: grows_def known_cells_def)

definition point_key :: "ckb_out_point \<Rightarrow> byte list \<times> int" where
  "point_key p = (h256_to_vec (co_tx_hash p), as_i32 (co_index p))"

text \<open>The outpoint names a readable RGB++ output of a transaction the node serves.\<close>

definition readable_at :: "config \<Rightarrow> (h256 \<Rightarrow> tx_with_status option) \<Rightarrow> ckb_out_point \<Rightarrow> bool" where
  "readable_at cfg ans p \<longleftrightarrow>
     (\<exists>tx binding. body_of ans (co_tx_hash p) = Some tx \<and> unat (co_index p) < length (rt_outputs tx) \<and>
        readable_output (c_protocol cfg) (read_output tx (unat (co_index p)) binding))"

text \<open>How one input ends up.\<close>

definition resolved_well ::
  "config \<Rightarrow> (h256 \<Rightarrow> tx_with_status option) \<Rightarrow> db \<Rightarrow> ckb_out_point \<Rightarrow> resolved_input option \<Rightarrow> index_batch \<Rightarrow> bool" where
  "resolved_well cfg ans d p found b \<longleftrightarrow>
     (case found of
        Some i \<Rightarrow> rz_out_point i = p \<and> point_key p \<in> known_cells b d
      | None \<Rightarrow> \<not> readable_at cfg ans p)"

lemma readable_outputI:
  "classify_lock protocol (out_lock cell) = Some kind \<Longrightarrow> binding_parse kind (s_args (out_lock cell)) = Inr binding \<Longrightarrow>
   readable_output protocol \<lparr> ro_index = i, ro_binding = binding, ro_cell = cell, ro_data = dat \<rparr>"
  by (auto simp: readable_output_def dest: binding_parse_kind)

lemma not_readable_at:
  "\<not> (\<exists>tx. body_of ans (co_tx_hash p) = Some tx \<and> unat (co_index p) < length (rt_outputs tx) \<and>
      classify_lock (c_protocol cfg) (out_lock (rt_outputs tx ! unat (co_index p))) \<noteq> None) \<Longrightarrow>
   \<not> readable_at cfg ans p"
  by (auto simp: readable_at_def readable_output_def read_output_def)

lemma backfill_reads:
  assumes stable: "stable_node ck ans" and m: "batch_mirrors x cfg ans (fst acc)"
  shows "reads d (backfill_input e x ck cfg p j acc)
    (\<lambda>(found, acc'). batch_mirrors x cfg ans (fst acc') \<and> grows (fst acc) (fst acc') \<and>
       resolved_well cfg ans d p found (fst acc'))"
proof -
  let ?Q = "\<lambda>(found, acc'). batch_mirrors x cfg ans (fst acc') \<and> grows (fst acc) (fst acc') \<and>
       resolved_well cfg ans d p found (fst acc')"
  let ?i = "unat (co_index p)"
  have none: "\<not> readable_at cfg ans p \<Longrightarrow> ?Q (None, acc)"
    using m by (simp add: resolved_well_def)
  have get: "reads d (of_ckb (get_transaction ck (co_tx_hash p))) (\<lambda>a. a = ans (co_tx_hash p))"
    unfolding of_ckb_def get_transaction_def using stable
    by (intro reads_map_err reads_call) (simp add: stable_node_def)
  have found: "?Q (Some \<lparr> rz_input_index = j, rz_out_point = p, rz_binding = binding, rz_cell = rt_outputs tx ! ?i, rz_data = dat \<rparr>,
      (add_cell ((build_new_cell x (c_assets cfg) (co_tx_hash p)
          \<lparr> ro_index = co_index p, ro_binding = binding, ro_cell = rt_outputs tx ! ?i, ro_data = dat \<rparr> blk)
          \<lparr> nc_block_hash := bh, nc_created_tx_index := ti \<rparr>) (fst acc), n))"
    if "body_of ans (co_tx_hash p) = Some tx" "?i < length (rt_outputs tx)" "dat = output_data (rt_outputs_data tx) ?i"
      "classify_lock (c_protocol cfg) (out_lock (rt_outputs tx ! ?i)) = Some kind"
      "binding_parse kind (s_args (out_lock (rt_outputs tx ! ?i))) = Inr binding" for tx dat kind binding blk bh ti n
  proof -
    have out: "\<lparr> ro_index = co_index p, ro_binding = binding, ro_cell = rt_outputs tx ! ?i, ro_data = dat \<rparr> =
        read_output tx ?i binding"
      using that(3) by (simp add: read_output_def)
    have "readable_output (c_protocol cfg) (read_output tx ?i binding)"
      unfolding out [symmetric] using that(4,5) by (rule readable_outputI)
    from mirrors_built [OF that(1,2) this, of x blk]
    have "mirrors x cfg ans ((build_new_cell x (c_assets cfg) (co_tx_hash p) (read_output tx ?i binding) blk)
          \<lparr> nc_block_hash := bh, nc_created_tx_index := ti \<rparr>)"
      by (rule mirrors_anchor [where n = "nc_block_number (build_new_cell x (c_assets cfg) (co_tx_hash p)
          (read_output tx ?i binding) blk)"]) (simp add: new_cell.defs build_new_cell_def Let_def)
    then show ?thesis
      unfolding out using m
      by (simp add: batch_mirrors_def add_cell_def grows_def resolved_well_def known_cells_def point_key_def image_iff
          subset_insertI) (simp add: read_output_def)
  qed
  show ?thesis
    unfolding backfill_input_def
  proof (rule reads_bind [OF get])
    fix answer assume a: "answer = ans (co_tx_hash p)"
    show "reads d (backfill_answer e x cfg p j acc answer) ?Q"
    proof (cases "body_of ans (co_tx_hash p)")
      case None
      with a not_readable_at [of ans p cfg] none show ?thesis
        by (auto simp: body_of_def backfill_answer_def intro!: reads_ret split: option.splits)
    next
      case (Some tx)
      then obtain ws where ws: "answer = Some ws" "ws_transaction ws = Some tx"
        using a by (auto simp: body_of_def split: bind_splits)
      show ?thesis
      proof (cases "?i < length (rt_outputs tx) \<and> classify_lock (c_protocol cfg) (out_lock (rt_outputs tx ! ?i)) \<noteq> None")
        case False
        with Some not_readable_at [of ans p cfg] have "\<not> readable_at cfg ans p" by auto
        with False ws none show ?thesis
          by (auto simp: Let_def backfill_answer_def intro!: reads_ret split: option.splits)
      next
        case True
        then obtain kind where k: "classify_lock (c_protocol cfg) (out_lock (rt_outputs tx ! ?i)) = Some kind" by blast
        show ?thesis
        proof (cases "binding_parse kind (s_args (out_lock (rt_outputs tx ! ?i)))")
          case (Inl err)
          with ws True k show ?thesis by (simp add: Let_def backfill_answer_def reads_fail)
        next
          case (Inr binding)
          note f = found [OF Some _ _ k Inr]
          show ?thesis
            unfolding backfill_answer_def ws option.case Let_def k Inr sum.case using True
            by (simp only: if_False not_not simp_thms)
              (intro reads_bind [OF reads_clock [of "\<lambda>_. True"]] reads_ret f; simp add: output_data_def)
        qed
      qed
    qed
  qed
qed


lemma resolve_reads:
  assumes stable: "stable_node ck ans" and m: "batch_mirrors x cfg ans (fst acc)"
  shows "reads d (resolve_input e x ck cfg p j acc)
    (\<lambda>(found, acc'). batch_mirrors x cfg ans (fst acc') \<and> grows (fst acc) (fst acc') \<and>
       resolved_well cfg ans d p found (fst acc'))"
proof (cases "find (\<lambda>c. nc_tx_hash c = h256_to_vec (co_tx_hash p) \<and> nc_index c = as_i32 (co_index p)) (ib_cells (fst acc))")
  case (Some c)
  then have "point_key p \<in> known_cells (fst acc) d"
    by (auto simp: find_Some_iff known_cells_def point_key_def image_iff intro!: bexI [of _ c] nth_mem)
  moreover have "resolved_from_new_cell x (c_protocol cfg) c p j = Inr r \<Longrightarrow> rz_out_point r = p" for r
    by (auto simp: resolved_from_new_cell_def Let_def split: sum.splits)
  ultimately show ?thesis
    using Some m
    by (simp add: resolve_input_def Let_def resolved_well_def)
      (intro reads_bind [OF reads_of [where Q = "\<lambda>r. rz_out_point r = p"]] reads_ret; simp)
next
  case None
  let ?found = "cell_by_out_point (h256_to_vec (co_tx_hash p)) (as_i32 (co_index p)) d"
  have row: "resolved_from_row x (c_protocol cfg) row p j = Inr r \<Longrightarrow> rz_out_point r = p" for row r
    by (auto simp: resolved_from_row_def split: sum.splits)
  have known: "point_key p \<in> known_cells (fst acc) d" if "?found = Some row" for row
  proof -
    from that obtain c where "c \<in> set (d_cells d)" "row = cell_status_row d c"
      "cr_tx_hash row = h256_to_vec (co_tx_hash p)" "cr_index row = as_i32 (co_index p)"
      by (auto simp: cell_by_out_point_def cell_status_view_def find_Some_iff) (metis nth_mem)
    then have "c \<in> set (d_cells d)" "cell_key c = point_key p"
      by (simp_all add: point_key_def cell_status_row_def Let_def cell_key_def)
    then show ?thesis unfolding known_cells_def by (metis UnI1 image_eqI)
  qed
  show ?thesis
    unfolding resolve_input_def Let_def None option.case of_store_def
  proof (rule reads_bind [OF reads_map_err [OF reads_query [where Q = "\<lambda>r. r = ?found"]]])
    fix found assume "found = ?found"
    then show "reads d (case found of
             Some row \<Rightarrow> io_bind (io_of (resolved_from_row x (c_protocol cfg) row p j)) (\<lambda>r. io_ret (Some r, acc))
           | None \<Rightarrow> backfill_input e x ck cfg p j acc)
      (\<lambda>(found, acc'). batch_mirrors x cfg ans (fst acc') \<and> grows (fst acc) (fst acc') \<and>
         resolved_well cfg ans d p found (fst acc'))"
      using backfill_reads [OF stable m] known m row
      by (auto split: option.split simp: resolved_well_def
          intro!: reads_bind [OF reads_of [where Q = "\<lambda>r. rz_out_point r = p"]] reads_ret)
  qed simp
qed

section \<open>One transaction\<close>

definition input_point :: "rpc_transaction \<Rightarrow> matched_cell \<Rightarrow> ckb_out_point" where
  "input_point tx c = ri_previous_output (rt_inputs tx ! unat (mc_io_index c))"

definition input_done ::
  "config \<Rightarrow> (h256 \<Rightarrow> tx_with_status option) \<Rightarrow> db \<Rightarrow> rpc_transaction \<Rightarrow> matched_cell \<Rightarrow>
   resolved_input list \<times> scan_acc \<Rightarrow> bool" where
  "input_done cfg ans d tx c st \<longleftrightarrow>
     unat (mc_io_index c) < length (rt_inputs tx) \<and>
     (readable_at cfg ans (input_point tx c) \<longrightarrow>
        input_point tx c \<in> rz_out_point ` set (fst st) \<and>
        point_key (input_point tx c) \<in> known_cells (fst (snd st)) d)"

lemma resolve_inputs_reads:
  assumes stable: "stable_node ck ans" and m: "batch_mirrors x cfg ans (fst acc)"
  shows "reads d (resolve_inputs e x ck cfg r tx acc)
    (\<lambda>st. batch_mirrors x cfg ans (fst (snd st)) \<and> grows (fst acc) (fst (snd st)) \<and>
       (\<forall>c \<in> set (txr_cells r). mc_io_type c = Input \<longrightarrow> input_done cfg ans d tx c st))"
proof -
  let ?body = "\<lambda>matched st. case st of (resolved, acc) \<Rightarrow>
          if \<not> unat (mc_io_index matched) < length (rt_inputs tx) then
            io_fail (IEInconsistent (''transaction '' @ h256_to_hex x (txr_hash r) @ '' has no input at index ''
              @ show_nat (unat (mc_io_index matched))))
          else
            io_bind (resolve_input e x ck cfg (ri_previous_output (rt_inputs tx ! unat (mc_io_index matched)))
                      (mc_io_index matched) acc)
            (\<lambda>(found, acc). case found of
               Some i \<Rightarrow> io_ret (resolved @ [i], acc)
             | None \<Rightarrow> io_ret (resolved, acc))"
  let ?Inv = "\<lambda>st. batch_mirrors x cfg ans (fst (snd st)) \<and> grows (fst acc) (fst (snd st))"
  let ?P = "input_done cfg ans d tx"
  have step: "reads d (?body c st) (\<lambda>st'. ?Inv st' \<and> ?P c st' \<and> (\<forall>y. ?P y st \<longrightarrow> ?P y st'))" if inv: "?Inv st" for c st
  proof (cases "unat (mc_io_index c) < length (rt_inputs tx)")
    case False
    then show ?thesis by (simp add: case_prod_beta reads_fail)
  next
    case True
    obtain resolved a where st: "st = (resolved, a)" by (cases st)
    have keep: "?P y st \<longrightarrow> ?P y (resolved @ zs, a')" if "grows (fst a) (fst a')" for y zs a'
      using grows_known [OF that] by (auto simp: st input_done_def)
    have done': "?P c (resolved @ (case found of None \<Rightarrow> [] | Some i \<Rightarrow> [i]), a')"
      if "resolved_well cfg ans d (input_point tx c) found (fst a')" for found a'
      using that True by (auto simp: input_done_def resolved_well_def split: option.splits)
    have cont: "reads d (case found of Some i \<Rightarrow> io_ret (resolved @ [i], a') | None \<Rightarrow> io_ret (resolved, a'))
        (\<lambda>st'. ?Inv st' \<and> ?P c st' \<and> (\<forall>y. ?P y st \<longrightarrow> ?P y st'))"
      if "batch_mirrors x cfg ans (fst a')" "grows (fst a) (fst a')"
        "resolved_well cfg ans d (input_point tx c) found (fst a')" for found a'
    proof -
      have g: "grows (fst acc) (fst a')" using inv that(2) by (auto simp: st intro: grows_trans)
      show ?thesis
        using keep [OF that(2), of _ "case found of None \<Rightarrow> [] | Some i \<Rightarrow> [i]"] done' [OF that(3)] that(1) g
        by (cases found) (auto intro!: reads_ret)
    qed
    have "batch_mirrors x cfg ans (fst a)" using inv by (simp add: st)
    note r = resolve_reads [OF stable this, of d e "input_point tx c" "mc_io_index c"]
    show ?thesis
      unfolding st prod.case using True
      by (simp only: not_not if_False simp_thms)
        (rule reads_bind [OF r [unfolded input_point_def]], use cont in \<open>auto simp: st input_point_def\<close>)
  qed
  have "reads d (resolve_inputs e x ck cfg r tx acc)
    (\<lambda>st. ?Inv st \<and> (\<forall>c \<in> set (filter (\<lambda>c. mc_io_type c = Input) (txr_cells r)). ?P c st) \<and>
       (\<forall>y. ?P y ([], acc) \<longrightarrow> ?P y st))"
    unfolding resolve_inputs_def using m by (intro reads_for_each step) auto
  then show ?thesis by (rule reads_mono) auto
qed

text \<open>What a processed transaction leaves in the batch.\<close>

definition record_done ::
  "config \<Rightarrow> (h256 \<Rightarrow> tx_with_status option) \<Rightarrow> db \<Rightarrow> tx_record \<Rightarrow> index_batch \<Rightarrow> bool" where
  "record_done cfg ans d r b \<longleftrightarrow>
     (\<exists>tx. body_of ans (txr_hash r) = Some tx \<and>
        (\<forall>i binding. i < length (rt_outputs tx) \<and> readable_output (c_protocol cfg) (read_output tx i binding) \<longrightarrow>
           (h256_to_vec (txr_hash r), as_i32 (of_nat i)) \<in> (\<lambda>c. (nc_tx_hash c, nc_index c)) ` set (ib_cells b) \<and>
           h256_to_vec (txr_hash r) \<in> nt_tx_hash ` set (ib_transitions b)) \<and>
        (\<forall>c \<in> set (txr_cells r). mc_io_type c = Input \<longrightarrow>
           unat (mc_io_index c) < length (rt_inputs tx) \<and>
           (readable_at cfg ans (input_point tx c) \<longrightarrow>
              point_key (input_point tx c) \<in> spend_key ` set (ib_spends b) \<and>
              point_key (input_point tx c) \<in> known_cells b d \<and>
              h256_to_vec (txr_hash r) \<in> nt_tx_hash ` set (ib_transitions b))))"

lemma record_done_grows: "grows a b \<Longrightarrow> record_done cfg ans d r a \<Longrightarrow> record_done cfg ans d r b"
  unfolding record_done_def grows_def known_cells_def
  by (elim exE conjE, intro exI conjI allI impI ballI) (assumption | blast)+

lemma record_done_covered:
  "record_done cfg ans d r' b \<Longrightarrow> txr_hash r' = txr_hash r \<Longrightarrow> set (txr_cells r) \<subseteq> set (txr_cells r') \<Longrightarrow>
   record_done cfg ans d r b"
  unfolding record_done_def
proof (elim exE conjE, goal_cases)
  case (1 tx)
  show ?case
  proof (intro exI [of _ tx] conjI)
    show "\<forall>c \<in> set (txr_cells r). mc_io_type c = Input \<longrightarrow>
           unat (mc_io_index c) < length (rt_inputs tx) \<and>
           (readable_at cfg ans (input_point tx c) \<longrightarrow>
              point_key (input_point tx c) \<in> spend_key ` set (ib_spends b) \<and>
              point_key (input_point tx c) \<in> known_cells b d \<and>
              h256_to_vec (txr_hash r) \<in> nt_tx_hash ` set (ib_transitions b))"
      using 1(2,5) by (intro ballI) (drule (1) subsetD, drule (1) bspec, simp add: 1(1))
  qed (use 1 in auto)
qed

lemma classify_read_output:
  "out \<in> set (classify_outputs protocol (rt_outputs tx) (rt_outputs_data tx)) \<longleftrightarrow>
   (\<exists>i binding. i < length (rt_outputs tx) \<and> readable_output protocol (read_output tx i binding) \<and>
      out = read_output tx i binding)"
  by (cases out) (auto simp: classify_outputs_def classify_outputs_from_nth read_output_def)

lemma add_extracted_done:
  fixes block :: block_context
  assumes body: "body_of ans (txr_hash r) = Some tx" and m: "batch_mirrors x cfg ans b"
    and ins: "\<forall>c \<in> set (txr_cells r). mc_io_type c = Input \<longrightarrow> input_done cfg ans d tx c (ins, (b, n))"
  defines "b' \<equiv> add_extracted (extract_tx x (c_protocol cfg) (c_assets cfg) (txr_hash r) (rt_outputs tx)
      (rt_outputs_data tx) ins block) b"
  shows "batch_mirrors x cfg ans b'" and "grows b b'" and "record_done cfg ans d r b'"
proof -
  let ?outs = "classify_outputs (c_protocol cfg) (rt_outputs tx) (rt_outputs_data tx)"
  let ?cells = "map (\<lambda>out. build_new_cell x (c_assets cfg) (txr_hash r) out block) ?outs"
  have cases: "(?outs = [] \<and> ins = [] \<and> b' = b) \<or>
      (\<exists>t. nt_tx_hash t = h256_to_vec (txr_hash r) \<and>
         b' = b\<lparr> ib_cells := ib_cells b @ ?cells, ib_spends := ib_spends b @ map (spend_of (txr_hash r) block) ins,
                 ib_transitions := ib_transitions b @ [t] \<rparr>)"
  proof (cases "?outs = [] \<and> ins = []")
    case True
    then show ?thesis by (simp add: b'_def extract_tx_def add_extracted_def)
  next
    case False
    then show ?thesis
      by (intro disjI2 exI [of _ "transition_of x (txr_hash r) ins ?outs block"])
        (auto simp: b'_def extract_tx_def Let_def add_extracted_def)
  qed
  have "batch_mirrors x cfg ans b' \<and> grows b b' \<and> record_done cfg ans d r b'"
    using cases
  proof (elim disjE conjE exE, goal_cases)
    case 1
    then have "\<not> readable_output (c_protocol cfg) (read_output tx i binding)" if "i < length (rt_outputs tx)" for i binding
      using that classify_read_output [of "read_output tx i binding" "c_protocol cfg" tx] by auto
    with 1 m body ins show ?case by (auto simp: record_done_def input_done_def)
  next
    case (2 t)
    have "mirrors x cfg ans (build_new_cell x (c_assets cfg) (txr_hash r) out block)" if "out \<in> set ?outs" for out
      using that body unfolding classify_read_output by (auto intro: mirrors_built)
    with 2(2) m have mirror: "batch_mirrors x cfg ans b'" by (auto simp: batch_mirrors_def)
    have grow: "grows b b'" using 2(2) by (auto simp: grows_def)
    have outs: "(h256_to_vec (txr_hash r), as_i32 (of_nat i)) \<in> (\<lambda>c. (nc_tx_hash c, nc_index c)) ` set (ib_cells b')"
      if "i < length (rt_outputs tx)" "readable_output (c_protocol cfg) (read_output tx i binding)" for i binding
    proof (rule image_eqI)
      show "build_new_cell x (c_assets cfg) (txr_hash r) (read_output tx i binding) block \<in> set (ib_cells b')"
        using that classify_read_output [of "read_output tx i binding" "c_protocol cfg" tx] 2(2) by auto
    qed (simp add: read_output_def)
    have spends: "spend_key (spend_of h block i) = point_key (rz_out_point i)" for h i
      by (simp add: spend_key_def spend_of_def point_key_def)
    have point: "point_key p \<in> spend_key ` set (ib_spends b')" if p: "p \<in> rz_out_point ` set ins" for p
    proof -
      from p obtain i where i: "i \<in> set ins" "p = rz_out_point i" by blast
      show ?thesis
        by (rule image_eqI [of _ _ "spend_of (txr_hash r) block i"]) (use i 2(2) spends in simp_all)
    qed
    have tr: "h256_to_vec (txr_hash r) \<in> nt_tx_hash ` set (ib_transitions b')" using 2 by simp
    have known: "k \<in> known_cells b d \<Longrightarrow> k \<in> known_cells b' d" for k by (rule grows_known [OF grow])
    have "record_done cfg ans d r b'"
      unfolding record_done_def
    proof (intro exI [of _ tx] conjI body)
      show "\<forall>i binding. i < length (rt_outputs tx) \<and> readable_output (c_protocol cfg) (read_output tx i binding) \<longrightarrow>
           (h256_to_vec (txr_hash r), as_i32 (of_nat i)) \<in> (\<lambda>c. (nc_tx_hash c, nc_index c)) ` set (ib_cells b') \<and>
           h256_to_vec (txr_hash r) \<in> nt_tx_hash ` set (ib_transitions b')"
        using outs tr by blast
      show "\<forall>c \<in> set (txr_cells r). mc_io_type c = Input \<longrightarrow>
           unat (mc_io_index c) < length (rt_inputs tx) \<and>
           (readable_at cfg ans (input_point tx c) \<longrightarrow>
              point_key (input_point tx c) \<in> spend_key ` set (ib_spends b') \<and>
              point_key (input_point tx c) \<in> known_cells b' d \<and>
              h256_to_vec (txr_hash r) \<in> nt_tx_hash ` set (ib_transitions b'))"
        using ins point known tr by (auto simp: input_done_def)
    qed
    with mirror grow show ?case by blast
  qed
  then show "batch_mirrors x cfg ans b'" and "grows b b'" and "record_done cfg ans d r b'" by blast+
qed

lemma scan_record_reads:
  assumes stable: "stable_node ck ans" and m: "batch_mirrors x cfg ans (fst acc)"
  shows "reads d (scan_record e x ck cfg headers r acc)
    (\<lambda>acc'. batch_mirrors x cfg ans (fst acc') \<and> grows (fst acc) (fst acc') \<and> record_done cfg ans d r (fst acc'))"
proof -
  let ?Q = "\<lambda>acc'. batch_mirrors x cfg ans (fst acc') \<and> grows (fst acc) (fst acc') \<and> record_done cfg ans d r (fst acc')"
  have get: "reads d (of_ckb (get_transaction ck (txr_hash r))) (\<lambda>a. a = ans (txr_hash r))"
    unfolding of_ckb_def get_transaction_def using stable
    by (intro reads_map_err reads_call) (simp add: stable_node_def)
  have process: "reads d (process_transaction e x ck cfg r block ws acc) ?Q"
    if "ans (txr_hash r) = Some ws" for block ws
  proof (cases "ws_transaction ws")
    case None
    then show ?thesis by (simp add: process_transaction_def reads_fail)
  next
    case (Some tx)
    with that have body: "body_of ans (txr_hash r) = Some tx" by (simp add: body_of_def)
    show ?thesis
      unfolding process_transaction_def Some option.case
    proof (rule reads_bind [OF resolve_inputs_reads [OF stable m]])
      fix st
      assume st: "batch_mirrors x cfg ans (fst (snd st)) \<and> grows (fst acc) (fst (snd st)) \<and>
         (\<forall>c \<in> set (txr_cells r). mc_io_type c = Input \<longrightarrow> input_done cfg ans d tx c st)"
      obtain ins b n where s: "st = (ins, (b, n))" by (metis surj_pair)
      note add = add_extracted_done [OF body, of x cfg b d ins n block]
      show "reads d (case st of (resolved_inputs, batch, backfilled) \<Rightarrow>
          io_ret (add_extracted (extract_tx x (c_protocol cfg) (c_assets cfg) (txr_hash r) (rt_outputs tx)
                    (rt_outputs_data tx) resolved_inputs block) batch, backfilled)) ?Q"
        using st add unfolding s by (auto intro!: reads_ret intro: grows_trans)
    qed
  qed
  show ?thesis
    unfolding scan_record_def
    by (rule reads_bind [OF get])
      (auto split: option.split intro!: reads_fail reads_bind [OF reads_clock [of "\<lambda>_. True"]] process)
qed

section \<open>The merged list\<close>

definition covers :: "tx_record \<Rightarrow> tx_record \<Rightarrow> bool" where
  "covers r' r \<longleftrightarrow> record_key r' = record_key r \<and> set (txr_cells r) \<subseteq> set (txr_cells r')"

lemma covers_refl [simp]: "covers r r"
  by (simp add: covers_def)

lemma fold_push_cell: "set (fold push_cell cs xs) = set xs \<union> set cs"
  by (induction cs arbitrary: xs) (auto simp: push_cell_def)

lemma merge_record_covers:
  "record_key old = record_key new \<Longrightarrow> covers (merge_record old new) new"
  "covers (merge_record old new) old"
  by (auto simp: covers_def merge_record_def record_key_def fold_push_cell)

lemma covers_trans: "covers a b \<Longrightarrow> covers b c \<Longrightarrow> covers a c"
  by (auto simp: covers_def)

lemma upsert_covers:
  "(\<exists>r' \<in> set (upsert record_key merge_record n rows). covers r' n) \<and>
   (\<forall>r \<in> set rows. \<exists>r' \<in> set (upsert record_key merge_record n rows). covers r' r)"
  by (induction rows) (auto intro: merge_record_covers intro: covers_refl)

lemma fold_upsert_covers:
  "\<forall>r \<in> set ns \<union> set rows. \<exists>r' \<in> set (fold (upsert record_key merge_record) ns rows). covers r' r"
proof (induction ns arbitrary: rows)
  case (Cons n ns)
  let ?mid = "upsert record_key merge_record n rows"
  let ?fin = "fold (upsert record_key merge_record) ns ?mid"
  have mid: "\<exists>r' \<in> set ?fin. covers r' r" if "r \<in> set ?mid" for r
    using Cons.IH [of ?mid] that by blast
  have late: "\<exists>r' \<in> set ?fin. covers r' r" if "r \<in> set ns" for r
    using Cons.IH [of ?mid] that by blast
  have "\<exists>r' \<in> set ?fin. covers r' r" if r: "r = n \<or> r \<in> set rows" for r
  proof -
    from r upsert_covers [of n rows] obtain m where m: "m \<in> set ?mid" "covers m r" by blast
    from mid [OF m(1)] obtain r' where "r' \<in> set ?fin" "covers r' m" by blast
    with m(2) show ?thesis using covers_trans by blast
  qed
  with late show ?case by auto
qed (auto intro: covers_refl)

text \<open>Both searches page through a list of records.\<close>

definition serves_searches ::
  "ext \<Rightarrow> ckb_node \<Rightarrow> config \<Rightarrow> u64 \<Rightarrow> u64 \<Rightarrow> (nat \<Rightarrow> byte list) \<Rightarrow> (lock_kind \<Rightarrow> tx_record list) \<Rightarrow> nat \<Rightarrow> bool" where
  "serves_searches x ck cfg from to enc all fuel \<longleftrightarrow>
     (\<forall>kind. pages_through x ck (with_block_range from (to + 1) (lock_prefix (lock_search_script (c_protocol cfg) kind)))
               enc (all kind) \<and> length (all kind) < fuel)"

lemma collect_reads:
  assumes "pages_through x ck (with_block_range from (to + 1) (lock_prefix script)) enc all" "length all < fuel"
  shows "reads d (collect_transactions_in_range fuel x ck limit script from to)
    (\<lambda>out. \<exists>rs. out = Some rs \<and> set rs = set (filter (in_range from to) all))"
proof -
  have "\<exists>w'. collect_transactions_in_range fuel x ck limit script from to w =
      (Inr (Some (sort_key record_position (filter (in_range from to) all))), w') \<and> w_db w' = w_db w" for w
  proof (cases "to < from")
    case True
    have none: "\<not> in_range from to r" for r
    proof (cases "txr_block_number r < from")
      case False
      with True have "to < txr_block_number r" by simp
      then show ?thesis by (simp add: in_range_def)
    qed (simp add: in_range_def)
    have "filter (in_range from to) all = []" unfolding filter_empty_conv using none by blast
    with True show ?thesis by (simp add: collect_transactions_in_range_def io_ret_def)
  next
    case False
    have "0 < client_page_limit limit" by (simp add: client_page_limit_def less_max_iff_disj)
    from collect_pages_run [OF assms(1) this, of 0 fuel "from" to "[]" w] assms(2) obtain w' where
      run: "collect_pages fuel x ck (with_block_range from (to + 1) (lock_prefix script)) (client_page_limit limit) from to
        None [] w = (Inr (Some (filter (in_range from to) all)), w')" "w_db w' = w_db w"
      by (auto simp: cursor_at_def)
    have "collect_transactions_in_range fuel x ck limit script from to w =
        (Inr (Some (sort_key record_position (filter (in_range from to) all))), w')"
      unfolding collect_transactions_in_range_def if_not_P [OF False] Let_def io_bind_def run(1) by (simp add: io_ret_def)
    with run(2) show ?thesis by blast
  qed
  note run = this
  show ?thesis
    unfolding reads_def
  proof (intro allI impI)
    fix w :: world assume "w_db w = d"
    with run [of w] show "w_db (snd (collect_transactions_in_range fuel x ck limit script from to w)) = d \<and>
        (\<forall>out. fst (collect_transactions_in_range fuel x ck limit script from to w) = Inr out \<longrightarrow>
           (\<exists>rs. out = Some rs \<and> set rs = set (filter (in_range from to) all)))"
      by (elim exE conjE) simp
  qed
qed

lemma collect_range_reads:
  assumes "serves_searches x ck cfg from to enc all fuel"
  shows "reads d (collect_range fuel x ck cfg from to)
    (\<lambda>records. \<forall>kind. \<forall>r \<in> set (filter (in_range from to) (all kind)). \<exists>r' \<in> set records. covers r' r)"
proof -
  let ?body = "\<lambda>kind merged. io_bind (of_ckb (collect_transactions_in_range fuel x ck (ckb_page_limit (c_ckb cfg))
          (lock_search_script (c_protocol cfg) kind) from to))
       (\<lambda>records. case records of None \<Rightarrow> io_fail IEDiverged
        | Some rs \<Rightarrow> io_ret (fold (upsert record_key merge_record) rs merged))"
  let ?P = "\<lambda>kind merged. \<forall>r \<in> set (filter (in_range from to) (all kind)). \<exists>r' \<in> set merged. covers r' r"
  have "reads d (?body kind merged) (\<lambda>m'. True \<and> ?P kind m' \<and> (\<forall>y. ?P y merged \<longrightarrow> ?P y m'))" for kind merged
  proof (rule reads_bind)
    show "reads d (of_ckb (collect_transactions_in_range fuel x ck (ckb_page_limit (c_ckb cfg))
          (lock_search_script (c_protocol cfg) kind) from to))
        (\<lambda>out. \<exists>rs. out = Some rs \<and> set rs = set (filter (in_range from to) (all kind)))"
      unfolding of_ckb_def using assms by (intro reads_map_err collect_reads) (auto simp: serves_searches_def)
    fix out assume "\<exists>rs. out = Some rs \<and> set rs = set (filter (in_range from to) (all kind))"
    then obtain rs where rs: "out = Some rs" "set rs = set (filter (in_range from to) (all kind))" by blast
    have "?P kind (fold (upsert record_key merge_record) rs merged)"
      using fold_upsert_covers [of rs merged] rs(2) by blast
    moreover have "?P y merged \<Longrightarrow> ?P y (fold (upsert record_key merge_record) rs merged)" for y
      using fold_upsert_covers [of rs merged] by (meson UnI2 covers_trans)
    ultimately show "reads d (case out of None \<Rightarrow> io_fail IEDiverged
        | Some rs \<Rightarrow> io_ret (fold (upsert record_key merge_record) rs merged))
        (\<lambda>m'. True \<and> ?P kind m' \<and> (\<forall>y. ?P y merged \<longrightarrow> ?P y m'))"
      unfolding rs(1) option.case by (intro reads_ret) blast
  qed
  then have "reads d (io_for [KRgbpp, KBtcTime] [] ?body)
      (\<lambda>m'. True \<and> (\<forall>kind \<in> set [KRgbpp, KBtcTime]. ?P kind m') \<and> (\<forall>y. ?P y [] \<longrightarrow> ?P y m'))"
    by (intro reads_for_each) simp_all
  then show ?thesis
    unfolding collect_range_def
  proof (rule reads_bind, intro reads_ret allI)
    fix merged kind
    assume "True \<and> (\<forall>kind \<in> set [KRgbpp, KBtcTime]. ?P kind merged) \<and> (\<forall>y. ?P y [] \<longrightarrow> ?P y merged)"
    then have "?P kind merged" by (cases kind) auto
    then show "\<forall>r \<in> set (filter (in_range from to) (all kind)). \<exists>r' \<in> set (sort_key record_key merged). covers r' r"
      by simp
  qed
qed

section \<open>The batch of a range\<close>

lemma header_at_reads: "reads d (header_at ck number) (\<lambda>h. True)"
  unfolding header_at_def of_ckb_def get_header_by_number_def
  by (intro reads_bind [where Q = "\<lambda>_. True"] reads_map_err reads_call reads_of TrueI)

text \<open>A header is an answer of the node about its block.\<close>

definition node_header :: "ckb_node \<Rightarrow> u64 \<Rightarrow> rpc_header \<Rightarrow> bool" where
  "node_header ck number h \<longleftrightarrow> (\<exists>n. cn_header ck n number = Inr (Some h))"

lemma header_at_node: "header_at ck number w = (Inr h, w') \<Longrightarrow> node_header ck number h"
  by (auto simp: header_at_def of_ckb_def get_header_by_number_def node_header_def io_bind_Inr io_map_err_def
      io_call_def io_of_def split: prod.splits sum.splits option.splits elim!: ok_or.elims)

lemma fetch_headers_node:
  assumes "fetch_headers ck records w = (Inr headers, w')" "map_of headers b = Some h"
  shows "node_header ck b h"
proof -
  let ?body = "(\<lambda>number out. io_bind (io_attempt (header_at ck number)) (\<lambda>r. io_ret (out @ [(number, r)])))
    :: u64 \<Rightarrow> _ \<Rightarrow> (u64 \<times> (indexer_error + rpc_header)) list scan_io"
  let ?Inv = "\<lambda>out. \<forall>(b, r) \<in> set out. \<forall>h. r = Inr h \<longrightarrow> node_header ck b h"
  have step: "?Inv out \<Longrightarrow> io_for bs out ?body v = (Inr out', v') \<Longrightarrow> ?Inv out'" for bs out out' and v v' :: world
  proof (induction bs arbitrary: out v)
    case (Cons b bs)
    obtain r v1 where r: "header_at ck b v = (r, v1)" by (meson surj_pair)
    have "?Inv (out @ [(b, r)])" using Cons.prems(1) r header_at_node by auto
    moreover have one: "?body b out v = (Inr (out @ [(b, r)]), v1)"
      by (simp add: io_bind_def io_attempt_def io_ret_def r)
    have "io_for (b # bs) out ?body v = io_for bs (out @ [(b, r)]) ?body v1"
      unfolding io_for.simps io_bind_def [of "?body b out"] one by simp
    then have "io_for bs (out @ [(b, r)]) ?body v1 = (Inr out', v')" using Cons.prems(2) by simp
    ultimately show ?case by (rule Cons.IH)
  qed (simp add: io_ret_def)
  from assms(1) obtain fetched w1 where
    f: "io_for (distinct_sorted (map txr_block_number records)) [] ?body w = (Inr fetched, w1)" and
    c: "collect (\<lambda>(number, r). case r of Inl e \<Rightarrow> Inl e | Inr h \<Rightarrow> Inr (number, h)) fetched = Inr headers"
    by (auto simp: fetch_headers_def io_bind_Inr io_of_def)
  have "?Inv fetched" by (rule step [OF _ f]) simp
  moreover have "set headers \<subseteq> {(b, h). (b, Inr h) \<in> set fetched}"
    using c by (induction fetched arbitrary: headers) (auto split: sum.splits prod.splits)
  ultimately show ?thesis using map_of_SomeD [OF assms(2)] by fastforce
qed

lemma fetch_headers_reads: "reads d (fetch_headers ck records) (\<lambda>h. True)"
  unfolding fetch_headers_def
  by (intro reads_bind [where Q = "\<lambda>_. True"] reads_of reads_for [where Inv = "\<lambda>_. True"] reads_ret
      reads_attempt [OF header_at_reads] TrueI)

definition batch_complete ::
  "config \<Rightarrow> (h256 \<Rightarrow> tx_with_status option) \<Rightarrow> db \<Rightarrow> u64 \<Rightarrow> u64 \<Rightarrow> (lock_kind \<Rightarrow> tx_record list) \<Rightarrow> index_batch \<Rightarrow> bool" where
  "batch_complete cfg ans d from to all b \<longleftrightarrow>
     (\<forall>kind. \<forall>r \<in> set (filter (in_range from to) (all kind)). record_done cfg ans d r b)"

lemma add_blocks_sel [simp]:
  "ib_cells (add_blocks x now hs to h b) = ib_cells b" "ib_spends (add_blocks x now hs to h b) = ib_spends b"
  "ib_transitions (add_blocks x now hs to h b) = ib_transitions b"
  "ib_checkpoint_number (add_blocks x now hs to h b) = as_i64 to"
  "ib_checkpoint_hash (add_blocks x now hs to h b) = Some (h256_to_vec (rh_hash h))"
  by (simp_all add: add_blocks_def Let_def)

lemma scan_records_reads:
  assumes "stable_node ck ans"
  shows "reads d (io_for records (batch_start cfg tip target, 0) (scan_record e x ck cfg headers))
    (\<lambda>acc. batch_mirrors x cfg ans (fst acc) \<and> (\<forall>r \<in> set records. record_done cfg ans d r (fst acc)))"
proof -
  have "reads d (io_for records (batch_start cfg tip target, 0) (scan_record e x ck cfg headers))
    (\<lambda>acc. batch_mirrors x cfg ans (fst acc) \<and> (\<forall>r \<in> set records. record_done cfg ans d r (fst acc)) \<and>
       (\<forall>r. record_done cfg ans d r (fst (batch_start cfg tip target, 0 :: nat)) \<longrightarrow> record_done cfg ans d r (fst acc)))"
  proof (rule reads_for_each)
    show "batch_mirrors x cfg ans (fst (batch_start cfg tip target, 0))"
      by (simp add: batch_mirrors_def batch_start_def)
    fix r and acc :: scan_acc assume "batch_mirrors x cfg ans (fst acc)"
    from scan_record_reads [OF assms this, of d e headers r]
    show "reads d (scan_record e x ck cfg headers r acc)
       (\<lambda>s'. batch_mirrors x cfg ans (fst s') \<and> record_done cfg ans d r (fst s') \<and>
          (\<forall>y. record_done cfg ans d y (fst acc) \<longrightarrow> record_done cfg ans d y (fst s')))"
      by (rule reads_mono) (auto dest: record_done_grows)
  qed
  then show ?thesis by (rule reads_mono) blast
qed

lemma collect_any_reads: "reads d (collect_transactions_in_range fuel x ck limit script from to) (\<lambda>out. True)"
proof -
  have "reads d (collect_pages fuel x ck key l from to cursor out) (\<lambda>out. True)" for key l cursor out
    by (induction fuel arbitrary: cursor out)
      (auto simp: Let_def intro!: reads_ret reads_bind [OF reads_call [of _ "\<lambda>_. True"]])
  note pages = this
  have "reads d (io_bind (collect_pages fuel x ck key l from to None [])
      (\<lambda>out. io_ret (map_option (sort_key record_position) out))) (\<lambda>out. True)" for key l
    by (rule reads_bind [OF pages]) (rule reads_ret, rule TrueI)
  then show ?thesis
    unfolding collect_transactions_in_range_def Let_def by (auto intro: reads_ret)
qed

lemma collect_range_any_reads: "reads d (collect_range fuel x ck cfg from to) (\<lambda>records. True)"
  unfolding collect_range_def of_ckb_def
  by (rule reads_bind [OF reads_for [where Inv = "\<lambda>_. True"]])
    (auto intro!: reads_ret reads_fail reads_bind [OF reads_map_err [OF collect_any_reads]] split: option.split)

lemma scan_range_reads:
  assumes stable: "stable_node ck ans" and collected: "reads d (collect_range fuel x ck cfg from to) Q"
  shows "reads d (scan_range fuel e x ck cfg tip target from to)
    (\<lambda>(b, n, k). batch_mirrors x cfg ans b \<and> (\<exists>records. Q records \<and> (\<forall>r \<in> set records. record_done cfg ans d r b)) \<and>
       ib_checkpoint_number b = as_i64 to \<and> (\<exists>h. ib_checkpoint_hash b = Some (h256_to_vec h)))"
  unfolding scan_range_def
proof (rule reads_bind [OF collected], rule reads_bind [OF fetch_headers_reads],
    rule reads_bind [OF scan_records_reads [OF stable]])
  fix records headers and acc :: scan_acc
  assume Q: "Q records"
    and acc: "batch_mirrors x cfg ans (fst acc) \<and> (\<forall>r \<in> set records. record_done cfg ans d r (fst acc))"
  have hd: "reads d (case map_of headers to of Some h \<Rightarrow> io_ret h | None \<Rightarrow> header_at ck to) (\<lambda>h. True)"
    by (auto intro: reads_ret header_at_reads split: option.split)
  have same: "record_done cfg ans d r (add_blocks x now headers to h (fst acc)) = record_done cfg ans d r (fst acc)" for r now h
    by (simp add: record_done_def known_cells_def)
  show "reads d (case acc of (batch, backfilled) \<Rightarrow>
      io_bind (case map_of headers to of Some h \<Rightarrow> io_ret h | None \<Rightarrow> header_at ck to)
     (\<lambda>checkpoint_header. io_bind (io_clock e)
     (\<lambda>now. io_ret (add_blocks x now headers to checkpoint_header batch, backfilled, length records))))
    (\<lambda>(b, n, k). batch_mirrors x cfg ans b \<and> (\<exists>records. Q records \<and> (\<forall>r \<in> set records. record_done cfg ans d r b)) \<and>
       ib_checkpoint_number b = as_i64 to \<and> (\<exists>h. ib_checkpoint_hash b = Some (h256_to_vec h)))"
    unfolding case_prod_beta using Q acc
    by (intro reads_bind [OF hd] reads_bind [OF reads_clock [of "\<lambda>_. True"]] reads_ret)
      (auto simp: batch_mirrors_def same)
qed

section \<open>How a round ends\<close>

context db_relation
begin

lemma obeys_of_store: "obeys R m \<Longrightarrow> obeys R (of_store m)"
  unfolding of_store_def by (rule obeys_map_err)

lemma obeys_of_ckb: "obeys R m \<Longrightarrow> obeys R (of_ckb m)"
  unfolding of_ckb_def by (rule obeys_map_err)

lemma obeys_ckb_calls:
  "obeys R (get_transaction ck h)" "obeys R (get_header_by_number ck n)" "obeys R (synced_tip ck)"
  unfolding get_transaction_def get_header_by_number_def synced_tip_def by (intro obeys_rules)+

lemma obeys_collect: "obeys R (collect_transactions_in_range fuel x ck limit script from to)"
proof -
  have "obeys R (collect_pages fuel x ck key l from to cursor out)" for key l cursor out
    by (induction fuel arbitrary: cursor out) (auto simp: Let_def intro!: obeys_ret obeys_bind obeys_call)
  then show ?thesis
    unfolding collect_transactions_in_range_def Let_def by (intro obeys_rules)
qed

lemma obeys_header_at: "obeys R (header_at ck n)"
  unfolding header_at_def by (intro obeys_rules obeys_of_ckb obeys_ckb_calls)

lemma obeys_resolve_input: "obeys R (resolve_input e x ck cfg p j acc)"
  unfolding resolve_input_def backfill_input_def backfill_answer_def Let_def
  by (intro obeys_rules obeys_of_ckb obeys_of_store obeys_ckb_calls)

lemma obeys_scan_record: "obeys R (scan_record e x ck cfg headers r acc)"
  unfolding scan_record_def process_transaction_def resolve_inputs_def
  by (intro obeys_rules obeys_of_ckb obeys_ckb_calls obeys_resolve_input)

lemma obeys_scan_range: "obeys R (scan_range fuel e x ck cfg tip target from to)"
  unfolding scan_range_def collect_range_def fetch_headers_def
  by (intro obeys_rules obeys_of_ckb obeys_collect obeys_header_at obeys_scan_record)

lemma obeys_assert_checkpoint: "obeys R (assert_checkpoint_still_canonical x ck state)"
  unfolding assert_checkpoint_still_canonical_def Let_def
  by (intro obeys_rules obeys_of_ckb obeys_ckb_calls)

end

lemma io_map_err_Inr: "io_map_err g m w = (Inr y, w') \<longleftrightarrow> m w = (Inr y, w')"
  by (auto simp: io_map_err_def split: prod.splits)

lemma of_store_Inr: "of_store m w = (Inr y, w') \<longleftrightarrow> m w = (Inr y, w')"
  unfolding of_store_def by (rule io_map_err_Inr)

lemma of_ckb_Inr: "of_ckb m w = (Inr y, w') \<longleftrightarrow> m w = (Inr y, w')"
  unfolding of_ckb_def by (rule io_map_err_Inr)

lemma of_store_Inl: "of_store m w = (Inl err, w') \<Longrightarrow> \<exists>e0. m w = (Inl e0, w') \<and> err = IEStore e0"
  by (cases "m w") (auto simp: of_store_def io_map_err_def elim: map_err.elims)

text \<open>The tables of the CKB side and the checkpoint; before the first round, where it will start.\<close>

definition checkpoint_of :: "config \<Rightarrow> db \<Rightarrow> int \<times> byte list option" where
  "checkpoint_of cfg d =
     (case get_stream_state CKB_STREAM d of
        None \<Rightarrow> (as_i64 (saturating_sub (ckb_start_block (c_ckb cfg)) 1), None)
      | Some s \<Rightarrow> (st_last_block_number s, st_last_block_hash s))"

definition ckb_facts ::
  "config \<Rightarrow> db \<Rightarrow> cell_db list \<times> transition_row list \<times> block_row list \<times> int \<times> byte list option" where
  "ckb_facts cfg d = (d_cells d, d_transitions d, d_blocks d, checkpoint_of cfg d)"

lemma checkpoint_of_insert: "checkpoint_of cfg (insert_stream CKB_STREAM (ckb_start_block (c_ckb cfg)) now d) = checkpoint_of cfg d"
  by (simp add: checkpoint_of_def get_stream_state_def insert_stream_def streams_table.lookup_upsert
      keep_old_def split: option.split)

lemma checkpoint_of_progress: "checkpoint_of cfg (record_chain_progress s tip target lag now d) = checkpoint_of cfg d"
  by (simp add: checkpoint_of_def get_stream_state_def record_chain_progress_def lookup_update_where
      split: option.split)

lemma facts_progress: "obeys (keeps (ckb_facts cfg)) (execute e (record_chain_progress s tip target lag))"
  by (intro keeps.obeys_execute) (simp add: keeps_def ckb_facts_def checkpoint_of_progress, simp add: record_chain_progress_def)

text \<open>All but the stream rows.\<close>

definition beside_streams :: "db \<Rightarrow> db" where
  "beside_streams d = d\<lparr> d_streams := [] \<rparr>"

lemma beside_streams_statements:
  "obeys (keeps beside_streams) (execute e (record_chain_progress s tip target lag))"
  "obeys (keeps beside_streams) (execute e (set_stream_error s err))"
  "obeys (keeps beside_streams) (init_stream e s start)"
  unfolding init_stream_def
  by (intro keeps.obeys_rules keeps.obeys_execute,
      simp add: keeps_def beside_streams_def record_chain_progress_def set_stream_error_def insert_stream_def)+

lemma row_progress:
  "obeys (keeps (\<lambda>d. get_stream_state CKB_STREAM d = None)) (execute e (record_chain_progress s tip target lag))"
  by (intro keeps.obeys_execute)
    (simp add: keeps_def get_stream_state_def record_chain_progress_def lookup_update_where)

lemma init_stream_run:
  assumes "init_stream e CKB_STREAM (ckb_start_block (c_ckb cfg)) w = (r, w')"
  shows "ckb_facts cfg (w_db w') = ckb_facts cfg (w_db w)"
    and "r = Inr s \<Longrightarrow> (st_last_block_number s, st_last_block_hash s) = checkpoint_of cfg (w_db w)"
    and "r = Inr s \<Longrightarrow> get_stream_state CKB_STREAM (w_db w') \<noteq> None"
proof -
  have "obeys (keeps (ckb_facts cfg)) (init_stream e CKB_STREAM (ckb_start_block (c_ckb cfg)))"
    unfolding init_stream_def
    by (intro keeps.obeys_rules keeps.obeys_execute) (simp add: keeps_def ckb_facts_def checkpoint_of_insert, simp add: insert_stream_def)
  from obeys_keepsD [OF this assms] show facts: "ckb_facts cfg (w_db w') = ckb_facts cfg (w_db w)" .
  assume "r = Inr s"
  with assms have row: "get_stream_state CKB_STREAM (w_db w') = Some s"
    by (auto simp: init_stream_def io_bind_Inr query_def sql_Inr io_of_def elim!: ok_or.elims)
  then show "get_stream_state CKB_STREAM (w_db w') \<noteq> None" by simp
  from row have "checkpoint_of cfg (w_db w') = (st_last_block_number s, st_last_block_hash s)"
    by (simp add: checkpoint_of_def)
  with facts show "(st_last_block_number s, st_last_block_hash s) = checkpoint_of cfg (w_db w)"
    by (simp add: ckb_facts_def)
qed

text \<open>Header rows below the retention are dropped after the commit; at height 0 nothing is.\<close>

definition retained_from :: "config \<Rightarrow> u64 \<Rightarrow> int" where
  "retained_from cfg to = as_i64 (saturating_sub to (ckb_header_retention (c_ckb cfg)))"

definition retained :: "config \<Rightarrow> u64 \<Rightarrow> db \<Rightarrow> bool" where
  "retained cfg to d \<longleftrightarrow> saturating_sub to (ckb_header_retention (c_ckb cfg)) > 0 \<longrightarrow>
     (\<forall>k \<in> set (d_blocks d). retained_from cfg to \<le> bk_number k)"

text \<open>The round that commits \<open>b\<close>: it started from the database \<open>d\<close>.\<close>

definition commits ::
  "nat \<Rightarrow> env \<Rightarrow> ext \<Rightarrow> ckb_node \<Rightarrow> config \<Rightarrow> stream_state \<Rightarrow> u64 \<Rightarrow> u64 \<Rightarrow> db \<Rightarrow> index_batch \<Rightarrow> db \<Rightarrow> bool" where
  "commits fuel e x ck cfg state tip target d b d' \<longleftrightarrow>
     (let from = scan_from cfg (st_last_block_number state); to = scan_to cfg target from in
      \<exists>at n k w1 w2. w_db w1 = d \<and> scan_range fuel e x ck cfg tip target from to w1 = (Inr (b, n, k), w2) \<and>
        (d' = batch_effect b at d \<or> d' = snd (prune_blocks_below (retained_from cfg to) (batch_effect b at d))))"

lemma prune_headers_db:
  "prune_headers e cfg to w = (r, w') \<Longrightarrow>
   (w_db w' = w_db w \<or> w_db w' = snd (prune_blocks_below (retained_from cfg to) (w_db w))) \<and>
   (r = Inr () \<longrightarrow> retained cfg to (w_db w'))"
  by (auto simp: prune_headers_def Let_def io_bind_def io_ret_def of_store_def io_map_err_def sql_def retained_def
      retained_from_def prune_blocks_below_def delete_where_def split: if_splits option.splits prod.splits)

lemma scan_extend_run:
  assumes "scan_extend fuel e x ck cfg state tip target w = (r, w')"
  shows "(w_db w' = w_db w \<and> (\<exists>err. r = Inl err)) \<or>
    (\<exists>b. commits fuel e x ck cfg state tip target (w_db w) b (w_db w') \<and>
       assert_checkpoint_still_canonical x ck state w = (Inr (), snd (assert_checkpoint_still_canonical x ck state w)) \<and>
       (\<forall>rd. r = Inr rd \<longrightarrow> \<not> rd_idle rd \<and> rd_chain_tip rd = tip \<and> rd_target rd = target \<and>
          rd_from rd = scan_from cfg (st_last_block_number state) \<and> rd_to rd = scan_to cfg target (rd_from rd)) \<and>
       (\<forall>err. r = Inl err \<longrightarrow> (\<exists>e0. err = IEStore e0)) \<and>
       (\<forall>rd. r = Inr rd \<longrightarrow> retained cfg (rd_to rd) (w_db w')))"
proof -
  let ?from = "scan_from cfg (st_last_block_number state)" and ?to = "scan_to cfg target (scan_from cfg (st_last_block_number state))"
  let ?rest = "\<lambda>(batch, backfilled, transactions). io_bind (of_store (apply_batch e batch))
       (\<lambda>stats. io_bind (prune_headers e cfg ?to)
       (\<lambda>_. io_ret \<lparr> rd_from = ?from, rd_to = ?to, rd_chain_tip = tip, rd_target = target,
              rd_transactions = transactions, rd_cells = as_cells stats, rd_spends = as_spends stats,
              rd_backfilled = backfilled, rd_idle = False \<rparr>))"
  obtain ra w1 where a: "assert_checkpoint_still_canonical x ck state w = (ra, w1)" by (meson surj_pair)
  have w1: "w_db w1 = w_db w"
    using obeys_keepsD [OF keeps.obeys_assert_checkpoint [of "\<lambda>d. d" x ck state] a] by simp
  obtain rb w2 where b: "scan_range fuel e x ck cfg tip target ?from ?to w1 = (rb, w2)" by (meson surj_pair)
  have w2: "w_db w2 = w_db w"
    using obeys_keepsD [OF keeps.obeys_scan_range [of "\<lambda>d. d" fuel e x ck cfg tip target] b] w1 by simp
  have run: "(r, w') = (case ra of Inl err \<Rightarrow> (Inl err, w1) | Inr u \<Rightarrow>
      (case rb of Inl err \<Rightarrow> (Inl err, w2) | Inr v \<Rightarrow> ?rest v w2))"
    using assms a b by (auto simp: scan_extend_def Let_def io_bind_def split: sum.splits)
  show ?thesis
  proof (cases "\<exists>u v. ra = Inr u \<and> rb = Inr v")
    case False
    with run w1 w2 have "w_db w' = w_db w \<and> (\<exists>err. r = Inl err)"
      by (cases ra; cases rb) auto
    then show ?thesis by blast
  next
    case True
    then obtain bt n k where ra: "ra = Inr ()" and rb: "rb = Inr (bt, n, k)" by auto
    obtain rc w3 where c: "apply_batch e bt w2 = (rc, w3)" by (meson surj_pair)
    show ?thesis
    proof (cases rc)
      case (Inl err)
      with run ra rb c have "r = Inl (IEStore err) \<and> w' = w3"
        by (simp add: io_bind_def of_store_def io_map_err_def)
      moreover have "w_db w3 = w_db w" using apply_batch_Inl c Inl w2 by auto
      ultimately show ?thesis by blast
    next
      case (Inr st)
      obtain rp w4 where p: "prune_headers e cfg ?to w3 = (rp, w4)" by (meson surj_pair)
      have db: "w_db w3 = batch_effect bt (e_now e (w_tick w2)) (w_db w)"
        using apply_batch_Inr(1) c Inr w2 by simp
      have res: "w' = w4 \<and> (case rp of Inl err \<Rightarrow> r = Inl err | Inr u \<Rightarrow>
          r = Inr \<lparr> rd_from = ?from, rd_to = ?to, rd_chain_tip = tip, rd_target = target,
              rd_transactions = k, rd_cells = as_cells st, rd_spends = as_spends st,
              rd_backfilled = n, rd_idle = False \<rparr>)"
        using run ra rb c Inr p
        by (simp add: io_bind_def of_store_def io_map_err_def io_ret_def split: sum.splits)
      have perr: "\<exists>e0. err = IEStore e0" if "rp = Inl err" for err
        using p that by (auto simp: prune_headers_def Let_def io_bind_Inl dest: of_store_Inl split: if_splits)
      have "commits fuel e x ck cfg state tip target (w_db w) bt (w_db w')"
        unfolding commits_def Let_def
        using w1 b rb db prune_headers_db [OF p] res by metis
      moreover have "assert_checkpoint_still_canonical x ck state w = (Inr (), snd (assert_checkpoint_still_canonical x ck state w))"
        using a ra by simp
      moreover have "\<forall>rd. r = Inr rd \<longrightarrow> \<not> rd_idle rd \<and> rd_chain_tip rd = tip \<and> rd_target rd = target \<and>
          rd_from rd = ?from \<and> rd_to rd = scan_to cfg target (rd_from rd)"
        using res by (auto split: sum.splits)
      moreover have "\<forall>err. r = Inl err \<longrightarrow> (\<exists>e0. err = IEStore e0)"
        using res perr by (auto split: sum.splits)
      moreover have "\<forall>rd. r = Inr rd \<longrightarrow> retained cfg (rd_to rd) (w_db w')"
        using res prune_headers_db [OF p] by (auto split: sum.splits)
      ultimately show ?thesis by blast
    qed
  qed
qed

lemma scan_once_run:
  assumes "scan_once fuel e x ck cfg w = (r, w')"
  shows "(ckb_facts cfg (w_db w') = ckb_facts cfg (w_db w) \<and> (\<forall>rd. r = Inr rd \<longrightarrow> rd_idle rd) \<and>
       beside_streams (w_db w') = beside_streams (w_db w)) \<or>
    (\<exists>state tip target d b w1 w2.
       (st_last_block_number state, st_last_block_hash state) = checkpoint_of cfg (w_db w) \<and>
       synced_tip ck w1 = (Inr tip, w2) \<and> safe_ckb_target cfg tip = Some target \<and>
       st_last_block_number state < as_i64 target \<and> ckb_facts cfg d = ckb_facts cfg (w_db w) \<and>
       get_stream_state CKB_STREAM d \<noteq> None \<and>
       commits fuel e x ck cfg state tip target d b (w_db w') \<and>
       (\<exists>w3 w4. assert_checkpoint_still_canonical x ck state w3 = (Inr (), w4)) \<and>
       (\<forall>rd. r = Inr rd \<longrightarrow> \<not> rd_idle rd \<and> rd_chain_tip rd = tip \<and> rd_target rd = target \<and>
          rd_from rd = scan_from cfg (st_last_block_number state) \<and> rd_to rd = scan_to cfg target (rd_from rd)) \<and>
       (\<forall>err. r = Inl err \<longrightarrow> (\<exists>e0. err = IEStore e0)) \<and>
       (\<forall>rd. r = Inr rd \<longrightarrow> retained cfg (rd_to rd) (w_db w')))"
    (is "?idle \<or> ?commit")
proof -
  let ?start = "ckb_start_block (c_ckb cfg)" and ?lag = "ckb_reorg_lag (c_ckb cfg)"
  obtain ri w1 where i: "of_store (init_stream e CKB_STREAM ?start) w = (ri, w1)" by (meson surj_pair)
  obtain ri0 where i0: "init_stream e CKB_STREAM ?start w = (ri0, w1)" and ri0: "ri = map_err IEStore ri0"
    using i by (cases "init_stream e CKB_STREAM ?start w") (auto simp: of_store_def io_map_err_def)
  note f1 = init_stream_run(1) [OF i0]
  note g1 = obeys_keepsD [OF beside_streams_statements(3) i0]
  show ?thesis
  proof (cases ri)
    case (Inl err)
    with assms i f1 g1 have ?idle by (auto simp: scan_once_def io_bind_def)
    then show ?thesis ..
  next
    case (Inr state)
    with ri0 have st: "(st_last_block_number state, st_last_block_hash state) = checkpoint_of cfg (w_db w)"
      by (intro init_stream_run(2) [OF i0]) (metis map_err_Inr)
    from Inr ri0 have row: "get_stream_state CKB_STREAM (w_db w1) \<noteq> None"
      by (intro init_stream_run(3) [OF i0, of state]) (metis map_err_Inr)
    obtain rt w2 where t: "of_ckb (synced_tip ck) w1 = (rt, w2)" by (meson surj_pair)
    have f2: "w_db w2 = w_db w1"
      using obeys_keepsD [OF keeps.obeys_of_ckb [OF keeps.obeys_ckb_calls(3) [of "\<lambda>d. d"]] t] by simp
    show ?thesis
    proof (cases rt)
      case (Inl err)
      with assms i Inr t f1 f2 g1 have ?idle by (auto simp: scan_once_def io_bind_def)
      then show ?thesis ..
    next
      case tip: (Inr tip)
      then have t': "synced_tip ck w1 = (Inr tip, w2)" using t by (simp add: of_ckb_Inr)
      define tgt where "tgt = (case safe_ckb_target cfg tip of None \<Rightarrow> 0 | Some target \<Rightarrow> target)"
      obtain rp w3 where p: "of_store (execute e (record_chain_progress CKB_STREAM tip tgt ?lag)) w2 = (rp, w3)"
        by (meson surj_pair)
      have f3: "ckb_facts cfg (w_db w3) = ckb_facts cfg (w_db w)"
        using obeys_keepsD [OF keeps.obeys_of_store [OF facts_progress] p] f1 f2 by simp
      have g3: "beside_streams (w_db w3) = beside_streams (w_db w)"
        using obeys_keepsD [OF keeps.obeys_of_store [OF beside_streams_statements(1)] p] g1 f2 by simp
      have row3: "get_stream_state CKB_STREAM (w_db w3) \<noteq> None"
        using obeys_keepsD [OF keeps.obeys_of_store [OF row_progress] p] row f2 by simp
      show ?thesis
      proof (cases "\<exists>target. safe_ckb_target cfg tip = Some target \<and> rp = Inr () \<and> st_last_block_number state < as_i64 target")
        case False
        with assms i Inr t tip p f3 g3 have ?idle
          by (cases rp; cases "safe_ckb_target cfg tip")
            (auto simp: scan_once_def io_bind_def tgt_def io_ret_def)
        then show ?thesis by blast
      next
        case True
        then obtain target where tg: "safe_ckb_target cfg tip = Some target" "rp = Inr ()"
          "st_last_block_number state < as_i64 target" by blast
        with assms i Inr t tip p have run: "scan_extend fuel e x ck cfg state tip target w3 = (r, w')"
          by (simp add: scan_once_def io_bind_def tgt_def)
        from scan_extend_run [OF run] show ?thesis
        proof (elim disjE)
          assume "w_db w' = w_db w3 \<and> (\<exists>err. r = Inl err)"
          with f3 g3 have ?idle by auto
          then show ?thesis by blast
        next
          assume "\<exists>b. commits fuel e x ck cfg state tip target (w_db w3) b (w_db w') \<and>
       assert_checkpoint_still_canonical x ck state w3 = (Inr (), snd (assert_checkpoint_still_canonical x ck state w3)) \<and>
       (\<forall>rd. r = Inr rd \<longrightarrow> \<not> rd_idle rd \<and> rd_chain_tip rd = tip \<and> rd_target rd = target \<and>
          rd_from rd = scan_from cfg (st_last_block_number state) \<and> rd_to rd = scan_to cfg target (rd_from rd)) \<and>
       (\<forall>err. r = Inl err \<longrightarrow> (\<exists>e0. err = IEStore e0)) \<and>
       (\<forall>rd. r = Inr rd \<longrightarrow> retained cfg (rd_to rd) (w_db w'))"
          then have ?commit using st t' tg(1,3) f3 row3 by blast
          then show ?thesis ..
        qed
      qed
    qed
  qed
qed

lemma scan_range_checkpoint:
  assumes "scan_range fuel e x ck cfg tip target from to w = (Inr (b, n, k), w')"
  shows "ib_checkpoint_number b = as_i64 to \<and> (\<exists>h. ib_checkpoint_hash b = Some (h256_to_vec h))"
proof -
  from assms obtain now hs h b0 where "b = add_blocks x now hs to h b0"
    by (auto simp: scan_range_def io_bind_Inr)
  then show ?thesis by auto
qed

lemma scan_range_hash_of_node:
  assumes "scan_range fuel e x ck cfg tip target from to w = (Inr (b, n, k), w')"
  shows "\<exists>h. node_header ck to h \<and> ib_checkpoint_hash b = Some (h256_to_vec (rh_hash h))"
proof -
  from assms obtain records w0 headers w1 w2 h w3 now b0 where
    f: "fetch_headers ck records w0 = (Inr headers, w1)" and
    h: "(case map_of headers to of Some h \<Rightarrow> io_ret h | None \<Rightarrow> header_at ck to) w2 = (Inr h, w3)" and
    b: "b = add_blocks x now headers to h b0"
    by (auto simp: scan_range_def io_bind_Inr)
  have "node_header ck to h"
  proof (cases "map_of headers to")
    case None
    with h header_at_node show ?thesis by simp
  next
    case (Some h')
    with h fetch_headers_node [OF f Some] show ?thesis by (simp add: io_ret_def)
  qed
  with b show ?thesis by auto
qed

lemma prune_sel [simp]:
  "d_cells (snd (prune_blocks_below k d)) = d_cells d"
  "d_transitions (snd (prune_blocks_below k d)) = d_transitions d"
  "checkpoint_of cfg (snd (prune_blocks_below k d)) = checkpoint_of cfg d"
  by (simp_all add: prune_blocks_below_def checkpoint_of_def get_stream_state_def)

lemma batch_checkpoint:
  assumes "get_stream_state CKB_STREAM d \<noteq> None"
  shows "checkpoint_of cfg (batch_effect b at d) = (ib_checkpoint_number b, ib_checkpoint_hash b)"
proof -
  have "get_stream_state CKB_STREAM (batch_effect b at d) = map_option (\<lambda>s. s\<lparr> st_last_block_number := ib_checkpoint_number b,
              st_last_block_hash := ib_checkpoint_hash b,
              st_target := Some (ib_target b), st_chain_tip := Some (ib_chain_tip b),
              st_reorg_lag := ib_reorg_lag b, st_last_error := None, st_updated_at := at \<rparr>) (get_stream_state CKB_STREAM d)"
    unfolding get_stream_state_def batch_effect_sel(4) publish_checkpoint_def
    by (simp add: lookup_update_where) (auto simp: lookup_row_def find_Some_iff option.map_comp intro!: option.map_cong)
  with assms show ?thesis by (auto simp: checkpoint_of_def)
qed

lemma commits_checkpoint:
  assumes "commits fuel e x ck cfg state tip target d b d'" "get_stream_state CKB_STREAM d \<noteq> None"
  shows "\<exists>h. checkpoint_of cfg d' = (as_i64 (scan_to cfg target (scan_from cfg (st_last_block_number state))), Some (h256_to_vec h))"
proof -
  from assms(1) obtain at n k w1 w2 where
    r: "scan_range fuel e x ck cfg tip target (scan_from cfg (st_last_block_number state))
          (scan_to cfg target (scan_from cfg (st_last_block_number state))) w1 = (Inr (b, n, k), w2)"
    and d': "d' = batch_effect b at d \<or> d' = snd (prune_blocks_below (retained_from cfg (scan_to cfg target (scan_from cfg (st_last_block_number state)))) (batch_effect b at d))"
    unfolding commits_def Let_def by (elim exE conjE)
  from scan_range_checkpoint [OF r] d' batch_checkpoint [OF assms(2)] show ?thesis by auto
qed

section \<open>Rows for what the batch names\<close>

lemma known_row:
  assumes "k \<in> known_cells b d"
  shows "\<exists>r \<in> set (d_cells (batch_effect b at d)). cell_key r = k"
proof -
  from assms obtain r where "r \<in> set (d_cells (fold (\<lambda>c. insert_cell c at) (ib_cells b) d))" "cell_key r = k"
    unfolding known_cells_def inserted_keys [of at "ib_cells b" d, symmetric] by auto
  then show ?thesis by (force simp: batch_effect_sel fold_insert_cells)
qed

lemma spend_row_consumed_some:
  assumes "cell_key r \<in> spend_key ` set ss"
  shows "cd_consumed_block (spend_row at ss r) \<noteq> None"
proof -
  from assms have "find (\<lambda>s. spend_matches s r) (rev ss) \<noteq> None"
    by (auto simp: find_None_iff spend_matches_key)
  then show ?thesis by (auto simp: spend_row_last spend_cell_def split: option.split)
qed

lemma spent_row:
  assumes "k \<in> known_cells b d" "k \<in> spend_key ` set (ib_spends b)"
  shows "\<exists>r \<in> set (d_cells (batch_effect b at d)). cell_key r = k \<and> cd_consumed_block r \<noteq> None"
proof -
  from assms obtain r where r: "r \<in> set (d_cells (fold (\<lambda>c. insert_cell c at) (ib_cells b) d))" "cell_key r = k"
    unfolding known_cells_def inserted_keys [of at "ib_cells b" d, symmetric] by auto
  then have "spend_row at (ib_spends b) r \<in> set (d_cells (batch_effect b at d))"
    by (simp add: batch_effect_sel fold_insert_cells)
  with r(2) assms(2) show ?thesis
    by (intro bexI [of _ "spend_row at (ib_spends b) r"]) (simp_all add: spend_row_consumed_some)
qed

lemma transition_there:
  assumes "h \<in> nt_tx_hash ` set (ib_transitions b)"
  shows "h \<in> tr_tx_hash ` set (d_transitions (batch_effect b at d))"
proof -
  have "transition_key (fresh_transition at t) = nt_tx_hash t" for t
    by (simp add: transition_key_def fresh_transition_def)
  then show ?thesis
    using assms transitions_table.fold_upsert_keys [of "map (fresh_transition at) (ib_transitions b)" "d_transitions d"]
    by (auto simp: batch_effect_sel transition_key_def)
qed

text \<open>A mirroring row with the key of an output mirrors that output.\<close>

lemma mirrors_keyed:
  assumes "mirrors x cfg ans c" "body_of ans h = Some tx" "i < length (rt_outputs tx)" "length (rt_outputs tx) \<le> 2 ^ 32"
    and "nc_tx_hash c = h256_to_vec h" "nc_index c = as_i32 (of_nat i)"
  shows "mirrors_output x cfg h tx i c"
proof -
  from assms(1) obtain h' tx' i' where m: "body_of ans h' = Some tx'" "mirrors_output x cfg h' tx' i' c"
    unfolding mirrors_def by blast
  then obtain binding where t: "new_cell.truncate c = (build_new_cell x (c_assets cfg) h' (read_output tx' i' binding) no_block)
          \<lparr> nc_block_number := nc_block_number c, nc_block_hash := nc_block_hash c,
            nc_created_tx_index := nc_created_tx_index c \<rparr>" and i': "i' < length (rt_outputs tx')"
    unfolding mirrors_output_def by blast
  have "nc_tx_hash c = nc_tx_hash (new_cell.truncate c)" "nc_index c = nc_index (new_cell.truncate c)"
    by (cases c, simp add: new_cell.defs)+
  then have "nc_tx_hash c = h256_to_vec h'" "nc_index c = as_i32 (of_nat i')"
    unfolding t by (simp_all add: read_output_def)
  with assms have h: "h' = h" and w: "(of_nat i' :: u32) = of_nat i" by simp_all
  with m assms have tx: "tx' = tx" by simp
  have "n < 2 ^ 32 \<Longrightarrow> unat (of_nat n :: u32) = n" for n by (simp add: unat_of_nat)
  with assms(3,4) i' tx w have "i' = i" by (metis order_less_le_trans)
  with m(2) h tx show ?thesis by simp
qed

lemma commits_reads:
  assumes "commits fuel e x ck cfg state tip target d b d'" "stable_node ck ans"
    and "\<And>d. reads d (collect_range fuel x ck cfg (scan_from cfg (st_last_block_number state))
          (scan_to cfg target (scan_from cfg (st_last_block_number state)))) Q"
  shows "batch_mirrors x cfg ans b \<and> (\<exists>records. Q records \<and> (\<forall>r \<in> set records. record_done cfg ans d r b)) \<and>
    (\<exists>at. d_cells d' = d_cells (batch_effect b at d) \<and> d_transitions d' = d_transitions (batch_effect b at d))"
proof -
  from assms(1) obtain at n k w1 w2 where w1: "w_db w1 = d"
    and r: "scan_range fuel e x ck cfg tip target (scan_from cfg (st_last_block_number state))
          (scan_to cfg target (scan_from cfg (st_last_block_number state))) w1 = (Inr (b, n, k), w2)"
    and d': "d' = batch_effect b at d \<or> d' = snd (prune_blocks_below (retained_from cfg (scan_to cfg target (scan_from cfg (st_last_block_number state)))) (batch_effect b at d))"
    unfolding commits_def Let_def by (elim exE conjE)
  from readsD [OF scan_range_reads [OF assms(2,3)] r w1] d' show ?thesis by auto
qed

lemma facts_cells: "ckb_facts cfg a = ckb_facts cfg b \<Longrightarrow> d_cells a = d_cells b \<and> d_transitions a = d_transitions b"
  by (simp add: ckb_facts_def)

text \<open>The heights of a round as numbers.\<close>

lemma round_heights:
  fixes cp :: int
  assumes target: "safe_ckb_target cfg tip = Some target" and cp: "0 \<le> cp" "cp < as_i64 target"
    and small: "unat tip < 2 ^ 63" "unat (ckb_batch_blocks (c_ckb cfg)) < 2 ^ 63" "ckb_batch_blocks (c_ckb cfg) \<noteq> 0"
  defines "from' \<equiv> scan_from cfg cp"
  shows "int (unat from') = max (cp + 1) (int (unat (ckb_start_block (c_ckb cfg))))" (is ?F)
    and "unat (scan_to cfg target from') =
       min (unat tip - unat (ckb_reorg_lag (c_ckb cfg))) (unat from' + unat (ckb_batch_blocks (c_ckb cfg)) - 1)" (is ?T)
    and "unat from' \<le> unat (scan_to cfg target from')"
proof -
  let ?start = "ckb_start_block (c_ckb cfg)" and ?lag = "ckb_reorg_lag (c_ckb cfg)" and ?n = "ckb_batch_blocks (c_ckb cfg)"
  from target have t: "?lag \<le> tip" "target = tip - ?lag" "?start \<le> target"
    by (auto simp: safe_ckb_target_Some)
  have ut: "unat target = unat tip - unat ?lag" using t by (simp add: unat_sub)
  then have ts: "unat target < 2 ^ 63" using small(1) by linarith
  have ss: "unat ?start \<le> unat target" using t(3) by (simp add: word_le_nat_alt)
  have ti: "as_i64 target = int (unat target)" by (rule as_i64_small [OF ts])
  have si: "as_i64 ?start = int (unat ?start)" by (rule as_i64_small) (use ss ts in linarith)
  define m where "m = max (cp + 1) (int (unat ?start))"
  have ss': "int (unat ?start) \<le> int (unat target)" using ss by (simp only: of_nat_le_iff)
  have m0: "0 \<le> m" unfolding m_def using cp(1) by (simp add: max_def)
  have "cp + 1 \<le> int (unat target)" using cp(2) ti by linarith
  then have m1: "m \<le> int (unat target)" unfolding m_def using ss' by (rule max.boundedI)
  note m = m0 m1
  have "from' = word_of_int m" by (simp add: from'_def scan_from_def as_u64_def si m_def)
  then have "uint from' = m mod 2 ^ 64" by (simp add: unsigned_of_int take_bit_eq_mod)
  also have "\<dots> = m"
  proof (rule mod_pos_pos_trivial [OF m0])
    have "int (unat target) < 2 ^ 63" using ts by (metis of_nat_less_iff of_nat_numeral of_nat_power)
    with m1 have "m < 2 ^ 63" by (rule le_less_trans)
    also have "(2 ^ 63 :: int) < 2 ^ 64" by simp
    finally show "m < 2 ^ 64" .
  qed
  finally have um: "int (unat from') = m" by simp
  then show ?F by (simp add: m_def)
  have fs: "unat from' \<le> unat target" using um m by linarith
  have n1: "0 < unat ?n" using small(3) by (simp add: unat_gt_0)
  have sum: "unat (from' + ?n) = unat from' + unat ?n"
    using fs ts small(2) by (intro unat_add_lem [THEN iffD1]) simp
  have "1 \<le> from' + ?n" using sum n1 by (simp add: word_le_nat_alt)
  then have "unat (from' + ?n - 1) = unat from' + unat ?n - 1" by (simp add: unat_sub sum)
  then show T: ?T unfolding scan_to_def by (simp add: min_def word_le_nat_alt ut)
  show "unat from' \<le> unat (scan_to cfg target from')" unfolding T using fs n1 ut by simp
qed

lemma record_done_indexed:
  assumes "record_done cfg ans d r b" and md: "cells_mirror x cfg ans d" and b: "batch_mirrors x cfg ans b"
    and at: "d_cells (w_db w') = d_cells (batch_effect b at d)" "d_transitions (w_db w') = d_transitions (batch_effect b at d)"
  shows "\<exists>tx. body_of ans (txr_hash r) = Some tx \<and>
    (\<forall>i binding. i < length (rt_outputs tx) \<and> length (rt_outputs tx) \<le> 2 ^ 32 \<and>
        readable_output (c_protocol cfg) (read_output tx i binding) \<longrightarrow>
        (\<exists>c \<in> set (d_cells (w_db w')). mirrors_output x cfg (txr_hash r) tx i c) \<and>
        h256_to_vec (txr_hash r) \<in> tr_tx_hash ` set (d_transitions (w_db w'))) \<and>
    (\<forall>m \<in> set (txr_cells r). mc_io_type m = Input \<and> readable_at cfg ans (input_point tx m) \<longrightarrow>
        (\<exists>c \<in> set (d_cells (w_db w')). cell_key c = point_key (input_point tx m) \<and> cd_consumed_block c \<noteq> None) \<and>
        h256_to_vec (txr_hash r) \<in> tr_tx_hash ` set (d_transitions (w_db w')))"
proof -
  from assms(1) obtain tx where tx: "body_of ans (txr_hash r) = Some tx"
    and outs: "\<And>i binding. i < length (rt_outputs tx) \<Longrightarrow> readable_output (c_protocol cfg) (read_output tx i binding) \<Longrightarrow>
        (h256_to_vec (txr_hash r), as_i32 (of_nat i)) \<in> (\<lambda>c. (nc_tx_hash c, nc_index c)) ` set (ib_cells b) \<and>
        h256_to_vec (txr_hash r) \<in> nt_tx_hash ` set (ib_transitions b)"
    and ins: "\<And>m. m \<in> set (txr_cells r) \<Longrightarrow> mc_io_type m = Input \<Longrightarrow> readable_at cfg ans (input_point tx m) \<Longrightarrow>
        point_key (input_point tx m) \<in> spend_key ` set (ib_spends b) \<and>
        point_key (input_point tx m) \<in> known_cells b d \<and>
        h256_to_vec (txr_hash r) \<in> nt_tx_hash ` set (ib_transitions b)"
    unfolding record_done_def by blast
  from mirror_batch [OF md, of b at] b at have mirror: "cells_mirror x cfg ans (w_db w')"
    by (simp add: cells_mirror_def batch_mirrors_def)
  have row: "\<exists>c \<in> set (d_cells (w_db w')). mirrors_output x cfg (txr_hash r) tx i c"
    if i: "i < length (rt_outputs tx)" "length (rt_outputs tx) \<le> 2 ^ 32"
      "readable_output (c_protocol cfg) (read_output tx i binding)" for i binding
  proof -
    have "(h256_to_vec (txr_hash r), as_i32 (of_nat i)) \<in> known_cells b d"
      using outs [OF i(1,3)] by (simp add: known_cells_def)
    from known_row [OF this, of at] obtain c where c: "c \<in> set (d_cells (w_db w'))"
      "nc_tx_hash c = h256_to_vec (txr_hash r)" "nc_index c = as_i32 (of_nat i)"
      unfolding at(1) cell_key_def by blast
    with mirror have "mirrors x cfg ans c" by (simp add: cells_mirror_def)
    from mirrors_keyed [OF this tx i(1,2) c(2,3)] c(1) show ?thesis by blast
  qed
  have spent: "\<exists>c \<in> set (d_cells (w_db w')). cell_key c = point_key (input_point tx m) \<and> cd_consumed_block c \<noteq> None"
    if "m \<in> set (txr_cells r)" "mc_io_type m = Input" "readable_at cfg ans (input_point tx m)" for m
    unfolding at(1) by (rule spent_row) (use ins [OF that] in simp_all)
  have tr: "h256_to_vec (txr_hash r) \<in> nt_tx_hash ` set (ib_transitions b) \<Longrightarrow>
      h256_to_vec (txr_hash r) \<in> tr_tx_hash ` set (d_transitions (w_db w'))"
    unfolding at(2) by (rule transition_there)
  show ?thesis
  proof (intro exI [of _ tx] conjI tx)
    show "\<forall>i binding. i < length (rt_outputs tx) \<and> length (rt_outputs tx) \<le> 2 ^ 32 \<and>
        readable_output (c_protocol cfg) (read_output tx i binding) \<longrightarrow>
        (\<exists>c \<in> set (d_cells (w_db w')). mirrors_output x cfg (txr_hash r) tx i c) \<and>
        h256_to_vec (txr_hash r) \<in> tr_tx_hash ` set (d_transitions (w_db w'))"
    proof (intro allI impI; elim conjE)
      fix i binding
      assume i: "i < length (rt_outputs tx)" "length (rt_outputs tx) \<le> 2 ^ 32"
        and ro: "readable_output (c_protocol cfg) (read_output tx i binding)"
      show "(\<exists>c \<in> set (d_cells (w_db w')). mirrors_output x cfg (txr_hash r) tx i c) \<and>
          h256_to_vec (txr_hash r) \<in> tr_tx_hash ` set (d_transitions (w_db w'))"
        by (intro conjI row [OF i ro] tr) (rule outs [OF i(1) ro, THEN conjunct2])
    qed
    show "\<forall>m \<in> set (txr_cells r). mc_io_type m = Input \<and> readable_at cfg ans (input_point tx m) \<longrightarrow>
        (\<exists>c \<in> set (d_cells (w_db w')). cell_key c = point_key (input_point tx m) \<and> cd_consumed_block c \<noteq> None) \<and>
        h256_to_vec (txr_hash r) \<in> tr_tx_hash ` set (d_transitions (w_db w'))"
    proof (intro ballI impI; elim conjE)
      fix m assume m: "m \<in> set (txr_cells r)" "mc_io_type m = Input" "readable_at cfg ans (input_point tx m)"
      show "(\<exists>c \<in> set (d_cells (w_db w')). cell_key c = point_key (input_point tx m) \<and> cd_consumed_block c \<noteq> None) \<and>
          h256_to_vec (txr_hash r) \<in> tr_tx_hash ` set (d_transitions (w_db w'))"
        by (intro conjI spent [OF m] tr) (rule ins [OF m, THEN conjunct2, THEN conjunct2])
    qed
  qed
qed

text \<open>
  Soundness of a round: against a node that answers each transaction request alike, every
  row that a round leaves mirrors an output of the chain if the rows before it did.
\<close>

lemma scan_once_mirrors:
  assumes "stable_node ck ans" "cells_mirror x cfg ans (w_db w)"
    and "scan_once fuel e x ck cfg w = (r, w')"
  shows "cells_mirror x cfg ans (w_db w')"
  using scan_once_run [OF assms(3)]
proof (elim disjE exE conjE, goal_cases)
  case 1
  then show ?case using assms(2) facts_cells [of cfg "w_db w'" "w_db w"] by (simp add: cells_mirror_def)
next
  case (2 state tip target d b w1 w2 w3 w4)
  from commits_reads [OF 2(7) assms(1) collect_range_any_reads]
  obtain at where b: "batch_mirrors x cfg ans b" "d_cells (w_db w') = d_cells (batch_effect b at d)" by blast
  have "cells_mirror x cfg ans d"
    using assms(2) facts_cells [OF 2(5)] by (simp add: cells_mirror_def)
  from mirror_batch [OF this, of b at] b show ?case by (simp add: cells_mirror_def batch_mirrors_def)
qed

lemma range_indexed:
  assumes stable: "stable_node ck ans" "cells_mirror x cfg ans (w_db w)"
    and run: "scan_once fuel e x ck cfg w = (Inr rd, w')" "\<not> rd_idle rd"
    and pager: "serves_searches x ck cfg (rd_from rd) (rd_to rd) enc all fuel"
    and r: "r \<in> set (all kind)" "in_range (rd_from rd) (rd_to rd) r"
  shows "\<exists>tx. body_of ans (txr_hash r) = Some tx \<and>
    (\<forall>i binding. i < length (rt_outputs tx) \<and> length (rt_outputs tx) \<le> 2 ^ 32 \<and>
        readable_output (c_protocol cfg) (read_output tx i binding) \<longrightarrow>
        (\<exists>c \<in> set (d_cells (w_db w')). mirrors_output x cfg (txr_hash r) tx i c) \<and>
        h256_to_vec (txr_hash r) \<in> tr_tx_hash ` set (d_transitions (w_db w'))) \<and>
    (\<forall>m \<in> set (txr_cells r). mc_io_type m = Input \<and> readable_at cfg ans (input_point tx m) \<longrightarrow>
        (\<exists>c \<in> set (d_cells (w_db w')). cell_key c = point_key (input_point tx m) \<and> cd_consumed_block c \<noteq> None) \<and>
        h256_to_vec (txr_hash r) \<in> tr_tx_hash ` set (d_transitions (w_db w')))"
  using scan_once_run [OF run(1)]
proof (elim disjE exE conjE, goal_cases)
  case 1
  with run(2) show ?case by simp
next
  case (2 state tip target d b w1 w2 w3 w4)
  have rd: "rd_from rd = scan_from cfg (st_last_block_number state)" "rd_to rd = scan_to cfg target (rd_from rd)"
    using 2(9) by auto
  from commits_reads [OF 2(7) stable(1) collect_range_reads [OF pager [unfolded rd(2) rd(1)]]]
  obtain at records where b: "batch_mirrors x cfg ans b" and at: "d_cells (w_db w') = d_cells (batch_effect b at d)"
      "d_transitions (w_db w') = d_transitions (batch_effect b at d)"
    and cov: "\<forall>kind. \<forall>r \<in> set (filter (in_range (rd_from rd) (rd_to rd)) (all kind)). \<exists>r' \<in> set records. covers r' r"
    and don: "\<forall>r \<in> set records. record_done cfg ans d r b"
    unfolding rd(2) rd(1) by blast
  from cov r obtain r' where "r' \<in> set records" "covers r' r" by auto
  then have "record_done cfg ans d r' b" "txr_hash r' = txr_hash r" "set (txr_cells r) \<subseteq> set (txr_cells r')"
    using don by (simp_all add: covers_def record_key_def)
  then have "record_done cfg ans d r b" by (rule record_done_covered)
  have "cells_mirror x cfg ans d" using stable(2) facts_cells [OF 2(5)] by (simp add: cells_mirror_def)
  from record_done_indexed [OF \<open>record_done cfg ans d r b\<close> this b at] show ?case .
qed

section \<open>Properties\<close>

text \<open>
  The blocks of a round: from the one after the checkpoint, or the start block, to the
  settled height, at most \<open>batch_blocks\<close> of them.
\<close>

definition round_span :: "config \<Rightarrow> int \<Rightarrow> u64 \<Rightarrow> u64 \<Rightarrow> u64 \<Rightarrow> bool" where
  "round_span cfg cp tip from to \<longleftrightarrow>
     int (unat from) = max (cp + 1) (int (unat (ckb_start_block (c_ckb cfg)))) \<and> unat from \<le> unat to \<and>
     unat to = min (unat tip - unat (ckb_reorg_lag (c_ckb cfg))) (unat from + unat (ckb_batch_blocks (c_ckb cfg)) - 1)"

text \<open>
  The whole batch of the range is in the tables: cells, spends and transitions, the header
  rows with those below the retention dropped or not yet, and the checkpoint at the last
  block with the hash of a header the node gave for it.
\<close>

definition batch_landed ::
  "nat \<Rightarrow> env \<Rightarrow> ext \<Rightarrow> ckb_node \<Rightarrow> config \<Rightarrow> u64 \<Rightarrow> u64 \<Rightarrow> u64 \<Rightarrow> db \<Rightarrow> db \<Rightarrow> bool" where
  "batch_landed fuel e x ck cfg tip from to d d' \<longleftrightarrow>
     (\<exists>target b n k at h w1 w2. ckb_facts cfg (w_db w1) = ckb_facts cfg d \<and>
        scan_range fuel e x ck cfg tip target from to w1 = (Inr (b, n, k), w2) \<and>
        d_cells d' = d_cells (batch_effect b at d) \<and> d_transitions d' = d_transitions (batch_effect b at d) \<and>
        (d_blocks d' = d_blocks (batch_effect b at d) \<or>
         d_blocks d' = filter (\<lambda>r. retained_from cfg to \<le> bk_number r) (d_blocks (batch_effect b at d))) \<and>
        node_header ck to h \<and> checkpoint_of cfg d' = (int (unat to), Some (h256_to_vec (rh_hash h))))"

lemma commits_landed:
  assumes "commits fuel e x ck cfg state tip target d b d'" "get_stream_state CKB_STREAM d \<noteq> None"
    and "ckb_facts cfg d = ckb_facts cfg d0" "unat (scan_to cfg target (scan_from cfg (st_last_block_number state))) < 2 ^ 63"
  shows "batch_landed fuel e x ck cfg tip (scan_from cfg (st_last_block_number state))
    (scan_to cfg target (scan_from cfg (st_last_block_number state))) d0 d'"
proof -
  let ?from = "scan_from cfg (st_last_block_number state)" and ?to = "scan_to cfg target (scan_from cfg (st_last_block_number state))"
  from assms(1) obtain at n k w1 w2 where w1: "w_db w1 = d"
    and r: "scan_range fuel e x ck cfg tip target ?from ?to w1 = (Inr (b, n, k), w2)"
    and d': "d' = batch_effect b at d \<or> d' = snd (prune_blocks_below (retained_from cfg ?to) (batch_effect b at d))"
    unfolding commits_def Let_def by (elim exE conjE)
  from scan_range_hash_of_node [OF r] obtain h where
    h: "node_header ck ?to h" "ib_checkpoint_hash b = Some (h256_to_vec (rh_hash h))" by blast
  have chk: "checkpoint_of cfg d' = (int (unat ?to), Some (h256_to_vec (rh_hash h)))"
    using d' batch_checkpoint [OF assms(2), of cfg b at] scan_range_checkpoint [OF r] h(2) as_i64_small [OF assms(4)] by auto
  have same: "d_cells (batch_effect b at d) = d_cells (batch_effect b at d0)"
    "d_transitions (batch_effect b at d) = d_transitions (batch_effect b at d0)"
    "d_blocks (batch_effect b at d) = d_blocks (batch_effect b at d0)"
    using assms(3) by (simp_all add: batch_effect_sel ckb_facts_def)
  have "d_blocks (snd (prune_blocks_below (retained_from cfg ?to) (batch_effect b at d))) =
      filter (\<lambda>r. retained_from cfg ?to \<le> bk_number r) (d_blocks (batch_effect b at d))"
    by (simp add: prune_blocks_below_def delete_where_def not_less)
  with d' have "d_cells d' = d_cells (batch_effect b at d0)" "d_transitions d' = d_transitions (batch_effect b at d0)"
    "d_blocks d' = d_blocks (batch_effect b at d0) \<or>
     d_blocks d' = filter (\<lambda>r. retained_from cfg ?to \<le> bk_number r) (d_blocks (batch_effect b at d0))"
    by (auto simp flip: same)
  with assms(3) w1 r h(1) chk show ?thesis unfolding batch_landed_def by blast
qed

text \<open>
  C2.
  A scan round is all or nothing and leaves no gap. A round that succeeds without being idle
  covers the blocks from the one after the checkpoint (or the start block) up to the settled
  height, at most \<open>batch_blocks\<close> of them: the whole batch of that range is in the tables,
  the header rows below the retention are gone, and the checkpoint stands exactly on the
  last of the blocks, with the hash of a header the node gave for it. An idle round leaves
  cells, transitions, header rows and checkpoint alone. So does a round that fails, except
  where only the pruning after the commit failed: then the error is one of the database,
  and the whole batch is in. No failure leaves a part of a batch.
\<close>

theorem scan_round_contiguous:
  assumes "config_ok cfg" "unat (ckb_batch_blocks (c_ckb cfg)) < 2 ^ 63"
    and tips: "\<forall>n t. cn_tip ck n = Inr t \<longrightarrow> unat t < 2 ^ 63"
    and cp: "checkpoint_of cfg (w_db w) = (cp, stored)" "0 \<le> cp"
    and run: "scan_once fuel e x ck cfg w = (r, w')"
  shows "case r of
      Inr rd \<Rightarrow>
        if rd_idle rd then ckb_facts cfg (w_db w') = ckb_facts cfg (w_db w)
        else round_span cfg cp (rd_chain_tip rd) (rd_from rd) (rd_to rd) \<and>
             batch_landed fuel e x ck cfg (rd_chain_tip rd) (rd_from rd) (rd_to rd) (w_db w) (w_db w') \<and>
             retained cfg (rd_to rd) (w_db w')
    | Inl err \<Rightarrow> ckb_facts cfg (w_db w') = ckb_facts cfg (w_db w) \<or>
        (\<exists>e0 tip from to. err = IEStore e0 \<and> round_span cfg cp tip from to \<and>
           batch_landed fuel e x ck cfg tip from to (w_db w) (w_db w'))"
  using scan_once_run [OF run]
proof (elim disjE exE conjE, goal_cases)
  case 1
  then show ?case by (cases r) auto
next
  case (2 state tip target d b w1 w2 w3 w4)
  have st: "st_last_block_number state = cp" using 2(1) cp(1) by simp
  from synced_tip_run [OF 2(2)] have "\<exists>n nt. cn_tip ck n = Inr nt \<and> tip \<le> nt" by blast
  with tips have tip: "unat tip < 2 ^ 63" by (metis word_le_nat_alt le_less_trans)
  have batch: "ckb_batch_blocks (c_ckb cfg) \<noteq> 0" using assms(1) by (simp add: config_ok_def)
  have low: "cp < as_i64 target" using 2(4) st by simp
  note h = round_heights [OF 2(3) cp(2) low tip assms(2) batch]
  have span: "round_span cfg cp tip (scan_from cfg cp) (scan_to cfg target (scan_from cfg cp))"
    using h unfolding round_span_def by blast
  have "unat (scan_to cfg target (scan_from cfg cp)) < 2 ^ 63" using h(2) tip by linarith
  from commits_landed [OF 2(7,6,5), unfolded st, OF this] have
    landed: "batch_landed fuel e x ck cfg tip (scan_from cfg cp) (scan_to cfg target (scan_from cfg cp)) (w_db w) (w_db w')" .
  show ?case
  proof (cases r)
    case (Inl err)
    with 2(10) span landed show ?thesis by auto
  next
    case (Inr rd)
    with 2(9,11) have rd: "\<not> rd_idle rd" "rd_chain_tip rd = tip" "rd_from rd = scan_from cfg cp"
      "rd_to rd = scan_to cfg target (scan_from cfg cp)" "retained cfg (rd_to rd) (w_db w')" using st by auto
    show ?thesis using span landed rd by (simp add: Inr)
  qed
qed

text \<open>
  C1.
  Completeness of the index: after a successful round, for every record of the scanned range
  that either search holds, each readable RGB++ output of the transaction has a row that
  mirrors it, each flagged input that consumed a readable RGB++ output has that output's
  row, marked consumed, and the transaction has its transition row.
\<close>

theorem scanned_range_is_indexed:
  assumes stable: "stable_node ck ans" "cells_mirror x cfg ans (w_db w)"
    and run: "scan_once fuel e x ck cfg w = (Inr rd, w')" "\<not> rd_idle rd"
    and pager: "serves_searches x ck cfg (rd_from rd) (rd_to rd) enc all fuel"
    and r: "r \<in> set (all kind)" "in_range (rd_from rd) (rd_to rd) r"
  shows "\<exists>tx. body_of ans (txr_hash r) = Some tx \<and>
    (\<forall>i binding. i < length (rt_outputs tx) \<and> length (rt_outputs tx) \<le> 2 ^ 32 \<and>
        readable_output (c_protocol cfg) (read_output tx i binding) \<longrightarrow>
        (\<exists>c \<in> set (d_cells (w_db w')). mirrors_output x cfg (txr_hash r) tx i c) \<and>
        h256_to_vec (txr_hash r) \<in> tr_tx_hash ` set (d_transitions (w_db w'))) \<and>
    (\<forall>m \<in> set (txr_cells r). mc_io_type m = Input \<and> readable_at cfg ans (input_point tx m) \<longrightarrow>
        (\<exists>c \<in> set (d_cells (w_db w')). cell_key c = point_key (input_point tx m) \<and> cd_consumed_block c \<noteq> None) \<and>
        h256_to_vec (txr_hash r) \<in> tr_tx_hash ` set (d_transitions (w_db w')))"
  by (rule range_indexed [OF assms])

section \<open>A start at block zero\<close>

text \<open>
  The checkpoint of a fresh stream says that its block is done; the subtraction saturates, so
  with a start at block 0 the first block that is scanned is block 1.
\<close>

lemma first_block_skipped:
  assumes "ckb_start_block (c_ckb cfg) = 0" "get_stream_state CKB_STREAM d = None"
  shows "\<exists>st. get_stream_state CKB_STREAM (insert_stream CKB_STREAM (ckb_start_block (c_ckb cfg)) now d) = Some st \<and>
    scan_from cfg (st_last_block_number st) = 1"
  using assms
  by (simp add: get_stream_state_def insert_stream_def streams_table.lookup_upsert saturating_sub_def scan_from_def as_i64_def as_u64_def)

end
