(* ===== verification/Address_Backfill.thy ===== *)
theory Address_Backfill
  imports Store_Btc_Props Scanner_Props
begin

text \<open>
  \<open>crates/indexer/src/address_backfill.rs\<close>: which Bitcoin address owns each binding, from
  the transaction that funded it; and the caching of a fetched Bitcoin transaction, which
  the reconciler shares.
\<close>

definition of_btc :: "(btc_error, 'a) io \<Rightarrow> 'a scan_io" where "of_btc m = io_map_err IEBtc m"

section \<open>One fetched transaction\<close>

text \<open>The outputs that name an address, with their positions.\<close>

definition addressed_outputs :: "btc_tx_info \<Rightarrow> (int \<times> string) list" where
  "addressed_outputs tx =
     List.map_filter (\<lambda>(vout, out). map_option (\<lambda>a. (as_i32 (of_nat vout), a)) (bx_address out))
       (enumerate 0 (ti_outputs tx))"

definition record_addresses :: "env \<Rightarrow> btc_txid \<Rightarrow> btc_tx_info \<Rightarrow> (store_error, nat) io" where
  "record_addresses e txid tx =
     (if addressed_outputs tx = [] then io_ret 0
      else record_binding_addresses e (to_display_vec txid) (addressed_outputs tx))"

text \<open>\<open>chrono::DateTime::from_timestamp\<close>, in microseconds.\<close>

definition block_time :: "ext \<Rightarrow> int \<Rightarrow> int option" where
  "block_time x secs = (if ex_millis_ok x (secs * 1000) then Some (secs * 1000000) else None)"

definition cache_btc_tx :: "env \<Rightarrow> ext \<Rightarrow> string \<Rightarrow> btc_txid \<Rightarrow> btc_tx_info \<Rightarrow> (store_error, unit) io" where
  "cache_btc_tx e x source txid tx = execute e (upsert_btc_tx (to_display_vec txid)
     (map_option (\<lambda>c. as_i32 (bf_height c)) (ti_confirmation tx))
     (map_option (\<lambda>c. bbh_to_vec (bf_hash c)) (ti_confirmation tx))
     (Option.bind (ti_confirmation tx) (\<lambda>c. block_time x (bf_time c)))
     (map_option list32 (tx_commitment tx))
     (as_i32 (of_nat (length (ti_inputs tx)))) (as_i32 (of_nat (length (ti_outputs tx))))
     (map_option as_i64 (ti_fee tx)) source)"

section \<open>The worker\<close>

record backfill_report =
  bp_transactions :: nat
  bp_labelled :: nat
  bp_unresolved :: nat

definition resolve_funding :: "env \<Rightarrow> ext \<Rightarrow> btc_data_source \<Rightarrow> btc_txid \<Rightarrow> nat scan_io" where
  "resolve_funding e x src txid =
     io_bind (of_btc (io_call (\<lambda>n. bs_transaction src n txid)))
     (\<lambda>r. case r of
        None \<Rightarrow> io_ret 0
      | Some tx \<Rightarrow>
          io_bind (of_store (cache_btc_tx e x (bs_name src) txid tx))
          (\<lambda>_. of_store (record_addresses e txid tx)))"

definition backfill_txid ::
  "env \<Rightarrow> ext \<Rightarrow> btc_data_source \<Rightarrow> byte list \<Rightarrow> backfill_report \<Rightarrow> backfill_report scan_io" where
  "backfill_txid e x src raw report =
     io_bind (io_of (map_err IETypes (from_display_slice raw)))
     (\<lambda>txid. io_bind (io_attempt (resolve_funding e x src txid))
     (\<lambda>r. io_ret (case r of
        Inr labelled \<Rightarrow> report\<lparr> bp_labelled := bp_labelled report + labelled \<rparr>
      | Inl err \<Rightarrow> report\<lparr> bp_unresolved := bp_unresolved report + 1 \<rparr>)))"

definition last_opt :: "'a list \<Rightarrow> 'a option" where
  "last_opt xs = (if xs = [] then None else Some (last xs))"

definition backfill_once ::
  "env \<Rightarrow> ext \<Rightarrow> btc_data_source \<Rightarrow> config \<Rightarrow> byte list option \<Rightarrow>
   (backfill_report \<times> byte list option) scan_io" where
  "backfill_once e x src cfg after =
     io_bind (of_store (query e (\<lambda>now.
       funding_txids_missing_address after (rc_address_backfill_batch (c_reconcile cfg)))))
     (\<lambda>txids. io_bind (io_for txids \<lparr> bp_transactions = length txids, bp_labelled = 0, bp_unresolved = 0 \<rparr>
       (backfill_txid e x src))
     (\<lambda>report. io_ret (report, last_opt txids)))"

text \<open>One pass of \<open>run\<close>'s loop: the cursor of the next pass.\<close>

definition backfill_pass ::
  "env \<Rightarrow> ext \<Rightarrow> btc_data_source \<Rightarrow> config \<Rightarrow> byte list option \<Rightarrow> byte list option scan_io" where
  "backfill_pass e x src cfg cursor =
     io_bind (io_attempt (backfill_once e x src cfg cursor))
     (\<lambda>r. case r of
        Inl err \<Rightarrow> io_ret cursor
      | Inr (report, next') \<Rightarrow>
          io_ret (if bp_transactions report < unat (as_u64 (rc_address_backfill_batch (c_reconcile cfg)))
                  then None else next'))"

end
