(* ===== verification/Reconcile.thy ===== *)
theory Reconcile
  imports Address_Backfill
begin

text \<open>
  \<open>crates/indexer/src/reconcile.rs\<close>: refreshing observations on demand, the address diff,
  the resolution of a transition across both chains and the drain of the refresh queue. The
  iteration order of a \<open>HashSet\<close> is that of first insertion here.
\<close>

definition DEFAULT_POINT_LOOKUP_VOUTS :: nat where "DEFAULT_POINT_LOOKUP_VOUTS = 4"
definition MAX_POINT_LOOKUP_VOUTS :: u32 where "MAX_POINT_LOOKUP_VOUTS = 32"

record outpoint_refresh =
  orf_outpoint :: btc_out_point
  orf_status :: spend_status
  orf_changed :: bool

record address_reconcile =
  arc_address :: string
  arc_source_utxo_count :: nat
  arc_disappeared :: "btc_out_point list"
  arc_contradicted :: "btc_out_point list"
  arc_refreshed :: "outpoint_refresh list"

datatype transition_resolution =
    UnknownBtc
  | AwaitingCkb bool "u32 option"
  | CkbSeenAboveLag "ckb_out_point list" int
  | Indexed string int

definition row_key :: "btc_out_point \<Rightarrow> byte list \<times> int" where
  "row_key p = (to_display_vec (bo_txid p), as_i32 (bo_vout p))"

section \<open>Refreshing\<close>

text \<open>Fetch and cache a Bitcoin transaction; a failure to label its outputs is only logged.\<close>

definition refresh_btc_tx ::
  "env \<Rightarrow> ext \<Rightarrow> btc_data_source \<Rightarrow> btc_txid \<Rightarrow> btc_tx_info option scan_io" where
  "refresh_btc_tx e x src txid =
     io_bind (of_btc (io_call (\<lambda>n. bs_transaction src n txid)))
     (\<lambda>r. case r of
        None \<Rightarrow> io_ret None
      | Some tx \<Rightarrow>
          io_bind (io_attempt (record_addresses e txid tx))
          (\<lambda>labelled. io_bind (of_store (cache_btc_tx e x (bs_name src) txid tx))
          (\<lambda>_. io_ret (Some tx))))"

definition record_observation ::
  "env \<Rightarrow> btc_data_source \<Rightarrow> btc_out_point \<Rightarrow> spend_status \<Rightarrow> string option \<Rightarrow> bool scan_io" where
  "record_observation e src p status address =
     of_store (sql e (upsert_observation (to_display_vec (bo_txid p)) (as_i32 (bo_vout p)) status address (bs_name src)))"

definition follow_up_spend ::
  "env \<Rightarrow> ext \<Rightarrow> btc_data_source \<Rightarrow> spend_status \<Rightarrow> unit scan_io" where
  "follow_up_spend e x src status =
     (case status_spender status of
        None \<Rightarrow> io_ret ()
      | Some spender \<Rightarrow> io_bind (refresh_btc_tx e x src spender) (\<lambda>_. io_ret ()))"

text \<open>One answer of the data source.\<close>

definition refresh_one ::
  "env \<Rightarrow> ext \<Rightarrow> btc_data_source \<Rightarrow> btc_out_point \<times> (btc_error + spend_status) \<Rightarrow>
   outpoint_refresh list \<Rightarrow> outpoint_refresh list scan_io" where
  "refresh_one e x src a out =
     (let p = fst a; txid = to_display_vec (bo_txid p); vout = as_i32 (bo_vout p) in
      case snd a of
        Inr status \<Rightarrow>
          io_bind (record_observation e src p status None)
          (\<lambda>changed. io_bind (if changed \<and> is_spent status then follow_up_spend e x src status else io_ret ())
          (\<lambda>_. io_bind (if \<not> is_spent status
                        then io_bind (of_store (sql e (resolve_anomalies_for_outpoint txid vout))) (\<lambda>_. io_ret ())
                        else io_ret ())
          (\<lambda>_. io_ret (out @ [\<lparr> orf_outpoint = p, orf_status = status, orf_changed = changed \<rparr>]))))
      | Inl err \<Rightarrow>
          io_bind (of_store (execute e (enqueue_refresh txid vout ''refresh-failed'' ON_DEMAND)))
          (\<lambda>_. io_ret out))"

definition refresh_outpoints ::
  "env \<Rightarrow> ext \<Rightarrow> btc_data_source \<Rightarrow> config \<Rightarrow> btc_out_point list \<Rightarrow> outpoint_refresh list scan_io" where
  "refresh_outpoints e x src cfg outpoints =
     (if outpoints = [] then io_ret []
      else let n = min (length outpoints) (unat (rc_max_outpoints_per_request (c_reconcile cfg)));
               capped = take n outpoints in
        io_bind (if length capped < length outpoints
                 then io_bind (of_store (enqueue_refresh_many e (map row_key (drop n outpoints)) ''request-overflow'' ON_DEMAND))
                        (\<lambda>_. io_ret ())
                 else io_ret ())
        (\<lambda>_. io_bind (observe_many src capped)
        (\<lambda>observations. io_for observations [] (refresh_one e x src))))"

section \<open>The address diff\<close>

text \<open>What the rows of the address say and the source's list does not.\<close>

definition find_disappeared ::
  "btc_out_point list \<Rightarrow> (byte list \<times> int) list \<Rightarrow> indexer_error + btc_out_point list" where
  "find_disappeared live_now believed =
     (case collect (\<lambda>(txid, vout). case from_display_slice txid of Inl err \<Rightarrow> Inl (IETypes err)
                      | Inr t \<Rightarrow> Inr \<lparr> bo_txid = t, bo_vout = as_u32 vout \<rparr>) believed of
        Inl err \<Rightarrow> Inl err
      | Inr ps \<Rightarrow> Inr (filter (\<lambda>p. p \<notin> set live_now) ps))"

definition contradiction :: "observation_row \<Rightarrow> store_error + btc_out_point list" where
  "contradiction row =
     (case observation_spend_status row of Inl err \<Rightarrow> Inl err
      | Inr s \<Rightarrow> if is_spent s \<and> ob_invalidated_at row = None
                 then (case observation_out_point row of Inl err \<Rightarrow> Inl err | Inr p \<Rightarrow> Inr [p])
                 else Inr [])"

definition find_contradicted :: "observation_row list \<Rightarrow> indexer_error + btc_out_point list" where
  "find_contradicted rows =
     (case collect contradiction rows of Inl err \<Rightarrow> Inl (IEStore err) | Inr pss \<Rightarrow> Inr (concat pss))"

text \<open>\<open>sort\<close> and \<open>dedup\<close>.\<close>

definition sort_dedup :: "btc_out_point list \<Rightarrow> btc_out_point list" where
  "sort_dedup ps = remdups_adj (sort_key (\<lambda>p. (bo_txid p, bo_vout p)) ps)"

definition reconcile_address ::
  "env \<Rightarrow> ext \<Rightarrow> btc_data_source \<Rightarrow> config \<Rightarrow> string \<Rightarrow> address_reconcile scan_io" where
  "reconcile_address e x src cfg address =
     io_bind (of_btc (io_call (\<lambda>n. bs_address_utxos src n address)))
     (\<lambda>utxos. let live_now = remdups (map bu_outpoint utxos) in
     io_bind (of_store (record_outpoint_addresses e (map row_key live_now) address))
     (\<lambda>_. io_bind (of_store (query e (\<lambda>now. live_bound_outpoints_for_address address)))
     (\<lambda>believed_live. io_bind (io_of (find_disappeared live_now believed_live))
     (\<lambda>disappeared. io_bind (of_store (query e (\<lambda>now. get_observations (map row_key live_now))))
     (\<lambda>rows. io_bind (io_of (find_contradicted rows))
     (\<lambda>contradicted. io_bind (refresh_outpoints e x src cfg (sort_dedup (disappeared @ contradicted)))
     (\<lambda>refreshed. io_ret \<lparr> arc_address = address, arc_source_utxo_count = length live_now,
        arc_disappeared = disappeared, arc_contradicted = contradicted, arc_refreshed = refreshed \<rparr>)))))))"

section \<open>Where a transition is\<close>

definition point_lookup_cells ::
  "ckb_node \<Rightarrow> config \<Rightarrow> btc_txid \<Rightarrow> u32 \<Rightarrow> ckb_out_point list scan_io" where
  "point_lookup_cells ck cfg txid vout_count =
     (let count = (if vout_count = 0 then DEFAULT_POINT_LOOKUP_VOUTS else unat vout_count);
          lock = ps_rgbpp_lock (c_protocol cfg) in
      io_for [0 ..< count] [] (\<lambda>vout found.
        io_bind (of_ckb (get_cells ck (lock_exact \<lparr> s_code_hash = id_code_hash lock, s_hash_type = id_hash_type lock,
          s_args = rgbpp_encode \<lparr> ra_out_index = of_nat vout, ra_txid = txid \<rparr> \<rparr>) 16))
        (\<lambda>records. io_ret (found @ map ce_out_point records))))"

definition resolve_transition ::
  "env \<Rightarrow> ext \<Rightarrow> ckb_node \<Rightarrow> btc_data_source \<Rightarrow> config \<Rightarrow> btc_txid \<Rightarrow> transition_resolution scan_io" where
  "resolve_transition e x ck src cfg txid =
     io_bind (of_store (query e (\<lambda>now. transitions_by_btc_txid (to_display_vec txid))))
     (\<lambda>transitions. case transitions of
        t # _ \<Rightarrow> io_ret (Indexed (''0x'' @ ex_hex_encode x (tr_tx_hash t)) (tr_block_number t))
      | [] \<Rightarrow>
          io_bind (refresh_btc_tx e x src txid)
          (\<lambda>btc_tx. case btc_tx of
             None \<Rightarrow> io_ret UnknownBtc
           | Some tx \<Rightarrow>
               io_bind (if ti_inputs tx \<noteq> [] then io_bind (refresh_outpoints e x src cfg (ti_inputs tx)) (\<lambda>_. io_ret ())
                        else io_ret ())
               (\<lambda>_. io_bind (point_lookup_cells ck cfg txid (min (of_nat (length (ti_outputs tx))) MAX_POINT_LOOKUP_VOUTS))
               (\<lambda>cells. if cells \<noteq> [] then
                    io_bind (of_store (query e (\<lambda>now. get_stream_state CKB_STREAM)))
                    (\<lambda>state. io_ret (CkbSeenAboveLag cells (unwrap_or 0 (map_option st_last_block_number state))))
                  else io_ret (AwaitingCkb (ti_confirmation tx \<noteq> None) (map_option bf_height (ti_confirmation tx)))))))"

section \<open>Draining the queue\<close>

definition fresh_points :: "int \<Rightarrow> int \<Rightarrow> observation_row list \<Rightarrow> store_error + btc_out_point list" where
  "fresh_points ttl now rows =
     (case collect observation_out_point (filter (\<lambda>r. is_fresh r ttl now) rows) of
        Inl err \<Rightarrow> Inl err | Inr ps \<Rightarrow> Inr (remdups ps))"

text \<open>Settle one entry after the refresh.\<close>

definition settle ::
  "env \<Rightarrow> btc_out_point list \<Rightarrow> btc_out_point \<Rightarrow> unit \<Rightarrow> unit scan_io" where
  "settle e succeeded p u =
     (if p \<in> set succeeded
      then of_store (execute e (\<lambda>now. complete_refresh (to_display_vec (bo_txid p)) (as_i32 (bo_vout p))))
      else of_store (execute e (\<lambda>now. fail_refresh (to_display_vec (bo_txid p)) (as_i32 (bo_vout p))
             ''data source did not answer'')))"

definition drain_queue_once ::
  "env \<Rightarrow> ext \<Rightarrow> btc_data_source \<Rightarrow> config \<Rightarrow> nat scan_io" where
  "drain_queue_once e x src cfg =
     io_bind (of_store (sql e (\<lambda>now. drop_exhausted_refreshes (rc_max_attempts (c_reconcile cfg)))))
     (\<lambda>dropped. io_bind (of_store (sql e (claim_refresh_batch (rc_queue_batch_size (c_reconcile cfg)))))
     (\<lambda>batch. if batch = [] then io_ret 0 else
       io_bind (of_store (io_of (collect queue_item_out_point batch)))
       (\<lambda>claimed. io_bind (io_clock e)
       (\<lambda>now. io_bind (of_store (query e (\<lambda>_. get_observations (map row_key claimed))))
       (\<lambda>rows. io_bind (of_store (io_of (fresh_points (as_i64 (btc_observation_ttl_secs (c_btc cfg))) now rows)))
       (\<lambda>already_fresh. let outpoints = filter (\<lambda>p. p \<notin> set already_fresh) claimed in
       io_bind (io_for already_fresh () (\<lambda>p u. of_store (execute e (\<lambda>now.
           complete_refresh (to_display_vec (bo_txid p)) (as_i32 (bo_vout p))))))
       (\<lambda>_. if outpoints = [] then io_ret 0 else
         io_bind (refresh_outpoints e x src cfg outpoints)
         (\<lambda>refreshed. io_bind (io_for outpoints () (settle e (map orf_outpoint refreshed)))
         (\<lambda>_. io_ret (length refreshed))))))))))"

text \<open>One pass of \<open>run_queue_worker\<close>'s loop; failures are only logged.\<close>

definition queue_pass :: "env \<Rightarrow> ext \<Rightarrow> btc_data_source \<Rightarrow> config \<Rightarrow> unit scan_io" where
  "queue_pass e x src cfg = io_bind (io_attempt (drain_queue_once e x src cfg)) (\<lambda>_. io_ret ())"

end
