(* ===== verification/Store_Stats.thy ===== *)
theory Store_Stats
  imports Store_Btc "HOL-Library.Multiset"
begin

text \<open>
  The derived reads of the store: address activity (\<open>activity.rs\<close>), the aggregates and the
  sweep runs (\<open>stats.rs\<close>). Nothing here is stored except the sweep runs. \<open>TEXT\<close> is ordered
  by its bytes; \<open>NULL\<close> sorts last, as in the server's default.
\<close>

section \<open>Activity\<close>

definition cell_address :: "db \<Rightarrow> cell_db \<Rightarrow> string option" where
  "cell_address d c = Option.bind (binding_observation d c) ob_address"

text \<open>The CTE \<open>owned\<close>: cells whose binding's recorded owner is the address.\<close>

definition owned_cells :: "string \<Rightarrow> db \<Rightarrow> cell_db list" where
  "owned_cells address d = filter (\<lambda>c. cell_address d c = Some address) (d_cells d)"

definition touched_txs :: "string \<Rightarrow> db \<Rightarrow> byte list list" where
  "touched_txs address d =
     remdups (map nc_tx_hash (owned_cells address d) @ List.map_filter cd_consumed_tx (owned_cells address d))"

definition activity_of :: "db \<Rightarrow> transition_row \<Rightarrow> activity_row" where
  "activity_of d t =
     (let b = Option.bind (tr_btc_txid t) (\<lambda>x. lookup_row bt_txid x (d_txs d)) in
      \<lparr> ac_tx_hash = tr_tx_hash t, ac_block_number = tr_block_number t, ac_tx_index = tr_tx_index t,
        ac_timestamp = tr_timestamp t, ac_kind = tr_kind t, ac_btc_txid = tr_btc_txid t,
        ac_btc_height = Option.bind b bt_block_height, ac_btc_block_hash = Option.bind b bt_block_hash,
        ac_btc_time = Option.bind b bt_block_time, ac_btc_fee = Option.bind b bt_fee \<rparr>)"

definition activity_position :: "activity_row \<Rightarrow> int \<times> int" where
  "activity_position r = (ac_block_number r, ac_tx_index r)"

definition newest_first :: "activity_row \<Rightarrow> int \<times> int" where
  "newest_first r = (- ac_block_number r, - ac_tx_index r)"

definition all_activity :: "string \<Rightarrow> db \<Rightarrow> activity_row list" where
  "all_activity address d =
     map (activity_of d) (filter (\<lambda>t. tr_tx_hash t \<in> set (touched_txs address d)) (d_transitions d))"

text \<open>An unreadable cursor is no cursor.\<close>

definition address_activity :: "string \<Rightarrow> string option \<Rightarrow> int \<Rightarrow> db \<Rightarrow> activity_row list" where
  "address_activity address cursor limit d =
     (let position = Option.bind cursor parse_activity_cursor in
      limit_rows limit (sort_key newest_first
        (filter (\<lambda>r. case position of None \<Rightarrow> True | Some p \<Rightarrow> activity_position r < p)
          (all_activity address d))))"

definition activity_cell :: "string \<Rightarrow> byte list \<Rightarrow> cell_db \<Rightarrow> activity_cell_row" where
  "activity_cell role tx c = \<lparr>
     al_tx_hash = tx, al_role = role, al_cell_tx = nc_tx_hash c, al_index = nc_index c,
     al_btc_txid = nc_btc_txid c, al_btc_vout = nc_btc_vout c,
     al_asset_kind = asset_as_str (nc_asset_kind c), al_type_hash = nc_type_hash c,
     al_udt_amount = nc_udt_amount c, al_capacity = nc_capacity c \<rparr>"

definition address_activity_cells :: "string \<Rightarrow> byte list list \<Rightarrow> db \<Rightarrow> activity_cell_row list" where
  "address_activity_cells address tx_hashes d =
     (if tx_hashes = [] then []
      else sort_key (\<lambda>r. (al_tx_hash r, al_role r, al_index r))
        (map (\<lambda>c. activity_cell ''received'' (nc_tx_hash c) c)
           (filter (\<lambda>c. nc_tx_hash c \<in> set tx_hashes) (owned_cells address d))
         @ List.map_filter (\<lambda>c. case cd_consumed_tx c of None \<Rightarrow> None
             | Some tx \<Rightarrow> if tx \<in> set tx_hashes then Some (activity_cell ''sent'' tx c) else None)
           (owned_cells address d)))"

section \<open>Counts\<close>

record indexer_counts =
  ix_total_cells :: nat
  ix_live_cells :: nat
  ix_pending_ckb_cells :: nat
  ix_transitions :: nat
  ix_observed_outpoints :: nat
  ix_open_anomalies :: nat
  ix_queue_depth :: nat
  ix_udts :: nat
  ix_dobs :: nat

text \<open>\<open>COUNT(DISTINCT x)\<close> skips nulls.\<close>

definition count_distinct :: "('r \<Rightarrow> 'x option) \<Rightarrow> 'r list \<Rightarrow> nat" where
  "count_distinct f rows = length (remdups (List.map_filter f rows))"

definition counts :: "db \<Rightarrow> indexer_counts" where
  "counts d = \<lparr>
     ix_total_cells = length (d_cells d),
     ix_live_cells = affected (\<lambda>c. cd_consumed_block c = None) (d_cells d),
     ix_pending_ckb_cells = affected (\<lambda>r. cr_status r = ''pending_ckb'') (cell_status_view d),
     ix_transitions = length (d_transitions d),
     ix_observed_outpoints = length (d_outpoints d),
     ix_open_anomalies = open_anomaly_count d,
     ix_queue_depth = refresh_queue_depth d,
     ix_udts = count_distinct nc_type_hash (filter (\<lambda>c. nc_asset_kind c \<in> {Xudt, Sudt}) (d_cells d)),
     ix_dobs = count_distinct nc_type_hash (filter (\<lambda>c. nc_asset_kind c = Spore) (d_cells d)) \<rparr>"

section \<open>Assets\<close>

definition cell_live :: "cell_db \<Rightarrow> bool" where "cell_live c \<longleftrightarrow> cd_consumed_block c = None"

definition cell_seal :: "cell_db \<Rightarrow> byte list \<times> int option" where
  "cell_seal c = (nc_btc_txid c, nc_btc_vout c)"

definition amount_or_0 :: "cell_db \<Rightarrow> nat" where "amount_or_0 c = unwrap_or 0 (nc_udt_amount c)"

text \<open>\<open>holders\<close>: owners of the live RGB++-lock cells of an asset, and its unowned seals.\<close>

definition asset_holders :: "db \<Rightarrow> byte list \<Rightarrow> cell_db list" where
  "asset_holders d h =
     filter (\<lambda>c. nc_type_hash c = Some h \<and> cell_live c \<and> nc_lock_kind c = KRgbpp) (d_cells d)"

text \<open>The row of one group of the \<open>assets\<close> CTE, joined with \<open>holders\<close>; \<open>cs\<close> is the group.\<close>

definition asset_summary :: "db \<Rightarrow> byte list \<times> asset_kind \<Rightarrow> cell_db list \<Rightarrow> asset_row" where
  "asset_summary d g cs =
     (let live = filter cell_live cs; holders = asset_holders d (fst g) in \<lparr>
       ar_type_hash = fst g, ar_asset_kind = asset_as_str (snd g),
       ar_cell_count = length cs,
       ar_live_cell_count = length live,
       ar_live_seal_count = length (remdups (map cell_seal live)),
       ar_total_amount = (if live = [] then None else Some (sum_list (map amount_or_0 live))),
       ar_first_block = Min (set (map nc_block_number cs)),
       ar_first_tx = nc_tx_hash (hd (sort_key (\<lambda>c. (nc_block_number c, nc_created_tx_index c, nc_index c)) cs)),
       ar_last_block = Max (set (map nc_block_number cs)),
       ar_holder_count = count_distinct (cell_address d) holders,
       ar_unlabelled_count =
         length (remdups (map cell_seal (filter (\<lambda>c. cell_address d c = None) holders))) \<rparr>)"

definition asset_group :: "cell_db \<Rightarrow> (byte list \<times> asset_kind) option" where
  "asset_group c = map_option (\<lambda>h. (h, nc_asset_kind c)) (nc_type_hash c)"

definition asset_summaries :: "(cell_db \<Rightarrow> bool) \<Rightarrow> db \<Rightarrow> asset_row list" where
  "asset_summaries p d =
     (let cells = filter p (d_cells d) in
      map (\<lambda>g. asset_summary d g (filter (\<lambda>c. asset_group c = Some g) cells))
        (remdups (List.map_filter asset_group cells)))"

definition asset_order :: "asset_row \<Rightarrow> int \<times> int \<times> byte list" where
  "asset_order r = (- ar_last_block r, - int (ar_live_cell_count r), ar_type_hash r)"

definition list_assets :: "string list \<Rightarrow> int \<Rightarrow> int \<Rightarrow> db \<Rightarrow> asset_row list" where
  "list_assets kinds limit offset d =
     limit_rows limit (drop (nat offset) (sort_key asset_order
       (asset_summaries (\<lambda>c. asset_as_str (nc_asset_kind c) \<in> set kinds) d)))"

definition assets_by_type_hashes :: "byte list list \<Rightarrow> db \<Rightarrow> asset_row list" where
  "assets_by_type_hashes hs d =
     sort_key asset_order (asset_summaries
       (\<lambda>c. case nc_type_hash c of None \<Rightarrow> False | Some h \<Rightarrow> h \<in> set hs) d)"

definition count_assets :: "string list \<Rightarrow> db \<Rightarrow> nat" where
  "count_assets kinds d =
     count_distinct nc_type_hash (filter (\<lambda>c. asset_as_str (nc_asset_kind c) \<in> set kinds) (d_cells d))"

section \<open>Balances\<close>

definition balance_group :: "cell_row \<Rightarrow> byte list option \<times> string" where
  "balance_group r = (cr_type_hash r, cr_asset_kind r)"

definition balance_cells :: "(byte list \<times> int) list \<Rightarrow> bool \<Rightarrow> db \<Rightarrow> cell_row list" where
  "balance_cells ops include_pending d =
     filter (\<lambda>r. (case cr_btc_vout r of None \<Rightarrow> False | Some v \<Rightarrow> (cr_btc_txid r, v) \<in> set ops) \<and>
        cr_status r \<in> set (if include_pending then [''live'', ''pending_ckb''] else [''live'']))
       (cell_status_view d)"

definition balance_row :: "byte list option \<times> string \<Rightarrow> cell_row list \<Rightarrow> asset_balance_row" where
  "balance_row g rs = \<lparr>
     ab_type_hash = fst g, ab_asset_kind = snd g, ab_cell_count = length rs,
     ab_total_capacity = sum_list (map cr_capacity rs),
     ab_total_amount = sum_list (map (\<lambda>r. unwrap_or 0 (cr_udt_amount r)) rs) \<rparr>"

text \<open>\<open>ORDER BY asset_kind, type_hash\<close> with \<open>NULL\<close> last.\<close>

definition balance_order :: "asset_balance_row \<Rightarrow> string \<times> bool \<times> byte list" where
  "balance_order b = (ab_asset_kind b, ab_type_hash b = None, unwrap_or [] (ab_type_hash b))"

definition asset_balances_for_outpoints :: "(byte list \<times> int) list \<Rightarrow> bool \<Rightarrow> db \<Rightarrow> asset_balance_row list" where
  "asset_balances_for_outpoints ops include_pending d =
     (let rs = balance_cells ops include_pending d in
      sort_key balance_order
        (map (\<lambda>g. balance_row g (filter (\<lambda>r. balance_group r = g) rs)) (remdups (map balance_group rs))))"

section \<open>Sweep runs\<close>

definition start_sweep_run :: "int \<Rightarrow> db \<Rightarrow> int \<times> db" where
  "start_sweep_run now d =
     (d_sweep_seq d, d\<lparr> d_sweep_seq := d_sweep_seq d + 1,
        d_sweeps := d_sweeps d @ [\<lparr> sr_id = d_sweep_seq d, sr_started_at = now, sr_finished_at = None,
          sr_outpoints_checked = 0, sr_status_changed = 0, sr_anomalies_found = 0,
          sr_status = ''running'', sr_error = None \<rparr>] \<rparr>)"

definition finish_sweep_run :: "int \<Rightarrow> int \<Rightarrow> int \<Rightarrow> int \<Rightarrow> string option \<Rightarrow> int \<Rightarrow> db \<Rightarrow> db" where
  "finish_sweep_run run checked changed found err now d = d\<lparr>
     d_sweeps := update_where (\<lambda>r. sr_id r = run)
       (\<lambda>r. r\<lparr> sr_finished_at := Some now, sr_outpoints_checked := checked, sr_status_changed := changed,
              sr_anomalies_found := found,
              sr_status := (if err \<noteq> None then ''failed'' else ''completed''), sr_error := err \<rparr>)
       (d_sweeps d) \<rparr>"

definition last_sweep_run :: "db \<Rightarrow> sweep_row option" where
  "last_sweep_run d =
     (case sort_key (\<lambda>r. - sr_started_at r) (d_sweeps d) of [] \<Rightarrow> None | r # _ \<Rightarrow> Some r)"

section \<open>Paging through a history\<close>

text \<open>
  The pages a client reads: each call passes the cursor of the last entry it got; \<open>fuel\<close>
  bounds the number of calls.
\<close>

fun read_pages :: "nat \<Rightarrow> string \<Rightarrow> string option \<Rightarrow> int \<Rightarrow> db \<Rightarrow> activity_row list" where
  "read_pages 0 address cursor limit d = []"
| "read_pages (Suc fuel) address cursor limit d =
     (case address_activity address cursor limit d of
        [] \<Rightarrow> []
      | page \<Rightarrow> page @ read_pages fuel address (Some (activity_cursor (last page))) limit d)"

definition activity_ok :: "string \<Rightarrow> db \<Rightarrow> bool" where
  "activity_ok address d \<longleftrightarrow>
     distinct (map activity_position (all_activity address d)) \<and>
     (\<forall>r \<in> set (all_activity address d).
        - (2 ^ 63) \<le> ac_block_number r \<and> ac_block_number r < 2 ^ 63 \<and>
        - (2 ^ 31) \<le> ac_tx_index r \<and> ac_tx_index r < 2 ^ 31)"

definition activity_after :: "string option \<Rightarrow> activity_row list \<Rightarrow> activity_row list" where
  "activity_after cursor rows =
     filter (\<lambda>r. case Option.bind cursor parse_activity_cursor of None \<Rightarrow> True
       | Some p \<Rightarrow> activity_position r < p) rows"

lemma address_activity_alt:
  "address_activity address cursor limit d =
     take (nat limit) (activity_after cursor (sort_key newest_first (all_activity address d)))"
  by (simp add: address_activity_def limit_rows_def Let_def activity_after_def filter_sort)

lemma newest_first_less: "newest_first a \<le> newest_first b \<longleftrightarrow> activity_position b \<le> activity_position a"
  by (auto simp: newest_first_def activity_position_def less_eq_prod_def)

text \<open>In a strictly descending list, the entries after a position are a suffix.\<close>

lemma descending_suffix:
  "sorted_wrt (\<lambda>a b. p b < (p a :: 'x::linorder)) (xs @ y # ys) \<Longrightarrow>
   filter (\<lambda>r. p r < p y) (xs @ y # ys) = ys"
proof -
  assume s: "sorted_wrt (\<lambda>a b. p b < p a) (xs @ y # ys)"
  then have "\<forall>x \<in> set xs. p y < p x" "\<forall>z \<in> set ys. p z < p y" by (auto simp: sorted_wrt_append)
  then have "filter (\<lambda>r. p r < p y) xs = []" "filter (\<lambda>r. p r < p y) ys = ys"
    by (auto simp: filter_empty_conv intro!: filter_True)
  then show ?thesis by simp
qed

lemma strictly_descending:
  "sorted_wrt (\<lambda>a b. p b \<le> (p a :: 'x::linorder)) xs \<Longrightarrow> distinct (map p xs) \<Longrightarrow>
   sorted_wrt (\<lambda>a b. p b < p a) xs"
  by (induction xs) (auto simp: less_le image_iff)

lemma activity_descending:
  assumes "activity_ok address d"
  shows "sorted_wrt (\<lambda>a b. activity_position b < activity_position a)
     (sort_key newest_first (all_activity address d))" (is "sorted_wrt ?R ?all")
proof -
  have "sorted (map newest_first ?all)" by simp
  then have le: "sorted_wrt (\<lambda>a b. activity_position b \<le> activity_position a) ?all"
    by (simp add: sorted_map newest_first_less)
  have "distinct (map activity_position (all_activity address d))"
    using assms by (simp add: activity_ok_def)
  moreover have "mset (map activity_position ?all) = mset (map activity_position (all_activity address d))"
    by simp
  ultimately have "distinct (map activity_position ?all)" using mset_eq_imp_distinct_iff by blast
  with le show ?thesis by (rule strictly_descending)
qed

text \<open>Following the cursors reads the whole history, each entry once, newest first.\<close>

lemma read_pages_suffix:
  assumes "activity_ok address d" "0 < limit"
  defines "all \<equiv> sort_key newest_first (all_activity address d)"
  shows "all = xs @ ys \<Longrightarrow> activity_after cursor all = ys \<Longrightarrow> length ys < fuel \<Longrightarrow>
    read_pages fuel address cursor limit d = ys"
proof (induction fuel arbitrary: xs ys cursor)
  case (Suc fuel)
  have page: "address_activity address cursor limit d = take (nat limit) ys"
    using Suc.prems(2) by (simp add: address_activity_alt all_def)
  show ?case
  proof (cases ys)
    case Nil
    with page show ?thesis by simp
  next
    case (Cons y ys')
    let ?p = "take (nat limit) ys" and ?rest = "drop (nat limit) ys"
    have ne: "?p \<noteq> []" using Cons assms(2) by simp
    let ?l = "last ?p"
    have split: "all = (xs @ butlast ?p) @ ?l # ?rest"
      using Suc.prems(1) ne append_take_drop_id [of "nat limit" ys]
      by (metis append.assoc append_Cons append_Nil append_butlast_last_id)
    have "?l \<in> set all" by (simp add: split)
    then have "parse_activity_cursor (activity_cursor ?l) = Some (activity_position ?l)"
      using assms(1) unfolding activity_position_def all_def activity_ok_def
      by (intro activity_cursor_roundtrip) auto
    then have after: "activity_after (Some (activity_cursor ?l)) all = ?rest"
      using descending_suffix [of activity_position "xs @ butlast ?p" ?l ?rest]
        activity_descending [OF assms(1)] split
      by (simp add: activity_after_def all_def)
    have "length ?rest < fuel" using Suc.prems(3) ne assms(2) Cons by auto
    with Suc.IH [of "xs @ ?p" ?rest "Some (activity_cursor ?l)"] after Suc.prems(1)
    have "read_pages fuel address (Some (activity_cursor ?l)) limit d = ?rest" by simp
    moreover have "read_pages (Suc fuel) address cursor limit d
        = ?p @ read_pages fuel address (Some (activity_cursor ?l)) limit d"
      using ne by (cases ?p) (simp_all add: page)
    ultimately show ?thesis by simp
  qed
qed simp

lemma read_pages_all:
  assumes "activity_ok address d" "0 < limit" "length (all_activity address d) < fuel"
  shows "read_pages fuel address None limit d = sort_key newest_first (all_activity address d)"
  using assms by (intro read_pages_suffix [of address d limit "[]"]) (auto simp: activity_after_def)

section \<open>Properties\<close>

text \<open>
  C36. An address history can be paged completely: following the cursor of the last entry
  from page to page, with any positive limit, reads every transition that touched the
  address exactly once, newest first, and the pages come to an end. (Transitions have
  distinct positions that fit their columns.)
\<close>

theorem history_paged_completely:
  assumes "activity_ok address d" "0 < limit" "length (all_activity address d) < fuel"
  shows "read_pages fuel address None limit d = sort_key newest_first (all_activity address d) \<and>
     mset (read_pages fuel address None limit d) = mset (all_activity address d) \<and>
     sorted_wrt (\<lambda>a b. activity_position b < activity_position a) (read_pages fuel address None limit d)"
  using read_pages_all [OF assms] activity_descending [OF assms(1)] by simp

definition sample_history :: db where
  "sample_history = empty_db\<lparr>
     d_transitions := map (\<lambda>n. \<lparr> tr_tx_hash = [of_int n], tr_block_number = n, tr_block_hash = [],
       tr_tx_index = 1, tr_timestamp = None, tr_kind = ''transfer'', tr_btc_txid = None, tr_input_count = 1,
       tr_output_count = 1, tr_expected = None, tr_observed = None, tr_commitment_status = ''unchecked'',
       tr_indexed_at = 0 \<rparr>) [1, 2, 3],
     d_cells := map (\<lambda>n. (fresh_cell 0 \<lparr> nc_tx_hash = [of_int n], nc_index = 0, nc_lock_kind = KRgbpp,
       nc_btc_txid = [7], nc_btc_vout = Some 0, nc_time_after = None, nc_target_lock_hash = None,
       nc_target_lock = None, nc_lock_hash = [], nc_lock_args = [], nc_type_hash = None,
       nc_type_script = None, nc_asset_kind = NoAsset, nc_udt_amount = None, nc_capacity = 100,
       nc_cell_data = [], nc_block_number = n, nc_block_hash = [], nc_created_tx_index = 1 \<rparr>)) [1, 2, 3],
     d_outpoints := [\<lparr> ob_txid = [7], ob_vout = 0, ob_status = ''unspent'', ob_spender = None,
       ob_spent_height = None, ob_address = Some ''a'', ob_source = [], ob_first_seen_at = 0,
       ob_observed_at = 0, ob_invalidated_at = None \<rparr>] \<rparr>"

lemma sample_history_activity:
  "map ac_block_number (all_activity ''a'' sample_history) = [1, 2, 3] \<and>
   map activity_position (all_activity ''a'' sample_history) = [(1, 1), (2, 1), (3, 1)] \<and>
   length (all_activity ''a'' sample_history) = 3"
  by (simp add: all_activity_def sample_history_def empty_db_def touched_txs_def owned_cells_def
      cell_address_def binding_observation_def lookup_row_def outpoint_key_def fresh_cell_def
      new_cell.defs map_filter_def activity_of_def activity_position_def)

lemma history_paged_completely_witness:
  "map ac_block_number (read_pages 4 ''a'' None 2 sample_history) = [3, 2, 1]"
proof -
  have pos: "ac_block_number r = fst (activity_position r) \<and> ac_tx_index r = snd (activity_position r)" for r
    by (simp add: activity_position_def)
  have "set (map activity_position (all_activity ''a'' sample_history)) = {(1, 1), (2, 1), (3, 1)}"
    using sample_history_activity by simp
  then have in3: "activity_position r \<in> {(1, 1), (2, 1), (3, 1)}" if "r \<in> set (all_activity ''a'' sample_history)" for r
    using that by (metis imageI set_map)
  have ok: "activity_ok ''a'' sample_history"
    unfolding activity_ok_def
  proof (intro conjI ballI)
    show "distinct (map activity_position (all_activity ''a'' sample_history))"
      using sample_history_activity by simp
  qed (use in3 pos in fastforce)+
  have "read_pages 4 ''a'' None 2 sample_history = sort_key newest_first (all_activity ''a'' sample_history)"
    using history_paged_completely [OF ok, of 2 4] sample_history_activity by simp
  moreover have "\<exists>x y z. all_activity ''a'' sample_history = [x, y, z] \<and> activity_position x = (1, 1) \<and>
      activity_position y = (2, 1) \<and> activity_position z = (3, 1)"
    using sample_history_activity
    by (cases "all_activity ''a'' sample_history"; cases "tl (all_activity ''a'' sample_history)";
        cases "tl (tl (all_activity ''a'' sample_history))") auto
  ultimately show ?thesis by (auto simp: newest_first_def activity_position_def)
qed

end
