(* ===== verification/Sweeper.thy ===== *)
theory Sweeper
  imports Reconcile Store_Stats
begin

text \<open>
  \<open>crates/indexer/src/sweeper.rs\<close>: the walk over every live binding and the detection of
  Bitcoin spends without a CKB transition. The report is threaded beside the error, as the
  source keeps what it counted when a later step fails; \<open>render\<close> is the text of an error.
\<close>

record sweep_report =
  sp_checked :: nat
  sp_changed :: nat
  sp_found :: nat

section \<open>The walk\<close>

text \<open>One turn of the loop: the next cursor and the refreshes, or the end.\<close>

definition page_out_points :: "(byte list \<times> int) list \<Rightarrow> indexer_error + btc_out_point list" where
  "page_out_points page =
     collect (\<lambda>(txid, vout). case from_display_slice txid of Inl err \<Rightarrow> Inl (IETypes err)
       | Inr t \<Rightarrow> Inr \<lparr> bo_txid = t, bo_vout = as_u32 vout \<rparr>) page"

definition sweep_page ::
  "env \<Rightarrow> ext \<Rightarrow> btc_data_source \<Rightarrow> config \<Rightarrow> (byte list \<times> int) option \<Rightarrow>
   ((byte list \<times> int) option \<times> outpoint_refresh list) option scan_io" where
  "sweep_page e x src cfg cursor =
     io_bind (of_store (query e (\<lambda>now. live_bound_outpoints_after (map_option fst cursor)
       (unwrap_or 0 (map_option snd cursor)) (sw_batch_size (c_sweep cfg)))))
     (\<lambda>page. if page = [] then io_ret None else
       io_bind (io_of (page_out_points page))
       (\<lambda>outpoints. io_bind (refresh_outpoints e x src cfg outpoints)
       (\<lambda>refreshed. io_ret (Some (last_opt page, refreshed)))))"

definition count_refreshed :: "outpoint_refresh list \<Rightarrow> sweep_report \<Rightarrow> sweep_report" where
  "count_refreshed refreshed report = report\<lparr>
     sp_checked := sp_checked report + length refreshed,
     sp_changed := sp_changed report + length (filter orf_changed refreshed) \<rparr>"

fun sweep_pages ::
  "nat \<Rightarrow> env \<Rightarrow> ext \<Rightarrow> btc_data_source \<Rightarrow> config \<Rightarrow> (byte list \<times> int) option \<Rightarrow> sweep_report \<Rightarrow>
   (sweep_report \<times> indexer_error option) scan_io" where
  "sweep_pages 0 e x src cfg cursor report = io_ret (report, Some IEDiverged)"
| "sweep_pages (Suc fuel) e x src cfg cursor report =
     io_bind (io_attempt (sweep_page e x src cfg cursor))
     (\<lambda>r. case r of
        Inl err \<Rightarrow> io_ret (report, Some err)
      | Inr None \<Rightarrow> io_ret (report, None)
      | Inr (Some (cursor', refreshed)) \<Rightarrow>
          sweep_pages fuel e x src cfg cursor' (count_refreshed refreshed report))"

section \<open>Misspends\<close>

definition indexer_is_caught_up :: "env \<Rightarrow> config \<Rightarrow> bool scan_io" where
  "indexer_is_caught_up e cfg =
     io_bind (of_store (query e (\<lambda>now. get_stream_state CKB_STREAM)))
     (\<lambda>state. io_ret (case state of None \<Rightarrow> False
        | Some s \<Rightarrow> (case st_target s of None \<Rightarrow> False
          | Some target \<Rightarrow>
              \<not> as_u64 (max (target - st_last_block_number s) 0) > sw_require_synced_within_blocks (c_sweep cfg))))"

definition misspend_kind :: "bytes32 option \<Rightarrow> anomaly_kind" where
  "misspend_kind commitment = (if commitment \<noteq> None then BtcSpentWithoutCkb else NoCommitmentInSpender)"

definition misspend_detail ::
  "ext \<Rightarrow> btc_txid \<Rightarrow> u32 \<Rightarrow> u32 \<Rightarrow> u32 \<Rightarrow> bytes32 option \<Rightarrow> json" where
  "misspend_detail x spender height confirmations grace commitment = JObj
     [(''spender_txid'', JStr (txid_to_hex x spender)), (''spent_height'', JInt (int (unat height))),
      (''confirmations'', JInt (int (unat confirmations))), (''grace_confirmations'', JInt (int (unat grace))),
      (''spender_has_rgbpp_commitment'', JBool (commitment \<noteq> None))]"

definition confirmations_at :: "btc_tip \<Rightarrow> u32 \<Rightarrow> u32" where
  "confirmations_at tip height = saturating_sub (tip_height tip) height + 1"

text \<open>A spend that is old enough and has no transition.\<close>

definition report_misspend ::
  "env \<Rightarrow> ext \<Rightarrow> btc_data_source \<Rightarrow> config \<Rightarrow> btc_tip \<Rightarrow> btc_out_point \<Rightarrow> btc_txid \<Rightarrow> u32 \<Rightarrow> nat \<Rightarrow> nat scan_io" where
  "report_misspend e x src cfg tip p spender height found =
     io_bind (refresh_btc_tx e x src spender)
     (\<lambda>btc_tx. let commitment = Option.bind btc_tx tx_commitment; kind = misspend_kind commitment in
      io_bind (of_store (execute e (record_anomaly kind (dedup_key kind (out_point_to_string x p))
        (Some (to_display_vec (bo_txid p))) (Some (as_i32 (bo_vout p))) None None
        (misspend_detail x spender height (confirmations_at tip height)
          (sw_misspend_grace_confirmations (c_sweep cfg)) commitment))))
      (\<lambda>_. io_ret (found + 1)))"

definition check_spend ::
  "env \<Rightarrow> ext \<Rightarrow> btc_data_source \<Rightarrow> config \<Rightarrow> btc_tip \<Rightarrow> btc_out_point \<Rightarrow> spend_status \<Rightarrow> nat \<Rightarrow> nat scan_io" where
  "check_spend e x src cfg tip p status found =
     (case status_spender status of None \<Rightarrow> io_ret found | Some spender \<Rightarrow>
      case status_height status of None \<Rightarrow> io_ret found | Some height \<Rightarrow>
      if confirmations_at tip height < sw_misspend_grace_confirmations (c_sweep cfg) then io_ret found else
      io_bind (of_store (query e (\<lambda>now. transitions_by_btc_txid (to_display_vec spender))))
      (\<lambda>transitions.
        if transitions \<noteq> [] then
          io_bind (of_store (sql e (resolve_anomalies_for_outpoint (to_display_vec (bo_txid p)) (as_i32 (bo_vout p)))))
          (\<lambda>_. io_ret found)
        else report_misspend e x src cfg tip p spender height found))"

definition misspend_row ::
  "env \<Rightarrow> ext \<Rightarrow> btc_data_source \<Rightarrow> config \<Rightarrow> btc_tip \<Rightarrow> observation_row \<Rightarrow> nat \<Rightarrow> nat scan_io" where
  "misspend_row e x src cfg tip row found =
     io_bind (of_store (io_of (observation_out_point row)))
     (\<lambda>p. io_bind (of_store (io_of (observation_spend_status row)))
     (\<lambda>status. check_spend e x src cfg tip p status found))"

definition detect_misspends :: "env \<Rightarrow> ext \<Rightarrow> btc_data_source \<Rightarrow> config \<Rightarrow> nat scan_io" where
  "detect_misspends e x src cfg =
     io_bind (indexer_is_caught_up e cfg)
     (\<lambda>caught_up. if \<not> caught_up then io_ret 0 else
       io_bind (of_btc (io_call (bs_tip src)))
       (\<lambda>tip. io_bind (of_store (query e (\<lambda>now. pending_ckb_outpoints 10000)))
       (\<lambda>pending. io_for pending 0 (misspend_row e x src cfg tip))))"

section \<open>A sweep\<close>

definition sweep_inner ::
  "nat \<Rightarrow> env \<Rightarrow> ext \<Rightarrow> btc_data_source \<Rightarrow> config \<Rightarrow> (sweep_report \<times> indexer_error option) scan_io" where
  "sweep_inner fuel e x src cfg =
     io_bind (sweep_pages fuel e x src cfg None \<lparr> sp_checked = 0, sp_changed = 0, sp_found = 0 \<rparr>)
     (\<lambda>(report, err). case err of
        Some err \<Rightarrow> io_ret (report, Some err)
      | None \<Rightarrow>
          io_bind (io_attempt (detect_misspends e x src cfg))
          (\<lambda>r. io_ret (case r of Inl err \<Rightarrow> (report, Some err) | Inr found \<Rightarrow> (report\<lparr> sp_found := found \<rparr>, None))))"

definition sweep_once ::
  "nat \<Rightarrow> env \<Rightarrow> ext \<Rightarrow> btc_data_source \<Rightarrow> config \<Rightarrow> (indexer_error \<Rightarrow> string) \<Rightarrow> sweep_report scan_io" where
  "sweep_once fuel e x src cfg render =
     io_bind (of_store (sql e start_sweep_run))
     (\<lambda>run_id. io_bind (sweep_inner fuel e x src cfg)
     (\<lambda>(report, err).
       io_bind (of_store (execute e (finish_sweep_run run_id (int (sp_checked report)) (int (sp_changed report))
         (int (sp_found report)) (map_option render err))))
       (\<lambda>_. case err of Some err \<Rightarrow> io_fail err | None \<Rightarrow> io_ret report)))"

text \<open>One pass of \<open>run\<close>'s loop, after its sleep; failures are only logged.\<close>

definition sweep_pass ::
  "nat \<Rightarrow> env \<Rightarrow> ext \<Rightarrow> btc_data_source \<Rightarrow> config \<Rightarrow> (indexer_error \<Rightarrow> string) \<Rightarrow> unit scan_io" where
  "sweep_pass fuel e x src cfg render =
     io_bind (io_attempt (sweep_once fuel e x src cfg render)) (\<lambda>_. io_ret ())"

end
