(* ===== verification/Verify.thy ===== *)
theory Verify
  imports Reconcile
begin

text \<open>
  \<open>crates/indexer/src/verify.rs\<close>: comparing the commitment that a transition's Bitcoin
  transaction publishes with the one computed when the transition was indexed.
\<close>

record verify_report =
  vr_checked :: nat
  vr_matched :: nat
  vr_mismatched :: nat
  vr_btc_unknown :: nat
  vr_missing :: nat
  vr_not_applicable :: nat

definition verify_zero :: verify_report where
  "verify_zero = \<lparr> vr_checked = 0, vr_matched = 0, vr_mismatched = 0, vr_btc_unknown = 0,
     vr_missing = 0, vr_not_applicable = 0 \<rparr>"

definition record_finding ::
  "env \<Rightarrow> ext \<Rightarrow> anomaly_kind \<Rightarrow> byte list \<Rightarrow> byte list \<Rightarrow> json \<Rightarrow> unit scan_io" where
  "record_finding e x kind ckb_tx btc_txid detail =
     of_store (execute e (record_anomaly kind (dedup_key kind (ex_hex_encode x ckb_tx))
       (Some btc_txid) None (Some ckb_tx) None detail))"

definition set_result ::
  "env \<Rightarrow> transition_row \<Rightarrow> byte list option \<Rightarrow> commitment_status \<Rightarrow> unit scan_io" where
  "set_result e t observed status =
     of_store (execute e (\<lambda>now. set_commitment_result (tr_tx_hash t) observed status))"

text \<open>The comparison, for a Bitcoin transaction the source knows.\<close>

definition compare_commitment ::
  "env \<Rightarrow> ext \<Rightarrow> transition_row \<Rightarrow> byte list \<Rightarrow> btc_txid \<Rightarrow> bytes32 option \<Rightarrow> verify_report \<Rightarrow>
   (commitment_status \<times> verify_report) scan_io" where
  "compare_commitment e x t btc_txid txid observed report =
     (case (tr_expected t, observed) of
        (_, None) \<Rightarrow> io_ret (Missing, report\<lparr> vr_missing := vr_missing report + 1 \<rparr>)
      | (Some expected, Some obs) \<Rightarrow>
          if expected = list32 obs then io_ret (Match, report\<lparr> vr_matched := vr_matched report + 1 \<rparr>)
          else io_bind (record_finding e x CommitmentMismatch (tr_tx_hash t) btc_txid (JObj
                 [(''expected'', JStr (ex_hex_encode x expected)), (''observed'', JStr (ex_hex_encode x (list32 obs))),
                  (''btc_txid'', JStr (txid_to_hex x txid))]))
               (\<lambda>_. io_ret (Mismatch, report\<lparr> vr_mismatched := vr_mismatched report + 1 \<rparr>))
      | (None, Some obs) \<Rightarrow> io_ret (Unchecked, report))"

definition verify_transition ::
  "env \<Rightarrow> ext \<Rightarrow> btc_data_source \<Rightarrow> transition_row \<Rightarrow> verify_report \<Rightarrow> verify_report scan_io" where
  "verify_transition e x src t report =
     (case tr_btc_txid t of None \<Rightarrow> io_ret report | Some btc_txid \<Rightarrow>
      if tr_kind t = transition_as_str Issuance then
        io_bind (set_result e t None NotApplicable)
        (\<lambda>_. io_ret (report\<lparr> vr_not_applicable := vr_not_applicable report + 1, vr_checked := vr_checked report + 1 \<rparr>))
      else
        io_bind (io_of (map_err IETypes (from_display_slice btc_txid)))
        (\<lambda>txid. io_bind (refresh_btc_tx e x src txid)
        (\<lambda>btc_tx. case btc_tx of
           None \<Rightarrow>
             io_bind (set_result e t None BtcUnknown)
             (\<lambda>_. io_bind (record_finding e x UnknownBtcTx (tr_tx_hash t) btc_txid
                     (JObj [(''btc_txid'', JStr (txid_to_hex x txid))]))
             (\<lambda>_. io_ret (report\<lparr> vr_btc_unknown := vr_btc_unknown report + 1, vr_checked := vr_checked report + 1 \<rparr>)))
         | Some tx \<Rightarrow>
             io_bind (compare_commitment e x t btc_txid txid (tx_commitment tx) report)
             (\<lambda>(status, report). io_bind (set_result e t (map_option list32 (tx_commitment tx)) status)
             (\<lambda>_. io_ret (report\<lparr> vr_checked := vr_checked report + 1 \<rparr>))))))"

definition verify_once :: "env \<Rightarrow> ext \<Rightarrow> btc_data_source \<Rightarrow> config \<Rightarrow> verify_report scan_io" where
  "verify_once e x src cfg =
     io_bind (of_store (query e (\<lambda>now. unchecked_transitions (vf_batch_size (c_verify cfg)))))
     (\<lambda>transitions. io_for transitions verify_zero (verify_transition e x src))"

text \<open>One pass of \<open>run\<close>'s loop; failures are only logged.\<close>

definition verify_pass :: "env \<Rightarrow> ext \<Rightarrow> btc_data_source \<Rightarrow> config \<Rightarrow> unit scan_io" where
  "verify_pass e x src cfg = io_bind (io_attempt (verify_once e x src cfg)) (\<lambda>_. io_ret ())"

end
