(* ===== verification/Workers.thy ===== *)
theory Workers
  imports Sweeper Verify
begin

text \<open>
  What the Bitcoin-side workers do to the database. The interface \<open>worker_relation\<close> lists
  the statements they send; a relation that every statement follows is followed by every
  run of every worker, whatever fails on the way. It is interpreted on three relations: the
  facts of the CKB side are unchanged, every observed status came from the data source, and
  the tables stay well formed with bounded retries.
\<close>

section \<open>What the data source said\<close>

definition answered :: "btc_data_source \<Rightarrow> btc_out_point \<Rightarrow> spend_status \<Rightarrow> bool" where
  "answered src p s \<longleftrightarrow> (\<exists>n. bs_outpoint_status src n p = Inr s) \<or>
     (\<exists>n sts. bs_tx_outspends src n (bo_txid p) = Inr (Some sts) \<and>
        s = (if unat (bo_vout p) < length sts then sts ! unat (bo_vout p) else Unknown))"

definition all_answered :: "btc_data_source \<Rightarrow> (btc_out_point \<times> (btc_error + spend_status)) list \<Rightarrow> bool" where
  "all_answered src rs \<longleftrightarrow> (\<forall>p s. (p, Inr s) \<in> set rs \<longrightarrow> answered src p s)"

lemma all_answered_simps [simp]:
  "all_answered src []" "all_answered src (as @ bs) \<longleftrightarrow> all_answered src as \<and> all_answered src bs"
  "all_answered src [(p, r)] \<longleftrightarrow> (\<forall>s. r = Inr s \<longrightarrow> answered src p s)"
  by (auto simp: all_answered_def)

lemma observe_each_reads: "reads d (observe_each src t vouts :: 'e observing) (all_answered src)"
  unfolding observe_each_def
proof (rule reads_for)
  fix v and out :: "(btc_out_point \<times> (btc_error + spend_status)) list"
  assume "all_answered src out"
  then show "reads d (io_bind (io_attempt (io_call (\<lambda>n. bs_outpoint_status src n (mk_out_point t v))))
      (\<lambda>status. io_ret (out @ [(mk_out_point t v, status)])) :: 'e observing) (all_answered src)"
    by (intro reads_bind [OF reads_attempt [OF reads_call [where Q = "answered src (mk_out_point t v)"],
          where Q' = "\<lambda>r. \<forall>s. r = Inr s \<longrightarrow> answered src (mk_out_point t v) s"]] reads_ret)
      (auto simp: answered_def)
qed simp

lemma observe_group_reads: "reads d (observe_group src g :: 'e observing) (all_answered src)"
proof -
  let ?Q = "\<lambda>r :: btc_error + spend_status list option. \<forall>sts. r = Inr (Some sts) \<longrightarrow> (\<exists>n. bs_tx_outspends src n (fst g) = Inr (Some sts))"
  have "reads d (io_attempt (io_call (\<lambda>n. bs_tx_outspends src n (fst g))) :: ('e, _) io) ?Q"
    by (rule reads_attempt [where Q = "\<lambda>x. ?Q (Inr x)"], rule reads_call) auto
  moreover have "answered src (mk_out_point (fst g) v) (if unat v < length sts then sts ! unat v else Unknown)"
    if "bs_tx_outspends src n (fst g) = Inr (Some sts)" for n sts v
    unfolding answered_def mk_out_point_sel using that by blast
  then have "all_answered src (map (\<lambda>v. (mk_out_point (fst g) v,
      Inr (if unat v < length sts then sts ! unat v else Unknown))) vs)"
    if "bs_tx_outspends src n (fst g) = Inr (Some sts)" for n sts vs
    unfolding all_answered_def using that by auto
  ultimately show ?thesis
    unfolding observe_group_def Let_def
    by (auto split: sum.split option.split intro!: observe_each_reads reads_ret reads_bind [where Q = ?Q])
qed

lemma observe_many_reads: "reads d (observe_many src ops :: 'e observing) (all_answered src)"
  unfolding observe_many_def
  by (rule reads_for) (auto intro!: reads_bind [OF observe_group_reads] reads_ret)

context db_relation
begin

lemma obeys_bind_reads:
  assumes "obeys R m" "\<And>d. reads d m Q" "\<And>x. Q x \<Longrightarrow> obeys R (k x)"
  shows "obeys R (io_bind m k)"
  unfolding obeys_def
proof
  fix w
  obtain r w' where m: "m w = (r, w')" by (cases "m w")
  have 1: "R (w_db w) (w_db w')" using assms(1) m unfolding obeys_def by (metis snd_conv)
  show "R (w_db w) (w_db (snd (io_bind m k w)))"
  proof (cases r)
    case (Inl e)
    with m 1 show ?thesis by (simp add: io_bind_def)
  next
    case (Inr x)
    from readsD [OF assms(2) m [unfolded Inr] refl] have "obeys R (k x)" by (blast intro: assms(3))
    then have "R (w_db w') (w_db (snd (k x w')))" unfolding obeys_def by blast
    with 1 m Inr show ?thesis by (auto simp: io_bind_def intro: rel_trans)
  qed
qed

lemma obeys_for_in: "(\<And>x s. x \<in> set xs \<Longrightarrow> obeys R (body x s)) \<Longrightarrow> obeys R (io_for xs s body)"
  by (induction xs arbitrary: s) (auto intro!: obeys_ret obeys_bind)

lemma obeys_list:
  "obeys R a \<Longrightarrow> (\<And>x xs. obeys R (b x xs)) \<Longrightarrow> obeys R (case l of [] \<Rightarrow> a | x # xs \<Rightarrow> b x xs)"
  by (cases l) auto

lemma obeys_of_btc: "obeys R m \<Longrightarrow> obeys R (of_btc m)"
  unfolding of_btc_def by (rule obeys_map_err)

lemma obeys_get_cells: "obeys R (get_cells ck key limit)"
  unfolding get_cells_def by (intro obeys_rules)

end

section \<open>The statements of the workers\<close>

text \<open>The statements of a fetched transaction.\<close>

locale fetch_relation = db_relation R for R :: "db \<Rightarrow> db \<Rightarrow> bool" +
  assumes label: "label_outpoints source labels now d = Inr (n, d') \<Longrightarrow> R d d'"
    and cache: "R d (upsert_btc_tx txid height hash time commitment i j fee source now d)"
begin

lemma obeys_record_addresses: "obeys R (record_addresses e txid tx)"
  unfolding record_addresses_def record_binding_addresses_def
  by (intro obeys_rules obeys_sql_res label)

lemma obeys_cache_btc_tx: "obeys R (cache_btc_tx e x source txid tx)"
  unfolding cache_btc_tx_def by (intro obeys_execute cache)

lemma obeys_refresh_btc_tx: "obeys R (refresh_btc_tx e x src txid)"
  unfolding refresh_btc_tx_def
  by (intro obeys_rules obeys_of_btc obeys_of_store obeys_record_addresses obeys_cache_btc_tx)

lemma obeys_backfill_once: "obeys R (backfill_once e x src cfg after)"
  unfolding backfill_once_def backfill_txid_def resolve_funding_def
  by (intro obeys_rules obeys_of_btc obeys_of_store obeys_record_addresses obeys_cache_btc_tx)

end

text \<open>The statements of a refresh.\<close>

locale refresh_relation = fetch_relation R for R :: "db \<Rightarrow> db \<Rightarrow> bool" +
  fixes src :: btc_data_source
  assumes observe: "answered src p s \<Longrightarrow>
      R d (snd (upsert_observation (to_display_vec (bo_txid p)) (as_i32 (bo_vout p)) s None (bs_name src) now d))"
    and resolve: "R d (snd (resolve_anomalies_for_outpoint txid vout now d))"
    and enqueue: "R d (enqueue_refresh txid vout reason priority now d)"
    and enqueue_many: "enqueue_rows ops reason priority now d = Inr (n, d') \<Longrightarrow> R d d'"
begin

lemma obeys_refresh_one:
  assumes "\<And>s. snd a = Inr s \<Longrightarrow> answered src (fst a) s"
  shows "obeys R (refresh_one e x src a out)"
proof (cases "snd a")
  case (Inl err)
  show ?thesis
    unfolding refresh_one_def Let_def Inl sum.case
    by (intro obeys_rules obeys_of_store obeys_execute enqueue)
next
  case (Inr s)
  show ?thesis
    unfolding refresh_one_def Let_def Inr sum.case record_observation_def follow_up_spend_def
    by (intro obeys_rules obeys_of_store obeys_sql observe assms Inr resolve obeys_refresh_btc_tx)
qed

lemma obeys_refresh_outpoints: "obeys R (refresh_outpoints e x src cfg ops)"
proof -
  have "obeys R (io_bind (observe_many src capped) (\<lambda>observations. io_for observations out (refresh_one e x src)))" for capped out
  proof (rule obeys_bind_reads [OF obeys_observe_many observe_many_reads])
    fix rs assume rs: "all_answered src rs"
    have "obeys R (refresh_one e x src a out)" if "a \<in> set rs" for a out
      by (rule obeys_refresh_one) (use rs that in \<open>auto simp: all_answered_def dest: sym simp flip: surjective_pairing\<close>)
    then show "obeys R (io_for rs out (refresh_one e x src))" by (rule obeys_for_in)
  qed
  note observed = this
  have overflow: "obeys R (enqueue_refresh_many e ops reason p)" for ops reason p
    unfolding enqueue_refresh_many_def by (intro obeys_rules obeys_sql_res enqueue_many)
  show ?thesis
    unfolding refresh_outpoints_def Let_def
    by (rule obeys_if [OF obeys_ret], rule obeys_bind [OF _ observed]) (intro obeys_rules obeys_of_store overflow)
qed

lemma obeys_reconcile_address: "obeys R (reconcile_address e x src cfg address)"
  unfolding reconcile_address_def Let_def record_outpoint_addresses_def
  by (intro obeys_rules obeys_of_btc obeys_of_store obeys_sql_res label obeys_refresh_outpoints)

lemma obeys_resolve_transition: "obeys R (resolve_transition e x ck src cfg txid)"
  unfolding resolve_transition_def point_lookup_cells_def Let_def
  by (intro obeys_rules obeys_list obeys_of_ckb obeys_of_store obeys_get_cells obeys_refresh_btc_tx obeys_refresh_outpoints)

end

text \<open>The statements of the remaining workers.\<close>

locale worker_relation = refresh_relation +
  fixes max_attempts :: int
  assumes drop: "R d (snd (drop_exhausted_refreshes max_attempts d))"
    and drop_claim: "R (snd (drop_exhausted_refreshes max_attempts d))
      (snd (claim_refresh_batch limit now (snd (drop_exhausted_refreshes max_attempts d))))"
    and complete: "R d (complete_refresh txid vout d)"
    and fail: "R d (fail_refresh txid vout err d)"
    and anomaly: "R d (record_anomaly kind key btc_txid btc_vout ckb_tx ckb_index (JObj detail) now d)"
    and verdict: "R d (set_commitment_result h observed status d)"
    and start_sweep: "R d (snd (start_sweep_run now d))"
    and finish_sweep: "R d (finish_sweep_run run checked changed found failure now d)"
begin

lemma obeys_drop_claim:
  assumes "\<And>batch. obeys R (k batch)"
  shows "obeys R (io_bind (of_store (sql e (\<lambda>now. drop_exhausted_refreshes max_attempts)))
     (\<lambda>dropped. io_bind (of_store (sql e (claim_refresh_batch limit))) k))"
  unfolding obeys_def
proof
  fix w
  let ?drop = "of_store (sql e (\<lambda>now. drop_exhausted_refreshes max_attempts))"
  obtain r w1 where 1: "?drop w = (r, w1)" by (cases "?drop w")
  have "obeys R ?drop" by (intro obeys_of_store obeys_sql drop)
  with 1 have R1: "R (w_db w) (w_db w1)" unfolding obeys_def by (metis snd_conv)
  show "R (w_db w) (w_db (snd (io_bind ?drop (\<lambda>dropped. io_bind (of_store (sql e (claim_refresh_batch limit))) k) w)))"
  proof (cases r)
    case (Inl err)
    with 1 R1 show ?thesis by (simp add: io_bind_def)
  next
    case (Inr items)
    with 1 have db: "w_db w1 = snd (drop_exhausted_refreshes max_attempts (w_db w))"
      by (auto simp: of_store_Inr sql_Inr)
    let ?claim = "of_store (sql e (claim_refresh_batch limit))"
    obtain r2 w2 where 2: "?claim w1 = (r2, w2)" by (cases "?claim w1")
    have R2: "R (w_db w1) (w_db w2)"
    proof (cases r2)
      case (Inl err)
      with 2 obtain e0 where "sql e (claim_refresh_batch limit) w1 = (Inl e0, w2)" by (blast dest: of_store_Inl)
      then show ?thesis by (metis sql_Inl rel_refl)
    next
      case (Inr batch)
      with 2 have "w_db w2 = snd (claim_refresh_batch limit (e_now e (w_tick w1)) (w_db w1))"
        by (auto simp: of_store_Inr sql_Inr)
      with drop_claim show ?thesis unfolding db by metis
    qed
    have "R (w_db w1) (w_db (snd (io_bind ?claim k w1)))"
      using R2 2 assms unfolding obeys_def by (cases r2) (auto simp: io_bind_def intro: rel_trans)
    with R1 1 Inr show ?thesis by (auto simp: io_bind_def intro: rel_trans)
  qed
qed

lemma obeys_settle: "obeys R (settle e succeeded p u)"
  unfolding settle_def by (intro obeys_rules obeys_of_store obeys_execute complete fail)

lemma obeys_drain:
  assumes "max_attempts = rc_max_attempts (c_reconcile cfg)"
  shows "obeys R (drain_queue_once e x src cfg)"
  unfolding drain_queue_once_def Let_def assms [symmetric]
  by (rule obeys_drop_claim)
    (intro obeys_rules obeys_of_store obeys_execute obeys_refresh_outpoints obeys_settle complete)

lemma obeys_sweep_pages: "obeys R (sweep_pages fuel e x src cfg cursor report)"
proof (induction fuel arbitrary: cursor report)
  case (Suc fuel)
  have "obeys R (sweep_page e x src cfg cursor)"
    unfolding sweep_page_def by (intro obeys_rules obeys_of_store obeys_refresh_outpoints)
  then show ?case
    by (auto split: sum.split option.split intro!: obeys_ret obeys_bind [OF obeys_attempt] Suc)
qed (simp add: obeys_ret)

lemma obeys_detect: "obeys R (detect_misspends e x src cfg)"
  unfolding detect_misspends_def indexer_is_caught_up_def misspend_row_def check_spend_def report_misspend_def misspend_detail_def Let_def
  by (intro obeys_rules obeys_of_store obeys_of_btc obeys_sql obeys_execute resolve anomaly obeys_refresh_btc_tx)

lemma obeys_sweep: "obeys R (sweep_once fuel e x src cfg render)"
  unfolding sweep_once_def sweep_inner_def
  by (intro obeys_rules obeys_of_store obeys_sql obeys_execute start_sweep finish_sweep obeys_sweep_pages obeys_detect)

lemma obeys_verify: "obeys R (verify_once e x src cfg)"
proof -
  have "obeys R (compare_commitment e x t btc_txid txid observed report)" for t btc_txid txid observed report
    unfolding compare_commitment_def record_finding_def
    by (cases "tr_expected t"; cases observed) (auto intro!: obeys_rules obeys_of_store obeys_execute anomaly)
  then show ?thesis
    unfolding verify_once_def verify_transition_def set_result_def record_finding_def
    by (intro obeys_rules obeys_of_store obeys_execute obeys_refresh_btc_tx anomaly verdict)
qed

end

section \<open>A reference source\<close>

text \<open>A data source with the given answers.\<close>

definition ref_source :: "(btc_out_point \<Rightarrow> spend_status) \<Rightarrow> (btc_txid \<Rightarrow> btc_tx_info option) \<Rightarrow> u32 \<Rightarrow> btc_data_source" where
  "ref_source status tx height = \<lparr> bs_name = ''ref'',
     bs_tip = (\<lambda>n. Inr \<lparr> tip_height = height, tip_hash = BtcBlockHash zero32 \<rparr>),
     bs_block_hash_at = (\<lambda>n h. Inr None), bs_transaction = (\<lambda>n t. Inr (tx t)),
     bs_outpoint_status = (\<lambda>n p. Inr (status p)), bs_tx_outspends = (\<lambda>n t. Inr None),
     bs_address_utxos = (\<lambda>n a. Inr []) \<rparr>"

definition sample_point :: btc_out_point where
  "sample_point = \<lparr> bo_txid = BtcTxid zero32, bo_vout = 1 \<rparr>"

end
