(* ===== verification/Workers_Props.thy ===== *)
theory Workers_Props
  imports Workers
begin

text \<open>
  The three relations that the Bitcoin-side workers follow, each an interpretation of
  \<open>worker_relation\<close>, and the properties of the single workers.
\<close>

section \<open>The CKB side is read-only to the workers\<close>

text \<open>Everything the scanner writes; of a transition all but the verdict of the verifier.\<close>

definition forget_verdict :: "transition_row \<Rightarrow> transition_row" where
  "forget_verdict t = t\<lparr> tr_observed := None, tr_commitment_status := [] \<rparr>"

definition ckb_side :: "db \<Rightarrow> cell_db list \<times> block_row list \<times> stream_state list \<times> transition_row list" where
  "ckb_side d = (d_cells d, d_blocks d, d_streams d, map forget_verdict (d_transitions d))"

lemma label_outpoints_side: "label_outpoints source labels now d = Inr (n, d') \<Longrightarrow> \<exists>rows. d' = d\<lparr> d_outpoints := rows \<rparr>"
  by (auto simp: label_outpoints_def Let_def split: if_splits)

lemma enqueue_rows_side: "enqueue_rows ops reason p now d = Inr (n, d') \<Longrightarrow> \<exists>rows. d' = d\<lparr> d_queue := rows \<rparr>"
  by (auto simp: enqueue_rows_def split: if_splits)

interpretation ckb_side_kept: worker_relation "keeps ckb_side" src max_attempts for src max_attempts
proof
  show "keeps ckb_side d (set_commitment_result h observed status d)" for d h observed status
    by (simp add: keeps_def ckb_side_def set_commitment_result_def update_where_def forget_verdict_def)
qed (auto simp: keeps_def ckb_side_def upsert_observation_def upsert_btc_tx_def resolve_anomalies_for_outpoint_def
    resolve_where_def Let_def enqueue_refresh_def drop_exhausted_refreshes_def claim_refresh_batch_def
    complete_refresh_def fail_refresh_def record_anomaly_def start_sweep_run_def finish_sweep_run_def
    dest!: label_outpoints_side enqueue_rows_side)

section \<open>Statuses come from the data source\<close>

definition status_columns :: "observation_row \<Rightarrow> string \<times> byte list option \<times> int option" where
  "status_columns r = (ob_status r, ob_spender r, ob_spent_height r)"

definition columns_of :: "spend_status \<Rightarrow> string \<times> byte list option \<times> int option" where
  "columns_of s = (status_as_str s, map_option to_display_vec (status_spender s), map_option as_i32 (status_height s))"

definition from_source :: "btc_data_source \<Rightarrow> observation_row \<Rightarrow> bool" where
  "from_source src r \<longleftrightarrow> (\<exists>p s. answered src p s \<and> outpoint_key r = row_key p \<and> status_columns r = columns_of s)"

text \<open>
  A row kept its status, got an answer of the source about its own outpoint, or is a new row
  of an address label, which claims nothing.
\<close>

definition sourced :: "btc_data_source \<Rightarrow> db \<Rightarrow> db \<Rightarrow> bool" where
  "sourced src a b \<longleftrightarrow>
     outpoint_key ` set (d_outpoints a) \<subseteq> outpoint_key ` set (d_outpoints b) \<and>
     (\<forall>r \<in> set (d_outpoints b).
        (\<exists>r0 \<in> set (d_outpoints a). outpoint_key r0 = outpoint_key r \<and> status_columns r0 = status_columns r) \<or>
        from_source src r \<or>
        (outpoint_key r \<notin> outpoint_key ` set (d_outpoints a) \<and> status_columns r = columns_of Unknown))"

lemma sourced_same: "d_outpoints b = d_outpoints a \<Longrightarrow> sourced src a b"
  by (auto simp: sourced_def)

lemma sourced_trans: "sourced src a b \<Longrightarrow> sourced src b c \<Longrightarrow> sourced src a c"
proof (unfold sourced_def, elim conjE, intro conjI ballI)
  fix r
  assume keys: "outpoint_key ` set (d_outpoints a) \<subseteq> outpoint_key ` set (d_outpoints b)"
    and ab: "\<forall>r \<in> set (d_outpoints b).
        (\<exists>r0 \<in> set (d_outpoints a). outpoint_key r0 = outpoint_key r \<and> status_columns r0 = status_columns r) \<or>
        from_source src r \<or>
        (outpoint_key r \<notin> outpoint_key ` set (d_outpoints a) \<and> status_columns r = columns_of Unknown)"
    and bc: "\<forall>r \<in> set (d_outpoints c).
        (\<exists>r0 \<in> set (d_outpoints b). outpoint_key r0 = outpoint_key r \<and> status_columns r0 = status_columns r) \<or>
        from_source src r \<or>
        (outpoint_key r \<notin> outpoint_key ` set (d_outpoints b) \<and> status_columns r = columns_of Unknown)"
    and r: "r \<in> set (d_outpoints c)"
  from bc r consider (old) r0 where "r0 \<in> set (d_outpoints b)" "outpoint_key r0 = outpoint_key r" "status_columns r0 = status_columns r"
    | (src) "from_source src r"
    | (new) "outpoint_key r \<notin> outpoint_key ` set (d_outpoints b)" "status_columns r = columns_of Unknown" by blast
  then show "(\<exists>r0 \<in> set (d_outpoints a). outpoint_key r0 = outpoint_key r \<and> status_columns r0 = status_columns r) \<or>
        from_source src r \<or>
        (outpoint_key r \<notin> outpoint_key ` set (d_outpoints a) \<and> status_columns r = columns_of Unknown)"
  proof cases
    case old
    have "from_source src r0 \<Longrightarrow> from_source src r" using old(2,3) by (simp add: from_source_def)
    moreover from ab old(1) have "(\<exists>s \<in> set (d_outpoints a). outpoint_key s = outpoint_key r0 \<and> status_columns s = status_columns r0) \<or>
        from_source src r0 \<or>
        (outpoint_key r0 \<notin> outpoint_key ` set (d_outpoints a) \<and> status_columns r0 = columns_of Unknown)" by (rule bspec)
    ultimately show ?thesis unfolding old(2,3) by blast
  next
    case new
    with keys show ?thesis by blast
  qed blast
qed auto

lemma upsert_rows:
  assumes "\<And>old. key old = key n \<Longrightarrow> key (merge old n) = key n"
  shows "r \<in> set (upsert key merge n rows) \<Longrightarrow> r \<in> set rows \<or> (r = n \<and> key n \<notin> key ` set rows) \<or>
    (\<exists>r0 \<in> set rows. key r0 = key n \<and> r = merge r0 n)"
proof (induction rows)
  case (Cons x xs)
  then show ?case by (cases "key x = key n") auto
qed simp

lemma sourced_observation:
  assumes "answered src p s"
  shows "sourced src d (snd (upsert_observation (to_display_vec (bo_txid p)) (as_i32 (bo_vout p)) s address source now d))"
proof -
  let ?n = "observed_row (to_display_vec (bo_txid p)) (as_i32 (bo_vout p)) s address source now"
  have rows: "d_outpoints (snd (upsert_observation (to_display_vec (bo_txid p)) (as_i32 (bo_vout p)) s address source now d)) =
      upsert outpoint_key observation_merge ?n (d_outpoints d)" by (simp add: upsert_observation_def)
  have n: "outpoint_key ?n = row_key p" by (simp add: row_key_def)
  have "from_source src r"
    if "outpoint_key r = row_key p" "status_columns r = columns_of s" for r
    using assms that by (auto simp: from_source_def)
  moreover have "status_columns ?n = columns_of s" "status_columns (observation_merge r0 ?n) = columns_of s"
    "outpoint_key (observation_merge r0 ?n) = outpoint_key r0" for r0
    by (simp_all add: status_columns_def columns_of_def observed_row_def observation_merge_def outpoint_key_def)
  ultimately have "r \<in> set (d_outpoints d) \<or> from_source src r"
    if "r \<in> set (upsert outpoint_key observation_merge ?n (d_outpoints d))" for r
    using upsert_rows [OF _ that] n by (metis outpoints_table.key_merge)
  then show ?thesis
    unfolding sourced_def rows using outpoints_table.upsert_keys [of ?n "d_outpoints d"] by auto
qed

lemma sourced_label_row:
  "sourced src d (d\<lparr> d_outpoints := upsert outpoint_key label_merge (label_row source now l) (d_outpoints d) \<rparr>)"
proof -
  let ?n = "label_row source now l"
  have cols: "status_columns ?n = columns_of Unknown" "status_columns (label_merge r0 ?n) = status_columns r0"
    "outpoint_key (label_merge r0 ?n) = outpoint_key r0" for r0
    by (simp_all add: status_columns_def columns_of_def label_row_def label_merge_def outpoint_key_def)
  have "(\<exists>r0 \<in> set (d_outpoints d). outpoint_key r0 = outpoint_key r \<and> status_columns r0 = status_columns r) \<or>
        (outpoint_key r \<notin> outpoint_key ` set (d_outpoints d) \<and> status_columns r = columns_of Unknown)"
    if "r \<in> set (upsert outpoint_key label_merge ?n (d_outpoints d))" for r
    using upsert_rows [OF labels_table.key_merge that] cols by metis
  then show ?thesis
    unfolding sourced_def using labels_table.upsert_keys [of ?n "d_outpoints d"] by auto
qed

lemma sourced_label: "label_outpoints source labels now d = Inr (n, d') \<Longrightarrow> sourced src d d'"
proof -
  have "sourced src d (d\<lparr> d_outpoints := fold (upsert outpoint_key label_merge) (map (label_row source now) ls) (d_outpoints d) \<rparr>)" for ls d
  proof (induction ls arbitrary: d)
    case (Cons l ls)
    from sourced_trans [OF sourced_label_row Cons.IH [of "d\<lparr> d_outpoints := upsert outpoint_key label_merge
        (label_row source now l) (d_outpoints d) \<rparr>"]]
    show ?case by simp
  qed (simp add: sourced_same)
  then show "label_outpoints source labels now d = Inr (n, d') \<Longrightarrow> sourced src d d'"
    by (auto simp: label_outpoints_def Let_def split: if_splits)
qed

interpretation sourced: worker_relation "sourced src" src max_attempts for src max_attempts
proof
  show "sourced src d d" for d by (simp add: sourced_same)
  show "sourced src a b \<Longrightarrow> sourced src b c \<Longrightarrow> sourced src a c" for a b c by (rule sourced_trans)
  show "answered src p s \<Longrightarrow>
      sourced src d (snd (upsert_observation (to_display_vec (bo_txid p)) (as_i32 (bo_vout p)) s None (bs_name src) now d))" for p s d now
    by (rule sourced_observation)
  show "label_outpoints source labels now d = Inr (n, d') \<Longrightarrow> sourced src d d'" for source labels now d n d'
    by (rule sourced_label)
qed (auto intro!: sourced_same dest!: enqueue_rows_side simp: upsert_btc_tx_def resolve_anomalies_for_outpoint_def
    resolve_where_def Let_def enqueue_refresh_def drop_exhausted_refreshes_def claim_refresh_batch_def
    complete_refresh_def fail_refresh_def record_anomaly_def start_sweep_run_def finish_sweep_run_def set_commitment_result_def)

section \<open>Well-formed tables and bounded retries\<close>

text \<open>
  One row per key, observations whose columns agree, anomalies numbered below the sequence,
  and no queue entry beyond its attempts.
\<close>

definition tables_ok :: "int \<Rightarrow> db \<Rightarrow> bool" where
  "tables_ok max_attempts d \<longleftrightarrow> observations_ok d \<and>
     distinct (map queue_key (d_queue d)) \<and>
     (\<forall>q \<in> set (d_queue d). 0 \<le> qi_attempts q \<and> qi_attempts q \<le> max 0 max_attempts) \<and>
     distinct (map bt_txid (d_txs d)) \<and>
     distinct (map an_dedup_key (d_anomalies d)) \<and> distinct (map an_id (d_anomalies d)) \<and>
     (\<forall>a \<in> set (d_anomalies d). an_id a < d_anomaly_seq d) \<and>
     distinct (map sr_id (d_sweeps d)) \<and> (\<forall>r \<in> set (d_sweeps d). sr_id r < d_sweep_seq d)"

lemma tables_ok_outpoints: "tables_ok m d \<Longrightarrow> observations_ok d' \<Longrightarrow> d' = d\<lparr> d_outpoints := rows \<rparr> \<Longrightarrow> tables_ok m d'"
  by (simp add: tables_ok_def)

lemma tables_ok_queue:
  "tables_ok m d \<Longrightarrow> distinct (map queue_key q) \<Longrightarrow> (\<forall>i \<in> set q. 0 \<le> qi_attempts i \<and> qi_attempts i \<le> max 0 m) \<Longrightarrow>
   tables_ok m (d\<lparr> d_queue := q \<rparr>)"
  by (simp add: tables_ok_def observations_ok_def)

lemma fold_upsert_Ball:
  "(\<forall>r \<in> set rows. P r) \<Longrightarrow> (\<forall>n \<in> set ns. P n) \<Longrightarrow> (\<And>r n. P r \<Longrightarrow> P (merge r n)) \<Longrightarrow>
   \<forall>r \<in> set (fold (upsert key merge) ns rows). P r"
  using fold_upsert_list_all [of P rows ns merge key] by (simp add: list_all_iff)

lemma promote_attempts [simp]: "qi_attempts (promote r n) = qi_attempts r" "qi_attempts (promote_reason r n) = qi_attempts r"
  by (simp_all add: promote_def promote_reason_def)

lemma fresh_entry_attempts [simp]: "qi_attempts (fresh_entry op reason p now) = 0"
  by (simp add: fresh_entry_def)

lemma upsert_key_ids:
  assumes "distinct (map idf rows)" "\<forall>r \<in> set rows. idf r < idf n" "\<And>r. idf (merge r n) = (idf r :: int)"
  shows "distinct (map idf (upsert key merge n rows)) \<and> (\<forall>r \<in> set (upsert key merge n rows). idf r \<le> idf n) \<and>
    idf ` set (upsert key merge n rows) \<subseteq> insert (idf n) (idf ` set rows)"
  using assms by (induction rows) auto

lemma in_update_where: "r \<in> set (update_where c f rows) \<Longrightarrow> r \<in> set rows \<or> (\<exists>r0 \<in> set rows. r = f r0)"
  by (auto simp: update_where_def)

lemma update_where_map: "(\<And>r. g (f r) = g r) \<Longrightarrow> map g (update_where c f rows) = map g rows"
  by (simp add: update_where_def)

lemma tables_ok_enqueue: "tables_ok m d \<Longrightarrow> tables_ok m (enqueue_refresh txid vout reason p now d)"
  unfolding enqueue_refresh_def
  by (rule tables_ok_queue)
    (auto simp: tables_ok_def queue_reason_table.upsert_distinct
      dest!: upsert_rows [of queue_key _ promote_reason, rotated] simp: promote_reason_def promote_def queue_key_def)

lemma tables_ok_enqueue_many:
  assumes "tables_ok m d" "enqueue_rows ops reason p now d = Inr (n, d')"
  shows "tables_ok m d'"
proof -
  let ?q = "fold (upsert queue_key promote) (map (\<lambda>op. fresh_entry op reason p now) ops) (d_queue d)"
  have d': "d' = d\<lparr> d_queue := ?q \<rparr>" using assms(2) by (auto simp: enqueue_rows_def split: if_splits)
  have "\<forall>i \<in> set ?q. 0 \<le> qi_attempts i \<and> qi_attempts i \<le> max 0 m"
    using assms(1) by (intro fold_upsert_Ball) (auto simp: tables_ok_def)
  with assms(1) show ?thesis
    unfolding d' by (intro tables_ok_queue) (simp_all add: tables_ok_def queue_table.foldl_upsert_distinct)
qed

lemma tables_ok_drop: "tables_ok m d \<Longrightarrow> tables_ok m (snd (drop_exhausted_refreshes m' d))"
  unfolding drop_exhausted_refreshes_def snd_conv
  by (rule tables_ok_queue) (auto simp: tables_ok_def delete_where_def distinct_map_filter)

lemma tables_ok_claim:
  assumes ok: "tables_ok m d" and room: "\<forall>q \<in> set (d_queue d). qi_attempts q < max 0 m"
  shows "tables_ok m (snd (claim_refresh_batch limit now d))"
  unfolding claim_refresh_batch_def Let_def snd_conv
proof (rule tables_ok_queue [OF ok])
  have bound: "0 \<le> qi_attempts q \<and> qi_attempts q < max 0 m" if "q \<in> set (d_queue d)" for q
    using ok room that by (auto simp: tables_ok_def)
  show "distinct (map queue_key (update_where (\<lambda>q. queue_key q \<in> set (map queue_key (due_batch limit now (d_queue d))))
      (claim_row now) (d_queue d)))"
    using ok by (simp add: update_where_keys tables_ok_def)
  show "\<forall>i \<in> set (update_where (\<lambda>q. queue_key q \<in> set (map queue_key (due_batch limit now (d_queue d))))
      (claim_row now) (d_queue d)). 0 \<le> qi_attempts i \<and> qi_attempts i \<le> max 0 m"
    using bound by (fastforce simp: claim_row_def dest!: in_update_where)
qed

lemma tables_ok_drop_claim:
  "tables_ok m (snd (drop_exhausted_refreshes m d)) \<Longrightarrow>
   tables_ok m (snd (claim_refresh_batch limit now (snd (drop_exhausted_refreshes m d))))"
  by (rule tables_ok_claim) (auto simp: tables_ok_def drop_exhausted_refreshes_def delete_where_def)

lemma tables_ok_anomaly: "tables_ok m d \<Longrightarrow> tables_ok m (record_anomaly kind key btc_txid btc_vout ckb_tx ckb_index detail now d)"
proof -
  let ?n = "\<lparr> an_id = d_anomaly_seq d, an_kind = anomaly_as_str kind, an_dedup_key = key,
         an_btc_txid = btc_txid, an_btc_vout = btc_vout, an_ckb_tx = ckb_tx, an_ckb_index = ckb_index,
         an_detail = detail, an_detected_at = now, an_last_seen_at = now, an_resolved_at = None \<rparr>"
  assume ok: "tables_ok m d"
  have "distinct (map an_id (upsert an_dedup_key anomaly_merge ?n (d_anomalies d))) \<and>
      (\<forall>r \<in> set (upsert an_dedup_key anomaly_merge ?n (d_anomalies d)). an_id r \<le> an_id ?n) \<and>
      an_id ` set (upsert an_dedup_key anomaly_merge ?n (d_anomalies d)) \<subseteq> insert (an_id ?n) (an_id ` set (d_anomalies d))"
    using ok by (intro upsert_key_ids) (auto simp: tables_ok_def anomaly_merge_def)
  with ok show ?thesis
    by (auto simp: tables_ok_def record_anomaly_def anomalies_table.upsert_distinct observations_ok_def)
qed

lemma tables_ok_sweeps:
  "tables_ok m d \<Longrightarrow> tables_ok m (snd (start_sweep_run now d))"
  "tables_ok m d \<Longrightarrow> tables_ok m (finish_sweep_run run checked changed found failure now d)"
  by (force simp: tables_ok_def start_sweep_run_def observations_ok_def)
    (auto simp: tables_ok_def finish_sweep_run_def observations_ok_def update_where_map
      dest!: in_update_where)

lemma tables_ok_resolve: "tables_ok m d \<Longrightarrow> tables_ok m (snd (resolve_anomalies_for_outpoint txid vout now d))"
  by (auto simp: tables_ok_def resolve_anomalies_for_outpoint_def resolve_where_def Let_def observations_ok_def
      update_where_map dest!: in_update_where)

lemma tables_ok_cache: "tables_ok m d \<Longrightarrow> tables_ok m (upsert_btc_tx txid height hash time commitment i j fee source now d)"
  by (simp add: tables_ok_def upsert_btc_tx_def observations_ok_def txs_table.upsert_distinct)

lemma tables_ok_settle:
  "tables_ok m d \<Longrightarrow> tables_ok m (complete_refresh txid vout d)"
  "tables_ok m d \<Longrightarrow> tables_ok m (fail_refresh txid vout err d)"
  by (auto simp: complete_refresh_def fail_refresh_def tables_ok_def observations_ok_def delete_where_def distinct_map_filter
      update_where_map queue_key_def dest!: in_update_where intro!: tables_ok_queue)

lemma tables_ok_verdict: "tables_ok m d \<Longrightarrow> tables_ok m (set_commitment_result h observed status d)"
  by (simp add: tables_ok_def set_commitment_result_def observations_ok_def)

interpretation tables_kept: worker_relation "preserves (tables_ok max_attempts)" src max_attempts for src max_attempts
proof
  show "preserves (tables_ok max_attempts) d (snd (upsert_observation (to_display_vec (bo_txid p)) (as_i32 (bo_vout p)) s None
      (bs_name src) now d))" for p s d now
    unfolding preserves_def
    by (intro impI tables_ok_outpoints [OF _ upsert_observation_ok])
      (auto simp: tables_ok_def upsert_observation_def)
  show "label_outpoints source labels now d = Inr (n, d') \<Longrightarrow> preserves (tables_ok max_attempts) d d'" for source labels now d n d'
    unfolding preserves_def
    using label_outpoints_side label_outpoints_ok tables_ok_outpoints tables_ok_def by metis
qed (auto simp: preserves_def intro: tables_ok_cache tables_ok_resolve tables_ok_enqueue tables_ok_enqueue_many tables_ok_drop
    tables_ok_drop_claim tables_ok_settle tables_ok_anomaly tables_ok_sweeps tables_ok_verdict)

end
