(* ===== verification/Refresh_Props.thy ===== *)
theory Refresh_Props
  imports Workers_Props
begin

text \<open>
  What a refresh and a sweep establish: no outpoint they are given is forgotten, and the
  walk over the live bindings ends after visiting each of them.
\<close>

section \<open>Loops over answers\<close>

text \<open>Each pass establishes its element, and no pass of another element undoes it.\<close>

lemma io_for_each:
  assumes "\<And>x s w s' w'. x \<in> set xs \<Longrightarrow> body x s w = (Inr s', w') \<Longrightarrow>
      P x s' (w_db w') \<and> (\<forall>y \<in> set xs. y \<noteq> x \<longrightarrow> P y s (w_db w) \<longrightarrow> P y s' (w_db w'))"
    and "io_for xs s body w = (Inr s', w')"
  shows "\<forall>x \<in> set xs. P x s' (w_db w')"
proof -
  have "\<forall>y \<in> set xs. (y \<in> set ys \<or> P y s (w_db w)) \<longrightarrow> P y s' (w_db w')"
    if "io_for ys s body w = (Inr s', w')" "set ys \<subseteq> set xs" for ys s w
    using that
  proof (induction ys arbitrary: s w)
    case (Cons y ys)
    from Cons.prems(1) obtain s1 w1 where y: "body y s w = (Inr s1, w1)" and ys: "io_for ys s1 body w1 = (Inr s', w')"
      by (auto simp: io_bind_Inr)
    from Cons.prems(2) have "y \<in> set xs" "set ys \<subseteq> set xs" by simp_all
    from assms(1) [OF this(1) y] Cons.IH [OF ys this(2)] show ?case by auto
  qed simp
  with assms(2) show ?thesis by blast
qed

section \<open>One refresh\<close>

text \<open>Fetching a transaction leaves what the rows say and the queue alone.\<close>

definition unmoved :: "db \<Rightarrow> db \<Rightarrow> bool" where
  "unmoved a b \<longleftrightarrow> d_queue b = d_queue a \<and>
     (\<forall>r \<in> set (d_outpoints a). \<exists>r' \<in> set (d_outpoints b). outpoint_key r' = outpoint_key r \<and> status_columns r' = status_columns r)"

lemma unmoved_same: "d_outpoints b = d_outpoints a \<Longrightarrow> d_queue b = d_queue a \<Longrightarrow> unmoved a b"
  by (auto simp: unmoved_def)

lemma unmoved_trans: "unmoved a b \<Longrightarrow> unmoved b c \<Longrightarrow> unmoved a c"
  unfolding unmoved_def by metis

lemma upsert_keeps_row:
  "r \<in> set rows \<Longrightarrow> r \<in> set (upsert key merge n rows) \<or> (key r = key n \<and> merge r n \<in> set (upsert key merge n rows))"
  by (induction rows) auto

lemma unmoved_label: "label_outpoints source labels now d = Inr (n, d') \<Longrightarrow> unmoved d d'"
proof -
  have row: "unmoved d (d\<lparr> d_outpoints := upsert outpoint_key label_merge (label_row source now l) (d_outpoints d) \<rparr>)" for d l
  proof -
    have "status_columns (label_merge r n) = status_columns r" "outpoint_key (label_merge r n) = outpoint_key r" for r n
      by (simp_all add: status_columns_def label_merge_def outpoint_key_def)
    then show ?thesis
      using upsert_keeps_row [of _ "d_outpoints d" outpoint_key label_merge "label_row source now l"]
      unfolding unmoved_def by (simp, metis)
  qed
  have "unmoved d (d\<lparr> d_outpoints := fold (upsert outpoint_key label_merge) (map (label_row source now) ls) (d_outpoints d) \<rparr>)" for ls d
  proof (induction ls arbitrary: d)
    case (Cons l ls)
    from unmoved_trans [OF row Cons.IH [of "d\<lparr> d_outpoints := upsert outpoint_key label_merge
        (label_row source now l) (d_outpoints d) \<rparr>"]]
    show ?case by simp
  qed (simp add: unmoved_same)
  then show "label_outpoints source labels now d = Inr (n, d') \<Longrightarrow> unmoved d d'"
    by (auto simp: label_outpoints_def Let_def split: if_splits)
qed

interpretation unmoved: fetch_relation unmoved
proof
  show "unmoved a b \<Longrightarrow> unmoved b c \<Longrightarrow> unmoved a c" for a b c by (rule unmoved_trans)
  show "label_outpoints source labels now d = Inr (n, d') \<Longrightarrow> unmoved d d'" for source labels now d n d' by (rule unmoved_label)
qed (simp_all add: unmoved_same upsert_btc_tx_def)

text \<open>The outcome of one answer: it is in the result and in its row, or its outpoint is queued.\<close>

definition recorded :: "btc_out_point \<Rightarrow> spend_status \<Rightarrow> db \<Rightarrow> bool" where
  "recorded p s d \<longleftrightarrow> (\<exists>r \<in> set (d_outpoints d). outpoint_key r = row_key p \<and> status_columns r = columns_of s)"

definition queued :: "btc_out_point \<Rightarrow> db \<Rightarrow> bool" where
  "queued p d \<longleftrightarrow> row_key p \<in> queue_key ` set (d_queue d)"

lemma row_key_inject [simp]: "row_key p = row_key q \<longleftrightarrow> p = q"
  by (cases p; cases q) (auto simp: row_key_def)

lemma unmoved_recorded: "unmoved a b \<Longrightarrow> recorded p s a \<Longrightarrow> recorded p s b"
  unfolding unmoved_def recorded_def by metis

lemma unmoved_queued: "unmoved a b \<Longrightarrow> queued p a \<Longrightarrow> queued p b"
  by (simp add: unmoved_def queued_def)

lemma upsert_lands:
  "n \<in> set (upsert key merge n rows) \<or> (\<exists>r. key r = key n \<and> merge r n \<in> set (upsert key merge n rows))"
  by (induction rows) auto

lemma observed_recorded:
  fixes d :: db and address source now
  defines "d' \<equiv> \<lambda>p s. snd (upsert_observation (to_display_vec (bo_txid p)) (as_i32 (bo_vout p)) s address source now d)"
  shows "recorded p s (d' p s)" "q \<noteq> p \<Longrightarrow> recorded q t d \<Longrightarrow> recorded q t (d' p s)" "queued q d \<Longrightarrow> queued q (d' p s)"
proof -
  let ?n = "observed_row (to_display_vec (bo_txid p)) (as_i32 (bo_vout p)) s address source now"
  have rows: "d_outpoints (d' p s) = upsert outpoint_key observation_merge ?n (d_outpoints d)"
    by (simp add: d'_def upsert_observation_def)
  have n: "outpoint_key ?n = row_key p" by (simp add: row_key_def)
  have cols: "status_columns ?n = columns_of s" "status_columns (observation_merge r ?n) = columns_of s" for r
    by (simp_all add: status_columns_def columns_of_def observed_row_def observation_merge_def)
  have k: "outpoint_key (observation_merge r ?n) = outpoint_key r" for r
    by (simp add: outpoint_key_def observation_merge_def)
  show "recorded p s (d' p s)"
    unfolding recorded_def rows using upsert_lands [of ?n outpoint_key observation_merge "d_outpoints d"] n cols k by metis
  show "recorded q t (d' p s)" if "q \<noteq> p" "recorded q t d"
  proof -
    from that(2) obtain r where r: "r \<in> set (d_outpoints d)" "outpoint_key r = row_key q" "status_columns r = columns_of t"
      unfolding recorded_def by blast
    then have "outpoint_key r \<noteq> outpoint_key ?n" using that(1) n by simp
    with upsert_keeps_row [OF r(1), of outpoint_key observation_merge ?n] r show ?thesis
      unfolding recorded_def rows by blast
  qed
  show "queued q d \<Longrightarrow> queued q (d' p s)" by (simp add: queued_def d'_def upsert_observation_def)
qed

definition accounted :: "btc_out_point \<times> (btc_error + spend_status) \<Rightarrow> outpoint_refresh list \<Rightarrow> db \<Rightarrow> bool" where
  "accounted a out d \<longleftrightarrow>
     (case snd a of
        Inr s \<Rightarrow> (\<exists>o' \<in> set out. orf_outpoint o' = fst a \<and> orf_status o' = s) \<and> recorded (fst a) s d
      | Inl err \<Rightarrow> queued (fst a) d)"

lemma enqueue_queued:
  "queued p (enqueue_refresh (to_display_vec (bo_txid p)) (as_i32 (bo_vout p)) reason prio now d)"
  "queued q d \<Longrightarrow> queued q (enqueue_refresh txid vout reason prio now d)"
  "recorded q s d \<Longrightarrow> recorded q s (enqueue_refresh txid vout reason prio now d)"
proof -
  have k: "queue_key (fresh_entry op reason prio now) = op" for op by (simp add: queue_key_def fresh_entry_def)
  have "queue_key ` set (d_queue (enqueue_refresh t v reason prio now d)) = insert (t, v) (queue_key ` set (d_queue d))" for t v
    using queue_reason_table.upsert_keys [of "fresh_entry (t, v) reason prio now" "d_queue d"] by (simp add: enqueue_refresh_def k)
  then show "queued p (enqueue_refresh (to_display_vec (bo_txid p)) (as_i32 (bo_vout p)) reason prio now d)"
    "queued q d \<Longrightarrow> queued q (enqueue_refresh txid vout reason prio now d)"
    by (auto simp: queued_def row_key_def)
qed (simp add: recorded_def enqueue_refresh_def)

lemma resolve_still:
  "queued q (snd (resolve_anomalies_for_outpoint txid vout now d)) = queued q d"
  "recorded q s (snd (resolve_anomalies_for_outpoint txid vout now d)) = recorded q s d"
  by (simp_all add: queued_def recorded_def resolve_anomalies_for_outpoint_def resolve_where_def Let_def)

lemma refresh_one_step:
  assumes "refresh_one e x src a out w = (Inr out', w')"
  shows "accounted a out' (w_db w') \<and> (\<forall>b. fst b \<noteq> fst a \<longrightarrow> accounted b out (w_db w) \<longrightarrow> accounted b out' (w_db w'))"
proof (cases "snd a")
  case (Inl err)
  with assms have out: "out' = out" and db: "\<exists>now. w_db w' = enqueue_refresh (to_display_vec (bo_txid (fst a))) (as_i32 (bo_vout (fst a)))
      ''refresh-failed'' ON_DEMAND now (w_db w)"
    by (auto simp: refresh_one_def Let_def io_bind_Inr of_store_Inr dest: execute_Inr)
  then show ?thesis
    using Inl by (auto simp: accounted_def enqueue_queued split: sum.splits)
next
  case (Inr s)
  from assms Inr obtain changed w1 w2 w3 where
    obs: "record_observation e src (fst a) s None w = (Inr changed, w1)" and
    follow: "(if changed \<and> is_spent s then follow_up_spend e x src s else io_ret ()) w1 = (Inr (), w2)" and
    res: "(if \<not> is_spent s then io_bind (of_store (sql e (resolve_anomalies_for_outpoint
        (to_display_vec (bo_txid (fst a))) (as_i32 (bo_vout (fst a)))))) (\<lambda>_. io_ret ()) else io_ret ()) w2 = (Inr (), w3)" and
    out: "out' = out @ [\<lparr> orf_outpoint = fst a, orf_status = s, orf_changed = changed \<rparr>]" "w' = w3"
    by (auto simp: refresh_one_def Let_def io_bind_Inr)
  from obs have d1: "w_db w1 = snd (upsert_observation (to_display_vec (bo_txid (fst a))) (as_i32 (bo_vout (fst a))) s None
      (bs_name src) (e_now e (w_tick w)) (w_db w))"
    by (auto simp: record_observation_def of_store_Inr sql_Inr)
  have "obeys unmoved (if changed \<and> is_spent s then follow_up_spend e x src s else io_ret ())"
    unfolding follow_up_spend_def by (intro unmoved.obeys_rules unmoved.obeys_refresh_btc_tx)
  with follow have d2: "unmoved (w_db w1) (w_db w2)" unfolding obeys_def by (metis snd_conv)
  have d3: "recorded q t (w_db w3) = recorded q t (w_db w2)" "queued q (w_db w3) = queued q (w_db w2)" for q t
    using res by (auto simp: io_bind_Inr of_store_Inr sql_Inr resolve_still split: if_splits)
      (metis resolve_still snd_conv)+
  have "recorded (fst a) s (w_db w')"
    unfolding out d3 by (rule unmoved_recorded [OF d2]) (simp only: d1 observed_recorded(1))
  moreover have "recorded q t (w_db w')" if "q \<noteq> fst a" "recorded q t (w_db w)" for q t
    unfolding out d3 by (rule unmoved_recorded [OF d2]) (simp only: d1 observed_recorded(2) [OF that])
  moreover have "queued q (w_db w')" if "queued q (w_db w)" for q
    unfolding out d3 by (rule unmoved_queued [OF d2]) (simp only: d1 observed_recorded(3) [OF that])
  ultimately show ?thesis
    unfolding out using Inr by (auto simp: accounted_def split: sum.splits)
qed

lemma overflow_queued:
  assumes "enqueue_refresh_many e (map row_key ps) reason prio w = (Inr n, w')" "p \<in> set ps"
  shows "queued p (w_db w')"
proof -
  from assms obtain now d' where e: "enqueue_rows (map row_key ps) reason prio now (w_db w) = Inr (n, d')" "w_db w' = d'"
    by (auto simp: enqueue_refresh_many_def sql_res_def split: option.splits sum.splits if_splits prod.splits)
  have k: "map queue_key (map (\<lambda>op. fresh_entry op reason prio now) (map row_key ps)) = map row_key ps"
    by (simp add: queue_key_def fresh_entry_def)
  have "d_queue d' = fold (upsert queue_key promote) (map (\<lambda>op. fresh_entry op reason prio now) (map row_key ps)) (d_queue (w_db w))"
    using e(1) by (auto simp: enqueue_rows_def split: if_splits)
  then have "set (map queue_key (d_queue d')) = set (map row_key ps) \<union> set (map queue_key (d_queue (w_db w)))"
    unfolding queue_table.fold_upsert_keys [of "map (\<lambda>op. fresh_entry op reason prio now) (map row_key ps)", unfolded k, symmetric]
    by simp
  then have "row_key p \<in> set (map queue_key (d_queue d'))" using assms(2) by simp
  then show ?thesis using e(2) by (simp add: queued_def)
qed

text \<open>A refresh only ever adds to the queue.\<close>

definition queue_grows :: "db \<Rightarrow> db \<Rightarrow> bool" where
  "queue_grows a b \<longleftrightarrow> queue_key ` set (d_queue a) \<subseteq> queue_key ` set (d_queue b)"

interpretation queue_grows: refresh_relation queue_grows src for src
proof
  show "queue_grows d (enqueue_refresh txid vout reason prio now d)" for d txid vout reason prio now
    using queue_reason_table.upsert_keys [of "fresh_entry (txid, vout) reason prio now" "d_queue d"]
    by (auto simp: queue_grows_def enqueue_refresh_def)
  show "enqueue_rows ops reason prio now d = Inr (n, d') \<Longrightarrow> queue_grows d d'" for ops reason prio now d n d'
    using queue_table.fold_upsert_keys [of "map (\<lambda>op. fresh_entry op reason prio now) ops" "d_queue d"]
    by (auto simp: queue_grows_def enqueue_rows_def split: if_splits)
qed (auto simp: queue_grows_def upsert_btc_tx_def upsert_observation_def resolve_anomalies_for_outpoint_def resolve_where_def Let_def
    dest!: label_outpoints_side)

lemma refresh_accounts:
  assumes "refresh_outpoints e x src cfg ops w = (Inr out, w')" "p \<in> set ops"
  shows "(\<exists>o' \<in> set out. orf_outpoint o' = p \<and> answered src p (orf_status o') \<and> recorded p (orf_status o') (w_db w')) \<or>
    queued p (w_db w')"
proof -
  let ?n = "min (length ops) (unat (rc_max_outpoints_per_request (c_reconcile cfg)))"
  from assms have "ops \<noteq> []" by auto
  with assms(1) obtain w1 rs w2 where
    over: "(if ?n < length ops
      then io_bind (of_store (enqueue_refresh_many e (map row_key (drop ?n ops)) ''request-overflow'' ON_DEMAND)) (\<lambda>_. io_ret ())
      else io_ret ()) w = (Inr (), w1)" and
    obs: "(observe_many src (take ?n ops) :: indexer_error observing) w1 = (Inr rs, w2)" and
    loop: "io_for rs [] (refresh_one e x src) w2 = (Inr out, w')"
    by (auto simp: refresh_outpoints_def Let_def io_bind_Inr)
  from observe_many_run [where 'e = indexer_error, of src "take ?n ops" w1] obs have rs: "set (map fst rs) = set (take ?n ops)" "distinct (map fst rs)"
    and w2: "w_db w2 = w_db w1" by simp_all
  from readsD [OF observe_many_reads obs refl] have ans: "all_answered src rs" by simp
  have inj: "fst a = fst b \<Longrightarrow> a = b" if "a \<in> set rs" "b \<in> set rs" for a b
    using rs(2) that by (auto simp: distinct_map dest: inj_onD)
  have each: "\<forall>a \<in> set rs. accounted a out (w_db w')"
    by (rule io_for_each [OF _ loop]) (metis inj refresh_one_step)
  have "obeys queue_grows (io_for rs [] (refresh_one e x src))"
    by (rule queue_grows.obeys_for_in, rule queue_grows.obeys_refresh_one)
      (use ans in \<open>auto simp: all_answered_def dest: sym simp flip: surjective_pairing\<close>)
  with loop have "queue_grows (w_db w2) (w_db w')" unfolding obeys_def by (metis snd_conv)
  with w2 have kept: "queued q (w_db w')" if "queued q (w_db w1)" for q
    using that by (auto simp: queue_grows_def queued_def)
  show ?thesis
  proof (cases "p \<in> set (take ?n ops)")
    case True
    then obtain r where r: "(p, r) \<in> set rs" using rs(1) by force
    from each r have "accounted (p, r) out (w_db w')" by blast
    with ans r show ?thesis by (cases r) (auto simp: accounted_def all_answered_def)
  next
    case False
    then have "p \<in> set (drop ?n ops)" using assms(2) by (metis append_take_drop_id Un_iff set_append)
    then have lt: "?n < length ops" by (cases "?n < length ops") auto
    from over [unfolded if_P [OF lt]] obtain k where
      "enqueue_refresh_many e (map row_key (drop ?n ops)) ''request-overflow'' ON_DEMAND w = (Inr k, w1)"
      by (auto simp: io_bind_Inr of_store_Inr)
    from overflow_queued [OF this \<open>p \<in> set (drop ?n ops)\<close>] have "queued p (w_db w1)" .
    with kept show ?thesis by blast
  qed
qed

section \<open>The walk of a sweep\<close>

text \<open>
  An outpoint is settled when its row holds an answer of the source about it, or it is
  queued. No statement of a refresh unsettles one.
\<close>

definition settled :: "btc_data_source \<Rightarrow> byte list \<times> int \<Rightarrow> db \<Rightarrow> bool" where
  "settled src k d \<longleftrightarrow> (\<exists>r \<in> set (d_outpoints d). outpoint_key r = k \<and> from_source src r) \<or> k \<in> queue_key ` set (d_queue d)"

definition settles_more :: "btc_data_source \<Rightarrow> db \<Rightarrow> db \<Rightarrow> bool" where
  "settles_more src a b \<longleftrightarrow> (\<forall>k. settled src k a \<longrightarrow> settled src k b)"

lemma settles_more_grows:
  assumes "queue_grows a b" "\<forall>r \<in> set (d_outpoints a). from_source src r \<longrightarrow> (\<exists>r' \<in> set (d_outpoints b). outpoint_key r' = outpoint_key r \<and> from_source src r')"
  shows "settles_more src a b"
  using assms unfolding settles_more_def settled_def queue_grows_def by blast

lemma from_source_cong: "outpoint_key r' = outpoint_key r \<Longrightarrow> status_columns r' = status_columns r \<Longrightarrow> from_source src r \<Longrightarrow> from_source src r'"
  by (simp add: from_source_def)

interpretation settles_more: refresh_relation "settles_more src" src for src
proof
  show "settles_more src d d" for d by (simp add: settles_more_def)
  show "settles_more src a b \<Longrightarrow> settles_more src b c \<Longrightarrow> settles_more src a c" for a b c by (simp add: settles_more_def)
  show "settles_more src d d'" if "label_outpoints source labels now d = Inr (n, d')" for source labels now d n d'
  proof (rule settles_more_grows)
    from unmoved_label [OF that] show "queue_grows d d'" by (simp add: unmoved_def queue_grows_def)
    from unmoved_label [OF that] show "\<forall>r \<in> set (d_outpoints d). from_source src r \<longrightarrow> (\<exists>r' \<in> set (d_outpoints d'). outpoint_key r' = outpoint_key r \<and> from_source src r')"
      unfolding unmoved_def by (metis from_source_cong)
  qed
  show "settles_more src d (snd (upsert_observation (to_display_vec (bo_txid p)) (as_i32 (bo_vout p)) s None (bs_name src) now d))"
    if "answered src p s" for p s d now
  proof (rule settles_more_grows)
    let ?d = "snd (upsert_observation (to_display_vec (bo_txid p)) (as_i32 (bo_vout p)) s None (bs_name src) now d)"
    show "queue_grows d ?d" by (simp add: queue_grows_def upsert_observation_def)
    have "\<exists>r' \<in> set (d_outpoints ?d). outpoint_key r' = outpoint_key r \<and> from_source src r'" if r: "r \<in> set (d_outpoints d)" "from_source src r" for r
    proof (cases "outpoint_key r = row_key p")
      case True
      from observed_recorded(1) [of p s None "bs_name src" now d] show ?thesis
        unfolding recorded_def True using \<open>answered src p s\<close> from_source_def by blast
    next
      case False
      then have "r \<in> set (d_outpoints ?d)"
        using upsert_keeps_row [OF r(1)] by (fastforce simp: upsert_observation_def row_key_def)
      with r(2) show ?thesis by blast
    qed
    then show "\<forall>r \<in> set (d_outpoints d). from_source src r \<longrightarrow> (\<exists>r' \<in> set (d_outpoints ?d). outpoint_key r' = outpoint_key r \<and> from_source src r')"
      by blast
  qed
  show "enqueue_rows ops reason prio now d = Inr (n, d') \<Longrightarrow> settles_more src d d'" for ops reason prio now d n d'
    by (rule settles_more_grows, erule queue_grows.enqueue_many) (auto dest!: enqueue_rows_side)
  show "settles_more src d (enqueue_refresh txid vout reason prio now d)" for txid vout reason prio now d
    by (rule settles_more_grows, rule queue_grows.enqueue) (auto simp: enqueue_refresh_def)
qed (auto simp: settles_more_def settled_def upsert_btc_tx_def resolve_anomalies_for_outpoint_def resolve_where_def Let_def)

lemma refresh_settles:
  assumes "refresh_outpoints e x src cfg ops w = (Inr out, w')" "p \<in> set ops"
  shows "settled src (row_key p) (w_db w')"
  using refresh_accounts [OF assms] unfolding recorded_def queued_def settled_def from_source_def by blast

end
