(* ===== verification/Sweep_Props.thy ===== *)
theory Sweep_Props
  imports Refresh_Props
begin

text \<open>
  The sweep: its walk over the live bindings ends and leaves none out, and the misspends it
  reports are justified by what the index and the data source say.
\<close>

section \<open>The walk ends\<close>

text \<open>A run that fails does so with another error than \<open>err\<close>.\<close>

definition avoids :: "'e \<Rightarrow> ('e, 'a) io \<Rightarrow> bool" where
  "avoids err m \<longleftrightarrow> (\<forall>w w'. m w \<noteq> (Inl err, w'))"

lemma avoids_ret: "avoids err (io_ret x)"
  by (simp add: avoids_def io_ret_def)

lemma avoids_bind: "avoids err m \<Longrightarrow> (\<And>x. avoids err (k x)) \<Longrightarrow> avoids err (io_bind m k)"
  by (auto simp: avoids_def io_bind_Inl)

lemma avoids_for: "(\<And>x s. avoids err (body x s)) \<Longrightarrow> avoids err (io_for xs s body)"
  by (induction xs arbitrary: s) (auto intro: avoids_ret avoids_bind)

lemma avoids_map_err: "(\<And>e. g e \<noteq> err) \<Longrightarrow> avoids err (io_map_err g m)"
  by (auto simp: avoids_def io_map_err_def split: prod.splits elim!: map_err.elims)

lemma avoids_attempt: "avoids err (io_attempt m)"
  by (auto simp: avoids_def io_attempt_def split: prod.splits)

lemma avoids_if: "avoids err a \<Longrightarrow> avoids err b \<Longrightarrow> avoids err (if c then a else b)"
  by simp

lemmas avoids_rules = avoids_ret avoids_bind avoids_for avoids_attempt avoids_if

lemma avoids_store: "avoids IEDiverged (of_store m)"
  unfolding of_store_def by (rule avoids_map_err) simp

lemma avoids_btc: "avoids IEDiverged (of_btc m)"
  unfolding of_btc_def by (rule avoids_map_err) simp

lemma refresh_avoids: "avoids IEDiverged (refresh_outpoints e x src cfg ops)"
proof -
  have many: "avoids IEDiverged (observe_many src ops)" for ops
    unfolding observe_many_def observe_group_def observe_each_def Let_def
    by (auto intro!: avoids_rules split: sum.split option.split)
  have one: "avoids IEDiverged (refresh_one e x src a out)" for a out
    unfolding refresh_one_def record_observation_def follow_up_spend_def refresh_btc_tx_def Let_def
    by (auto intro!: avoids_rules avoids_store avoids_btc split: sum.split option.split)
  show ?thesis
    unfolding refresh_outpoints_def Let_def by (intro avoids_rules avoids_store many one)
qed

text \<open>The work that is left past a cursor.\<close>

definition todo :: "(byte list \<times> int) option \<Rightarrow> db \<Rightarrow> (byte list \<times> int) set" where
  "todo c d = {op \<in> live_outpoints d. case c of None \<Rightarrow> True | Some k \<Rightarrow> k < op}"

lemma todo_past:
  assumes "k \<in> todo c d"
  shows "{op \<in> live_outpoints d. k < op} = {op \<in> todo c d. k < op}"
proof (cases c)
  case (Some c')
  with assms have "c' < k" by (simp add: todo_def)
  then have "k < op \<Longrightarrow> c' < op" for op by (rule less_trans)
  then show ?thesis by (simp add: todo_def Some) blast
qed (simp add: todo_def)

lemma finite_todo [simp]: "finite (todo c d)"
proof -
  have "live_outpoints d \<subseteq> the ` live_binding ` set (d_cells d)"
    unfolding live_outpoints_def by force
  then have "finite (live_outpoints d)" by (rule finite_subset) simp
  then show ?thesis by (simp add: todo_def)
qed

definition vouts_fit :: "db \<Rightarrow> bool" where
  "vouts_fit d \<longleftrightarrow> (\<forall>op \<in> live_outpoints d. - (2 ^ 31) \<le> snd op \<and> snd op < 2 ^ 31)"

lemma collect_each: "collect f xs = Inr ys \<Longrightarrow> x \<in> set xs \<Longrightarrow> \<exists>y \<in> set ys. f x = Inr y"
  by (fastforce simp: collect_Inr_iff list_all2_conv_all_nth in_set_conv_nth)

lemma page_points:
  assumes "page_out_points page = Inr ops" "op \<in> set page" "- (2 ^ 31) \<le> snd op" "snd op < 2 ^ 31"
  shows "\<exists>p \<in> set ops. row_key p = op"
proof -
  have i32: "as_i32 (as_u32 v) = v" if "- (2 ^ 31) \<le> v" "v < 2 ^ 31" for v
    using that by (simp add: as_i32_def as_u32_def signed_of_int signed_take_bit_int_eq_self)
  from assms(1,2) obtain p where p: "p \<in> set ops"
    "(case op of (txid, vout) \<Rightarrow> (case from_display_slice txid of Inl err \<Rightarrow> Inl (IETypes err)
       | Inr t \<Rightarrow> Inr \<lparr> bo_txid = t, bo_vout = as_u32 vout \<rparr>)) = Inr p"
    unfolding page_out_points_def by (blast dest: collect_each)
  then have "row_key p = op"
    using i32 [OF assms(3,4)]
    by (cases op) (auto simp: row_key_def from_display_slice_Inr split: sum.splits)
  with p(1) show ?thesis by blast
qed

lemma of_store_query: "of_store (query e f) w = (Inr x, w') \<Longrightarrow> w_db w' = w_db w \<and> x = f (e_now e (w_tick w)) (w_db w)"
  by (auto simp: of_store_Inr query_def sql_Inr)

lemma settles_sweep_pages: "obeys (settles_more src) (sweep_pages fuel e x src cfg cursor report)"
proof (induction fuel arbitrary: cursor report)
  case (Suc fuel)
  have "obeys (settles_more src) (sweep_page e x src cfg cursor)"
    unfolding sweep_page_def by (intro settles_more.obeys_rules settles_more.obeys_of_store settles_more.obeys_refresh_outpoints)
  then show ?case
    by (auto split: sum.split option.split intro!: settles_more.obeys_ret settles_more.obeys_bind [OF settles_more.obeys_attempt] Suc)
qed (simp add: settles_more.obeys_ret)

lemma sweep_page_step:
  assumes "sweep_page e x src cfg c w = (Inr r, w')" "vouts_fit (w_db w)"
  shows "live_outpoints (w_db w') = live_outpoints (w_db w) \<and> settles_more src (w_db w) (w_db w') \<and>
    (case r of
       None \<Rightarrow> 0 < sw_batch_size (c_sweep cfg) \<longrightarrow> todo c (w_db w) = {}
     | Some (c', refreshed) \<Rightarrow> \<exists>k \<in> todo c (w_db w). c' = Some k \<and> (\<forall>op \<in> todo c (w_db w). op \<le> k \<longrightarrow> settled src op (w_db w')))"
proof -
  from assms(1) obtain page w1 where q: "of_store (query e (\<lambda>now. live_bound_outpoints_after (map_option fst c)
      (unwrap_or 0 (map_option snd c)) (sw_batch_size (c_sweep cfg)))) w = (Inr page, w1)" and
    rest: "(if page = [] then io_ret None else
       io_bind (io_of (page_out_points page))
       (\<lambda>outpoints. io_bind (refresh_outpoints e x src cfg outpoints)
       (\<lambda>refreshed. io_ret (Some (last_opt page, refreshed))))) w1 = (Inr r, w')"
    unfolding sweep_page_def io_bind_Inr by blast
  from of_store_query [OF q] have w1: "w_db w1 = w_db w"
    and page_def: "page = live_bound_outpoints_after (map_option fst c) (unwrap_or 0 (map_option snd c)) (sw_batch_size (c_sweep cfg)) (w_db w)"
    by simp_all
  have after: "after_cursor (map_option fst c) (unwrap_or 0 (map_option snd c)) op = (case c of None \<Rightarrow> True | Some k \<Rightarrow> k < op)" for op
    by (cases c) (simp_all add: after_cursor_def)
  note page = live_page [where t = "map_option fst c" and v = "unwrap_or 0 (map_option snd c)"
      and limit = "sw_batch_size (c_sweep cfg)" and d = "w_db w", unfolded after, folded todo_def page_def]
  show ?thesis
  proof (cases "page = []")
    case True
    with rest have "r = None" "w' = w1" by simp_all
    with w1 True page(4) show ?thesis by (auto simp: settles_more.rel_refl)
  next
    case False
    with rest obtain ops out where ops: "page_out_points page = Inr ops"
      and run: "refresh_outpoints e x src cfg ops w1 = (Inr out, w')" "r = Some (last_opt page, out)"
      by (auto simp: io_bind_Inr io_of_def)
    have "ckb_side (w_db w') = ckb_side (w_db w)"
      using obeys_keepsD [OF ckb_side_kept.obeys_refresh_outpoints run(1)] w1 by simp
    then have live: "live_outpoints (w_db w') = live_outpoints (w_db w)"
      by (simp add: ckb_side_def live_outpoints_def)
    have "obeys (settles_more src) (refresh_outpoints e x src cfg ops)" by (rule settles_more.obeys_refresh_outpoints)
    with run w1 have more: "settles_more src (w_db w) (w_db w')" unfolding obeys_def by (metis snd_conv)
    let ?k = "last page"
    have k: "?k \<in> set page" using False by simp
    have "settled src op (w_db w')" if "op \<in> todo c (w_db w)" "op \<le> ?k" for op
    proof -
      have "op \<in> set page"
      proof (cases "op = ?k")
        case False
        with that have "op < ?k" by simp
        from page(3) [OF k _ _ this] that(1) show ?thesis by (auto simp: todo_def split: option.splits)
      qed (simp add: k)
      moreover have "- (2 ^ 31) \<le> snd op \<and> snd op < 2 ^ 31"
        using assms(2) that(1) by (auto simp: vouts_fit_def todo_def)
      ultimately obtain p where "p \<in> set ops" "row_key p = op" using page_points [OF ops] by blast
      with refresh_settles [OF run(1)] show ?thesis by blast
    qed
    with live more run(2) k page(2) False show ?thesis by (auto simp: last_opt_def)
  qed
qed

text \<open>Fuel above the number of bindings left is enough, and then none of them is left out.\<close>

lemma sweep_pages_complete:
  "card (todo c (w_db w)) < fuel \<Longrightarrow> vouts_fit (w_db w) \<Longrightarrow>
   sweep_pages fuel e x src cfg c report w = (r, w') \<Longrightarrow>
   \<exists>report' err. r = Inr (report', err) \<and> err \<noteq> Some IEDiverged \<and>
     (err = None \<and> 0 < sw_batch_size (c_sweep cfg) \<longrightarrow> (\<forall>op \<in> todo c (w_db w). settled src op (w_db w')))"
proof (induction fuel arbitrary: c report w)
  case (Suc fuel)
  obtain rp w1 where p: "sweep_page e x src cfg c w = (rp, w1)" by (cases "sweep_page e x src cfg c w")
  show ?case
  proof (cases rp)
    case (Inl err)
    have "avoids IEDiverged (io_of (page_out_points ps))" for ps
      unfolding avoids_def io_of_def page_out_points_def
      by (auto dest!: collect_Inl split: sum.splits)
    then have "avoids IEDiverged (sweep_page e x src cfg c)"
      unfolding sweep_page_def by (intro avoids_rules avoids_store refresh_avoids)
    with p Inl have "err \<noteq> IEDiverged" unfolding avoids_def by blast
    with Suc.prems(3) p Inl show ?thesis by (auto simp: io_bind_def io_attempt_def io_ret_def)
  next
    case (Inr res)
    note step = sweep_page_step [OF p [unfolded Inr] Suc.prems(2)]
    show ?thesis
    proof (cases res)
      case None
      with step have "0 < sw_batch_size (c_sweep cfg) \<longrightarrow> todo c (w_db w) = {}" by simp
      with Suc.prems(3) p Inr None show ?thesis by (auto simp: io_bind_def io_attempt_def io_ret_def)
    next
      case (Some cr)
      obtain c' out where cr: "cr = (c', out)" by (cases cr)
      with step Some obtain k where k: "k \<in> todo c (w_db w)" "c' = Some k"
        "\<And>op. op \<in> todo c (w_db w) \<Longrightarrow> op \<le> k \<Longrightarrow> settled src op (w_db w1)"
        and live: "live_outpoints (w_db w1) = live_outpoints (w_db w)" by auto
      have todo: "todo c' (w_db w1) = {op \<in> todo c (w_db w). k < op}"
        using k(1) todo_past [OF k(1)] by (simp add: k(2) todo_def live)
      then have "todo c' (w_db w1) \<subset> todo c (w_db w)" using k(1) by auto
      from psubset_card_mono [OF finite_todo this] have "card (todo c' (w_db w1)) < fuel"
        using Suc.prems(1) by linarith
      moreover have "vouts_fit (w_db w1)" using Suc.prems(2) by (simp add: vouts_fit_def live)
      moreover have run: "sweep_pages fuel e x src cfg c' (count_refreshed out report) w1 = (r, w')"
        using Suc.prems(3) p Inr Some cr by (simp add: io_bind_def io_attempt_def)
      ultimately obtain report' err where r: "r = Inr (report', err)" "err \<noteq> Some IEDiverged"
        "err = None \<and> 0 < sw_batch_size (c_sweep cfg) \<Longrightarrow> \<forall>op \<in> todo c' (w_db w1). settled src op (w_db w')"
        using Suc.IH by blast
      have "obeys (settles_more src) (sweep_pages fuel e x src cfg c' (count_refreshed out report))"
        by (rule settles_sweep_pages)
      with run have "settles_more src (w_db w1) (w_db w')" unfolding obeys_def by (metis snd_conv)
      then have "settled src op (w_db w')" if "op \<in> todo c (w_db w)" "op \<le> k" for op
        using k(3) [OF that] unfolding settles_more_def by blast
      with r todo show ?thesis by (simp add: Ball_def not_le) (metis leI)
    qed
  qed
qed simp

section \<open>What a misspend needs\<close>

text \<open>
  The finding with this key and detail: an observation of the pending window says the
  outpoint was spent with enough confirmations, no transition of the spender is indexed,
  and the kind says whether the spender publishes a commitment.
\<close>

definition misspend :: "ext \<Rightarrow> btc_data_source \<Rightarrow> config \<Rightarrow> db \<Rightarrow> btc_tip \<Rightarrow> string \<Rightarrow> json \<Rightarrow> bool" where
  "misspend x src cfg d tip key detail \<longleftrightarrow>
     (\<exists>row p spender height answer n.
        row \<in> set (pending_ckb_outpoints 10000 d) \<and> observation_out_point row = Inr p \<and>
        observation_spend_status row = Inr (SpentConfirmed spender height) \<and>
        sw_misspend_grace_confirmations (c_sweep cfg) \<le> confirmations_at tip height \<and>
        transitions_by_btc_txid (to_display_vec spender) d = [] \<and>
        bs_transaction src n spender = Inr answer \<and>
        key = dedup_key (misspend_kind (Option.bind answer tx_commitment)) (out_point_to_string x p) \<and>
        detail = misspend_detail x spender height (confirmations_at tip height)
          (sw_misspend_grace_confirmations (c_sweep cfg)) (Option.bind answer tx_commitment))"

text \<open>Started with the transitions \<open>T\<close>: an open anomaly was open before, with its detail, or satisfies \<open>J\<close>.\<close>

definition found_only :: "(string \<Rightarrow> json \<Rightarrow> bool) \<Rightarrow> transition_row list \<Rightarrow> db \<Rightarrow> db \<Rightarrow> bool" where
  "found_only J T a b \<longleftrightarrow> (d_transitions a = T \<longrightarrow> d_transitions b = T \<and>
     (\<forall>r \<in> set (d_anomalies b). an_resolved_at r = None \<longrightarrow>
        (\<exists>r0 \<in> set (d_anomalies a). an_resolved_at r0 = None \<and> an_dedup_key r0 = an_dedup_key r \<and> an_detail r0 = an_detail r) \<or>
        J (an_dedup_key r) (an_detail r)))"

lemma found_only_same: "d_anomalies b = d_anomalies a \<Longrightarrow> d_transitions b = d_transitions a \<Longrightarrow> found_only J T a b"
  by (auto simp: found_only_def)

lemma found_only_trans:
  assumes "found_only J T a b" "found_only J T b c"
  shows "found_only J T a c"
  unfolding found_only_def
proof (intro impI conjI ballI)
  assume T: "d_transitions a = T"
  with assms show "d_transitions c = T" by (simp add: found_only_def)
  fix r assume r: "r \<in> set (d_anomalies c)" "an_resolved_at r = None"
  from assms(1) T have ab: "d_transitions b = T" "\<And>r. r \<in> set (d_anomalies b) \<Longrightarrow> an_resolved_at r = None \<Longrightarrow>
        (\<exists>r0 \<in> set (d_anomalies a). an_resolved_at r0 = None \<and> an_dedup_key r0 = an_dedup_key r \<and> an_detail r0 = an_detail r) \<or>
        J (an_dedup_key r) (an_detail r)" by (auto simp: found_only_def)
  from assms(2) ab(1) r have "(\<exists>r0 \<in> set (d_anomalies b). an_resolved_at r0 = None \<and> an_dedup_key r0 = an_dedup_key r \<and> an_detail r0 = an_detail r) \<or>
        J (an_dedup_key r) (an_detail r)" by (auto simp: found_only_def)
  with ab(2) show "(\<exists>r0 \<in> set (d_anomalies a). an_resolved_at r0 = None \<and> an_dedup_key r0 = an_dedup_key r \<and> an_detail r0 = an_detail r) \<or>
        J (an_dedup_key r) (an_detail r)" by metis
qed

interpretation found_only: fetch_relation "found_only J T" for J T
proof
  show "found_only J T d d" for d by (simp add: found_only_same)
  show "found_only J T a b \<Longrightarrow> found_only J T b c \<Longrightarrow> found_only J T a c" for a b c by (rule found_only_trans)
qed (auto intro!: found_only_same dest!: label_outpoints_side simp: upsert_btc_tx_def)

lemma found_only_anomaly:
  "J key detail \<Longrightarrow> found_only J T d (record_anomaly kind key btc_txid btc_vout ckb_tx ckb_index detail now d)"
  by (auto simp: found_only_def record_anomaly_def anomaly_merge_def dest!: upsert_rows [rotated])

lemma found_only_resolve: "found_only J T d (snd (resolve_anomalies_for_outpoint txid vout now d))"
  by (auto simp: found_only_def resolve_anomalies_for_outpoint_def resolve_where_def Let_def dest!: in_update_where)

section \<open>Runs from one database\<close>

definition obeys_from :: "(db \<Rightarrow> db \<Rightarrow> bool) \<Rightarrow> db \<Rightarrow> ('e, 'a) io \<Rightarrow> bool" where
  "obeys_from R d m \<longleftrightarrow> (\<forall>w. w_db w = d \<longrightarrow> R d (w_db (snd (m w))))"

lemma obeys_fromI: "obeys R m \<Longrightarrow> obeys_from R d m"
  by (auto simp: obeys_def obeys_from_def)

lemma obeys_from_query:
  "R d d \<Longrightarrow> (\<And>now. obeys_from R d (k (f now d))) \<Longrightarrow> obeys_from R d (io_bind (of_store (query e f)) k)"
  unfolding obeys_from_def io_bind_def of_store_def io_map_err_def query_def sql_def
  by (auto split: option.split)

lemma obeys_from_of:
  "R d d \<Longrightarrow> (\<And>x. r = Inr x \<Longrightarrow> obeys_from R d (k x)) \<Longrightarrow> obeys_from R d (io_bind (of_store (io_of r)) k)"
  unfolding obeys_from_def io_bind_def of_store_def io_map_err_def io_of_def by (cases r) auto

context db_relation
begin

lemma obeys_bind_value:
  assumes "obeys R m" "\<And>w x w'. m w = (Inr x, w') \<Longrightarrow> Q x" "\<And>x. Q x \<Longrightarrow> obeys R (k x)"
  shows "obeys R (io_bind m k)"
  unfolding obeys_def
proof
  fix w
  obtain r w' where m: "m w = (r, w')" by (cases "m w")
  have 1: "R (w_db w) (w_db w')" using assms(1) m unfolding obeys_def by (metis snd_conv)
  show "R (w_db w) (w_db (snd (io_bind m k w)))"
  proof (cases r)
    case (Inl e)
    with m 1 show ?thesis by (simp add: io_bind_def)
  next
    case (Inr x)
    with m have "obeys R (k x)" by (blast intro: assms(2,3))
    then have "R (w_db w') (w_db (snd (k x w')))" unfolding obeys_def by blast
    with 1 m Inr show ?thesis by (auto simp: io_bind_def intro: rel_trans)
  qed
qed

end

lemma refresh_btc_tx_answer: "refresh_btc_tx e x src txid w = (Inr r, w') \<Longrightarrow> \<exists>n. bs_transaction src n txid = Inr r"
  by (auto simp: refresh_btc_tx_def io_bind_Inr of_btc_def io_map_err_def io_call_def split: option.splits sum.splits prod.splits)

section \<open>Detection\<close>

lemma obeys_report:
  assumes "row \<in> set (pending_ckb_outpoints 10000 d0)" "observation_out_point row = Inr p"
    and "observation_spend_status row = Inr (SpentConfirmed spender height)"
    and "\<not> confirmations_at tip height < sw_misspend_grace_confirmations (c_sweep cfg)"
    and "transitions_by_btc_txid (to_display_vec spender) d0 = []"
  shows "obeys (found_only (misspend x src cfg d0 tip) T) (report_misspend e x src cfg tip p spender height found)"
  unfolding report_misspend_def Let_def
proof (rule found_only.obeys_bind_value [OF found_only.obeys_refresh_btc_tx refresh_btc_tx_answer], assumption)
  fix answer assume "\<exists>n. bs_transaction src n spender = Inr answer"
  with assms have "misspend x src cfg d0 tip (dedup_key (misspend_kind (Option.bind answer tx_commitment)) (out_point_to_string x p))
      (misspend_detail x spender height (confirmations_at tip height)
        (sw_misspend_grace_confirmations (c_sweep cfg)) (Option.bind answer tx_commitment))"
    unfolding misspend_def not_less by blast
  then show "obeys (found_only (misspend x src cfg d0 tip) T)
      (io_bind (of_store (execute e (record_anomaly (misspend_kind (Option.bind answer tx_commitment))
         (dedup_key (misspend_kind (Option.bind answer tx_commitment)) (out_point_to_string x p))
         (Some (to_display_vec (bo_txid p))) (Some (as_i32 (bo_vout p))) None None
         (misspend_detail x spender height (confirmations_at tip height)
           (sw_misspend_grace_confirmations (c_sweep cfg)) (Option.bind answer tx_commitment)))))
       (\<lambda>_. io_ret (found + 1)))"
    by (intro found_only.obeys_rules found_only.obeys_of_store found_only.obeys_execute found_only_anomaly)
qed

lemma obeys_misspend_row:
  assumes row: "row \<in> set (pending_ckb_outpoints 10000 d0)" and T: "d_transitions d0 = T"
  shows "obeys (found_only (misspend x src cfg d0 tip) T) (misspend_row e x src cfg tip row found)"
proof -
  let ?R = "found_only (misspend x src cfg d0 tip) T"
  have check: "obeys_from ?R d (check_spend e x src cfg tip p status found)"
    if d: "d_transitions d = T" and p: "observation_out_point row = Inr p" "observation_spend_status row = Inr status" for d p status
  proof (cases status)
    case (SpentConfirmed spender height)
    show ?thesis
    proof (cases "confirmations_at tip height < sw_misspend_grace_confirmations (c_sweep cfg)")
      case True
      then show ?thesis unfolding check_spend_def SpentConfirmed by (simp add: obeys_fromI found_only.obeys_ret)
    next
      case False
      have same: "transitions_by_btc_txid t d0 = transitions_by_btc_txid t d" for t
        using d T by (simp add: transitions_by_btc_txid_def)
      note report = obeys_report [OF row p [unfolded SpentConfirmed] False, unfolded same, of x src T e found]
      show ?thesis
        unfolding check_spend_def SpentConfirmed status_spender.simps status_height.simps option.case if_not_P [OF False]
      proof (rule obeys_from_query [where R = ?R, OF found_only.rel_refl])
        show "obeys_from ?R d (if transitions_by_btc_txid (to_display_vec spender) d \<noteq> [] then
            io_bind (of_store (sql e (resolve_anomalies_for_outpoint (to_display_vec (bo_txid p)) (as_i32 (bo_vout p)))))
            (\<lambda>_. io_ret found)
          else report_misspend e x src cfg tip p spender height found)"
          using report
          by (cases "transitions_by_btc_txid (to_display_vec spender) d = []")
            (auto intro!: obeys_fromI found_only.obeys_bind found_only.obeys_ret found_only.obeys_of_store
              found_only.obeys_sql found_only_resolve)
      qed
    qed
  qed (simp_all add: check_spend_def obeys_fromI found_only.obeys_ret)
  have "obeys_from ?R d (misspend_row e x src cfg tip row found)" if "d_transitions d = T" for d
    unfolding misspend_row_def
    by (intro obeys_from_of [where R = ?R, OF found_only.rel_refl] check that)
  then show ?thesis
    unfolding obeys_def obeys_from_def by (metis found_only_def)
qed

text \<open>The CKB index is within the allowed distance of its target.\<close>

definition index_caught_up :: "config \<Rightarrow> db \<Rightarrow> bool" where
  "index_caught_up cfg d \<longleftrightarrow>
     (\<exists>s target. get_stream_state CKB_STREAM d = Some s \<and> st_target s = Some target \<and>
        as_u64 (max (target - st_last_block_number s) 0) \<le> sw_require_synced_within_blocks (c_sweep cfg))"

lemma caught_up_run:
  assumes "indexer_is_caught_up e cfg w = (Inr b, w')"
  shows "w_db w' = w_db w \<and> b = index_caught_up cfg (w_db w)"
proof -
  from assms obtain st where q: "of_store (query e (\<lambda>now. get_stream_state CKB_STREAM)) w = (Inr st, w')"
    and b: "b = (case st of None \<Rightarrow> False | Some s \<Rightarrow> (case st_target s of None \<Rightarrow> False
      | Some target \<Rightarrow> \<not> as_u64 (max (target - st_last_block_number s) 0) > sw_require_synced_within_blocks (c_sweep cfg)))"
    unfolding indexer_is_caught_up_def io_bind_Inr by auto
  from of_store_query [OF q] b show ?thesis
    by (auto simp: index_caught_up_def not_less split: option.splits)
qed

lemma caught_up_reads: "obeys (keeps (\<lambda>d. d)) (indexer_is_caught_up e cfg)"
  unfolding indexer_is_caught_up_def by (intro keeps.obeys_rules keeps.obeys_of_store)

lemma detect_run:
  assumes "detect_misspends e x src cfg w = (r, w')"
  shows "found_only (\<lambda>key detail. index_caught_up cfg (w_db w) \<and>
      (\<exists>tip n. bs_tip src n = Inr tip \<and> misspend x src cfg (w_db w) tip key detail)) (d_transitions (w_db w)) (w_db w) (w_db w')"
    (is "found_only ?J ?T _ _")
proof -
  obtain rc w1 where c: "indexer_is_caught_up e cfg w = (rc, w1)" by (cases "indexer_is_caught_up e cfg w")
  have w1: "w_db w1 = w_db w"
    using obeys_keepsD [OF caught_up_reads c] .
  show ?thesis
  proof (cases "rc = Inr True")
    case False
    with assms c w1 have "w_db w' = w_db w"
      by (cases rc) (auto simp: detect_misspends_def io_bind_def io_ret_def)
    then show ?thesis by (simp add: found_only_same)
  next
    case True
    with c have up: "index_caught_up cfg (w_db w)" using caught_up_run by blast
    let ?rest = "io_bind (of_btc (io_call (bs_tip src)))
       (\<lambda>tip. io_bind (of_store (query e (\<lambda>now. pending_ckb_outpoints 10000)))
       (\<lambda>pending. io_for pending 0 (misspend_row e x src cfg tip)))"
    have run: "?rest w1 = (r, w')"
      using assms c True by (simp add: detect_misspends_def io_bind_def)
    have "obeys_from (found_only ?J ?T) (w_db w) ?rest"
      unfolding obeys_from_def
    proof (intro allI impI)
      fix v :: world assume v: "w_db v = w_db w"
      show "found_only ?J ?T (w_db w) (w_db (snd (?rest v)))"
      proof (cases "bs_tip src (w_tick v)")
        case (Inl err)
        then show ?thesis
          using v by (simp add: io_bind_def of_btc_def io_map_err_def io_call_def found_only_same)
      next
        case (Inr tip)
        have row: "obeys (found_only ?J ?T) (misspend_row e x src cfg tip row found)"
          if "row \<in> set (pending_ckb_outpoints 10000 (w_db w))" for row found
          using obeys_misspend_row [OF that refl, of x src cfg tip e found] up Inr
          unfolding obeys_def found_only_def by (metis (no_types, lifting))
        let ?loop = "io_bind (of_store (query e (\<lambda>now. pending_ckb_outpoints 10000)))
            (\<lambda>pending. io_for pending 0 (misspend_row e x src cfg tip))"
        have loop: "obeys_from (found_only ?J ?T) (w_db w) ?loop"
          by (intro obeys_from_query obeys_fromI found_only.obeys_for_in row found_only.rel_refl)
        have call: "of_btc (io_call (bs_tip src)) v = (Inr tip, tick v)"
          by (simp add: of_btc_def io_map_err_def io_call_def Inr)
        have eq: "?rest v = ?loop (tick v)"
          unfolding io_bind_def [of "of_btc (io_call (bs_tip src))"] call prod.case sum.case ..
        have "w_db (tick v) = w_db w" using v by simp
        then show ?thesis unfolding eq by (rule loop [unfolded obeys_from_def, rule_format])
      qed
    qed
    from this [unfolded obeys_from_def, rule_format, OF w1] show ?thesis unfolding run snd_conv .
  qed
qed

section \<open>A sample misspend\<close>

text \<open>One live binding, spent on Bitcoin at height 100 by a transaction without a transition.\<close>

definition bound_db :: db where
  "bound_db = empty_db\<lparr> d_cells := [fresh_cell 0 sample_cell] \<rparr>"

lemma bound_db_live: "live_outpoints (w_db (world_of bound_db)) = {(replicate 32 7, 0)}"
  by (auto simp: live_outpoints_def live_binding_def bound_db_def world_of_def sample_cell_def fresh_cell_def new_cell.defs)

definition spent_row :: observation_row where
  "spent_row = observed_row (replicate 32 7) 0 (SpentConfirmed (BtcTxid zero32) 100) None ''ref'' 0"

definition synced_stream :: stream_state where
  "synced_stream = \<lparr> st_stream = CKB_STREAM, st_last_block_number = 120,
        st_last_block_hash = None, st_target = Some 120, st_chain_tip = Some 144, st_reorg_lag = 24, st_last_error = None, st_updated_at = 0 \<rparr>"

definition misspent_db :: db where
  "misspent_db = bound_db\<lparr> d_outpoints := [spent_row], d_streams := [synced_stream] \<rparr>"

lemma misspent_run:
  "\<exists>w'. detect_misspends quiet_env ref_ext (ref_source (\<lambda>p. Unspent) (\<lambda>t. None) 105) sample_config (world_of misspent_db) = (Inr 1, w') \<and>
   (\<exists>a. d_anomalies (w_db w') = [a] \<and> an_resolved_at a = None)"
proof -
  let ?src = "ref_source (\<lambda>p. Unspent) (\<lambda>t. None) 105"
  have s: "observation_spend_status spent_row = Inr (SpentConfirmed (BtcTxid zero32) 100)"
    unfolding spent_row_def by (rule spend_status_observed) (simp_all add: observed_row_def as_i32_def)
  have p: "observation_out_point spent_row = Inr \<lparr> bo_txid = BtcTxid (mk32 (replicate 32 7)), bo_vout = 0 \<rparr>"
    by (simp add: spent_row_def observed_row_def observation_out_point_def from_display_slice_def as_u32_def)
  have pend: "pending_ckb_outpoints 10000 misspent_db = [spent_row]"
    by (simp add: pending_ckb_outpoints_def misspent_db_def bound_db_def limit_rows_def spent_row_def observed_row_def
       sample_cell_def fresh_cell_def new_cell.defs)
  have tr: "transitions_by_btc_txid t misspent_db = []" for t
    by (simp add: transitions_by_btc_txid_def misspent_db_def bound_db_def empty_db_def)
  have st: "get_stream_state CKB_STREAM misspent_db = Some synced_stream"
    by (simp add: get_stream_state_def lookup_row_def misspent_db_def synced_stream_def)
  have up: "\<not> sw_require_synced_within_blocks (c_sweep sample_config) < as_u64 (max (120 - 120) 0)"
    by (simp add: as_u64_def)
  have late: "\<not> confirmations_at \<lparr> tip_height = 105, tip_hash = BtcBlockHash zero32 \<rparr> 100 < sw_misspend_grace_confirmations (c_sweep sample_config)"
    by (simp add: confirmations_at_def saturating_sub_def sample_config_def sweep_default_def)
  have empty: "d_anomalies misspent_db = []" by (simp add: misspent_db_def bound_db_def empty_db_def)
  have caught: "\<exists>w'. indexer_is_caught_up quiet_env sample_config (world_of misspent_db) = (Inr True, w') \<and> w_db w' = misspent_db"
    using up by (simp add: indexer_is_caught_up_def io_bind_def of_store_def io_map_err_def query_def sql_def world_of_def st io_ret_def synced_stream_def)
  then obtain w1 where c: "indexer_is_caught_up quiet_env sample_config (world_of misspent_db) = (Inr True, w1)" "w_db w1 = misspent_db" by blast
  have d: "detect_misspends quiet_env ref_ext ?src sample_config (world_of misspent_db) =
      misspend_row quiet_env ref_ext ?src sample_config \<lparr> tip_height = 105, tip_hash = BtcBlockHash zero32 \<rparr> spent_row 0 ((tick (tick w1))\<lparr> w_db := misspent_db \<rparr>)"
    using c by (simp add: detect_misspends_def io_bind_def of_store_def of_btc_def io_map_err_def query_def sql_def pend io_call_def ref_source_def
       io_ret_def split: prod.split sum.split)
  show ?thesis
    unfolding d misspend_row_def s p
    by (simp add: io_bind_def of_store_def io_map_err_def io_of_def check_spend_def late query_def sql_def tr report_misspend_def
        refresh_btc_tx_def of_btc_def io_call_def ref_source_def io_ret_def Let_def execute_def record_anomaly_def empty)
qed

section \<open>Properties\<close>

text \<open>
  C7.
  A refresh forgets nothing: whenever it succeeds, every outpoint it was given is answered
  (the answer is one the data source gave about that outpoint, it is returned, and the
  observation row holds it) or is in the refresh queue, whether it was beyond the cap of one
  request or the source failed on it.
\<close>

theorem refresh_forgets_nothing:
  assumes "refresh_outpoints e x src cfg ops w = (Inr out, w')" "p \<in> set ops"
  shows "(\<exists>r \<in> set out. orf_outpoint r = p \<and> answered src p (orf_status r) \<and> recorded p (orf_status r) (w_db w')) \<or>
    queued p (w_db w')"
  using assms by (rule refresh_accounts)

lemma refresh_forgets_nothing_witness:
  "\<exists>out w'. refresh_outpoints quiet_env ref_ext (ref_source (\<lambda>p. Unspent) (\<lambda>t. None) 0) sample_config [sample_point] (world_of empty_db) = (Inr out, w') \<and>
     ((\<exists>r \<in> set out. orf_outpoint r = sample_point \<and> recorded sample_point (orf_status r) (w_db w')) \<or> queued sample_point (w_db w'))"
proof -
  let ?src = "ref_source (\<lambda>p. Unspent) (\<lambda>t. None) 0"
  have "\<exists>out w'. refresh_outpoints quiet_env ref_ext ?src sample_config [sample_point] (world_of empty_db) = (Inr out, w')"
    by (simp add: refresh_outpoints_def sample_config_def reconcile_default_def observe_many_def group_by_txid_def
        distinct_sorted_def observe_group_def observe_each_def ref_source_def io_bind_def io_ret_def io_attempt_def io_call_def
        refresh_one_def record_observation_def of_store_def io_map_err_def sql_def Let_def split: prod.split)
  then obtain out w' where run: "refresh_outpoints quiet_env ref_ext ?src sample_config [sample_point] (world_of empty_db) = (Inr out, w')" by blast
  from refresh_forgets_nothing [OF run, of sample_point] run show ?thesis by auto
qed

text \<open>
  C9.
  A sweep ends and leaves no live binding out. With fuel above the number of live bindings
  the paging loop does not run out of it, whatever the data source answers and wherever the
  database fails; and when no step failed, every live binding ends with an answer of the
  source in its row or an entry in the queue.
\<close>

theorem sweep_visits_every_binding:
  assumes "card (live_outpoints (w_db w)) < fuel" "vouts_fit (w_db w)"
    and "sweep_pages fuel e x src cfg None report w = (r, w')"
  shows "\<exists>report' err. r = Inr (report', err) \<and> err \<noteq> Some IEDiverged \<and>
    (err = None \<and> 0 < sw_batch_size (c_sweep cfg) \<longrightarrow> (\<forall>op \<in> live_outpoints (w_db w). settled src op (w_db w')))"
proof -
  have "todo None (w_db w) = live_outpoints (w_db w)" by (simp add: todo_def)
  with sweep_pages_complete [of None w fuel e x src cfg report r w'] assms show ?thesis by simp
qed

lemma sweep_visits_every_binding_witness:
  "\<exists>report err. fst (sweep_pages 2 quiet_env ref_ext (ref_source (\<lambda>p. Unspent) (\<lambda>t. None) 0) sample_config None
     \<lparr> sp_checked = 0, sp_changed = 0, sp_found = 0 \<rparr> (world_of bound_db)) = Inr (report, err) \<and> err \<noteq> Some IEDiverged"
proof -
  let ?run = "sweep_pages 2 quiet_env ref_ext (ref_source (\<lambda>p. Unspent) (\<lambda>t. None) 0) sample_config None
     \<lparr> sp_checked = 0, sp_changed = 0, sp_found = 0 \<rparr> (world_of bound_db)"
  have "card (live_outpoints (w_db (world_of bound_db))) < 2" "vouts_fit (w_db (world_of bound_db))"
    unfolding vouts_fit_def bound_db_live by simp_all
  from sweep_visits_every_binding [OF this prod.collapse [of ?run, symmetric]] show ?thesis by blast
qed

text \<open>
  C8.
  Misspends are justified. Whatever fails during detection, an anomaly that is open
  afterwards was open before with the same detail, or the index was caught up and the
  anomaly names an outpoint of the pending window that the source said was spent with
  enough confirmations, by a transaction without an indexed transition, under the kind that
  tells whether that transaction publishes a commitment.
\<close>

theorem misspends_are_justified:
  assumes "detect_misspends e x src cfg w = (r, w')"
    and "a \<in> set (d_anomalies (w_db w'))" "an_resolved_at a = None"
  shows "(\<exists>a0 \<in> set (d_anomalies (w_db w)). an_resolved_at a0 = None \<and> an_dedup_key a0 = an_dedup_key a \<and> an_detail a0 = an_detail a) \<or>
    index_caught_up cfg (w_db w) \<and>
    (\<exists>tip n. bs_tip src n = Inr tip \<and> misspend x src cfg (w_db w) tip (an_dedup_key a) (an_detail a))"
  using detect_run [OF assms(1)] assms(2,3) by (simp add: found_only_def)

lemma misspends_are_justified_witness:
  "\<exists>w' a. detect_misspends quiet_env ref_ext (ref_source (\<lambda>p. Unspent) (\<lambda>t. None) 105) sample_config (world_of misspent_db) = (Inr 1, w') \<and>
     a \<in> set (d_anomalies (w_db w')) \<and>
     (\<exists>tip. misspend ref_ext (ref_source (\<lambda>p. Unspent) (\<lambda>t. None) 105) sample_config misspent_db tip (an_dedup_key a) (an_detail a))"
proof -
  from misspent_run obtain w' a where
    run: "detect_misspends quiet_env ref_ext (ref_source (\<lambda>p. Unspent) (\<lambda>t. None) 105) sample_config (world_of misspent_db) = (Inr 1, w')"
    and a: "d_anomalies (w_db w') = [a]" "an_resolved_at a = None" by blast
  have "a \<in> set (d_anomalies (w_db w'))" using a(1) by simp
  from misspends_are_justified [OF run this a(2)] run a(1) show ?thesis
    by (auto simp: world_of_def misspent_db_def bound_db_def empty_db_def)
qed

end
