(* ===== verification/Holdings.thy ===== *)
theory Holdings
  imports Store_Stats Store_Ckb_Props
begin

text \<open>
  What an address holds: the balances that \<open>asset_balances_for_outpoints\<close> of \<open>stats.rs\<close>
  aggregates over the SQL view, stated over the cells of the table, the rows of the
  observations and the status model of \<open>crates/types/src/state.rs\<close>.
\<close>

section \<open>The cells that count\<close>

text \<open>Cells bound to one of the outputs that are live by the two facts, or pending where those count too.\<close>

definition counts_as :: "bool \<Rightarrow> cell_status \<Rightarrow> bool" where
  "counts_as include_pending st \<longleftrightarrow> (case st of Live \<Rightarrow> True | PendingCkb \<Rightarrow> include_pending | _ \<Rightarrow> False)"

definition held_cells :: "(byte list \<times> int) list \<Rightarrow> bool \<Rightarrow> db \<Rightarrow> cell_db list" where
  "held_cells ops include_pending d =
     filter (\<lambda>c. (\<exists>op \<in> set ops. nc_btc_txid c = fst op \<and> nc_btc_vout c = Some (snd op)) \<and>
         counts_as include_pending
           (derive_cell_status (cd_consumed_block c \<noteq> None) (trusted_status (binding_observation d c))))
       (d_cells d)"

definition asset_of :: "cell_db \<Rightarrow> byte list option \<times> string" where
  "asset_of c = (nc_type_hash c, asset_as_str (nc_asset_kind c))"

lemma counted_statuses:
  "cell_status_as_str st \<in> set (if p then [''live'', ''pending_ckb''] else [''live'']) \<longleftrightarrow> counts_as p st"
  by (cases st) (auto simp: counts_as_def)

lemma binding_observation_wf:
  "list_all observation_wf (d_outpoints d) \<Longrightarrow>
   (case binding_observation d c of None \<Rightarrow> True | Some r \<Rightarrow> observation_wf r)"
  using lookup_row_key [of outpoint_key _ "d_outpoints d"]
  by (fastforce simp: binding_observation_def list_all_iff split: option.splits)

lemma view_columns:
  "cr_btc_vout (cell_status_row d c) = nc_btc_vout c" "cr_btc_txid (cell_status_row d c) = nc_btc_txid c"
  "cr_status (cell_status_row d c) = view_status c (binding_observation d c)"
  by (simp_all add: cell_status_row_def Let_def)

lemma balance_cells_held:
  assumes "list_all observation_wf (d_outpoints d)"
  shows "balance_cells ops p d = map (cell_status_row d) (held_cells ops p d)"
proof -
  have "((case nc_btc_vout c of None \<Rightarrow> False | Some v \<Rightarrow> (nc_btc_txid c, v) \<in> set ops) \<and>
      view_status c (binding_observation d c) \<in> set (if p then [''live'', ''pending_ckb''] else [''live''])) \<longleftrightarrow>
    ((\<exists>op \<in> set ops. nc_btc_txid c = fst op \<and> nc_btc_vout c = Some (snd op)) \<and>
      counts_as p (derive_cell_status (cd_consumed_block c \<noteq> None) (trusted_status (binding_observation d c))))" for c
    unfolding view_status_derived [OF binding_observation_wf [OF assms]] counted_statuses
    by (cases "nc_btc_vout c") (auto intro!: bexI [where x = "(nc_btc_txid c, the (nc_btc_vout c))"])
  then show ?thesis
    unfolding balance_cells_def cell_status_view_def held_cells_def filter_map comp_def
    by (intro arg_cong [where f = "map (cell_status_row d)"] filter_cong) (simp_all only: view_columns)
qed

lemma balance_group_row: "balance_group (cell_status_row d c) = asset_of c"
  by (simp add: balance_group_def cell_status_row_def asset_of_def Let_def)

lemma distinct_map_sort_key: "distinct (map f (sort_key k xs)) = distinct (map f xs)"
  by (intro mset_eq_imp_distinct_iff) simp

section \<open>Properties\<close>

text \<open>
  C37.
  A balance is what the cells say. Over observations whose status is one of the four and has a
  spender exactly if it is a spent one (every interleaving keeps them so), for the outputs asked for there is one group for each
  asset of a cell that counts and no other, in the order of kind and type hash; its count,
  capacity and amount are those of exactly the cells of the asset that count: cells of the
  table that are bound to one of the outputs, each once however often the output is named,
  not consumed on CKB, and not spent on Bitcoin by a trusted observation unless pending
  cells are asked for.
\<close>

theorem balances_exact:
  assumes "list_all observation_wf (d_outpoints d)" "bs = asset_balances_for_outpoints ops p d"
  shows "distinct (map (\<lambda>b. (ab_type_hash b, ab_asset_kind b)) bs) \<and> sorted (map balance_order bs) \<and>
    (\<lambda>b. (ab_type_hash b, ab_asset_kind b)) ` set bs = asset_of ` set (held_cells ops p d) \<and>
    (\<forall>b \<in> set bs. let cells = filter (\<lambda>c. asset_of c = (ab_type_hash b, ab_asset_kind b)) (held_cells ops p d) in
       ab_cell_count b = length cells \<and> ab_total_capacity b = sum_list (map nc_capacity cells) \<and>
       ab_total_amount b = sum_list (map (\<lambda>c. unwrap_or 0 (nc_udt_amount c)) cells))"
proof -
  let ?held = "held_cells ops p d"
  let ?row = "\<lambda>g. balance_row g (map (cell_status_row d) (filter (\<lambda>c. asset_of c = g) ?held))"
  have bs: "bs = sort_key balance_order (map ?row (remdups (map asset_of ?held)))"
    unfolding assms(2) asset_balances_for_outpoints_def Let_def balance_cells_held [OF assms(1)]
    by (simp add: balance_group_row comp_def filter_map)
  have "(ab_type_hash (?row g), ab_asset_kind (?row g)) = g" for g by (simp add: balance_row_def)
  then have groups: "map (\<lambda>b. (ab_type_hash b, ab_asset_kind b)) (map ?row gs) = gs" for gs by (simp add: comp_def)
  have distinct: "distinct (map (\<lambda>b. (ab_type_hash b, ab_asset_kind b)) bs)"
    unfolding bs distinct_map_sort_key groups by simp
  have names: "(\<lambda>b. (ab_type_hash b, ab_asset_kind b)) ` set bs = asset_of ` set ?held"
    unfolding bs set_sort set_map [symmetric] groups by simp
  show ?thesis
    using distinct names
    by (auto simp: bs balance_row_def Let_def comp_def cell_status_row_def)
qed

lemma balances_exact_witness:
  "\<exists>b. asset_balances_for_outpoints [(replicate 32 7, 0), (replicate 32 7, 0)] False
       (empty_db\<lparr> d_cells := [fresh_cell 0 sample_cell] \<rparr>) = [b] \<and>
     ab_cell_count b = 1 \<and> ab_total_capacity b = 100"
proof -
  let ?d = "empty_db\<lparr> d_cells := [fresh_cell 0 sample_cell] \<rparr>"
  let ?ops = "[(replicate 32 7, 0), (replicate 32 7, 0)] :: (byte list \<times> int) list"
  let ?bs = "asset_balances_for_outpoints ?ops False ?d"
  have held: "held_cells ?ops False ?d = [fresh_cell 0 sample_cell]"
    by (simp add: held_cells_def counts_as_def fresh_cell_def new_cell.defs sample_cell_def empty_db_def
        binding_observation_def lookup_row_def trusted_status_def derive_cell_status_def)
  have exact: "distinct (map (\<lambda>b. (ab_type_hash b, ab_asset_kind b)) ?bs)"
    "(\<lambda>b. (ab_type_hash b, ab_asset_kind b)) ` set ?bs = {asset_of (fresh_cell 0 sample_cell)}"
    "\<forall>b \<in> set ?bs. ab_cell_count b = length (filter (\<lambda>c. asset_of c = (ab_type_hash b, ab_asset_kind b)) [fresh_cell 0 sample_cell]) \<and>
      ab_total_capacity b = sum_list (map nc_capacity (filter (\<lambda>c. asset_of c = (ab_type_hash b, ab_asset_kind b)) [fresh_cell 0 sample_cell]))"
    using balances_exact [of ?d ?bs ?ops False] unfolding held by (simp_all add: empty_db_def Let_def)
  have "length ?bs = card (set (map (\<lambda>b. (ab_type_hash b, ab_asset_kind b)) ?bs))"
    using distinct_card [OF exact(1)] by simp
  then have "length ?bs = 1" unfolding set_map exact(2) by simp
  then obtain b where b: "?bs = [b]" by (auto simp: length_Suc_conv)
  have "asset_of (fresh_cell 0 sample_cell) = (ab_type_hash b, ab_asset_kind b)" using exact(2) unfolding b by simp
  then show ?thesis using exact(3) unfolding b
    by (simp add: fresh_cell_def new_cell.defs sample_cell_def)
qed

end
