(* ===== verification/Scanner_Live.thy ===== *)
theory Scanner_Live
  imports Scanner_Props
begin

text \<open>
  The scanner catches up. With a database that answers and a node that serves one chain
  whose flagged inputs are readable, every round below the settled height succeeds, so
  the passes of the loop bring the checkpoint to the settled height. The condition on the
  inputs is needed: a consumed cell that carries the code hash of a protocol lock with
  arguments that do not parse makes every round that meets it fail. And the scanner refuses
  to extend a checkpoint that the node no longer has.
\<close>

section \<open>A node that serves one chain\<close>

definition no_unreadable_inputs :: "config \<Rightarrow> (h256 \<Rightarrow> tx_with_status option) \<Rightarrow> tx_record \<Rightarrow> rpc_transaction \<Rightarrow> bool" where
  "no_unreadable_inputs cfg ans r tx \<longleftrightarrow>
     (\<forall>m \<in> set (txr_cells r). mc_io_type m = Input \<longrightarrow>
        unat (mc_io_index m) < length (rt_inputs tx) \<and>
        (\<forall>ptx kind. body_of ans (co_tx_hash (input_point tx m)) = Some ptx \<longrightarrow>
           unat (co_index (input_point tx m)) < length (rt_outputs ptx) \<longrightarrow>
           classify_lock (c_protocol cfg) (out_lock (rt_outputs ptx ! unat (co_index (input_point tx m)))) = Some kind \<longrightarrow>
           (\<exists>b. binding_parse kind (s_args (out_lock (rt_outputs ptx ! unat (co_index (input_point tx m))))) = Inr b)))"

definition good_record :: "config \<Rightarrow> (h256 \<Rightarrow> tx_with_status option) \<Rightarrow> tx_record \<Rightarrow> bool" where
  "good_record cfg ans r \<longleftrightarrow> (\<exists>tx. body_of ans (txr_hash r) = Some tx \<and> no_unreadable_inputs cfg ans r tx)"

text \<open>
  Headers up to the tip and none above it; and a search with a block range holds the
  records of that range, page by page, for each range up to the tip.
\<close>

definition serves_headers :: "ckb_node \<Rightarrow> (u64 \<Rightarrow> rpc_header) \<Rightarrow> u64 \<Rightarrow> bool" where
  "serves_headers ck hdr tip \<longleftrightarrow> (\<forall>n b. cn_header ck n b = Inr (if b \<le> tip then Some (hdr b) else None))"

definition serves_chain ::
  "ext \<Rightarrow> ckb_node \<Rightarrow> config \<Rightarrow> (h256 \<Rightarrow> tx_with_status option) \<Rightarrow> (u64 \<Rightarrow> rpc_header) \<Rightarrow>
   (nat \<Rightarrow> byte list) \<Rightarrow> (lock_kind \<Rightarrow> tx_record list) \<Rightarrow> nat \<Rightarrow> u64 \<Rightarrow> bool" where
  "serves_chain x ck cfg ans hdr enc all fuel tip \<longleftrightarrow>
     stable_node ck ans \<and> serves_headers ck hdr tip \<and>
     (\<forall>from to. from \<le> to \<longrightarrow> to \<le> tip \<longrightarrow>
        serves_searches x ck cfg from to enc (\<lambda>kind. filter (in_range from to) (all kind)) fuel) \<and>
     (\<forall>kind. \<forall>r \<in> set (all kind). good_record cfg ans r)"

section \<open>Stored cells resolve\<close>

lemma resolved_new_cell_mirrors:
  assumes "ext_ok x" "mirrors x cfg ans (c :: new_cell)"
  shows "\<exists>r. resolved_from_new_cell x (c_protocol cfg) c p j = Inr r"
proof -
  from assms(2) obtain h tx i binding where ro: "readable_output (c_protocol cfg) (read_output tx i binding)"
    and t: "new_cell.truncate c = (build_new_cell x (c_assets cfg) h (read_output tx i binding) no_block)
          \<lparr> nc_block_number := nc_block_number c, nc_block_hash := nc_block_hash c,
            nc_created_tx_index := nc_created_tx_index c \<rparr>"
    unfolding mirrors_def mirrors_output_def by blast
  have "new_cell.truncate c = c" by (cases c) (simp add: new_cell.defs)
  with t obtain n bh ti where "c = (build_new_cell x (c_assets cfg) h (read_output tx i binding) no_block)
      \<lparr> nc_block_number := n, nc_block_hash := bh, nc_created_tx_index := ti \<rparr>" by metis
  then have "resolved_from_new_cell x (c_protocol cfg) c p j =
      resolved_from_new_cell x (c_protocol cfg) (build_new_cell x (c_assets cfg) h (read_output tx i binding) no_block) p j"
    by (simp add: resolved_from_new_cell_def Let_def split: sum.split)
  with rebuilt_from_batch [OF assms(1) ro] show ?thesis by simp
qed

lemma resolved_row_mirrors:
  assumes "ext_ok x" "mirrors x cfg ans (c :: cell_db)"
  shows "\<exists>r. resolved_from_row x (c_protocol cfg) (cell_status_row d c) p j = Inr r"
proof -
  from assms(2) obtain h tx i binding where ro: "readable_output (c_protocol cfg) (read_output tx i binding)"
    and t: "new_cell.truncate c = (build_new_cell x (c_assets cfg) h (read_output tx i binding) no_block)
          \<lparr> nc_block_number := nc_block_number c, nc_block_hash := nc_block_hash c,
            nc_created_tx_index := nc_created_tx_index c \<rparr>"
    unfolding mirrors_def mirrors_output_def by blast
  have sel: "nc_lock_kind c = nc_lock_kind (new_cell.truncate c)" "nc_lock_args c = nc_lock_args (new_cell.truncate c)"
    "nc_lock_hash c = nc_lock_hash (new_cell.truncate c)" "nc_type_script c = nc_type_script (new_cell.truncate c)"
    "nc_capacity c = nc_capacity (new_cell.truncate c)" "nc_cell_data c = nc_cell_data (new_cell.truncate c)"
    by (simp_all add: new_cell.defs)
  have "same_content c (build_new_cell x (c_assets cfg) h (read_output tx i binding) no_block)"
    unfolding same_content_def sel t by simp
  from rebuilt_from_row [OF assms(1) ro this] show ?thesis by blast
qed

section \<open>The phases of a round\<close>

lemma get_transaction_answers: "stable_node ck ans \<Longrightarrow> answers d (of_ckb (get_transaction ck h))"
  unfolding of_ckb_def get_transaction_def
  by (intro answers_map_err answers_call) (simp add: stable_node_def)

lemma get_transaction_reads: "stable_node ck ans \<Longrightarrow> reads d (of_ckb (get_transaction ck h)) (\<lambda>a. a = ans h)"
  unfolding of_ckb_def get_transaction_def
  by (intro reads_map_err reads_call) (simp add: stable_node_def)

definition input_ok :: "config \<Rightarrow> (h256 \<Rightarrow> tx_with_status option) \<Rightarrow> ckb_out_point \<Rightarrow> bool" where
  "input_ok cfg ans p \<longleftrightarrow> (\<forall>ptx kind. body_of ans (co_tx_hash p) = Some ptx \<longrightarrow>
     unat (co_index p) < length (rt_outputs ptx) \<longrightarrow>
     classify_lock (c_protocol cfg) (out_lock (rt_outputs ptx ! unat (co_index p))) = Some kind \<longrightarrow>
     (\<exists>b. binding_parse kind (s_args (out_lock (rt_outputs ptx ! unat (co_index p)))) = Inr b))"

lemma backfill_answers:
  assumes "stable_node ck ans" "input_ok cfg ans p"
  shows "answers d (backfill_input e x ck cfg p j acc)"
  unfolding backfill_input_def
proof (rule answers_bind [OF get_transaction_answers [OF assms(1)] get_transaction_reads [OF assms(1)]])
  fix a assume "a = ans (co_tx_hash p)"
  with assms(2) show "answers d (backfill_answer e x cfg p j acc a)"
    unfolding backfill_answer_def Let_def input_ok_def body_of_def
    by (auto split: option.split sum.split intro!: answers_ret answers_bind [OF answers_clock reads_clock [of "\<lambda>_. True"]])
qed

lemma resolve_answers:
  assumes "ext_ok x" "stable_node ck ans" "\<And>n. e_fault e n = None"
    and "batch_mirrors x cfg ans (fst acc)" "cells_mirror x cfg ans d" "input_ok cfg ans p"
  shows "answers d (resolve_input e x ck cfg p j acc)"
proof (cases "find (\<lambda>c. nc_tx_hash c = h256_to_vec (co_tx_hash p) \<and> nc_index c = as_i32 (co_index p)) (ib_cells (fst acc))")
  case (Some c)
  then have "c \<in> set (ib_cells (fst acc))" by (auto simp: find_Some_iff)
  with assms(4) have "mirrors x cfg ans c" by (simp add: batch_mirrors_def)
  from resolved_new_cell_mirrors [OF assms(1) this, of p j] obtain r
    where "resolved_from_new_cell x (c_protocol cfg) c p j = Inr r" by blast
  with Some show ?thesis by (simp add: resolve_input_def Let_def answers_def io_bind_def io_of_def io_ret_def)
next
  case None
  let ?found = "cell_by_out_point (h256_to_vec (co_tx_hash p)) (as_i32 (co_index p)) d"
  have row: "\<exists>r. resolved_from_row x (c_protocol cfg) row p j = Inr r" if "?found = Some row" for row
  proof -
    from that obtain c where "c \<in> set (d_cells d)" "row = cell_status_row d c"
      by (auto simp: cell_by_out_point_def cell_status_view_def find_Some_iff) (metis nth_mem)
    with assms(5) resolved_row_mirrors [OF assms(1)] show ?thesis by (auto simp: cells_mirror_def)
  qed
  show ?thesis
    unfolding resolve_input_def Let_def None option.case of_store_def
  proof (rule answers_bind [OF answers_map_err [OF answers_query [OF assms(3)]]
        reads_map_err [OF reads_query [where Q = "\<lambda>r. r = ?found"]]])
    fix found assume f: "found = ?found"
    show "answers d (case found of
             Some row \<Rightarrow> io_bind (io_of (resolved_from_row x (c_protocol cfg) row p j)) (\<lambda>r. io_ret (Some r, acc))
           | None \<Rightarrow> backfill_input e x ck cfg p j acc)"
    proof (cases found)
      case None
      then show ?thesis using backfill_answers [OF assms(2,6)] by simp
    next
      case (Some row)
      with f row obtain r where "resolved_from_row x (c_protocol cfg) row p j = Inr r" by metis
      with Some show ?thesis by (simp add: answers_def io_bind_def io_of_def io_ret_def)
    qed
  qed simp
qed

lemma scan_record_answers:
  assumes ok: "ext_ok x" "stable_node ck ans" "\<And>n. e_fault e n = None" "cells_mirror x cfg ans d"
    and r: "good_record cfg ans r" "map_of headers (txr_block_number r) \<noteq> None" and m: "batch_mirrors x cfg ans (fst acc)"
  shows "answers d (scan_record e x ck cfg headers r acc)"
proof -
  from r(1) obtain tx where tx: "body_of ans (txr_hash r) = Some tx" "no_unreadable_inputs cfg ans r tx"
    unfolding good_record_def by blast
  then obtain ws where ws: "ans (txr_hash r) = Some ws" "ws_transaction ws = Some tx"
    by (auto simp: body_of_def split: bind_splits)
  have inputs: "answers d (resolve_inputs e x ck cfg r tx acc)"
    unfolding resolve_inputs_def
  proof (rule answers_for [where Inv = "\<lambda>st. batch_mirrors x cfg ans (fst (snd st))"], goal_cases)
    case 1
    then show ?case using m by simp
  next
    case (2 c st)
    obtain res a where st: "st = (res, a)" by (cases st)
    with 2 have a: "batch_mirrors x cfg ans (fst a)" by simp
    have io: "unat (mc_io_index c) < length (rt_inputs tx)" "input_ok cfg ans (input_point tx c)"
      using tx(2) 2(1) by (auto simp: no_unreadable_inputs_def input_ok_def)
    note rd = resolve_reads [OF ok(2) a, of d e "input_point tx c" "mc_io_index c"]
    note an = resolve_answers [OF ok(1,2,3) a ok(4) io(2), where j = "mc_io_index c"]
    show ?case
      unfolding st prod.case
    proof (simp only: io(1) not_True_eq_False if_False, rule conjI)
      show "reads d (io_bind (resolve_input e x ck cfg (ri_previous_output (rt_inputs tx ! unat (mc_io_index c))) (mc_io_index c) a)
            (\<lambda>(found, acc). case found of Some i \<Rightarrow> io_ret (res @ [i], acc) | None \<Rightarrow> io_ret (res, acc)))
          (\<lambda>st. batch_mirrors x cfg ans (fst (snd st)))"
        by (rule reads_bind [OF rd [unfolded input_point_def]]) (auto split: option.split intro!: reads_ret)
      show "answers d (io_bind (resolve_input e x ck cfg (ri_previous_output (rt_inputs tx ! unat (mc_io_index c))) (mc_io_index c) a)
            (\<lambda>(found, acc). case found of Some i \<Rightarrow> io_ret (res @ [i], acc) | None \<Rightarrow> io_ret (res, acc)))"
        by (rule answers_bind [OF an [unfolded input_point_def] rd [unfolded input_point_def]])
          (auto split: option.split intro!: answers_ret)
    qed
  qed
  have process: "answers d (process_transaction e x ck cfg r block ws acc)" for block
    unfolding process_transaction_def ws(2) option.case
    by (rule answers_bind [OF inputs resolve_inputs_reads [OF ok(2) m]]) (auto intro: answers_ret)
  show ?thesis
    unfolding scan_record_def
  proof (rule answers_bind [OF get_transaction_answers [OF ok(2)] get_transaction_reads [OF ok(2)]])
    fix a assume "a = ans (txr_hash r)"
    with ws r(2) process show "answers d (case a of
        None \<Rightarrow> io_fail (IEInconsistent (''rich indexer reported transaction '' @ h256_to_hex x (txr_hash r)
          @ '' which the node cannot return''))
      | Some with_status \<Rightarrow>
        (case map_of headers (txr_block_number r) of
           None \<Rightarrow> io_fail (IEInconsistent (''no header fetched for block '' @ show_nat (unat (txr_block_number r))))
         | Some header \<Rightarrow>
           io_bind (io_clock e) (\<lambda>now.
             process_transaction e x ck cfg r
               \<lparr> bctx_number = txr_block_number r, bctx_hash = rh_hash header,
                 bctx_timestamp = ckb_timestamp x now (rh_timestamp header), bctx_tx_index = txr_index r \<rparr>
               with_status acc)))"
      by (auto intro!: answers_bind [OF answers_clock reads_clock [of "\<lambda>_. True"]])
  qed
qed

section \<open>Headers and the merged list\<close>

lemma header_at_run: "serves_headers ck hdr tip \<Longrightarrow> b \<le> tip \<Longrightarrow> header_at ck b w = (Inr (hdr b), tick w)"
  by (simp add: serves_headers_def header_at_def io_bind_def of_ckb_def io_map_err_def get_header_by_number_def io_call_def io_of_def)

lemma fetch_headers_run:
  assumes "serves_headers ck hdr tip" "\<forall>r \<in> set records. txr_block_number r \<le> tip"
  shows "\<exists>w'. fetch_headers ck records w =
      (Inr (map (\<lambda>b. (b, hdr b)) (distinct_sorted (map txr_block_number records))), w') \<and> w_db w' = w_db w"
proof -
  have run: "\<forall>b \<in> set bs. b \<le> tip \<Longrightarrow> \<exists>w'. io_for bs out (\<lambda>number out. io_bind (io_attempt (header_at ck number)) (\<lambda>r. io_ret (out @ [(number, r)]))) w =
      ((Inr (out @ map (\<lambda>b. (b, Inr (hdr b))) bs) :: indexer_error + _), w') \<and> w_db w' = w_db w" for bs out and w :: world
  proof (induction bs arbitrary: out w)
    case (Cons b bs)
    from Cons.prems have "b \<le> tip" "\<forall>b \<in> set bs. b \<le> tip" by simp_all
    with Cons.IH [of "out @ [(b, Inr (hdr b))]" "tick w"] show ?case
      by (simp add: io_bind_def io_attempt_def header_at_run [OF assms(1)] io_ret_def)
  qed (simp add: io_ret_def)
  have "\<forall>b \<in> set (distinct_sorted (map txr_block_number records)). b \<le> tip" using assms(2) by simp
  from run [OF this, of "[]" w] obtain w' where
    "io_for (distinct_sorted (map txr_block_number records)) [] (\<lambda>number out. io_bind (io_attempt (header_at ck number))
        (\<lambda>r. io_ret (out @ [(number, r)]))) w =
      ((Inr (map (\<lambda>b. (b, Inr (hdr b))) (distinct_sorted (map txr_block_number records))) :: indexer_error + _), w')"
    "w_db w' = w_db w" by auto
  moreover have "collect (\<lambda>(number, r). case r of Inl e \<Rightarrow> Inl e | Inr h \<Rightarrow> Inr (number, h)) (map (\<lambda>b. (b, Inr (hdr b))) bs) =
      (Inr (map (\<lambda>b. (b, hdr b)) bs) :: indexer_error + _)" for bs
    by (induction bs) auto
  ultimately show ?thesis by (simp add: fetch_headers_def io_bind_def io_of_def)
qed

lemma fetch_headers_reads_run:
  assumes "serves_headers ck hdr tip" "\<forall>r \<in> set records. txr_block_number r \<le> tip"
  shows "reads d (fetch_headers ck records) (\<lambda>h. h = map (\<lambda>b. (b, hdr b)) (distinct_sorted (map txr_block_number records)))"
  unfolding reads_def
proof (intro allI impI)
  fix w :: world
  assume "w_db w = d"
  with fetch_headers_run [OF assms, of w] show "w_db (snd (fetch_headers ck records w)) = d \<and>
      (\<forall>h. fst (fetch_headers ck records w) = Inr h \<longrightarrow> h = map (\<lambda>b. (b, hdr b)) (distinct_sorted (map txr_block_number records)))"
    by fastforce
qed

lemma fetch_headers_answers:
  assumes "serves_headers ck hdr tip" "\<forall>r \<in> set records. txr_block_number r \<le> tip"
  shows "answers d (fetch_headers ck records)"
  unfolding answers_def
proof (intro allI impI)
  fix w :: world
  from fetch_headers_run [OF assms, of w] show "\<exists>v. fst (fetch_headers ck records w) = Inr v" by fastforce
qed

text \<open>The records of a settled range are good, and their blocks have headers.\<close>

definition settled_record :: "config \<Rightarrow> (h256 \<Rightarrow> tx_with_status option) \<Rightarrow> u64 \<Rightarrow> tx_record \<Rightarrow> bool" where
  "settled_record cfg ans tip r \<longleftrightarrow> good_record cfg ans r \<and> txr_block_number r \<le> tip"

lemma good_record_merge:
  "good_record cfg ans old \<Longrightarrow> good_record cfg ans new \<Longrightarrow> record_key old = record_key new \<Longrightarrow>
   good_record cfg ans (merge_record old new)"
  by (auto simp: good_record_def merge_record_def record_key_def no_unreadable_inputs_def fold_push_cell ball_Un)

lemma upsert_keyed_all:
  "(\<forall>r \<in> set rows. P r) \<Longrightarrow> P n \<Longrightarrow> (\<And>r. P r \<Longrightarrow> key r = key n \<Longrightarrow> P (merge r n)) \<Longrightarrow>
   \<forall>r \<in> set (upsert key merge n rows). P r"
  by (induction rows) auto

lemma settled_record_merge:
  "settled_record cfg ans tip old \<Longrightarrow> settled_record cfg ans tip new \<Longrightarrow> record_key old = record_key new \<Longrightarrow>
   settled_record cfg ans tip (merge_record old new)"
  using good_record_merge [of cfg ans old new] by (simp add: settled_record_def merge_record_def)

lemma fold_good_records:
  "(\<forall>r \<in> set rows. settled_record cfg ans tip r) \<Longrightarrow> (\<forall>r \<in> set ns. settled_record cfg ans tip r) \<Longrightarrow>
   \<forall>r \<in> set (fold (upsert record_key merge_record) ns rows). settled_record cfg ans tip r"
proof (induction ns arbitrary: rows)
  case (Cons n ns)
  have "\<forall>r \<in> set (upsert record_key merge_record n rows). settled_record cfg ans tip r"
    using Cons.prems by (intro upsert_keyed_all settled_record_merge) auto
  with Cons show ?case by simp
qed simp

lemma collect_answers:
  assumes "pages_through x ck (with_block_range from (to + 1) (lock_prefix script)) enc all" "length all < fuel"
  shows "answers d (collect_transactions_in_range fuel x ck limit script from to)"
proof (cases "to < from")
  case True
  then show ?thesis by (simp add: collect_transactions_in_range_def answers_ret)
next
  case False
  have "0 < client_page_limit limit" by (simp add: client_page_limit_def less_max_iff_disj)
  note run = collect_pages_run [OF assms(1) this, of 0 fuel "from" to "[]", simplified cursor_at_def, simplified]
  show ?thesis
    unfolding answers_def
  proof (intro allI impI)
    fix w :: world
    from run [of w] assms(2) obtain w' where
      "collect_pages fuel x ck (with_block_range from (to + 1) (lock_prefix script)) (client_page_limit limit) from to None [] w =
        (Inr (Some (filter (in_range from to) all)), w')" by auto
    then show "\<exists>v. fst (collect_transactions_in_range fuel x ck limit script from to w) = Inr v"
      unfolding collect_transactions_in_range_def if_not_P [OF False] Let_def io_bind_def by (simp add: io_ret_def)
  qed
qed

lemma collect_range_good:
  assumes "serves_searches x ck cfg from to enc all fuel" "\<forall>kind. \<forall>r \<in> set (all kind). settled_record cfg ans tip r"
  shows "answers d (collect_range fuel x ck cfg from to)"
    and "reads d (collect_range fuel x ck cfg from to) (\<lambda>records. \<forall>r \<in> set records. settled_record cfg ans tip r)"
proof -
  let ?body = "\<lambda>kind merged. io_bind (of_ckb (collect_transactions_in_range fuel x ck (ckb_page_limit (c_ckb cfg))
          (lock_search_script (c_protocol cfg) kind) from to))
       (\<lambda>records. case records of None \<Rightarrow> io_fail IEDiverged
        | Some rs \<Rightarrow> io_ret (fold (upsert record_key merge_record) rs merged))"
  let ?Inv = "\<lambda>merged. \<forall>r \<in> set merged. settled_record cfg ans tip r"
  have pages: "pages_through x ck (with_block_range from (to + 1) (lock_prefix (lock_search_script (c_protocol cfg) kind))) enc (all kind)"
    "length (all kind) < fuel" for kind using assms(1) by (auto simp: serves_searches_def)
  note an = answers_map_err [OF collect_answers [OF pages]]
  note rd = reads_map_err [OF collect_reads [OF pages]]
  have step: "reads d (?body kind merged) ?Inv \<and> answers d (?body kind merged)" if inv: "?Inv merged" for kind merged
  proof (rule conjI)
    have good: "?Inv (fold (upsert record_key merge_record) rs merged)"
      if "set rs = set (filter (in_range from to) (all kind))" for rs
      using inv assms(2) that by (intro fold_good_records) auto
    show "reads d (?body kind merged) ?Inv"
      unfolding of_ckb_def by (rule reads_bind [OF rd]) (use good in \<open>auto intro!: reads_ret\<close>)
    show "answers d (?body kind merged)"
      unfolding of_ckb_def by (rule answers_bind [OF an rd]) (auto intro: answers_ret)
  qed
  have loop: "reads d (io_for [KRgbpp, KBtcTime] [] ?body) ?Inv"
    by (rule reads_for) (use step in auto)
  show "answers d (collect_range fuel x ck cfg from to)"
    unfolding collect_range_def
    by (rule answers_bind [OF answers_for [where Inv = ?Inv] loop]) (use step in \<open>auto intro: answers_ret\<close>)
  show "reads d (collect_range fuel x ck cfg from to) ?Inv"
    unfolding collect_range_def by (rule reads_bind [OF loop]) (auto intro!: reads_ret)
qed

section \<open>Statements of a database that answers\<close>

definition succeeds :: "('e, 'a) io \<Rightarrow> bool" where
  "succeeds m \<longleftrightarrow> (\<forall>w. \<exists>x w'. m w = (Inr x, w'))"

lemma succeeds_answers: "succeeds m \<Longrightarrow> answers d m"
  unfolding succeeds_def answers_def by (metis fst_conv)

lemma succeeds_ret: "succeeds (io_ret x)"
  by (simp add: succeeds_def io_ret_def)

lemma succeeds_bind: "succeeds m \<Longrightarrow> (\<And>x. succeeds (k x)) \<Longrightarrow> succeeds (io_bind m k)"
  unfolding succeeds_def
proof
  fix w :: world
  assume m: "\<forall>w. \<exists>x w'. m w = (Inr x, w')" and k: "\<And>x. \<forall>w. \<exists>y w'. k x w = (Inr y, w')"
  from m obtain x w1 where "m w = (Inr x, w1)" by blast
  moreover from k obtain y w2 where "k x w1 = (Inr y, w2)" by blast
  ultimately show "\<exists>y w'. io_bind m k w = (Inr y, w')" by (simp add: io_bind_def)
qed

lemma succeeds_for: "(\<And>x s. succeeds (body x s)) \<Longrightarrow> succeeds (io_for xs s body)"
  by (induction xs arbitrary: s) (auto intro: succeeds_ret succeeds_bind)

lemma succeeds_sql: "(\<And>n. e_fault e n = None) \<Longrightarrow> succeeds (sql e f)"
  by (simp add: succeeds_def sql_def split: prod.split)

lemma succeeds_execute: "(\<And>n. e_fault e n = None) \<Longrightarrow> succeeds (execute e f)"
  unfolding execute_def by (rule succeeds_sql)

lemma succeeds_of_store: "succeeds m \<Longrightarrow> succeeds (of_store m)"
  unfolding succeeds_def using of_store_Inr by metis

lemma succeeds_apply_batch:
  assumes "\<And>n. e_fault e n = None"
  shows "succeeds (apply_batch e b)"
proof -
  have body: "succeeds (apply_batch_in e b at)" for at
    unfolding apply_batch_in_def execute_at_def
    by (intro succeeds_bind succeeds_for succeeds_ret succeeds_execute succeeds_sql assms)
  have whole: "succeeds (io_bind (execute e (\<lambda>now d. d)) (\<lambda>_. io_bind (apply_batch_in e b at)
      (\<lambda>x. io_bind (execute e (\<lambda>now d. d)) (\<lambda>_. io_ret x))))" for at
    by (intro succeeds_bind succeeds_ret succeeds_execute body assms)
  show ?thesis
    unfolding succeeds_def
  proof
    fix w :: world
    from whole [of "e_now e (w_tick w)"] obtain x w' where
      "io_bind (execute e (\<lambda>now d. d)) (\<lambda>_. io_bind (apply_batch_in e b (e_now e (w_tick w)))
        (\<lambda>x. io_bind (execute e (\<lambda>now d. d)) (\<lambda>_. io_ret x))) w = (Inr x, w')"
      unfolding succeeds_def by blast
    then show "\<exists>x w'. apply_batch e b w = (Inr x, w')" by (simp add: apply_batch_def transaction_def)
  qed
qed

lemma succeeds_prune: "(\<And>n. e_fault e n = None) \<Longrightarrow> succeeds (prune_headers e cfg to)"
  unfolding prune_headers_def Let_def by (auto intro!: succeeds_bind succeeds_ret succeeds_of_store succeeds_sql)

lemma init_stream_answers:
  assumes "\<And>n. e_fault e n = None"
  shows "\<exists>state w'. init_stream e CKB_STREAM (ckb_start_block (c_ckb cfg)) w = (Inr state, w')"
proof -
  have "get_stream_state CKB_STREAM (insert_stream CKB_STREAM (ckb_start_block (c_ckb cfg)) now d) \<noteq> None" for now d
    by (simp add: get_stream_state_def insert_stream_def streams_table.lookup_upsert)
  then show ?thesis
    using assms by (simp add: init_stream_def io_bind_def execute_def query_def sql_def io_of_def) (metis not_None_eq ok_or.simps(2))
qed

section \<open>A round below the settled height succeeds\<close>

lemma range_settled:
  assumes "serves_chain x ck cfg ans hdr enc all fuel peak" "from \<le> to" "to \<le> peak"
  shows "answers d (collect_range fuel x ck cfg from to)"
    and "reads d (collect_range fuel x ck cfg from to) (\<lambda>records. \<forall>r \<in> set records. settled_record cfg ans peak r)"
proof -
  have "serves_searches x ck cfg from to enc (\<lambda>kind. filter (in_range from to) (all kind)) fuel"
    using assms by (simp add: serves_chain_def)
  moreover have "\<forall>kind. \<forall>r \<in> set (filter (in_range from to) (all kind)). settled_record cfg ans peak r"
    using assms by (auto simp: serves_chain_def settled_record_def in_range_def)
  ultimately show "answers d (collect_range fuel x ck cfg from to)"
    and "reads d (collect_range fuel x ck cfg from to) (\<lambda>records. \<forall>r \<in> set records. settled_record cfg ans peak r)"
    by (rule collect_range_good)+
qed

lemma scan_range_answers:
  assumes "ext_ok x" "\<And>n. e_fault e n = None" "serves_chain x ck cfg ans hdr enc all fuel peak" "cells_mirror x cfg ans d"
    and range: "from \<le> to" "to \<le> peak"
  shows "answers d (scan_range fuel e x ck cfg tip target from to)"
proof -
  have sc: "stable_node ck ans" "serves_headers ck hdr peak" using assms(3) by (simp_all add: serves_chain_def)
  note col = range_settled [OF assms(3) range, of d]
  show ?thesis
    unfolding scan_range_def
  proof (rule answers_bind [OF col])
    fix records assume good: "\<forall>r \<in> set records. settled_record cfg ans peak r"
    let ?hs = "map (\<lambda>b. (b, hdr b)) (distinct_sorted (map txr_block_number records))"
    have low: "\<forall>r \<in> set records. txr_block_number r \<le> peak" using good by (simp add: settled_record_def)
    note hrd = fetch_headers_reads_run [OF sc(2) low, of d] and han = fetch_headers_answers [OF sc(2) low, of d]
    show "answers d (io_bind (fetch_headers ck records)
     (\<lambda>headers. io_bind (io_for records (batch_start cfg tip target, 0) (scan_record e x ck cfg headers))
     (\<lambda>(batch, backfilled). io_bind (case map_of headers to of Some h \<Rightarrow> io_ret h | None \<Rightarrow> header_at ck to)
     (\<lambda>checkpoint_header. io_bind (io_clock e)
     (\<lambda>now. io_ret (add_blocks x now headers to checkpoint_header batch, backfilled, length records))))))"
    proof (rule answers_bind [OF han hrd])
      fix headers assume hs: "headers = ?hs"
      have present: "map_of headers (txr_block_number r) \<noteq> None" if "r \<in> set records" for r
        using that unfolding hs map_of_eq_None_iff by (simp add: image_image)
      have loop: "answers d (io_for records (batch_start cfg tip target, 0) (scan_record e x ck cfg headers))"
      proof (rule answers_for [where Inv = "\<lambda>acc. batch_mirrors x cfg ans (fst acc)"])
        show "batch_mirrors x cfg ans (fst (batch_start cfg tip target, 0 :: nat))"
          by (simp add: batch_mirrors_def batch_start_def)
        fix r and acc :: scan_acc assume r: "r \<in> set records" and m: "batch_mirrors x cfg ans (fst acc)"
        show "reads d (scan_record e x ck cfg headers r acc) (\<lambda>acc. batch_mirrors x cfg ans (fst acc)) \<and>
            answers d (scan_record e x ck cfg headers r acc)"
          using scan_record_answers [OF assms(1) sc(1) assms(2,4) _ present [OF r] m] good [unfolded settled_record_def] r
          by (auto intro: reads_mono [OF scan_record_reads [OF sc(1) m]])
      qed
      have hd: "answers d (header_at ck to)" using header_at_run [OF sc(2) range(2)] by (simp add: answers_def)
      have chk: "answers d (case map_of headers to of Some h \<Rightarrow> io_ret h | None \<Rightarrow> header_at ck to)"
        "reads d (case map_of headers to of Some h \<Rightarrow> io_ret h | None \<Rightarrow> header_at ck to) (\<lambda>h. True)"
        using hd header_at_reads by (auto intro: answers_ret reads_ret split: option.split)
      show "answers d (io_bind (io_for records (batch_start cfg tip target, 0) (scan_record e x ck cfg headers))
     (\<lambda>(batch, backfilled). io_bind (case map_of headers to of Some h \<Rightarrow> io_ret h | None \<Rightarrow> header_at ck to)
     (\<lambda>checkpoint_header. io_bind (io_clock e)
     (\<lambda>now. io_ret (add_blocks x now headers to checkpoint_header batch, backfilled, length records)))))"
        by (rule answers_bind [OF loop scan_records_reads [OF sc(1)]])
          (auto intro!: answers_bind [OF chk] answers_bind [OF answers_clock reads_clock [of "\<lambda>_. True"]] answers_ret)
    qed
  qed
qed

lemma scan_range_hash:
  assumes "serves_chain x ck cfg ans hdr enc all fuel peak" "from \<le> to" "to \<le> peak"
    and "scan_range fuel e x ck cfg tip target from to w = (Inr (b, n, k), w')"
  shows "ib_checkpoint_hash b = Some (h256_to_vec (rh_hash (hdr to)))"
proof -
  have hdr: "serves_headers ck hdr peak" using assms(1) by (simp add: serves_chain_def)
  from assms(4) obtain records w0 headers w1 w2 h w3 now b0 where
    c: "collect_range fuel x ck cfg from to w = (Inr records, w0)" and
    f: "fetch_headers ck records w0 = (Inr headers, w1)" and
    h: "(case map_of headers to of Some h \<Rightarrow> io_ret h | None \<Rightarrow> header_at ck to) w2 = (Inr h, w3)" and
    b: "b = add_blocks x now headers to h b0"
    by (auto simp: scan_range_def io_bind_Inr)
  from readsD [OF range_settled(2) [OF assms(1-3)] c refl]
  have "\<forall>r \<in> set records. txr_block_number r \<le> peak" by (simp add: settled_record_def)
  from fetch_headers_run [OF hdr this, of w0] f
  have "headers = map (\<lambda>b. (b, hdr b)) (distinct_sorted (map txr_block_number records))" by auto
  with h have "h = hdr to"
    by (auto simp: header_at_run [OF hdr assms(3)] dest: map_of_SomeD split: option.splits)
  with b show ?thesis by simp
qed

lemma synced_tip_at:
  assumes "\<forall>n. cn_tip ck n = Inr tip" "\<forall>n. \<exists>t. cn_indexer_tip ck n = Inr t \<and> (\<forall>u. t = Some u \<longrightarrow> tip \<le> it_block_number u)"
  shows "\<exists>w'. synced_tip ck w = (Inr tip, w') \<and> w_db w' = w_db w"
proof -
  from assms(2) obtain t where "cn_indexer_tip ck (Suc (w_tick w)) = Inr t" "\<forall>u. t = Some u \<longrightarrow> tip \<le> it_block_number u"
    by blast
  with assms(1) show ?thesis
    by (cases t) (auto simp: synced_tip_def io_bind_def io_call_def io_ret_def tick_def min_def)
qed

text \<open>The node all the way: one chain, and a tip that both of its indexes have reached.\<close>

definition serves_tip :: "ckb_node \<Rightarrow> u64 \<Rightarrow> bool" where
  "serves_tip ck tip \<longleftrightarrow> (\<forall>n. cn_tip ck n = Inr tip) \<and>
     (\<forall>n. \<exists>t. cn_indexer_tip ck n = Inr t \<and> (\<forall>u. t = Some u \<longrightarrow> tip \<le> it_block_number u))"

definition healthy_node ::
  "ext \<Rightarrow> ckb_node \<Rightarrow> config \<Rightarrow> (h256 \<Rightarrow> tx_with_status option) \<Rightarrow> (u64 \<Rightarrow> rpc_header) \<Rightarrow>
   (nat \<Rightarrow> byte list) \<Rightarrow> (lock_kind \<Rightarrow> tx_record list) \<Rightarrow> nat \<Rightarrow> u64 \<Rightarrow> bool" where
  "healthy_node x ck cfg ans hdr enc all fuel tip \<longleftrightarrow>
     serves_chain x ck cfg ans hdr enc all fuel tip \<and> serves_tip ck tip"

text \<open>What the checkpoint says agrees with the chain.\<close>

definition checkpoint_on :: "config \<Rightarrow> (u64 \<Rightarrow> rpc_header) \<Rightarrow> db \<Rightarrow> bool" where
  "checkpoint_on cfg hdr d \<longleftrightarrow> 0 \<le> fst (checkpoint_of cfg d) \<and>
     (\<forall>stored. snd (checkpoint_of cfg d) = Some stored \<longrightarrow>
        stored = h256_to_vec (rh_hash (hdr (as_u64 (fst (checkpoint_of cfg d))))))"

lemma assert_checkpoint_run:
  assumes "serves_headers ck hdr peak" "as_u64 (st_last_block_number state) \<le> peak"
    and "\<forall>stored. st_last_block_hash state = Some stored \<longrightarrow> stored = h256_to_vec (rh_hash (hdr (as_u64 (st_last_block_number state))))"
  shows "\<exists>w'. assert_checkpoint_still_canonical x ck state w = (Inr (), w') \<and> w_db w' = w_db w"
  using assms
  by (cases "st_last_block_hash state")
    (auto simp: assert_checkpoint_still_canonical_def Let_def io_ret_def io_bind_def of_ckb_def io_map_err_def
      get_header_by_number_def io_call_def serves_headers_def)

text \<open>The range of a round below the settled height.\<close>

lemma round_range:
  assumes cfg: "config_ok cfg" "unat (ckb_batch_blocks (c_ckb cfg)) < 2 ^ 63" "unat tip < 2 ^ 63"
    and target: "safe_ckb_target cfg tip = Some target" and cp: "0 \<le> cp" "cp < as_i64 target"
  shows "scan_from cfg cp \<le> scan_to cfg target (scan_from cfg cp)" "scan_to cfg target (scan_from cfg cp) \<le> tip"
    and "as_u64 cp \<le> tip"
proof -
  have batch: "ckb_batch_blocks (c_ckb cfg) \<noteq> 0" using cfg(1) by (simp add: config_ok_def)
  note h = round_heights [OF target cp cfg(3,2) batch]
  show "scan_from cfg cp \<le> scan_to cfg target (scan_from cfg cp)" using h(3) by (simp add: word_le_nat_alt)
  show "scan_to cfg target (scan_from cfg cp) \<le> tip" using h(2) by (simp add: word_le_nat_alt)
  have t: "ckb_reorg_lag (c_ckb cfg) \<le> tip" "target = tip - ckb_reorg_lag (c_ckb cfg)"
    using target by (auto simp: safe_ckb_target_Some)
  then have "unat target \<le> unat tip" by (simp add: unat_sub)
  moreover from this have "as_i64 target = int (unat target)" by (intro as_i64_small) (use cfg(3) in linarith)
  ultimately have "cp < int (unat tip)" using cp(2) by linarith
  moreover have "unat (as_u64 cp) = nat cp"
  proof -
    have "int (unat tip) < 2 ^ 63" using cfg(3) by (metis of_nat_less_iff of_nat_numeral of_nat_power)
    with calculation have "cp < 2 ^ 64" by simp
    with cp(1) show ?thesis by (simp add: as_u64_def unat_eq_nat_uint unsigned_of_int take_bit_eq_mod)
  qed
  moreover have "nat cp \<le> unat tip" using calculation(1) by linarith
  ultimately show "as_u64 cp \<le> tip" by (simp add: word_le_nat_alt)
qed

lemma scan_extend_answers:
  assumes env: "ext_ok x" "\<And>n. e_fault e n = None" and chain: "serves_chain x ck cfg ans hdr enc all fuel peak"
    and range: "scan_from cfg (st_last_block_number state) \<le> scan_to cfg target (scan_from cfg (st_last_block_number state))"
      "scan_to cfg target (scan_from cfg (st_last_block_number state)) \<le> peak" "as_u64 (st_last_block_number state) \<le> peak"
    and mirror: "cells_mirror x cfg ans (w_db w)"
    and chk: "\<forall>stored. st_last_block_hash state = Some stored \<longrightarrow> stored = h256_to_vec (rh_hash (hdr (as_u64 (st_last_block_number state))))"
  shows "\<exists>rd w'. scan_extend fuel e x ck cfg state tip target w = (Inr rd, w') \<and> \<not> rd_idle rd"
proof -
  let ?from = "scan_from cfg (st_last_block_number state)" and ?to = "scan_to cfg target (scan_from cfg (st_last_block_number state))"
  have hdr: "serves_headers ck hdr peak" using chain by (simp add: serves_chain_def)
  from assert_checkpoint_run [OF hdr range(3) chk, of x w] obtain w1 where
    a: "assert_checkpoint_still_canonical x ck state w = (Inr (), w1)" "w_db w1 = w_db w" by blast
  from answersD [OF scan_range_answers [OF env chain mirror range(1,2)] a(2)] obtain b n k w2 where
    b: "scan_range fuel e x ck cfg tip target ?from ?to w1 = (Inr (b, n, k), w2)" by (metis prod_cases3)
  from succeeds_of_store [OF succeeds_apply_batch [OF env(2)]] obtain st w3 where
    c: "of_store (apply_batch e b) w2 = (Inr st, w3)" unfolding succeeds_def by blast
  from succeeds_prune [OF env(2)] obtain u w4 where p: "prune_headers e cfg ?to w3 = (Inr u, w4)"
    unfolding succeeds_def by blast
  show ?thesis
    unfolding scan_extend_def Let_def io_bind_def a(1) prod.case sum.case b c p io_ret_def by simp
qed

lemma scan_once_progress:
  assumes env: "ext_ok x" "\<And>n. e_fault e n = None"
    and cfg: "config_ok cfg" "unat (ckb_batch_blocks (c_ckb cfg)) < 2 ^ 63" "unat tip < 2 ^ 63" and node: "healthy_node x ck cfg ans hdr enc all fuel tip"
    and mirror: "cells_mirror x cfg ans (w_db w)" and chk: "checkpoint_on cfg hdr (w_db w)"
    and target: "safe_ckb_target cfg tip = Some target" "fst (checkpoint_of cfg (w_db w)) < as_i64 target"
  shows "\<exists>rd w'. scan_once fuel e x ck cfg w = (Inr rd, w') \<and> \<not> rd_idle rd"
proof -
  from init_stream_answers [OF env(2), where w = w and cfg = cfg] obtain state w1 where
    i: "init_stream e CKB_STREAM (ckb_start_block (c_ckb cfg)) w = (Inr state, w1)" by blast
  note f1 = init_stream_run(1) [OF i] and st = init_stream_run(2) [OF i refl]
  from node have tips: "\<forall>n. cn_tip ck n = Inr tip" "\<forall>n. \<exists>t. cn_indexer_tip ck n = Inr t \<and> (\<forall>u. t = Some u \<longrightarrow> tip \<le> it_block_number u)"
    and chain: "serves_chain x ck cfg ans hdr enc all fuel tip" by (simp_all add: healthy_node_def serves_tip_def)
  from synced_tip_at [OF tips, of w1] obtain w2 where t: "synced_tip ck w1 = (Inr tip, w2)" "w_db w2 = w_db w1" by blast
  from succeeds_of_store [OF succeeds_execute [OF env(2)]] obtain u w3 where
    p: "of_store (execute e (record_chain_progress CKB_STREAM tip target (ckb_reorg_lag (c_ckb cfg)))) w2 = (Inr u, w3)"
    unfolding succeeds_def by blast
  have f3: "ckb_facts cfg (w_db w3) = ckb_facts cfg (w_db w)"
    using obeys_keepsD [OF keeps.obeys_of_store [OF facts_progress] p] f1 t(2) by simp
  have m: "cells_mirror x cfg ans (w_db w3)"
    using mirror unfolding cells_mirror_def facts_cells [OF f3, THEN conjunct1] .
  have s: "st_last_block_number state = fst (checkpoint_of cfg (w_db w))" "st_last_block_hash state = snd (checkpoint_of cfg (w_db w))"
    using st by (metis fst_conv, metis snd_conv)
  have c: "\<forall>stored. st_last_block_hash state = Some stored \<longrightarrow> stored = h256_to_vec (rh_hash (hdr (as_u64 (st_last_block_number state))))"
    using chk by (simp add: checkpoint_on_def s)
  have cp: "0 \<le> st_last_block_number state" "st_last_block_number state < as_i64 target"
    using chk target(2) by (simp_all add: s checkpoint_on_def)
  from scan_extend_answers [OF env chain round_range [OF cfg target(1) cp] m c, of tip] obtain rd w' where
    "scan_extend fuel e x ck cfg state tip target w3 = (Inr rd, w')" "\<not> rd_idle rd" by blast
  moreover have o: "of_store (init_stream e CKB_STREAM (ckb_start_block (c_ckb cfg))) w = (Inr state, w1)"
    "of_ckb (synced_tip ck) w1 = (Inr tip, w2)"
    using i t(1) by (simp_all only: of_store_Inr of_ckb_Inr)
  moreover have "\<not> as_i64 target \<le> st_last_block_number state" using target(2) s(1) by simp
  ultimately show ?thesis
    unfolding scan_once_def io_bind_def o prod.case sum.case target(1) option.case p by simp
qed

lemma commits_hash:
  assumes "serves_chain x ck cfg ans hdr enc all fuel peak"
    and range: "scan_from cfg (st_last_block_number state) \<le> scan_to cfg target (scan_from cfg (st_last_block_number state))"
      "scan_to cfg target (scan_from cfg (st_last_block_number state)) \<le> peak"
    and com: "commits fuel e x ck cfg state tip target d b d'" "get_stream_state CKB_STREAM d \<noteq> None"
  shows "snd (checkpoint_of cfg d') =
    Some (h256_to_vec (rh_hash (hdr (scan_to cfg target (scan_from cfg (st_last_block_number state))))))"
proof -
  from com(1) obtain at keep n k w1 w2 where
    r: "scan_range fuel e x ck cfg tip target (scan_from cfg (st_last_block_number state))
          (scan_to cfg target (scan_from cfg (st_last_block_number state))) w1 = (Inr (b, n, k), w2)"
    and d': "d' = batch_effect b at d \<or> d' = snd (prune_blocks_below keep (batch_effect b at d))"
    unfolding commits_def Let_def by (elim exE conjE)
  have "checkpoint_of cfg d' = (ib_checkpoint_number b, ib_checkpoint_hash b)"
    using d' batch_checkpoint [OF com(2), of cfg b at] by auto
  with scan_range_hash [OF assms(1) range r] show ?thesis by simp
qed

lemma round_hash_known:
  assumes "scan_once fuel e x ck cfg w = (Inr rd, w')" "\<not> rd_idle rd"
  shows "\<exists>stored. snd (checkpoint_of cfg (w_db w')) = Some stored"
  using scan_once_run [OF assms(1)]
proof (elim disjE exE conjE, goal_cases)
  case 1
  with assms(2) show ?case by simp
next
  case (2 state tip target d b w1 w2 w3 w4)
  from commits_checkpoint [OF 2(7,6)] show ?case by auto
qed

text \<open>A round that writes keeps the checkpoint on the chain and moves it forward.\<close>

lemma round_advances:
  assumes cfg: "config_ok cfg" "unat (ckb_batch_blocks (c_ckb cfg)) < 2 ^ 63" "unat tip < 2 ^ 63"
    and node: "healthy_node x ck cfg ans hdr enc all fuel tip"
    and inv: "cells_mirror x cfg ans (w_db w)" "checkpoint_on cfg hdr (w_db w)"
    and target: "safe_ckb_target cfg tip = Some target"
    and run: "scan_once fuel e x ck cfg w = (Inr rd, w')" "\<not> rd_idle rd"
  shows "cells_mirror x cfg ans (w_db w') \<and> checkpoint_on cfg hdr (w_db w') \<and> rd_target rd = target \<and>
    fst (checkpoint_of cfg (w_db w)) < fst (checkpoint_of cfg (w_db w')) \<and>
    fst (checkpoint_of cfg (w_db w')) \<le> as_i64 target \<and>
    (rd_to rd < target \<longleftrightarrow> fst (checkpoint_of cfg (w_db w')) < as_i64 target)"
  using scan_once_run [OF run(1)]
proof (elim disjE exE conjE, goal_cases)
  case 1
  with run(2) show ?case by simp
next
  case (2 state tip' target' d b w1 w2 w3 w4)
  from node have tips: "\<forall>n. cn_tip ck n = Inr tip" "\<forall>n. \<exists>t. cn_indexer_tip ck n = Inr t \<and> (\<forall>u. t = Some u \<longrightarrow> tip \<le> it_block_number u)"
    and chain: "stable_node ck ans" "serves_chain x ck cfg ans hdr enc all fuel tip"
    by (simp_all add: healthy_node_def serves_chain_def serves_tip_def)
  have tip': "tip' = tip" using 2(2) synced_tip_at [OF tips, of w1] by auto
  with 2(3) target have tg: "target' = target" by simp
  let ?cp = "fst (checkpoint_of cfg (w_db w))" and ?to = "scan_to cfg target (scan_from cfg (fst (checkpoint_of cfg (w_db w))))"
  have st: "st_last_block_number state = ?cp" using 2(1) by (metis fst_conv)
  have cp0: "0 \<le> ?cp" using inv(2) by (simp add: checkpoint_on_def)
  have low: "?cp < as_i64 target" using 2(4) st tg by simp
  have batch: "ckb_batch_blocks (c_ckb cfg) \<noteq> 0" using cfg(1) by (simp add: config_ok_def)
  note h = round_heights [OF target cp0 low cfg(3,2) batch]
  note range = round_range(1,2) [OF cfg target cp0 low, folded st, folded tg]
  have to_small: "unat ?to < 2 ^ 63" using h(2) cfg(3) by linarith
  note i64 = as_i64_small [OF to_small]
  have chk: "checkpoint_of cfg (w_db w') = (as_i64 ?to, Some (h256_to_vec (rh_hash (hdr ?to))))"
    using commits_checkpoint [OF 2(7,6)] commits_hash [OF chain(2) range 2(7,6)] unfolding st tg by auto
  have rev: "as_u64 (as_i64 ?to) = ?to" by simp
  have tl: "ckb_reorg_lag (c_ckb cfg) \<le> tip" "target = tip - ckb_reorg_lag (c_ckb cfg)"
    using target by (auto simp: safe_ckb_target_Some)
  then have ut: "unat target = unat tip - unat (ckb_reorg_lag (c_ckb cfg))" by (simp add: unat_sub)
  then have ti: "as_i64 target = int (unat target)" by (intro as_i64_small) (use cfg(3) in linarith)
  have le: "unat ?to \<le> unat target" using h(2) ut by linarith
  have gt: "?cp < int (unat ?to)" using h(1,3) by linarith
  have rd: "rd_to rd = ?to" "rd_target rd = target" using 2(9) st tg by auto
  from commits_reads [OF 2(7) chain(1) collect_range_any_reads]
  obtain at where b: "batch_mirrors x cfg ans b" "d_cells (w_db w') = d_cells (batch_effect b at d)" by blast
  have "cells_mirror x cfg ans d" using inv(1) facts_cells [OF 2(5)] by (simp add: cells_mirror_def)
  from mirror_batch [OF this, of b at] b have "cells_mirror x cfg ans (w_db w')"
    by (simp add: cells_mirror_def batch_mirrors_def)
  moreover have "checkpoint_on cfg hdr (w_db w')"
    unfolding checkpoint_on_def chk fst_conv snd_conv rev by (simp add: i64)
  ultimately show ?case
    unfolding chk fst_conv rd using gt le
    by (simp add: i64 ti word_less_def word_le_def flip: word_le_nat_alt)
qed

lemma burst_catches_up:
  assumes env: "ext_ok x" "\<And>n. e_fault e n = None"
    and cfg: "config_ok cfg" "unat (ckb_batch_blocks (c_ckb cfg)) < 2 ^ 63" "unat tip < 2 ^ 63"
    and node: "healthy_node x ck cfg ans hdr enc all fuel tip" and target: "safe_ckb_target cfg tip = Some target"
  shows "cells_mirror x cfg ans (w_db w) \<Longrightarrow> checkpoint_on cfg hdr (w_db w) \<Longrightarrow>
    fst (checkpoint_of cfg (w_db w)) < as_i64 target \<Longrightarrow>
    nat (as_i64 target - fst (checkpoint_of cfg (w_db w))) \<le> n \<Longrightarrow>
    \<exists>w'. scan_burst n fuel e x ck cfg render w = (Inr False, w') \<and>
      checkpoint_of cfg (w_db w') = (as_i64 target, Some (h256_to_vec (rh_hash (hdr target)))) \<and>
      cells_mirror x cfg ans (w_db w')"
proof (induction n arbitrary: w)
  case (Suc n)
  from scan_once_progress [OF env cfg node Suc.prems(1,2) target Suc.prems(3)] obtain rd w1 where
    run: "scan_once fuel e x ck cfg w = (Inr rd, w1)" "\<not> rd_idle rd" by blast
  note adv = round_advances [OF cfg node Suc.prems(1,2) target run]
  have pass: "scan_pass fuel e x ck cfg render w = (Inr (fst (checkpoint_of cfg (w_db w1)) < as_i64 target), w1)"
    using adv run(2) unfolding scan_pass_def io_bind_def io_attempt_def run(1) by (simp add: io_ret_def)
  have step: "scan_burst (Suc n) fuel e x ck cfg render w =
      (if fst (checkpoint_of cfg (w_db w1)) < as_i64 target then scan_burst n fuel e x ck cfg render w1 else (Inr False, w1))"
    by (simp add: io_bind_def pass io_ret_def)
  show ?case
  proof (cases "fst (checkpoint_of cfg (w_db w1)) < as_i64 target")
    case True
    have "nat (as_i64 target - fst (checkpoint_of cfg (w_db w1))) \<le> n"
      using adv Suc.prems(4) by linarith
    from Suc.IH [OF _ _ True this] adv show ?thesis unfolding step using True by simp
  next
    case False
    with adv have eq: "fst (checkpoint_of cfg (w_db w1)) = as_i64 target" by linarith
    have "\<exists>stored. snd (checkpoint_of cfg (w_db w1)) = Some stored"
      by (rule round_hash_known [OF run])
    with eq adv have "checkpoint_of cfg (w_db w1) = (as_i64 target, Some (h256_to_vec (rh_hash (hdr target))))"
      by (metis as_u64_as_i64 checkpoint_on_def prod.collapse)
    with False adv show ?thesis unfolding step by simp
  qed
qed simp

section \<open>A sample chain\<close>

text \<open>One transaction in block 110 that creates one RGB++ cell; the tip is at 150.\<close>

definition sample_hash :: h256 where "sample_hash = H256 (mk32 (replicate 32 5))"

definition sample_tx :: rpc_transaction where
  "sample_tx = \<lparr> rt_hash = sample_hash, rt_version = 0, rt_inputs = [], rt_outputs = [sample_output 1 7], rt_outputs_data = [[]] \<rparr>"

definition sample_answer :: tx_with_status where
  "sample_answer = \<lparr> ws_transaction = Some sample_tx,
     ws_status = \<lparr> ts_status = TxCommitted, ts_block_hash = None, ts_block_number = Some 110, ts_reason = None \<rparr> \<rparr>"

definition sample_header :: "u64 \<Rightarrow> rpc_header" where
  "sample_header n = \<lparr> rh_hash = h256_zero, rh_number = n, rh_parent_hash = h256_zero, rh_timestamp = 0, rh_epoch = 0 \<rparr>"

definition chain_record :: tx_record where
  "chain_record = \<lparr> txr_hash = sample_hash, txr_block_number = 110, txr_index = 2,
     txr_cells = [\<lparr> mc_io_type = Output, mc_io_index = 0 \<rparr>] \<rparr>"

definition sample_records :: "lock_kind \<Rightarrow> tx_record list" where
  "sample_records kind = (case kind of KRgbpp \<Rightarrow> [chain_record] | KBtcTime \<Rightarrow> [])"

text \<open>The records of the block range of a search, whose upper end is exclusive.\<close>

definition ranged :: "search_key \<Rightarrow> tx_record list \<Rightarrow> tx_record list" where
  "ranged key rs = (case Option.bind (sk_filter key) sf_block_range of None \<Rightarrow> rs
     | Some (from, to) \<Rightarrow> filter (\<lambda>r. from \<le> txr_block_number r \<and> txr_block_number r < to) rs)"

definition sample_search :: "script \<Rightarrow> tx_record list" where
  "sample_search s = (if s_code_hash s = id_code_hash (ps_rgbpp_lock (c_protocol sample_config)) then [chain_record] else [])"

definition sample_node :: ckb_node where
  "sample_node = (ref_node 150 [] [sample_answer] sample_search)
     \<lparr> cn_header := (\<lambda>n number. Inr (if number \<le> 150 then Some (sample_header number) else None)),
       cn_transactions := (\<lambda>n key ord limit cursor. Inr (page_at ref_enc (ranged key (sample_search (sk_script key)))
         (case cursor of None \<Rightarrow> 0 | Some s \<Rightarrow> length s div 2 - 2) (unat limit))) \<rparr>"

lemma mainnet_config_ok: "config_ok mainnet_config"
  by (simp add: config_ok_def mainnet_config_def sample_config_def btc_defaults_def ckb_defaults_def mk32_replicate_neq_zero)

definition sample_answers :: "h256 \<Rightarrow> tx_with_status option" where
  "sample_answers h = (if h = sample_hash then Some sample_answer else None)"

lemma sample_stable: "stable_node sample_node sample_answers"
  by (auto simp: stable_node_def sample_node_def ref_node_def sample_answers_def sample_answer_def sample_tx_def)

lemma sample_search_kind: "sample_search (lock_search_script (c_protocol sample_config) kind) = sample_records kind"
proof -
  have "id_code_hash (ps_btc_time_lock (c_protocol sample_config)) \<noteq> id_code_hash (ps_rgbpp_lock (c_protocol sample_config))"
  proof
    assume "id_code_hash (ps_btc_time_lock (c_protocol sample_config)) = id_code_hash (ps_rgbpp_lock (c_protocol sample_config))"
    then have "list32 (mk32 (replicate 32 2)) = list32 (mk32 (replicate 32 (1 :: byte)))"
      by (simp add: sample_config_def)
    then show False by (simp add: replicate_eq_replicate)
  qed
  then show ?thesis
    by (cases kind) (simp_all add: sample_search_def lock_search_script_def sample_records_def Let_def)
qed

lemma ranged_search:
  assumes "to \<le> 150"
  shows "ranged (with_block_range from (to + 1) key) rs = filter (in_range from to) rs"
proof -
  have "unat to \<le> 150" using assms by (simp add: word_le_nat_alt)
  then have "unat (to + 1) = unat to + 1" by (simp add: unat_word_ariths)
  then have "txr_block_number r < to + 1 \<longleftrightarrow> \<not> to < txr_block_number r" for r
    unfolding word_less_nat_alt by linarith
  note lt = this
  have "in_range from to = (\<lambda>r. from \<le> txr_block_number r \<and> txr_block_number r < to + 1)"
    by (auto simp: fun_eq_iff in_range_def lt linorder_not_less)
  then show ?thesis by (simp add: ranged_def with_block_range_def)
qed

lemma sample_searches:
  assumes "to \<le> 150"
  shows "serves_searches ref_ext sample_node mainnet_config from to ref_enc (\<lambda>kind. filter (in_range from to) (sample_records kind)) 2"
proof -
  have "length (bytes_to_hex ref_ext (ref_enc i)) div 2 - 2 = i" for i
    using length_hex_encode [OF ref_ext_ok, of "ref_enc i"] by (simp add: bytes_to_hex_def ref_enc_def)
  then have "pages_through ref_ext sample_node (with_block_range from (to + 1) (lock_prefix (lock_search_script (c_protocol sample_config) kind)))
      ref_enc (filter (in_range from to) (sample_records kind))" for kind
    unfolding pages_through_def sample_node_def
    by (simp add: cursor_at_def ranged_search [OF assms])
      (simp add: ref_enc_def with_block_range_def lock_prefix_def sample_search_kind)
  moreover have "length (filter (in_range from to) (sample_records kind)) < 2" for kind
    by (cases kind) (simp_all add: sample_records_def)
  ultimately show ?thesis by (simp add: serves_searches_def)
qed

lemma sample_healthy: "healthy_node ref_ext sample_node mainnet_config sample_answers sample_header ref_enc sample_records 2 150"
proof -
  have "good_record mainnet_config sample_answers chain_record"
    by (simp add: good_record_def body_of_def sample_answers_def chain_record_def sample_answer_def no_unreadable_inputs_def)
  then have "\<forall>kind. \<forall>r \<in> set (sample_records kind). good_record mainnet_config sample_answers r"
    by (auto simp: sample_records_def split: lock_kind.splits)
  moreover have "serves_headers sample_node sample_header 150" by (simp add: serves_headers_def sample_node_def)
  ultimately have "serves_chain ref_ext sample_node mainnet_config sample_answers sample_header ref_enc sample_records 2 150"
    using sample_stable sample_searches by (simp add: serves_chain_def)
  then show ?thesis by (simp add: healthy_node_def serves_tip_def) (simp add: sample_node_def ref_node_def)
qed

lemma sample_start:
  "checkpoint_of mainnet_config (w_db (world_of empty_db)) = (99, None)"
  "cells_mirror ref_ext mainnet_config sample_answers (w_db (world_of empty_db))"
  "checkpoint_on mainnet_config sample_header (w_db (world_of empty_db))"
  "safe_ckb_target mainnet_config 150 = Some 126" "as_i64 126 = 126"
  "unat (ckb_batch_blocks (c_ckb mainnet_config)) < 2 ^ 63" "unat (150 :: u64) < 2 ^ 63"
proof -
  have "as_i64 (saturating_sub (ckb_start_block (c_ckb mainnet_config)) 1) = 99"
    by (subst as_i64_small) (simp_all add: unat_saturating_sub sample_config_def ckb_defaults_def)
  then show cp: "checkpoint_of mainnet_config (w_db (world_of empty_db)) = (99, None)"
    by (simp add: checkpoint_of_def get_stream_state_def lookup_row_def world_of_def empty_db_def)
  show "cells_mirror ref_ext mainnet_config sample_answers (w_db (world_of empty_db))"
    by (simp add: cells_mirror_def world_of_def empty_db_def)
  show "checkpoint_on mainnet_config sample_header (w_db (world_of empty_db))"
    unfolding checkpoint_on_def cp by simp
  show "safe_ckb_target mainnet_config 150 = Some 126"
    by (simp add: safe_ckb_target_Some sample_config_def ckb_defaults_def)
  show "as_i64 126 = 126" by (subst as_i64_small) simp_all
qed (simp_all add: sample_config_def ckb_defaults_def)

section \<open>Properties\<close>

text \<open>
  C5.
  The scanner catches up. The database answers, and the node serves one chain up to its tip:
  a header for each block up to the tip and none above it, for a search over a block range
  the records of that range, page by page, and transactions whose flagged inputs are
  readable. Then the passes that follow one another without a pause bring the checkpoint to
  the settled height, whatever the distance: every round succeeds and advances, and the loop
  only pauses once there is no backlog.
\<close>

theorem scanner_catches_up:
  assumes "ext_ok x" "\<And>n. e_fault e n = None"
    and "config_ok cfg" "unat (ckb_batch_blocks (c_ckb cfg)) < 2 ^ 63" "unat tip < 2 ^ 63"
    and "healthy_node x ck cfg ans hdr enc all fuel tip" "safe_ckb_target cfg tip = Some target"
    and "cells_mirror x cfg ans (w_db w)" "checkpoint_on cfg hdr (w_db w)"
    and "fst (checkpoint_of cfg (w_db w)) < as_i64 target"
    and "nat (as_i64 target - fst (checkpoint_of cfg (w_db w))) \<le> n"
  shows "\<exists>w'. scan_burst n fuel e x ck cfg render w = (Inr False, w') \<and>
    checkpoint_of cfg (w_db w') = (as_i64 target, Some (h256_to_vec (rh_hash (hdr target))))"
  using burst_catches_up [OF assms, of render] by (elim exE conjE) (intro exI conjI)

lemma scanner_catches_up_witness:
  "\<exists>w'. scan_burst 27 2 quiet_env ref_ext sample_node mainnet_config (\<lambda>err. []) (world_of empty_db) = (Inr False, w') \<and>
    checkpoint_of mainnet_config (w_db w') = (126, Some (h256_to_vec h256_zero))"
proof -
  have q: "e_fault quiet_env n = None" for n by (simp add: quiet_env_def)
  have "fst (checkpoint_of mainnet_config (w_db (world_of empty_db))) < as_i64 126"
    "nat (as_i64 126 - fst (checkpoint_of mainnet_config (w_db (world_of empty_db)))) \<le> 27"
    unfolding sample_start(1,5) by simp_all
  from scanner_catches_up [OF ref_ext_ok q mainnet_config_ok sample_start(6,7) sample_healthy sample_start(4,2,3) this]
  show ?thesis unfolding sample_start(5) by (simp add: sample_header_def)
qed

lemma sample_round:
  "\<exists>rd w'. scan_once 2 quiet_env ref_ext sample_node mainnet_config (world_of empty_db) = (Inr rd, w') \<and>
     \<not> rd_idle rd \<and> rd_from rd = 100 \<and> rd_to rd = 126"
proof -
  have q: "e_fault quiet_env n = None" for n by (simp add: quiet_env_def)
  have low: "fst (checkpoint_of mainnet_config (w_db (world_of empty_db))) < as_i64 126"
    unfolding sample_start(1,5) by simp
  from scan_once_progress [OF ref_ext_ok q mainnet_config_ok sample_start(6,7) sample_healthy sample_start(2,3,4) low] obtain rd w' where
    run: "scan_once 2 quiet_env ref_ext sample_node mainnet_config (world_of empty_db) = (Inr rd, w')" "\<not> rd_idle rd" by blast
  from round_advances [OF mainnet_config_ok sample_start(6,7) sample_healthy sample_start(2,3,4) run]
  have target: "rd_target rd = 126" by simp
  have "rd_from rd = scan_from mainnet_config 99 \<and> rd_to rd = scan_to mainnet_config (rd_target rd) (rd_from rd)"
    using scan_once_run [OF run(1)] run(2) unfolding sample_start(1) by auto
  moreover have "scan_from mainnet_config 99 = 100"
    by (simp add: scan_from_def sample_config_def ckb_defaults_def) (subst as_i64_small; simp add: as_u64_def)
  moreover have "scan_to mainnet_config 126 100 = 126"
    by (simp add: scan_to_def sample_config_def ckb_defaults_def min_def word_le_nat_alt)
  ultimately show ?thesis using run target by metis
qed

lemma sample_readable:
  "readable_output (c_protocol mainnet_config) (read_output sample_tx 0 (BRgbpp \<lparr> ra_out_index = 1, ra_txid = BtcTxid (mk32 (replicate 32 7)) \<rparr>))"
proof -
  have "c_protocol mainnet_config = sample_protocol" by (simp add: sample_config_def sample_protocol_def)
  moreover have "read_output sample_tx 0 (BRgbpp \<lparr> ra_out_index = 1, ra_txid = BtcTxid (mk32 (replicate 32 7)) \<rparr>) = sample_read 0 1 7"
    by (simp add: read_output_def sample_tx_def sample_read_def output_data_def)
  ultimately show ?thesis
    using classify_outputs_readable [of "sample_read 0 1 7" sample_protocol "[sample_output 1 7]" "[[]]"]
    by (simp add: classify_sample)
qed

lemma sample_range:
  "\<exists>rd w'. scan_once 2 quiet_env ref_ext sample_node mainnet_config (world_of empty_db) = (Inr rd, w') \<and> \<not> rd_idle rd \<and>
     rd_to rd \<le> 150 \<and> in_range (rd_from rd) (rd_to rd) chain_record \<and>
     chain_record \<in> set (filter (in_range (rd_from rd) (rd_to rd)) (sample_records KRgbpp))"
proof -
  from sample_round obtain rd w' where
    run: "scan_once 2 quiet_env ref_ext sample_node mainnet_config (world_of empty_db) = (Inr rd, w')" "\<not> rd_idle rd"
      and range: "rd_from rd = 100" "rd_to rd = 126" by blast
  have "in_range (rd_from rd) (rd_to rd) chain_record" by (simp add: in_range_def range chain_record_def)
  with run range show ?thesis by (simp add: sample_records_def)
qed

lemma sample_body:
  "body_of sample_answers (txr_hash chain_record) = Some sample_tx" "0 < length (rt_outputs sample_tx)" "length (rt_outputs sample_tx) \<le> 2 ^ 32"
  by (simp_all add: body_of_def sample_answers_def chain_record_def sample_answer_def sample_tx_def)

text \<open>The cells of the sample after a round, for the examples of later theories.\<close>

lemma sample_indexed:
  "\<exists>rd w'. scan_once 2 quiet_env ref_ext sample_node mainnet_config (world_of empty_db) = (Inr rd, w') \<and> d_cells (w_db w') \<noteq> []"
proof -
  from sample_range obtain rd w' where
    run: "scan_once 2 quiet_env ref_ext sample_node mainnet_config (world_of empty_db) = (Inr rd, w')" "\<not> rd_idle rd"
      and range: "rd_to rd \<le> 150" "in_range (rd_from rd) (rd_to rd) chain_record"
        "chain_record \<in> set (filter (in_range (rd_from rd) (rd_to rd)) (sample_records KRgbpp))" by blast
  from range_indexed [OF sample_stable sample_start(2) run sample_searches [OF range(1)] range(3,2)] sample_body sample_readable
  have "\<exists>c \<in> set (d_cells (w_db w')). mirrors_output ref_ext mainnet_config (txr_hash chain_record) sample_tx 0 c" by auto
  with run show ?thesis by fastforce
qed

lemma scanned_range_is_indexed_witness:
  "\<exists>rd w'. scan_once 2 quiet_env ref_ext sample_node mainnet_config (world_of empty_db) = (Inr rd, w') \<and>
     (\<exists>c \<in> set (d_cells (w_db w')). mirrors_output ref_ext mainnet_config sample_hash sample_tx 0 c) \<and>
     h256_to_vec sample_hash \<in> tr_tx_hash ` set (d_transitions (w_db w'))"
proof -
  from sample_range obtain rd w' where
    run: "scan_once 2 quiet_env ref_ext sample_node mainnet_config (world_of empty_db) = (Inr rd, w')" "\<not> rd_idle rd"
      and range: "rd_to rd \<le> 150" "in_range (rd_from rd) (rd_to rd) chain_record"
        "chain_record \<in> set (filter (in_range (rd_from rd) (rd_to rd)) (sample_records KRgbpp))" by blast
  from scanned_range_is_indexed [OF sample_stable sample_start(2) run sample_searches [OF range(1)] range(3,2)] sample_body sample_readable
  show ?thesis using run by (auto simp: chain_record_def)
qed

lemma scan_round_contiguous_witness:
  "\<exists>rd w'. scan_once 2 quiet_env ref_ext sample_node mainnet_config (world_of empty_db) = (Inr rd, w') \<and>
     round_span mainnet_config 99 (rd_chain_tip rd) 100 126 \<and>
     batch_landed 2 quiet_env ref_ext sample_node mainnet_config (rd_chain_tip rd) 100 126 empty_db (w_db w') \<and>
     retained mainnet_config 126 (w_db w')"
proof -
  from sample_round obtain rd w' where
    run: "scan_once 2 quiet_env ref_ext sample_node mainnet_config (world_of empty_db) = (Inr rd, w')" "\<not> rd_idle rd"
      and range: "rd_from rd = 100" "rd_to rd = 126" by blast
  have tips: "\<forall>n t. cn_tip sample_node n = Inr t \<longrightarrow> unat t < 2 ^ 63" by (simp add: sample_node_def ref_node_def)
  from scan_round_contiguous [OF mainnet_config_ok sample_start(6) tips sample_start(1) _ run(1)] run(2)
  have "round_span mainnet_config 99 (rd_chain_tip rd) 100 126"
    "batch_landed 2 quiet_env ref_ext sample_node mainnet_config (rd_chain_tip rd) 100 126 empty_db (w_db w')"
    "retained mainnet_config 126 (w_db w')"
    unfolding range by (simp_all add: range world_of_def)
  with run(1) show ?thesis by blast
qed

section \<open>A fork below the checkpoint\<close>

text \<open>The node never answers with the header whose hash the checkpoint holds.\<close>

definition forked_below :: "ckb_node \<Rightarrow> int \<Rightarrow> byte list \<Rightarrow> bool" where
  "forked_below ck cp stored \<longleftrightarrow>
     (\<forall>n. \<exists>h. cn_header ck n (as_u64 cp) = Inr (Some h) \<and> h256_to_vec (rh_hash h) \<noteq> stored)"

lemma fork_assert:
  assumes "forked_below ck cp stored" "0 < cp" "st_last_block_number state = cp" "st_last_block_hash state = Some stored"
  shows "\<exists>h v'. node_header ck (as_u64 cp) h \<and> assert_checkpoint_still_canonical x ck state v =
    (Inl (IEReorg (as_u64 cp) (ex_hex_encode x stored) (h256_to_hex x (rh_hash h))), v')"
proof -
  from assms(1) obtain h where h: "cn_header ck (w_tick v) (as_u64 cp) = Inr (Some h)" "h256_to_vec (rh_hash h) \<noteq> stored"
    unfolding forked_below_def by blast
  then have "node_header ck (as_u64 cp) h" by (auto simp: node_header_def)
  moreover have "\<exists>v'. assert_checkpoint_still_canonical x ck state v =
      (Inl (IEReorg (as_u64 cp) (ex_hex_encode x stored) (h256_to_hex x (rh_hash h))), v')"
    using assms(2-4) h
    by (simp add: assert_checkpoint_still_canonical_def Let_def io_bind_def of_ckb_def io_map_err_def
        get_header_by_number_def io_call_def io_fail_def)
  ultimately show ?thesis by blast
qed

lemma fork_round:
  assumes fork: "forked_below ck cp stored" "0 < cp" and cp: "checkpoint_of cfg (w_db w) = (cp, Some stored)"
    and run: "scan_once fuel e x ck cfg w = (r, w')"
  shows "beside_streams (w_db w') = beside_streams (w_db w) \<and> checkpoint_of cfg (w_db w') = (cp, Some stored) \<and>
    (\<forall>rd. r = Inr rd \<longrightarrow> rd_idle rd)"
  using scan_once_run [OF run]
proof (elim disjE exE conjE, goal_cases)
  case 1
  with cp show ?case by (simp add: ckb_facts_def)
next
  case (2 state tip target d b w1 w2 w3 w4)
  have "st_last_block_number state = cp" "st_last_block_hash state = Some stored" using 2(1) cp by auto
  from fork_assert [OF fork this, of x w3] 2(8) show ?case by auto
qed

lemma fork_burst:
  assumes "forked_below ck cp stored" "0 < cp" "checkpoint_of cfg (w_db w) = (cp, Some stored)"
  shows "beside_streams (w_db (snd (scan_burst n fuel e x ck cfg render w))) = beside_streams (w_db w) \<and>
    checkpoint_of cfg (w_db (snd (scan_burst n fuel e x ck cfg render w))) = (cp, Some stored)"
proof (cases n)
  case 0
  with assms(3) show ?thesis by (simp add: io_ret_def)
next
  case (Suc m)
  obtain r w1 where run: "scan_once fuel e x ck cfg w = (r, w1)" by (meson surj_pair)
  note round = fork_round [OF assms run]
  have note_error: "obeys (keeps (checkpoint_of cfg)) (execute e (set_stream_error CKB_STREAM err))" for err
    by (intro keeps.obeys_execute)
      (simp add: keeps_def checkpoint_of_def get_stream_state_def set_stream_error_def lookup_update_where split: option.split)
  have "\<exists>w2. scan_pass fuel e x ck cfg render w = (Inr False, w2) \<and>
      beside_streams (w_db w2) = beside_streams (w_db w) \<and> checkpoint_of cfg (w_db w2) = (cp, Some stored)"
  proof (cases r)
    case (Inr rd)
    with round run show ?thesis by (simp add: scan_pass_def io_bind_def io_attempt_def io_ret_def)
  next
    case (Inl err)
    obtain re w2 where e: "execute e (set_stream_error CKB_STREAM (Some (render err))) w1 = (re, w2)" by (meson surj_pair)
    have "beside_streams (w_db w2) = beside_streams (w_db w1)" "checkpoint_of cfg (w_db w2) = checkpoint_of cfg (w_db w1)"
      using obeys_keepsD [OF beside_streams_statements(2) e] obeys_keepsD [OF note_error e] by simp_all
    with round run e Inl show ?thesis by (simp add: scan_pass_def io_bind_def io_attempt_def io_ret_def)
  qed
  then show ?thesis unfolding Suc scan_burst.simps by (auto simp: io_bind_def io_ret_def)
qed

lemma fork_reported:
  assumes fork: "forked_below ck cp stored" "0 < cp" and cp: "checkpoint_of cfg (w_db w) = (cp, Some stored)"
    and env: "\<And>n. e_fault e n = None" and tips: "serves_tip ck tip"
    and target: "safe_ckb_target cfg tip = Some target" "cp < as_i64 target"
  shows "\<exists>h w'. node_header ck (as_u64 cp) h \<and> scan_once fuel e x ck cfg w =
    (Inl (IEReorg (as_u64 cp) (ex_hex_encode x stored) (h256_to_hex x (rh_hash h))), w')"
proof -
  from init_stream_answers [OF env, where w = w and cfg = cfg] obtain state w1 where
    i: "init_stream e CKB_STREAM (ckb_start_block (c_ckb cfg)) w = (Inr state, w1)" by blast
  from init_stream_run(2) [OF i refl] cp have st: "st_last_block_number state = cp" "st_last_block_hash state = Some stored"
    by simp_all
  from synced_tip_at [of ck tip w1] tips obtain w2 where t: "synced_tip ck w1 = (Inr tip, w2)" unfolding serves_tip_def by blast
  from succeeds_of_store [OF succeeds_execute [OF env]] obtain u w3 where
    p: "of_store (execute e (record_chain_progress CKB_STREAM tip target (ckb_reorg_lag (c_ckb cfg)))) w2 = (Inr u, w3)"
    unfolding succeeds_def by blast
  from fork_assert [OF fork st, of x w3] obtain h w4 where h: "node_header ck (as_u64 cp) h"
    and a: "assert_checkpoint_still_canonical x ck state w3 =
      (Inl (IEReorg (as_u64 cp) (ex_hex_encode x stored) (h256_to_hex x (rh_hash h))), w4)" by blast
  have o: "of_store (init_stream e CKB_STREAM (ckb_start_block (c_ckb cfg))) w = (Inr state, w1)"
    "of_ckb (synced_tip ck) w1 = (Inr tip, w2)"
    using i t by (simp_all only: of_store_Inr of_ckb_Inr)
  have "\<not> as_i64 target \<le> st_last_block_number state" using target(2) st(1) by simp
  then have "scan_once fuel e x ck cfg w =
      (Inl (IEReorg (as_u64 cp) (ex_hex_encode x stored) (h256_to_hex x (rh_hash h))), w4)"
    unfolding scan_once_def io_bind_def o prod.case sum.case target(1) option.case p scan_extend_def by (simp add: a)
  with h show ?thesis by blast
qed


definition forked_db :: db where
  "forked_db = empty_db\<lparr> d_streams := [\<lparr> st_stream = CKB_STREAM, st_last_block_number = 120,
     st_last_block_hash = Some [1], st_target = None, st_chain_tip = None, st_reorg_lag = 0, st_last_error = None,
     st_updated_at = 0 \<rparr>] \<rparr>"


text \<open>
  What the condition on the inputs excludes. A consumed cell that is not indexed and carries
  the code hash of a protocol lock with arguments that do not parse is an error of the whole
  round, where an output of that form is skipped.
\<close>

lemma unreadable_input_fails:
  assumes "\<And>n. e_fault e n = None" "stable_node ck ans"
    and "find (\<lambda>c. nc_tx_hash c = h256_to_vec (co_tx_hash p) \<and> nc_index c = as_i32 (co_index p)) (ib_cells (fst acc)) = None"
    and "cell_by_out_point (h256_to_vec (co_tx_hash p)) (as_i32 (co_index p)) (w_db w) = None"
    and "body_of ans (co_tx_hash p) = Some tx" "unat (co_index p) < length (rt_outputs tx)"
    and "classify_lock (c_protocol cfg) (out_lock (rt_outputs tx ! unat (co_index p))) = Some kind"
    and "binding_parse kind (s_args (out_lock (rt_outputs tx ! unat (co_index p)))) = Inl err"
  shows "\<exists>w'. resolve_input e x ck cfg p j acc w = (Inl (IETypes err), w')"
proof -
  from assms(5) obtain ws where ws: "ans (co_tx_hash p) = Some ws" "ws_transaction ws = Some tx"
    by (auto simp: body_of_def split: bind_splits)
  have q: "of_store (query e (\<lambda>now. cell_by_out_point (h256_to_vec (co_tx_hash p)) (as_i32 (co_index p)))) w = (Inr None, tick w)"
    using assms(1,4) by (simp add: of_store_def io_map_err_def query_def sql_def tick_def)
  have g: "of_ckb (get_transaction ck (co_tx_hash p)) (tick w) = (Inr (Some ws), tick (tick w))"
    using assms(2) ws(1) by (simp add: of_ckb_def io_map_err_def get_transaction_def io_call_def stable_node_def)
  have b: "backfill_answer e x cfg p j acc (Some ws) (tick (tick w)) = (Inl (IETypes err), tick (tick w))"
    unfolding backfill_answer_def Let_def option.case ws(2) by (simp add: assms(6,7,8) io_fail_def)
  show ?thesis
    unfolding resolve_input_def Let_def assms(3) option.case backfill_input_def io_bind_def q prod.case sum.case g b by simp
qed

end
