(* ===== verification/Verify_Props.thy ===== *)
theory Verify_Props
  imports Workers_Props
begin

text \<open>
  The verifier against a reference verdict: after a pass every transition of its batch
  carries the verdict that follows from what the data source knows, and no other transition
  has changed.
\<close>

section \<open>The reference verdict\<close>

definition verdict :: "(btc_txid \<Rightarrow> btc_tx_info option) \<Rightarrow> transition_row \<Rightarrow> commitment_status \<times> byte list option" where
  "verdict ans t =
     (if tr_kind t = ''issuance'' then (NotApplicable, None)
      else case ans (BtcTxid (mk32 (unwrap_or [] (tr_btc_txid t)))) of
        None \<Rightarrow> (BtcUnknown, None)
      | Some tx \<Rightarrow> (case tx_commitment tx of
          None \<Rightarrow> (Missing, None)
        | Some c \<Rightarrow> (case tr_expected t of
            None \<Rightarrow> Unchecked
          | Some expected \<Rightarrow> if expected = list32 c then Match else Mismatch, Some (list32 c))))"

definition judged :: "(btc_txid \<Rightarrow> btc_tx_info option) \<Rightarrow> transition_row \<Rightarrow> transition_row \<Rightarrow> transition_row" where
  "judged ans t r = r\<lparr> tr_observed := snd (verdict ans t), tr_commitment_status := commitment_as_str (fst (verdict ans t)) \<rparr>"

lemma judged_eq:
  "verdict ans t = (status, observed) \<Longrightarrow>
   judged ans t = (\<lambda>r. r\<lparr> tr_observed := observed, tr_commitment_status := commitment_as_str status \<rparr>)"
  by (rule ext) (simp add: judged_def)

section \<open>One transition\<close>

interpretation transitions_kept: fetch_relation "keeps d_transitions"
  by unfold_locales (auto simp: keeps_def upsert_btc_tx_def dest!: label_outpoints_side)

lemma fetched:
  assumes "\<forall>n t. bs_transaction src n t = Inr (ans t)" "refresh_btc_tx e x src txid w = (Inr r, w')"
  shows "r = ans txid \<and> d_transitions (w_db w') = d_transitions (w_db w)"
proof
  show "r = ans txid"
    using assms by (auto simp: refresh_btc_tx_def io_bind_Inr of_btc_def io_map_err_def io_call_def split: option.splits)
  show "d_transitions (w_db w') = d_transitions (w_db w)"
    by (rule obeys_keepsD [OF transitions_kept.obeys_refresh_btc_tx assms(2)])
qed

lemma result_set:
  "set_result e t observed status w = (Inr u, w') \<Longrightarrow>
   d_transitions (w_db w') = update_where (\<lambda>r. tr_tx_hash r = tr_tx_hash t)
     (\<lambda>r. r\<lparr> tr_observed := observed, tr_commitment_status := commitment_as_str status \<rparr>) (d_transitions (w_db w))"
  unfolding set_result_def of_store_Inr by (drule execute_Inr) (simp add: set_commitment_result_def)

lemma finding_recorded:
  "record_finding e x kind h t detail w = (Inr u, w') \<Longrightarrow> d_transitions (w_db w') = d_transitions (w_db w)"
  unfolding record_finding_def of_store_Inr by (drule execute_Inr) (simp add: record_anomaly_def)

lemma compared:
  assumes "compare_commitment e x t raw txid observed report w = (Inr (status, report'), w')"
  shows "d_transitions (w_db w') = d_transitions (w_db w) \<and> vr_checked report' = vr_checked report \<and>
    status = (case observed of None \<Rightarrow> Missing | Some c \<Rightarrow> (case tr_expected t of
       None \<Rightarrow> Unchecked | Some expected \<Rightarrow> if expected = list32 c then Match else Mismatch))"
  using assms
  by (auto simp: compare_commitment_def io_bind_Inr dest: finding_recorded split: option.splits if_splits)

lemma verified:
  assumes ans: "\<forall>n t. bs_transaction src n t = Inr (ans t)" and txid: "tr_btc_txid t \<noteq> None"
    and run: "verify_transition e x src t report w = (Inr report', w')"
  shows "d_transitions (w_db w') = update_where (\<lambda>r. tr_tx_hash r = tr_tx_hash t) (judged ans t) (d_transitions (w_db w)) \<and>
    vr_checked report' = vr_checked report + 1"
proof -
  from txid obtain raw where raw: "tr_btc_txid t = Some raw" by blast
  show ?thesis
  proof (cases "tr_kind t = ''issuance''")
    case True
    then have "judged ans t = (\<lambda>r. r\<lparr> tr_observed := None, tr_commitment_status := commitment_as_str NotApplicable \<rparr>)"
      by (intro ext) (simp add: judged_def verdict_def)
    with True run raw show ?thesis
      by (auto simp: verify_transition_def io_bind_Inr simp del: commitment_as_str.simps dest!: result_set)
  next
    case False
    with run raw obtain id' answer w1 where id: "from_display_slice raw = Inr id'"
      and fetch: "refresh_btc_tx e x src id' w = (Inr answer, w1)"
      and rest: "(case answer of
           None \<Rightarrow>
             io_bind (set_result e t None BtcUnknown)
             (\<lambda>_. io_bind (record_finding e x UnknownBtcTx (tr_tx_hash t) raw (JObj [(''btc_txid'', JStr (txid_to_hex x id'))]))
             (\<lambda>_. io_ret (report\<lparr> vr_btc_unknown := vr_btc_unknown report + 1, vr_checked := vr_checked report + 1 \<rparr>)))
         | Some tx \<Rightarrow>
             io_bind (compare_commitment e x t raw id' (tx_commitment tx) report)
             (\<lambda>(status, report). io_bind (set_result e t (map_option list32 (tx_commitment tx)) status)
             (\<lambda>_. io_ret (report\<lparr> vr_checked := vr_checked report + 1 \<rparr>)))) w1 = (Inr report', w')"
      unfolding verify_transition_def raw option.case transition_as_str.simps if_not_P [OF False]
        io_bind_Inr [of "io_of r" for r] io_bind_Inr [of "refresh_btc_tx e x src i" for i]
      by (auto simp: io_of_def simp del: One_nat_def add_Suc_right)
    from fetched [OF ans fetch] have a: "answer = ans id'" and w1: "d_transitions (w_db w1) = d_transitions (w_db w)" by simp_all
    from id have id': "id' = BtcTxid (mk32 raw)" by (auto simp: from_display_slice_def split: if_splits)
    show ?thesis
    proof (cases answer)
      case None
      with rest obtain w2 where s: "set_result e t None BtcUnknown w1 = (Inr (), w2)" and
        f: "record_finding e x UnknownBtcTx (tr_tx_hash t) raw (JObj [(''btc_txid'', JStr (txid_to_hex x id'))]) w2 = (Inr (), w')" and
        report: "report' = report\<lparr> vr_btc_unknown := vr_btc_unknown report + 1, vr_checked := vr_checked report + 1 \<rparr>"
        by (auto simp: io_bind_Inr)
      have "verdict ans t = (BtcUnknown, None)"
        using None a False raw id' by (simp add: verdict_def)
      from judged_eq [OF this] show ?thesis
        using result_set [OF s] finding_recorded [OF f] w1 report by simp
    next
      case (Some tx)
      with rest obtain status report1 w2 where
        c: "compare_commitment e x t raw id' (tx_commitment tx) report w1 = (Inr (status, report1), w2)" and
        s: "set_result e t (map_option list32 (tx_commitment tx)) status w2 = (Inr (), w')"
        "report' = report1\<lparr> vr_checked := vr_checked report1 + 1 \<rparr>"
        by (auto simp: io_bind_Inr)
      have "verdict ans t = (status, map_option list32 (tx_commitment tx))"
        using compared [OF c] Some a False raw id' by (auto simp: verdict_def split: option.split)
      from judged_eq [OF this] result_set [OF s(1)] compared [OF c] s(2) w1 show ?thesis by simp
    qed
  qed
qed

section \<open>A pass\<close>

lemma fold_update_where:
  assumes "\<And>t r. key (g t r) = key r"
  shows "fold (\<lambda>t. update_where (\<lambda>r. key r = key t) (g t)) ts rows =
    map (\<lambda>r. fold (\<lambda>t r'. if key r' = key t then g t r' else r') ts r) rows"
  by (induction ts arbitrary: rows) (auto simp: update_where_def comp_def)

lemma fold_one_update:
  assumes "\<And>t r. key (g t r) = key r" "distinct (map key ts)"
  shows "fold (\<lambda>t r'. if key r' = key t then g t r' else r') ts r =
    (case find (\<lambda>t. key t = key r) ts of None \<Rightarrow> r | Some t \<Rightarrow> g t r)"
  using assms(2)
proof (induction ts arbitrary: r)
  case (Cons t ts)
  show ?case
  proof (cases "key r = key t")
    case True
    then have "find (\<lambda>u. key u = key (g t r)) ts = None"
      using Cons.prems by (auto simp: find_None_iff assms(1) intro: rev_image_eqI)
    with True Cons show ?thesis by simp
  next
    case False
    then have "key t \<noteq> key r" by simp
    with False Cons show ?thesis by simp
  qed
qed simp

lemma verify_loop:
  assumes "\<forall>n t. bs_transaction src n t = Inr (ans t)"
  shows "\<forall>t \<in> set ts. tr_btc_txid t \<noteq> None \<Longrightarrow> io_for ts report (verify_transition e x src) w = (Inr report', w') \<Longrightarrow>
    d_transitions (w_db w') = fold (\<lambda>t. update_where (\<lambda>r. tr_tx_hash r = tr_tx_hash t) (judged ans t)) ts (d_transitions (w_db w)) \<and>
    vr_checked report' = vr_checked report + length ts"
proof (induction ts arbitrary: report w)
  case (Cons t ts)
  from Cons.prems(2) obtain r1 w1 where t: "verify_transition e x src t report w = (Inr r1, w1)"
    and ts: "io_for ts r1 (verify_transition e x src) w1 = (Inr report', w')" by (auto simp: io_bind_Inr)
  from verified [OF assms _ t] Cons.IH [OF _ ts] Cons.prems(1) show ?case by simp
qed simp

lemma judge_all:
  assumes "distinct (map tr_tx_hash rows)" "set ts \<subseteq> set rows" "distinct ts"
  shows "fold (\<lambda>t. update_where (\<lambda>r. tr_tx_hash r = tr_tx_hash t) (judged ans t)) ts rows =
    map (\<lambda>r. if r \<in> set ts then judged ans r r else r) rows"
proof -
  have inj: "a = b" if "a \<in> set rows" "b \<in> set rows" "tr_tx_hash a = tr_tx_hash b" for a b
    using assms(1) that by (auto simp: distinct_map dest: inj_onD)
  have keys: "distinct (map tr_tx_hash ts)"
    unfolding distinct_map using assms(2,3) inj by (auto intro!: inj_onI)
  have k: "tr_tx_hash (judged ans t r) = tr_tx_hash r" for t r by (simp add: judged_def)
  have "find (\<lambda>t. tr_tx_hash t = tr_tx_hash r) ts = (if r \<in> set ts then Some r else None)" if "r \<in> set rows" for r
  proof (cases "find (\<lambda>t. tr_tx_hash t = tr_tx_hash r) ts")
    case None
    then show ?thesis by (auto simp: find_None_iff)
  next
    case (Some t)
    then have "t \<in> set ts" "tr_tx_hash t = tr_tx_hash r" by (auto simp: find_Some_iff)
    with inj [of t r] assms(2) that Some show ?thesis by auto
  qed
  then show ?thesis
    unfolding fold_update_where [where key = tr_tx_hash and g = "judged ans", OF k]
    by (auto simp: fold_one_update [where key = tr_tx_hash and g = "judged ans", OF k keys])
qed

section \<open>A sample\<close>

definition sample_transition :: transition_row where
  "sample_transition = \<lparr> tr_tx_hash = replicate 32 1, tr_block_number = 7, tr_block_hash = replicate 32 2,
     tr_tx_index = 0, tr_timestamp = None, tr_kind = ''transfer'', tr_btc_txid = Some (replicate 32 3),
     tr_input_count = 1, tr_output_count = 1, tr_expected = None, tr_observed = None,
     tr_commitment_status = ''unchecked'', tr_indexed_at = 0 \<rparr>"

definition unchecked_db :: db where
  "unchecked_db = empty_db\<lparr> d_transitions := [sample_transition] \<rparr>"

lemma unchecked_batch: "unchecked_transitions (vf_batch_size (c_verify sample_config)) unchecked_db = [sample_transition]"
  by (simp add: unchecked_transitions_def unchecked_db_def sample_transition_def limit_rows_def sample_config_def
      verify_default_def)

lemma unchecked_run:
  "\<exists>report w'. verify_once quiet_env ref_ext (ref_source (\<lambda>p. Unspent) (\<lambda>t. None) 105) sample_config (world_of unchecked_db) = (Inr report, w')"
  by (simp add: verify_once_def io_bind_def of_store_def io_map_err_def query_def sql_def world_of_def unchecked_batch
      verify_transition_def sample_transition_def io_of_def from_display_slice_def refresh_btc_tx_def of_btc_def io_call_def
      ref_source_def set_result_def record_finding_def execute_def io_ret_def Let_def split: prod.split)

section \<open>Properties\<close>

text \<open>
  C10.
  The verifier agrees with a reference verdict. Against a source that answers each
  transaction request alike, after a successful pass every transition of the batch carries
  the verdict and the observed commitment that follow from the source's answer and the
  expected commitment, every other transition is untouched, and the report counts the
  batch.
\<close>

theorem verdicts_follow_reference:
  assumes "\<forall>n t. bs_transaction src n t = Inr (ans t)"
    and "distinct (map tr_tx_hash (d_transitions (w_db w)))"
    and "verify_once e x src cfg w = (Inr report, w')"
  defines "batch \<equiv> unchecked_transitions (vf_batch_size (c_verify cfg)) (w_db w)"
  shows "d_transitions (w_db w') = map (\<lambda>t. if t \<in> set batch then judged ans t t else t) (d_transitions (w_db w)) \<and>
    vr_checked report = length batch"
proof -
  from assms(3) obtain ts w1 where q: "of_store (query e (\<lambda>now. unchecked_transitions (vf_batch_size (c_verify cfg)))) w = (Inr ts, w1)"
    and loop: "io_for ts verify_zero (verify_transition e x src) w1 = (Inr report, w')"
    unfolding verify_once_def io_bind_Inr by blast
  from q have ts: "ts = batch" "w_db w1 = w_db w" by (auto simp: batch_def of_store_Inr query_def sql_Inr)
  have sub: "set batch \<subseteq> {t \<in> set (d_transitions (w_db w)). tr_btc_txid t \<noteq> None}"
    unfolding batch_def unchecked_transitions_def limit_rows_def by (rule order_trans [OF set_take_subset]) auto
  have "distinct (d_transitions (w_db w))" using assms(2) by (simp add: distinct_map)
  then have "distinct batch" by (simp add: batch_def unchecked_transitions_def limit_rows_def)
  moreover from sub have "set batch \<subseteq> set (d_transitions (w_db w))" by blast
  ultimately have judge: "fold (\<lambda>t. update_where (\<lambda>r. tr_tx_hash r = tr_tx_hash t) (judged ans t)) batch (d_transitions (w_db w)) =
    map (\<lambda>r. if r \<in> set batch then judged ans r r else r) (d_transitions (w_db w))"
    by (intro judge_all [OF assms(2)])
  from sub ts have "\<forall>t \<in> set ts. tr_btc_txid t \<noteq> None" by blast
  from verify_loop [OF assms(1) this loop] judge ts show ?thesis by (simp add: verify_zero_def)
qed

lemma verdicts_follow_reference_witness:
  "\<exists>report w'. verify_once quiet_env ref_ext (ref_source (\<lambda>p. Unspent) (\<lambda>t. None) 105) sample_config (world_of unchecked_db) = (Inr report, w') \<and>
     map tr_commitment_status (d_transitions (w_db w')) = [''btc_unknown''] \<and> vr_checked report = 1"
proof -
  let ?src = "ref_source (\<lambda>p. Unspent) (\<lambda>t. None) 105"
  obtain report w' where run: "verify_once quiet_env ref_ext ?src sample_config (world_of unchecked_db) = (Inr report, w')"
    using unchecked_run by blast
  have "\<forall>n t. bs_transaction ?src n t = Inr ((\<lambda>t. None) t)" by (simp add: ref_source_def)
  moreover have "distinct (map tr_tx_hash (d_transitions (w_db (world_of unchecked_db))))"
    by (simp add: world_of_def unchecked_db_def)
  ultimately have "d_transitions (w_db w') = [judged (\<lambda>t. None) sample_transition sample_transition] \<and> vr_checked report = 1"
    using verdicts_follow_reference [of ?src "\<lambda>t. None", OF _ _ run] unchecked_batch
    by (simp add: world_of_def) (simp add: unchecked_db_def)
  then show ?thesis using run by (auto simp: judged_def verdict_def sample_transition_def)
qed

end
