(* ===== verification/Monitor.thy ===== *)
theory Monitor
  imports Scanner Store_Stats
begin

text \<open>
  What an operator sees: \<open>crates/indexer/src/progress.rs\<close>, the accumulation of scan rounds
  into one line per interval, and \<open>crates/indexer/src/heartbeat.rs\<close>. Times are milliseconds.
  What the texts of a line are computed from is in the line; the texts are in \<open>Sync_Line\<close>.
\<close>

section \<open>The progress of the scanner\<close>

record sync_reporter =
  sy_interval :: nat
  sy_window_start :: nat
  sy_first_block :: "u64 option"
  sy_last_block :: u64
  sy_rounds :: u64
  sy_blocks :: u64
  sy_transactions :: u64
  sy_cells :: u64
  sy_spends :: u64
  sy_backfilled :: u64
  sy_origin :: u64
  sy_session_start :: nat
  sy_session_blocks :: u64
  sy_caught_up :: bool

record sync_line =
  sl_first :: u64
  sl_last :: u64
  sl_blocks :: u64
  sl_transactions :: u64
  sl_cells :: u64
  sl_spends :: u64
  sl_backfilled :: u64
  sl_behind :: u64
  sl_tip :: u64
  sl_span :: u64
  sl_done :: u64

datatype log_line = SyncLine sync_line | CaughtUp u64 u64 u64

definition reporter_new :: "nat \<Rightarrow> nat \<Rightarrow> u64 \<Rightarrow> sync_reporter" where
  "reporter_new now interval origin = \<lparr>
     sy_interval = interval, sy_window_start = now, sy_first_block = None, sy_last_block = 0, sy_rounds = 0,
     sy_blocks = 0, sy_transactions = 0, sy_cells = 0, sy_spends = 0, sy_backfilled = 0, sy_origin = origin,
     sy_session_start = now, sy_session_blocks = 0, sy_caught_up = False \<rparr>"

definition reporter_emit :: "nat \<Rightarrow> u64 \<Rightarrow> u64 \<Rightarrow> sync_reporter \<Rightarrow> sync_reporter \<times> log_line list" where
  "reporter_emit now target chain_tip s =
     (s\<lparr> sy_window_start := now, sy_first_block := None, sy_rounds := 0, sy_blocks := 0, sy_transactions := 0,
         sy_cells := 0, sy_spends := 0, sy_backfilled := 0 \<rparr>,
      [SyncLine \<lparr>
         sl_first = (case sy_first_block s of Some b \<Rightarrow> b | None \<Rightarrow> sy_last_block s), sl_last = sy_last_block s,
         sl_blocks = sy_blocks s, sl_transactions = sy_transactions s, sl_cells = sy_cells s, sl_spends = sy_spends s,
         sl_backfilled = sy_backfilled s, sl_behind = saturating_sub target (sy_last_block s), sl_tip = chain_tip,
         sl_span = max (saturating_sub target (sy_origin s)) 1, sl_done = saturating_sub (sy_last_block s) (sy_origin s) \<rparr>])"

definition reporter_flush :: "nat \<Rightarrow> u64 \<Rightarrow> u64 \<Rightarrow> sync_reporter \<Rightarrow> sync_reporter \<times> log_line list" where
  "reporter_flush now target chain_tip s =
     (if sy_blocks s > 0 then reporter_emit now target chain_tip s else (s, []))"

definition note_idle :: "nat \<Rightarrow> scan_round \<Rightarrow> sync_reporter \<Rightarrow> sync_reporter \<times> log_line list" where
  "note_idle now r s =
     (let (s, lines) = (if sy_blocks s > 0 then reporter_emit now (rd_target r) (rd_chain_tip r) s else (s, [])) in
      if sy_caught_up s then (s, lines)
      else (s\<lparr> sy_caught_up := True \<rparr>,
            lines @ [CaughtUp (rd_target r) (rd_chain_tip r) (saturating_sub (rd_chain_tip r) (rd_target r))]))"

definition scanned_blocks :: "scan_round \<Rightarrow> u64" where
  "scanned_blocks r = saturating_sub (rd_to r) (rd_from r) + 1"

definition fold_in :: "scan_round \<Rightarrow> sync_reporter \<Rightarrow> sync_reporter" where
  "fold_in r s = s\<lparr>
     sy_caught_up := False,
     sy_first_block := Some (case sy_first_block s of Some b \<Rightarrow> b | None \<Rightarrow> rd_from r),
     sy_last_block := rd_to r,
     sy_rounds := sy_rounds s + 1,
     sy_blocks := sy_blocks s + scanned_blocks r,
     sy_session_blocks := sy_session_blocks s + scanned_blocks r,
     sy_transactions := sy_transactions s + of_nat (rd_transactions r),
     sy_cells := sy_cells s + of_nat (rd_cells r),
     sy_spends := sy_spends s + of_nat (rd_spends r),
     sy_backfilled := sy_backfilled s + of_nat (rd_backfilled r) \<rparr>"

definition record_round :: "nat \<Rightarrow> scan_round \<Rightarrow> sync_reporter \<Rightarrow> sync_reporter \<times> log_line list" where
  "record_round now r s =
     (if rd_idle r then note_idle now r s
      else let s = fold_in r s in
        if now - sy_window_start s \<ge> sy_interval s then reporter_emit now (rd_target r) (rd_chain_tip r) s else (s, []))"

text \<open>A session: the rounds in order, each with the time at which it is reported.\<close>

fun report_session :: "(nat \<times> scan_round) list \<Rightarrow> sync_reporter \<Rightarrow> sync_reporter \<times> log_line list" where
  "report_session [] s = (s, [])"
| "report_session ((now, r) # rs) s =
     (let (s, lines) = record_round now r s; (s, more) = report_session rs s in (s, lines @ more))"

text \<open>\<open>human_duration\<close>: at most two units, largest first.\<close>

definition human_duration :: "u64 \<Rightarrow> string" where
  "human_duration secs =
     (let n = unat secs; days = n div 86400; hours = (n mod 86400) div 3600;
          minutes = (n mod 3600) div 60; seconds = n mod 60
      in if days > 0 then show_nat days @ ''d'' @ show_nat hours @ ''h''
         else if hours > 0 then show_nat hours @ ''h'' @ show_nat minutes @ ''m''
         else if minutes > 0 then show_nat minutes @ ''m'' @ show_nat seconds @ ''s''
         else show_nat seconds @ ''s'')"

section \<open>The heartbeat\<close>

record heartbeat_line =
  hb_indexed :: int
  hb_target :: int
  hb_tip :: int
  hb_behind :: int
  hb_lag :: u64
  hb_counts :: indexer_counts
  hb_unlabelled :: nat

definition heartbeat_emit :: "env \<Rightarrow> config \<Rightarrow> (heartbeat_line \<times> string option) scan_io" where
  "heartbeat_emit e cfg =
     io_bind (of_store (query e (\<lambda>now. get_stream_state CKB_STREAM)))
     (\<lambda>state. io_bind (of_store (query e (\<lambda>now. counts)))
     (\<lambda>counts. io_bind (of_store (query e (\<lambda>now. bindings_missing_address)))
     (\<lambda>unlabelled.
        let indexed = (case state of Some s \<Rightarrow> st_last_block_number s | None \<Rightarrow> 0);
            tip = Option.bind state st_chain_tip;
            target = Option.bind state st_target
        in io_ret (\<lparr> hb_indexed = indexed, hb_target = (case target of Some t \<Rightarrow> t | None \<Rightarrow> 0),
             hb_tip = (case tip of Some t \<Rightarrow> t | None \<Rightarrow> 0),
             hb_behind = (case tip of Some t \<Rightarrow> t - indexed | None \<Rightarrow> 0),
             hb_lag = ckb_reorg_lag (c_ckb cfg), hb_counts = counts, hb_unlabelled = unlabelled \<rparr>,
           Option.bind state st_last_error))))"

section \<open>Every round is accounted for\<close>

text \<open>The totals over the lines of a session, one field at a time.\<close>

definition reported :: "(sync_line \<Rightarrow> u64) \<Rightarrow> log_line list \<Rightarrow> u64" where
  "reported f lines = (\<Sum>l \<leftarrow> lines. case l of SyncLine s \<Rightarrow> f s | CaughtUp a b c \<Rightarrow> 0)"

definition scanned_total :: "(scan_round \<Rightarrow> u64) \<Rightarrow> (nat \<times> scan_round) list \<Rightarrow> u64" where
  "scanned_total g rs = (\<Sum>(now, r) \<leftarrow> rs. if rd_idle r then 0 else g r)"

lemma reported_simps [simp]:
  "reported f [] = 0" "reported f (a @ b) = reported f a + reported f b"
  "reported f [SyncLine s] = f s" "reported f [CaughtUp x y z] = 0"
  by (simp_all add: reported_def)

text \<open>A counter of the reporter, with the field of a line that it becomes.\<close>

locale counter =
  fixes pending :: "sync_reporter \<Rightarrow> u64" and field :: "sync_line \<Rightarrow> u64" and amount :: "scan_round \<Rightarrow> u64"
  assumes counts: "pending (fold_in r s) = pending s + amount r"
    and emitted: "reported field (snd (reporter_emit now t c s)) = pending s"
    and reset: "pending (fst (reporter_emit now t c s)) = 0"
    and untouched: "pending (s\<lparr> sy_caught_up := b \<rparr>) = pending s"
begin

lemma record_accounts:
  "record_round now r s = (s', lines) \<Longrightarrow>
   reported field lines + pending s' = pending s + (if rd_idle r then 0 else amount r)"
  using emitted [of now "rd_target r" "rd_chain_tip r" s] emitted [of now "rd_target r" "rd_chain_tip r" "fold_in r s"]
    reset [of now "rd_target r" "rd_chain_tip r" s] reset [of now "rd_target r" "rd_chain_tip r" "fold_in r s"] counts [of r s]
  by (auto simp: record_round_def note_idle_def Let_def untouched split: if_splits prod.splits)

lemma session_accounts:
  "report_session rs s = (s', lines) \<Longrightarrow> reported field lines + pending s' = pending s + scanned_total amount rs"
proof (induction rs arbitrary: s s' lines)
  case (Cons x rs)
  obtain now r where x: "x = (now, r)" by (cases x)
  obtain s1 l1 where 1: "record_round now r s = (s1, l1)" by (meson surj_pair)
  obtain s2 l2 where 2: "report_session rs s1 = (s2, l2)" by (meson surj_pair)
  from Cons.prems x 1 2 have "s' = s2" "lines = l1 @ l2" by simp_all
  moreover have "reported field (l1 @ l2) + pending s2 = reported field l1 + (pending s1 + scanned_total amount rs)"
    using Cons.IH [OF 2] by (simp add: add.assoc)
  ultimately show ?case
    using record_accounts [OF 1] by (simp add: x scanned_total_def add.assoc [symmetric])
qed (simp add: scanned_total_def)

end

interpretation blocks_counter: counter sy_blocks sl_blocks scanned_blocks
  by unfold_locales (simp_all add: fold_in_def reporter_emit_def)

interpretation transactions_counter: counter sy_transactions sl_transactions "\<lambda>r. of_nat (rd_transactions r)"
  by unfold_locales (simp_all add: fold_in_def reporter_emit_def)

interpretation cells_counter: counter sy_cells sl_cells "\<lambda>r. of_nat (rd_cells r)"
  by unfold_locales (simp_all add: fold_in_def reporter_emit_def)

interpretation spends_counter: counter sy_spends sl_spends "\<lambda>r. of_nat (rd_spends r)"
  by unfold_locales (simp_all add: fold_in_def reporter_emit_def)

lemma session_blocks:
  "report_session rs s = (s', lines) \<Longrightarrow> sy_session_blocks s' = sy_session_blocks s + scanned_total scanned_blocks rs"
proof (induction rs arbitrary: s s' lines)
  case (Cons x rs)
  obtain now r where x: "x = (now, r)" by (cases x)
  obtain s1 l1 where 1: "record_round now r s = (s1, l1)" by (meson surj_pair)
  obtain s2 l2 where 2: "report_session rs s1 = (s2, l2)" by (meson surj_pair)
  have "sy_session_blocks s1 = sy_session_blocks s + (if rd_idle r then 0 else scanned_blocks r)"
    using 1 by (auto simp: record_round_def note_idle_def Let_def reporter_emit_def fold_in_def split: if_splits)
  with Cons.prems x 1 2 Cons.IH [OF 2] show ?case by (simp add: scanned_total_def add.assoc)
qed (simp add: scanned_total_def)

section \<open>Properties\<close>

text \<open>
  The progress report accounts for every round. Over a session of rounds at any times, the
  blocks, transactions, cells and spends in the lines that were emitted and those still
  pending add up to those of the rounds that were not idle, and the session total is the
  total of the blocks, whatever was flushed.
\<close>

theorem progress_accounts_for_every_round:
  "case report_session rs (reporter_new start interval origin) of (s, lines) \<Rightarrow>
     reported sl_blocks lines + sy_blocks s = scanned_total scanned_blocks rs \<and>
     reported sl_transactions lines + sy_transactions s = scanned_total (\<lambda>r. of_nat (rd_transactions r)) rs \<and>
     reported sl_cells lines + sy_cells s = scanned_total (\<lambda>r. of_nat (rd_cells r)) rs \<and>
     reported sl_spends lines + sy_spends s = scanned_total (\<lambda>r. of_nat (rd_spends r)) rs \<and>
     sy_session_blocks s = scanned_total scanned_blocks rs"
proof -
  obtain s lines where run: "report_session rs (reporter_new start interval origin) = (s, lines)" by (meson surj_pair)
  show ?thesis
    using blocks_counter.session_accounts [OF run] transactions_counter.session_accounts [OF run]
      cells_counter.session_accounts [OF run] spends_counter.session_accounts [OF run] session_blocks [OF run]
    unfolding run prod.case by (simp add: reporter_new_def)
qed

end
