(* ===== verification/Display.thy ===== *)
theory Display
  imports Reconcile
begin

text \<open>
  The texts of the errors, the \<open>#[error(...)]\<close> attributes of the five error types. The
  canonical reason of an HTTP status is a parameter. \<open>IEDiverged\<close> stands for a paging loop
  that ran out of the model's fuel and has no text.
\<close>

fun types_display :: "terr \<Rightarrow> string" where
  "types_display (EHex m) = ''invalid hex: '' @ m"
| "types_display (ELength what expected got) =
     ''invalid length for '' @ what @ '': expected '' @ show_nat expected @ '', got '' @ show_nat got"
| "types_display (EMalformed what reason) = ''malformed '' @ what @ '': '' @ reason"
| "types_display (EUnsupported what v) = ''unsupported '' @ what @ '': '' @ v"
| "types_display (EConfig m) = ''config error: '' @ m"

fun store_display :: "store_error \<Rightarrow> string" where
  "store_display (SESqlx m) = ''database error: '' @ m"
| "store_display (SEMigrate m) = ''migration error: '' @ m"
| "store_display (SEMapping m) = ''cannot map row to domain type: '' @ m"
| "store_display (SETypes err) = ''type error: '' @ types_display err"

fun btc_display :: "(nat \<Rightarrow> string) \<Rightarrow> btc_error \<Rightarrow> string" where
  "btc_display reason (BETransport m flag) = ''bitcoin data source transport error: '' @ m"
| "btc_display reason (BEStatus status url) =
     ''bitcoin data source returned '' @ show_nat status @ '' '' @ reason status @ '' for '' @ url"
| "btc_display reason (BERateLimited url) = ''bitcoin data source rate limited us on '' @ url"
| "btc_display reason (BEDecode what why) = ''cannot decode '' @ what @ '' from bitcoin data source: '' @ why"
| "btc_display reason (BEUnsupported feature source) =
     CHR 0x60 # feature @ CHR 0x60 # '' is not supported by the '' @ source @ '' data source''"
| "btc_display reason (BETypes err) = ''type error: '' @ types_display err"

fun ckb_display :: "ckb_error \<Rightarrow> string" where
  "ckb_display (CETransport m) = ''ckb rpc transport error: '' @ m"
| "ckb_display (CERpc method code message) =
     ''ckb rpc '' @ CHR 0x60 # method @ CHR 0x60 # '' returned error '' @ show_int code @ '': '' @ message"
| "ckb_display (CEPayload method reason) =
     ''ckb rpc '' @ CHR 0x60 # method @ CHR 0x60 # '' returned an unexpected payload: '' @ reason"
| "ckb_display (CEDecode err) = ''decode error: '' @ types_display err"
| "ckb_display (CEJson m) = ''json error: '' @ m"

fun indexer_display :: "(nat \<Rightarrow> string) \<Rightarrow> indexer_error \<Rightarrow> string" where
  "indexer_display reason (IECkb err) = ckb_display err"
| "indexer_display reason (IEBtc err) = btc_display reason err"
| "indexer_display reason (IEStore err) = store_display err"
| "indexer_display reason (IETypes err) = types_display err"
| "indexer_display reason (IEReorg number stored actual) =
     ''chain reorganisation detected: stored block '' @ show_nat (unat number) @ '' has hash '' @ stored
     @ '', node reports '' @ actual"
| "indexer_display reason (IEInconsistent m) = ''inconsistent chain data: '' @ m"
| "indexer_display reason IEDiverged = []"

end
