(* ===== verification/Api_Dto.thy ===== *)
theory Api_Dto
  imports Display Store_Stats
begin

text \<open>
  \<open>crates/api/src/dto.rs\<close>: the shapes of the responses and their conversions. A time is the
  integer of its row; \<open>BigDecimal\<close> values are integers, and \<open>plain_decimal\<close> prints all their
  digits. The JSON of the shapes is in \<open>Wire\<close>.
\<close>

section \<open>Cells\<close>

record ckb_point_dto =
  kp_tx_hash :: string
  kp_index :: u32

record btc_point_dto =
  bpt_txid :: string
  bpt_vout :: u32

record btc_time_dto =
  bm_after :: u32
  bm_btc_txid :: string
  bm_target_lock :: "json option"

record created_dto =
  cre_block_number :: int
  cre_tx_index :: int

record consumed_dto =
  con_block_number :: int
  con_tx_hash :: string

record btc_observation_dto =
  bod_status :: string
  bod_spender :: "string option"
  bod_height :: "int option"
  bod_observed_at :: "int option"
  bod_address :: "string option"

record cell_dto =
  ce_ckb_out_point :: ckb_point_dto
  ce_lock_kind :: string
  ce_btc_out_point :: "btc_point_dto option"
  ce_btc_time :: "btc_time_dto option"
  ce_type_hash :: "string option"
  ce_type_script :: "json option"
  ce_asset_kind :: string
  ce_amount :: "string option"
  ce_capacity :: string
  ce_data :: string
  ce_status :: string
  ce_created :: created_dto
  ce_consumed :: "consumed_dto option"
  ce_btc_observation :: "btc_observation_dto option"

definition hex0x :: "ext \<Rightarrow> byte list \<Rightarrow> string" where
  "hex0x x bs = ''0x'' @ ex_hex_encode x bs"

definition plain_decimal :: "int \<Rightarrow> string" where "plain_decimal v = show_int v"

definition decimal_string :: "nat option \<Rightarrow> string option" where
  "decimal_string v = map_option (\<lambda>n. plain_decimal (int n)) v"

definition cell_dto_of :: "ext \<Rightarrow> cell_row \<Rightarrow> cell_dto" where
  "cell_dto_of x row =
     (let btc_txid = ex_hex_encode x (cr_btc_txid row) in \<lparr>
       ce_ckb_out_point = \<lparr> kp_tx_hash = hex0x x (cr_tx_hash row), kp_index = as_u32 (cr_index row) \<rparr>,
       ce_lock_kind = cr_lock_kind row,
       ce_btc_out_point = map_option (\<lambda>vout. \<lparr> bpt_txid = btc_txid, bpt_vout = as_u32 vout \<rparr>) (cr_btc_vout row),
       ce_btc_time = map_option (\<lambda>after. \<lparr> bm_after = as_u32 after, bm_btc_txid = btc_txid,
         bm_target_lock = cr_target_lock row \<rparr>) (cr_time_after row),
       ce_type_hash = map_option (hex0x x) (cr_type_hash row),
       ce_type_script = cr_type_script row,
       ce_asset_kind = cr_asset_kind row,
       ce_amount = decimal_string (cr_udt_amount row),
       ce_capacity = show_int (cr_capacity row),
       ce_data = hex0x x (cr_cell_data row),
       ce_status = cr_status row,
       ce_created = \<lparr> cre_block_number = cr_created_block row, cre_tx_index = cr_created_tx_index row \<rparr>,
       ce_consumed = (case (cr_consumed_block row, cr_consumed_tx row) of
           (Some block, Some tx_hash) \<Rightarrow> Some \<lparr> con_block_number = block, con_tx_hash = hex0x x tx_hash \<rparr>
         | _ \<Rightarrow> None),
       ce_btc_observation = map_option (\<lambda>status. \<lparr> bod_status = status,
         bod_spender = map_option (ex_hex_encode x) (cr_btc_spender row), bod_height = cr_btc_spent_height row,
         bod_observed_at = cr_btc_observed_at row, bod_address = cr_btc_address row \<rparr>) (cr_btc_status row) \<rparr>)"

section \<open>Transitions, balances, assets and anomalies\<close>

record transition_dto =
  td_ckb_tx_hash :: string
  td_block_number :: int
  td_tx_index :: int
  td_block_timestamp :: "int option"
  td_kind :: string
  td_btc_txid :: "string option"
  td_input_cell_count :: int
  td_output_cell_count :: int
  td_expected_commitment :: "string option"
  td_observed_commitment :: "string option"
  td_commitment_status :: string

definition transition_dto_of :: "ext \<Rightarrow> transition_row \<Rightarrow> transition_dto" where
  "transition_dto_of x row = \<lparr>
     td_ckb_tx_hash = hex0x x (tr_tx_hash row), td_block_number = tr_block_number row, td_tx_index = tr_tx_index row,
     td_block_timestamp = tr_timestamp row, td_kind = tr_kind row, td_btc_txid = map_option (ex_hex_encode x) (tr_btc_txid row),
     td_input_cell_count = tr_input_count row, td_output_cell_count = tr_output_count row,
     td_expected_commitment = map_option (ex_hex_encode x) (tr_expected row),
     td_observed_commitment = map_option (ex_hex_encode x) (tr_observed row),
     td_commitment_status = tr_commitment_status row \<rparr>"

definition is_fungible :: "string \<Rightarrow> bool" where
  "is_fungible kind \<longleftrightarrow> kind = ''xudt'' \<or> kind = ''sudt''"

record asset_balance_dto =
  bd_asset_kind :: string
  bd_type_hash :: "string option"
  bd_cell_count :: nat
  bd_total_capacity :: string
  bd_total_amount :: "string option"

definition balance_dto_of :: "ext \<Rightarrow> asset_balance_row \<Rightarrow> asset_balance_dto" where
  "balance_dto_of x row = \<lparr>
     bd_asset_kind = ab_asset_kind row, bd_type_hash = map_option (hex0x x) (ab_type_hash row),
     bd_cell_count = ab_cell_count row, bd_total_capacity = plain_decimal (ab_total_capacity row),
     bd_total_amount = (if is_fungible (ab_asset_kind row) then Some (plain_decimal (int (ab_total_amount row))) else None) \<rparr>"

record asset_dto =
  asd_type_hash :: string
  asd_asset_kind :: string
  asd_cell_count :: nat
  asd_live_cell_count :: nat
  asd_live_seal_count :: nat
  asd_holder_count :: nat
  asd_unlabelled_seal_count :: nat
  asd_total_amount :: "string option"
  asd_first_block_number :: int
  asd_first_ckb_tx_hash :: string
  asd_last_block_number :: int

definition asset_dto_of :: "ext \<Rightarrow> asset_row \<Rightarrow> asset_dto" where
  "asset_dto_of x row = \<lparr>
     asd_type_hash = hex0x x (ar_type_hash row), asd_asset_kind = ar_asset_kind row, asd_cell_count = ar_cell_count row,
     asd_live_cell_count = ar_live_cell_count row, asd_live_seal_count = ar_live_seal_count row,
     asd_holder_count = ar_holder_count row, asd_unlabelled_seal_count = ar_unlabelled_count row,
     asd_total_amount = (if is_fungible (ar_asset_kind row)
       then Some (case ar_total_amount row of Some n \<Rightarrow> plain_decimal (int n) | None \<Rightarrow> ''0'') else None),
     asd_first_block_number = ar_first_block row, asd_first_ckb_tx_hash = hex0x x (ar_first_tx row),
     asd_last_block_number = ar_last_block row \<rparr>"

record anomaly_dto =
  ad_id :: int
  ad_kind :: string
  ad_btc_out_point :: "btc_point_dto option"
  ad_ckb_out_point :: "ckb_point_dto option"
  ad_detail :: json
  ad_detected_at :: int
  ad_last_seen_at :: int
  ad_resolved_at :: "int option"

definition anomaly_dto_of :: "ext \<Rightarrow> anomaly_row \<Rightarrow> anomaly_dto" where
  "anomaly_dto_of x row = \<lparr>
     ad_id = an_id row, ad_kind = an_kind row,
     ad_btc_out_point = (case (an_btc_txid row, an_btc_vout row) of
         (Some txid, Some vout) \<Rightarrow> Some \<lparr> bpt_txid = ex_hex_encode x txid, bpt_vout = as_u32 vout \<rparr> | _ \<Rightarrow> None),
     ad_ckb_out_point = map_option (\<lambda>tx_hash. \<lparr> kp_tx_hash = hex0x x tx_hash,
         kp_index = as_u32 (unwrap_or 0 (an_ckb_index row)) \<rparr>) (an_ckb_tx row),
     ad_detail = an_detail row, ad_detected_at = an_detected_at row, ad_last_seen_at = an_last_seen_at row,
     ad_resolved_at = an_resolved_at row \<rparr>"

section \<open>Status\<close>

record ckb_status_dto =
  cst_indexed_to :: int
  cst_target :: "int option"
  cst_chain_tip :: "int option"
  cst_reorg_lag :: int
  cst_blocks_behind :: "int option"
  cst_last_error :: "string option"
  cst_updated_at :: int

record sweep_status_dto =
  ss_id :: int
  ss_started_at :: int
  ss_finished_at :: "int option"
  ss_outpoints_checked :: int
  ss_anomalies_found :: int
  ss_status :: string

record counts_dto =
  cnd_total_cells :: nat
  cnd_live_cells :: nat
  cnd_pending_ckb_cells :: nat
  cnd_transitions :: nat
  cnd_observed_outpoints :: nat
  cnd_open_anomalies :: nat
  cnd_refresh_queue_depth :: nat
  cnd_udts :: nat
  cnd_dobs :: nat

definition counts_dto_of :: "indexer_counts \<Rightarrow> counts_dto" where
  "counts_dto_of c = \<lparr> cnd_total_cells = ix_total_cells c, cnd_live_cells = ix_live_cells c,
     cnd_pending_ckb_cells = ix_pending_ckb_cells c, cnd_transitions = ix_transitions c,
     cnd_observed_outpoints = ix_observed_outpoints c, cnd_open_anomalies = ix_open_anomalies c,
     cnd_refresh_queue_depth = ix_queue_depth c, cnd_udts = ix_udts c, cnd_dobs = ix_dobs c \<rparr>"

record status_dto =
  sd_network :: string
  sd_btc_source :: string
  sd_ckb :: ckb_status_dto
  sd_counts :: counts_dto
  sd_last_sweep :: "sweep_status_dto option"

section \<open>Reconciliation\<close>

datatype spend_status_dto = UnknownDto | UnspentDto | SpentUnconfirmedDto string | SpentConfirmedDto string u32

fun spend_status_dto_of :: "ext \<Rightarrow> spend_status \<Rightarrow> spend_status_dto" where
  "spend_status_dto_of x Unknown = UnknownDto"
| "spend_status_dto_of x Unspent = UnspentDto"
| "spend_status_dto_of x (SpentUnconfirmed spender) = SpentUnconfirmedDto (txid_to_hex x spender)"
| "spend_status_dto_of x (SpentConfirmed spender height) = SpentConfirmedDto (txid_to_hex x spender) height"

definition btc_point_dto_of :: "ext \<Rightarrow> btc_out_point \<Rightarrow> btc_point_dto" where
  "btc_point_dto_of x p = \<lparr> bpt_txid = txid_to_hex x (bo_txid p), bpt_vout = bo_vout p \<rparr>"

record outpoint_refresh_dto =
  rf_outpoint :: btc_point_dto
  rf_status :: spend_status_dto
  rf_changed :: bool

definition refresh_dto_of :: "ext \<Rightarrow> outpoint_refresh \<Rightarrow> outpoint_refresh_dto" where
  "refresh_dto_of x r = \<lparr> rf_outpoint = btc_point_dto_of x (orf_outpoint r),
     rf_status = spend_status_dto_of x (orf_status r), rf_changed = orf_changed r \<rparr>"

record address_reconcile_dto =
  rcd_address :: string
  rcd_source_utxo_count :: nat
  rcd_disappeared :: "btc_point_dto list"
  rcd_contradicted :: "btc_point_dto list"
  rcd_refreshed :: "outpoint_refresh_dto list"

definition reconcile_dto_of :: "ext \<Rightarrow> address_reconcile \<Rightarrow> address_reconcile_dto" where
  "reconcile_dto_of x r = \<lparr> rcd_address = arc_address r, rcd_source_utxo_count = arc_source_utxo_count r,
     rcd_disappeared = map (btc_point_dto_of x) (arc_disappeared r),
     rcd_contradicted = map (btc_point_dto_of x) (arc_contradicted r),
     rcd_refreshed = map (refresh_dto_of x) (arc_refreshed r) \<rparr>"

datatype resolution_dto =
  UnknownBtcTxDto
| AwaitingCkbDto bool "u32 option"
| CkbSeenAboveLagDto "ckb_point_dto list" int
| IndexedDto string int

fun resolution_dto_of :: "ext \<Rightarrow> transition_resolution \<Rightarrow> resolution_dto" where
  "resolution_dto_of x UnknownBtc = UnknownBtcTxDto"
| "resolution_dto_of x (AwaitingCkb confirmed height) = AwaitingCkbDto confirmed height"
| "resolution_dto_of x (CkbSeenAboveLag cells indexed_to) =
     CkbSeenAboveLagDto (map (\<lambda>c. \<lparr> kp_tx_hash = h256_to_hex x (co_tx_hash c), kp_index = co_index c \<rparr>) cells) indexed_to"
| "resolution_dto_of x (Indexed ckb_tx_hash block_number) = IndexedDto ckb_tx_hash block_number"

end
