(* ===== verification/Api_Activity.thy ===== *)
theory Api_Activity
  imports Api_Dto
begin

text \<open>
  The page of an address history, the \<open>build_activity\<close> of \<open>crates/api/src/dto.rs\<close>. A
  \<open>HashMap\<close> is an association list in the order of first insertion; the order is not
  observable, as the deltas are sorted by their key.
\<close>

section \<open>The shapes\<close>

record activity_btc_dto =
  ab_txid :: string
  ab_confirmed :: bool
  ab_block_height :: "int option"
  ab_block_hash :: "string option"
  ab_block_time :: "int option"
  ab_fee :: "string option"

record activity_cell_dto =
  acd_ckb_out_point :: ckb_point_dto
  acd_btc_out_point :: "btc_point_dto option"
  acd_asset_kind :: string
  acd_type_hash :: "string option"
  acd_amount :: "string option"
  acd_capacity :: string

record asset_delta_dto =
  dd_asset_kind :: string
  dd_type_hash :: "string option"
  dd_amount :: "string option"
  dd_capacity :: string
  dd_cell_delta :: int

datatype activity_direction = DirIn | DirOut | DirSelf

record activity_entry_dto =
  ae_ckb_tx_hash :: string
  ae_block_number :: int
  ae_tx_index :: int
  ae_block_timestamp :: "int option"
  ae_kind :: string
  ae_direction :: activity_direction
  ae_btc :: "activity_btc_dto option"
  ae_received :: "activity_cell_dto list"
  ae_sent :: "activity_cell_dto list"
  ae_deltas :: "asset_delta_dto list"
  ae_cursor :: string

record address_activity_dto =
  aa_address :: string
  aa_entries :: "activity_entry_dto list"
  aa_next_cursor :: "string option"
  aa_unresolved_bindings_total :: nat

section \<open>Accumulating the cells\<close>

text \<open>\<open>map.entry(k).or_default()\<close>, then changed in place.\<close>

fun entry_modify :: "'v \<Rightarrow> ('v \<Rightarrow> 'v) \<Rightarrow> 'k \<Rightarrow> ('k \<times> 'v) list \<Rightarrow> ('k \<times> 'v) list" where
  "entry_modify d f k [] = [(k, f d)]"
| "entry_modify d f k ((k', v) # m) = (if k' = k then (k', f v) # m else (k', v) # entry_modify d f k m)"

text \<open>\<open>map.remove(k).unwrap_or_default()\<close> and what it leaves.\<close>

definition take_entry :: "'v \<Rightarrow> 'k \<Rightarrow> ('k \<times> 'v) list \<Rightarrow> 'v \<times> ('k \<times> 'v) list" where
  "take_entry d k m = (unwrap_or d (map_of m k), filter (\<lambda>(k', v). k' \<noteq> k) m)"

type_synonym asset_key = "string \<times> byte list option"

record delta_accumulator =
  da_amount :: int
  da_capacity :: int
  da_cell_delta :: int

definition delta_default :: delta_accumulator where
  "delta_default = \<lparr> da_amount = 0, da_capacity = 0, da_cell_delta = 0 \<rparr>"

definition delta_apply :: "activity_cell_row \<Rightarrow> int \<Rightarrow> delta_accumulator \<Rightarrow> delta_accumulator" where
  "delta_apply c sign a = \<lparr>
     da_amount = (case al_udt_amount c of Some n \<Rightarrow> da_amount a + int n * sign | None \<Rightarrow> da_amount a),
     da_capacity = da_capacity a + al_capacity c * sign, da_cell_delta = da_cell_delta a + sign \<rparr>"

definition is_received :: "activity_cell_row \<Rightarrow> bool" where "is_received c \<longleftrightarrow> al_role c = ''received''"

definition role_sign :: "activity_cell_row \<Rightarrow> int" where "role_sign c = (if is_received c then 1 else - 1)"

definition asset_key_of :: "activity_cell_row \<Rightarrow> asset_key" where "asset_key_of c = (al_asset_kind c, al_type_hash c)"

definition activity_cell_dto_of :: "ext \<Rightarrow> activity_cell_row \<Rightarrow> activity_cell_dto" where
  "activity_cell_dto_of x c = \<lparr>
     acd_ckb_out_point = \<lparr> kp_tx_hash = hex0x x (al_cell_tx c), kp_index = as_u32 (al_index c) \<rparr>,
     acd_btc_out_point = map_option (\<lambda>vout. \<lparr> bpt_txid = ex_hex_encode x (al_btc_txid c), bpt_vout = as_u32 vout \<rparr>) (al_btc_vout c),
     acd_asset_kind = al_asset_kind c, acd_type_hash = map_option (hex0x x) (al_type_hash c),
     acd_amount = decimal_string (al_udt_amount c), acd_capacity = show_int (al_capacity c) \<rparr>"

type_synonym cells_by_tx = "(byte list \<times> (activity_cell_dto list \<times> activity_cell_dto list)) list"
type_synonym deltas_by_tx = "(byte list \<times> (asset_key \<times> delta_accumulator) list) list"

definition push_role :: "bool \<Rightarrow> 'a \<Rightarrow> 'a list \<times> 'a list \<Rightarrow> 'a list \<times> 'a list" where
  "push_role received v slot = (if received then (fst slot @ [v], snd slot) else (fst slot, snd slot @ [v]))"

definition accumulate_cell :: "ext \<Rightarrow> activity_cell_row \<Rightarrow> cells_by_tx \<times> deltas_by_tx \<Rightarrow> cells_by_tx \<times> deltas_by_tx" where
  "accumulate_cell x c m =
     (entry_modify ([], []) (push_role (is_received c) (activity_cell_dto_of x c)) (al_tx_hash c) (fst m),
      entry_modify [] (entry_modify delta_default (delta_apply c (role_sign c)) (asset_key_of c)) (al_tx_hash c) (snd m))"

section \<open>The entries\<close>

definition direction_of :: "'a list \<Rightarrow> 'a list \<Rightarrow> activity_direction" where
  "direction_of received sent =
     (if received \<noteq> [] \<and> sent = [] then DirIn else if received = [] \<and> sent \<noteq> [] then DirOut else DirSelf)"

definition delta_dto_of :: "ext \<Rightarrow> asset_key \<times> delta_accumulator \<Rightarrow> asset_delta_dto" where
  "delta_dto_of x e = \<lparr>
     dd_asset_kind = fst (fst e), dd_type_hash = map_option (hex0x x) (snd (fst e)),
     dd_amount = (if is_fungible (fst (fst e)) then Some (plain_decimal (da_amount (snd e))) else None),
     dd_capacity = plain_decimal (da_capacity (snd e)), dd_cell_delta = da_cell_delta (snd e) \<rparr>"

text \<open>\<open>None\<close> sorts before every \<open>Some\<close>.\<close>

definition delta_order :: "asset_delta_dto \<Rightarrow> string \<times> bool \<times> string" where
  "delta_order d = (dd_asset_kind d, dd_type_hash d \<noteq> None, unwrap_or [] (dd_type_hash d))"

definition activity_entry ::
  "ext \<Rightarrow> activity_row \<Rightarrow> activity_cell_dto list \<times> activity_cell_dto list \<Rightarrow> (asset_key \<times> delta_accumulator) list \<Rightarrow>
   activity_entry_dto" where
  "activity_entry x row slot deltas = \<lparr>
     ae_ckb_tx_hash = hex0x x (ac_tx_hash row), ae_block_number = ac_block_number row, ae_tx_index = ac_tx_index row,
     ae_block_timestamp = ac_timestamp row, ae_kind = ac_kind row, ae_direction = direction_of (fst slot) (snd slot),
     ae_btc = map_option (\<lambda>txid. \<lparr> ab_txid = ex_hex_encode x txid, ab_confirmed = (ac_btc_height row \<noteq> None),
         ab_block_height = ac_btc_height row, ab_block_hash = map_option (ex_hex_encode x) (ac_btc_block_hash row),
         ab_block_time = ac_btc_time row, ab_fee = map_option show_int (ac_btc_fee row) \<rparr>) (ac_btc_txid row),
     ae_received = fst slot, ae_sent = snd slot,
     ae_deltas = sort_key delta_order (map (delta_dto_of x) deltas), ae_cursor = activity_cursor row \<rparr>"

fun activity_entries :: "ext \<Rightarrow> activity_row list \<Rightarrow> cells_by_tx \<Rightarrow> deltas_by_tx \<Rightarrow> activity_entry_dto list" where
  "activity_entries x [] by_tx deltas = []"
| "activity_entries x (row # rows) by_tx deltas =
     (let (slot, by_tx') = take_entry ([], []) (ac_tx_hash row) by_tx;
          (own, deltas') = take_entry [] (ac_tx_hash row) deltas
      in activity_entry x row slot own # activity_entries x rows by_tx' deltas')"

definition build_activity ::
  "ext \<Rightarrow> string \<Rightarrow> activity_row list \<Rightarrow> activity_cell_row list \<Rightarrow> int \<Rightarrow> nat \<Rightarrow> address_activity_dto" where
  "build_activity x address rows cells page_size unresolved =
     (let (by_tx, deltas) = fold (accumulate_cell x) cells ([], []);
          next_cursor = (if int (length rows) < page_size then None else map_option activity_cursor (last_opt rows))
      in \<lparr> aa_address = address, aa_entries = activity_entries x rows by_tx deltas,
           aa_next_cursor = next_cursor, aa_unresolved_bindings_total = unresolved \<rparr>)"

section \<open>A reference\<close>

text \<open>The entry of a transition, from the cells of that transition alone.\<close>

definition cells_of :: "activity_cell_row list \<Rightarrow> activity_row \<Rightarrow> activity_cell_row list" where
  "cells_of cells row = filter (\<lambda>c. al_tx_hash c = ac_tx_hash row) cells"

definition first_occurrences :: "'a list \<Rightarrow> 'a list" where "first_occurrences xs = rev (remdups (rev xs))"

definition net :: "(activity_cell_row \<Rightarrow> int) \<Rightarrow> activity_cell_row list \<Rightarrow> int" where
  "net f cs = sum_list (map f (filter is_received cs)) - sum_list (map f (filter (\<lambda>c. \<not> is_received c) cs))"

definition net_delta :: "activity_cell_row list \<Rightarrow> asset_key \<Rightarrow> delta_accumulator" where
  "net_delta cs k = (let own = filter (\<lambda>c. asset_key_of c = k) cs in \<lparr>
     da_amount = net (\<lambda>c. int (unwrap_or 0 (al_udt_amount c))) own,
     da_capacity = net al_capacity own, da_cell_delta = net (\<lambda>c. 1) own \<rparr>)"

definition reference_entry :: "ext \<Rightarrow> activity_cell_row list \<Rightarrow> activity_row \<Rightarrow> activity_entry_dto" where
  "reference_entry x cells row =
     (let own = cells_of cells row in
      activity_entry x row
        (map (activity_cell_dto_of x) (filter is_received own), map (activity_cell_dto_of x) (filter (\<lambda>c. \<not> is_received c) own))
        (map (\<lambda>k. (k, net_delta own k)) (first_occurrences (map asset_key_of own))))"

section \<open>The maps hold the sums\<close>

lemma map_of_entry_modify: "map_of (entry_modify d f k m) k' = (if k' = k then Some (f (unwrap_or d (map_of m k))) else map_of m k')"
  by (induction m) (auto simp: fun_upd_apply)

lemma entry_modify_keys: "map fst (entry_modify d f k m) = (if k \<in> fst ` set m then map fst m else map fst m @ [k])"
  by (induction m) force+

text \<open>A fold of such changes, read at one key: the changes of that key alone.\<close>

lemma fold_entry_modify:
  "unwrap_or d (map_of (fold (\<lambda>c. entry_modify d (g c) (key c)) cs m) k) =
   fold g (filter (\<lambda>c. key c = k) cs) (unwrap_or d (map_of m k))"
  by (induction cs arbitrary: m) (auto simp: map_of_entry_modify)

lemma first_occurrences_snoc: "first_occurrences (xs @ [y]) = (if y \<in> set xs then first_occurrences xs else first_occurrences xs @ [y])"
  by (simp add: first_occurrences_def)

lemma set_first_occurrences [simp]: "set (first_occurrences xs) = set xs"
  by (simp add: first_occurrences_def)

lemma fold_entry_keys: "map fst (fold (\<lambda>c. entry_modify d (g c) (key c)) cs []) = first_occurrences (map key cs)"
proof (induction cs rule: rev_induct)
  case (snoc c cs)
  have "fst ` set (fold (\<lambda>c. entry_modify d (g c) (key c)) cs []) = set (map key cs)"
    by (metis list.set_map set_first_occurrences snoc.IH)
  with snoc show ?case by (simp add: entry_modify_keys first_occurrences_snoc)
qed (simp add: first_occurrences_def)

lemma distinct_first_occurrences [simp]: "distinct (first_occurrences xs)"
  by (simp add: first_occurrences_def)

lemma alist_eq: "distinct (map fst m) \<Longrightarrow> m = map (\<lambda>k. (k, unwrap_or d (map_of m k))) (map fst m)"
proof (induction m)
  case (Cons e m)
  obtain k v where e: "e = (k, v)" by (cases e)
  have "map (\<lambda>k'. (k', unwrap_or d (map_of ((k, v) # m) k'))) (map fst m) = map (\<lambda>k'. (k', unwrap_or d (map_of m k'))) (map fst m)"
    using Cons.prems e by (intro map_cong) auto
  with Cons e show ?case by simp
qed simp

lemma fold_entry_alist:
  "fold (\<lambda>c. entry_modify d (g c) (key c)) cs [] =
   map (\<lambda>k. (k, fold g (filter (\<lambda>c. key c = k) cs) d)) (first_occurrences (map key cs))" (is "?m = _")
proof -
  have "?m = map (\<lambda>k. (k, unwrap_or d (map_of ?m k))) (first_occurrences (map key cs))"
    using alist_eq [of ?m d] by (simp add: fold_entry_keys)
  then show ?thesis by (simp add: fold_entry_modify)
qed

lemma fold_push_role:
  "fold (\<lambda>c. push_role (p c) (f c)) cs slot =
   (fst slot @ map f (filter p cs), snd slot @ map f (filter (\<lambda>c. \<not> p c) cs))"
  by (induction cs arbitrary: slot) (auto simp: push_role_def)

lemma fold_delta_apply:
  "fold (\<lambda>c. delta_apply c (role_sign c)) cs a = \<lparr>
     da_amount = da_amount a + net (\<lambda>c. int (unwrap_or 0 (al_udt_amount c))) cs,
     da_capacity = da_capacity a + net al_capacity cs, da_cell_delta = da_cell_delta a + net (\<lambda>c. 1) cs \<rparr>"
  by (induction cs arbitrary: a) (auto simp: net_def delta_apply_def role_sign_def unwrap_or_def split: option.split)

lemma fold_accumulate:
  "fold (accumulate_cell x) cs (m, n) =
   (fold (\<lambda>c. entry_modify ([], []) (push_role (is_received c) (activity_cell_dto_of x c)) (al_tx_hash c)) cs m,
    fold (\<lambda>c. entry_modify [] (entry_modify delta_default (delta_apply c (role_sign c)) (asset_key_of c)) (al_tx_hash c)) cs n)"
  by (induction cs arbitrary: m n) (simp_all add: accumulate_cell_def)

lemma take_entry_other: "k' \<noteq> k \<Longrightarrow> map_of (snd (take_entry d k m)) k' = map_of m k'"
  by (induction m) (auto simp: take_entry_def)

lemma take_entry_rows:
  "ac_tx_hash row \<notin> ac_tx_hash ` set rows \<Longrightarrow> r \<in> set rows \<Longrightarrow>
   map_of (snd (take_entry d (ac_tx_hash row) m)) (ac_tx_hash r) = map_of m (ac_tx_hash r)"
  by (rule take_entry_other) (metis imageI)

lemma activity_entries_map:
  "distinct (map ac_tx_hash rows) \<Longrightarrow>
   activity_entries x rows m n =
     map (\<lambda>r. activity_entry x r (unwrap_or ([], []) (map_of m (ac_tx_hash r))) (unwrap_or [] (map_of n (ac_tx_hash r)))) rows"
proof (induction rows arbitrary: m n)
  case (Cons row rows)
  from Cons.prems have new: "ac_tx_hash row \<notin> ac_tx_hash ` set rows" by simp
  have "activity_entries x rows (snd (take_entry ([], []) (ac_tx_hash row) m)) (snd (take_entry [] (ac_tx_hash row) n)) =
      map (\<lambda>r. activity_entry x r (unwrap_or ([], []) (map_of m (ac_tx_hash r))) (unwrap_or [] (map_of n (ac_tx_hash r)))) rows"
    using Cons by (simp add: take_entry_rows [OF new])
  then show ?case by (simp add: take_entry_def Let_def)
qed simp

lemma activity_page_entries:
  assumes "distinct (map ac_tx_hash rows)"
  shows "aa_entries (build_activity x address rows cells page_size unresolved) = map (reference_entry x cells) rows"
proof -
  have slot: "unwrap_or ([], []) (map_of (fst (fold (accumulate_cell x) cells ([], []))) (ac_tx_hash r)) =
      (map (activity_cell_dto_of x) (filter is_received (cells_of cells r)),
       map (activity_cell_dto_of x) (filter (\<lambda>c. \<not> is_received c) (cells_of cells r)))" for r
    by (simp add: fold_accumulate fold_entry_modify fold_push_role cells_of_def)
  have deltas: "unwrap_or [] (map_of (snd (fold (accumulate_cell x) cells ([], []))) (ac_tx_hash r)) =
      map (\<lambda>k. (k, net_delta (cells_of cells r) k)) (first_occurrences (map asset_key_of (cells_of cells r)))" for r
    unfolding fold_accumulate snd_conv
    by (subst fold_entry_modify) (simp add: fold_entry_alist fold_delta_apply cells_of_def net_delta_def delta_default_def Let_def)
  obtain m n where maps: "fold (accumulate_cell x) cells ([], []) = (m, n)" by (meson surj_pair)
  show ?thesis
    using slot [unfolded maps fst_conv] deltas [unfolded maps snd_conv]
    by (simp add: build_activity_def activity_entries_map [OF assms] reference_entry_def Let_def maps)
qed

section \<open>What an entry says\<close>

text \<open>A cell of an entry, column by column.\<close>

definition shows_cell :: "ext \<Rightarrow> activity_cell_row \<Rightarrow> activity_cell_dto \<Rightarrow> bool" where
  "shows_cell x c a \<longleftrightarrow>
     kp_tx_hash (acd_ckb_out_point a) = hex0x x (al_cell_tx c) \<and> kp_index (acd_ckb_out_point a) = as_u32 (al_index c) \<and>
     (case (al_btc_vout c, acd_btc_out_point a) of (None, None) \<Rightarrow> True
      | (Some v, Some p) \<Rightarrow> bpt_txid p = ex_hex_encode x (al_btc_txid c) \<and> bpt_vout p = as_u32 v | _ \<Rightarrow> False) \<and>
     acd_asset_kind a = al_asset_kind c \<and> acd_type_hash a = map_option (hex0x x) (al_type_hash c) \<and>
     acd_amount a = map_option (\<lambda>n. show_int (int n)) (al_udt_amount c) \<and> acd_capacity a = show_int (al_capacity c)"

text \<open>What a transition moved of one asset: what came in less what went out.\<close>

definition moved :: "activity_cell_row list \<Rightarrow> asset_key \<Rightarrow> (activity_cell_row \<Rightarrow> int) \<Rightarrow> int" where
  "moved cs k f = (\<Sum>c\<leftarrow>cs. if (al_asset_kind c, al_type_hash c) \<noteq> k then 0 else if al_role c = ''received'' then f c else - f c)"

definition shows_delta :: "ext \<Rightarrow> activity_cell_row list \<Rightarrow> asset_key \<Rightarrow> asset_delta_dto \<Rightarrow> bool" where
  "shows_delta x cs k d \<longleftrightarrow>
     dd_asset_kind d = fst k \<and> dd_type_hash d = map_option (hex0x x) (snd k) \<and> dd_cell_delta d = moved cs k (\<lambda>c. 1) \<and>
     dd_capacity d = plain_decimal (moved cs k al_capacity) \<and>
     dd_amount d = (if fst k = ''xudt'' \<or> fst k = ''sudt''
       then Some (plain_decimal (moved cs k (\<lambda>c. case al_udt_amount c of None \<Rightarrow> 0 | Some n \<Rightarrow> int n))) else None)"

text \<open>The entry of a row of the history, from the cells that the address gained and lost.\<close>

definition shows_entry :: "ext \<Rightarrow> activity_cell_row list \<Rightarrow> activity_row \<Rightarrow> activity_entry_dto \<Rightarrow> bool" where
  "shows_entry x cells r e \<longleftrightarrow>
     (let own = filter (\<lambda>c. al_tx_hash c = ac_tx_hash r) cells;
          gained = filter (\<lambda>c. al_role c = ''received'') own; lost = filter (\<lambda>c. al_role c \<noteq> ''received'') own in
      ae_ckb_tx_hash e = hex0x x (ac_tx_hash r) \<and> ae_block_number e = ac_block_number r \<and> ae_tx_index e = ac_tx_index r \<and>
      ae_block_timestamp e = ac_timestamp r \<and> ae_kind e = ac_kind r \<and> ae_cursor e = activity_cursor r \<and>
      map_option ab_txid (ae_btc e) = map_option (ex_hex_encode x) (ac_btc_txid r) \<and>
      (\<forall>b. ae_btc e = Some b \<longrightarrow> (ab_confirmed b \<longleftrightarrow> ac_btc_height r \<noteq> None) \<and> ab_block_height b = ac_btc_height r \<and>
         ab_block_hash b = map_option (ex_hex_encode x) (ac_btc_block_hash r) \<and> ab_block_time b = ac_btc_time r \<and>
         ab_fee b = map_option show_int (ac_btc_fee r)) \<and>
      list_all2 (shows_cell x) gained (ae_received e) \<and> list_all2 (shows_cell x) lost (ae_sent e) \<and>
      (ae_direction e = DirIn \<longleftrightarrow> gained \<noteq> [] \<and> lost = []) \<and> (ae_direction e = DirOut \<longleftrightarrow> gained = [] \<and> lost \<noteq> []) \<and>
      (\<exists>assets. distinct assets \<and> set assets = (\<lambda>c. (al_asset_kind c, al_type_hash c)) ` set own \<and>
         list_all2 (shows_delta x own) assets (ae_deltas e)) \<and>
      sorted (map (\<lambda>d. (dd_asset_kind d, dd_type_hash d \<noteq> None, unwrap_or [] (dd_type_hash d))) (ae_deltas e)))"

lemma cell_shown: "shows_cell x c (activity_cell_dto_of x c)"
  by (simp add: shows_cell_def activity_cell_dto_of_def decimal_string_def plain_decimal_def split: option.split)

lemma net_moved: "net f (filter (\<lambda>c. asset_key_of c = k) cs) = moved cs k f"
  by (induction cs) (auto simp: net_def moved_def asset_key_of_def is_received_def)

lemma delta_shown: "shows_delta x cs k (delta_dto_of x (k, net_delta cs k))"
proof -
  have "(\<lambda>c. int (unwrap_or 0 (al_udt_amount c))) = (\<lambda>c :: activity_cell_row. case al_udt_amount c of None \<Rightarrow> 0 | Some n \<Rightarrow> int n)"
    by (auto simp: fun_eq_iff split: option.split)
  then have amounts: "moved cs k (\<lambda>c. int (unwrap_or 0 (al_udt_amount c))) =
      moved cs k (\<lambda>c. case al_udt_amount c of None \<Rightarrow> 0 | Some n \<Rightarrow> int n)" by (rule arg_cong)
  show ?thesis
    by (simp add: amounts shows_delta_def delta_dto_of_def net_delta_def Let_def net_moved is_fungible_def)
qed

lemma sort_key_list_all2:
  assumes "list_all2 P ks ds" "distinct ks"
  shows "\<exists>ks'. distinct ks' \<and> set ks' = set ks \<and> list_all2 P ks' (sort_key f ds)"
proof -
  have "list_all2 (\<lambda>d k. P k d) ds ks" using assms(1) by (simp add: list_all2_conv_all_nth)
  moreover have "mset (sort_key f ds) = mset ds" by simp
  ultimately obtain ks' where ks': "list_all2 (\<lambda>d k. P k d) (sort_key f ds) ks'" "mset ks' = mset ks"
    by (metis list_all2_reorder_left_invariance)
  then have "distinct ks'" "set ks' = set ks" using assms(2) by (metis mset_eq_imp_distinct_iff, metis set_mset_mset)
  moreover have "list_all2 P ks' (sort_key f ds)" using ks'(1) by (simp add: list_all2_conv_all_nth)
  ultimately show ?thesis by blast
qed

lemma reference_shown: "shows_entry x cells r (reference_entry x cells r)"
proof -
  let ?own = "filter (\<lambda>c. al_tx_hash c = ac_tx_hash r) cells"
  let ?ks = "first_occurrences (map asset_key_of ?own)"
  let ?ds = "map (\<lambda>k. delta_dto_of x (k, net_delta ?own k)) ?ks"
  have "list_all2 (shows_delta x ?own) ?ks ?ds" by (simp add: list_all2_map2 list_all2_same delta_shown)
  from sort_key_list_all2 [OF this distinct_first_occurrences, of delta_order] obtain ks' where deltas: "distinct ks'" "set ks' = set ?ks"
    "list_all2 (shows_delta x ?own) ks' (sort_key delta_order ?ds)" by blast
  have assets: "set ks' = (\<lambda>c. (al_asset_kind c, al_type_hash c)) ` set ?own"
    unfolding deltas(2) by (auto simp: asset_key_of_def)
  have ds: "ae_deltas (reference_entry x cells r) = sort_key delta_order ?ds"
    by (simp add: reference_entry_def activity_entry_def Let_def cells_of_def comp_def)
  have cells: "list_all2 (shows_cell x) cs (map (activity_cell_dto_of x) cs)" for cs
    by (simp add: list_all2_map2 list_all2_same cell_shown)
  have order: "(\<lambda>d. (dd_asset_kind d, dd_type_hash d \<noteq> None, unwrap_or [] (dd_type_hash d))) = delta_order"
    by (auto simp: fun_eq_iff delta_order_def)
  show ?thesis
    unfolding shows_entry_def Let_def ds order
    using deltas(1,3) assets cells
    by (auto simp: reference_entry_def activity_entry_def Let_def cells_of_def is_received_def direction_of_def
        option.map_comp comp_def)
qed

section \<open>Properties\<close>


definition sample_activity_row :: activity_row where
  "sample_activity_row = \<lparr> ac_tx_hash = [1], ac_block_number = 7, ac_tx_index = 2, ac_timestamp = None, ac_kind = ''transfer'',
     ac_btc_txid = None, ac_btc_height = None, ac_btc_block_hash = None, ac_btc_time = None, ac_btc_fee = None \<rparr>"

definition sample_activity_cell :: "string \<Rightarrow> nat \<Rightarrow> activity_cell_row" where
  "sample_activity_cell role amount = \<lparr> al_tx_hash = [1], al_role = role, al_cell_tx = [2], al_index = 0, al_btc_txid = [3],
     al_btc_vout = Some 0, al_asset_kind = ''xudt'', al_type_hash = Some [4], al_udt_amount = Some amount, al_capacity = 100 \<rparr>"


section \<open>A full last page\<close>

text \<open>A page that is exactly full carries a cursor, whether or not the history goes on.\<close>

lemma full_page_has_cursor:
  "\<lbrakk> rows \<noteq> []; int (length rows) = page_size \<rbrakk> \<Longrightarrow>
     aa_next_cursor (build_activity x address rows cells page_size unresolved) = Some (activity_cursor (last rows))"
  by (simp add: build_activity_def Let_def last_opt_def split: prod.split)

end
