(* ===== verification/Api_Error.thy ===== *)
theory Api_Error
  imports Api_Activity
begin

text \<open>
  What every handler of \<open>crates/api\<close> shares: the error type and its HTTP status
  (\<open>error.rs\<close>), the extractors (\<open>extract.rs\<close>) and the state of the server (\<open>lib.rs\<close>). A
  handler is an effect whose failures are the \<open>Err\<close> of its \<open>ApiResult\<close>, or a panic.
\<close>

section \<open>Errors\<close>

datatype api_error =
    ABadRequest string
  | ANotFound
  | AIndexer indexer_error
  | AStore store_error
  | ABtc btc_error
  | ACkb ckb_error
  | ATypes terr

fun api_status :: "api_error \<Rightarrow> nat" where
  "api_status (ABadRequest m) = 400"
| "api_status (ATypes err) = 400"
| "api_status ANotFound = 404"
| "api_status (ABtc err) = 502"
| "api_status (ACkb err) = 502"
| "api_status (AIndexer (IEBtc err)) = 502"
| "api_status (AIndexer (IECkb err)) = 502"
| "api_status (AIndexer err) = 500"
| "api_status (AStore err) = 500"

fun api_display :: "(nat \<Rightarrow> string) \<Rightarrow> api_error \<Rightarrow> string" where
  "api_display reason (ABadRequest m) = m"
| "api_display reason ANotFound = ''not found''"
| "api_display reason (AIndexer err) = indexer_display reason err"
| "api_display reason (AStore err) = store_display err"
| "api_display reason (ABtc err) = btc_display reason err"
| "api_display reason (ACkb err) = ckb_display err"
| "api_display reason (ATypes err) = types_display err"

datatype error_kind = KindBadRequest | KindNotFound | KindUpstreamUnavailable | KindInternal

definition kind_of_status :: "nat \<Rightarrow> error_kind" where
  "kind_of_status status =
     (if status = 400 then KindBadRequest else if status = 404 then KindNotFound
      else if status = 502 then KindUpstreamUnavailable else KindInternal)"

record error_response =
  er_kind :: error_kind
  er_message :: string

definition error_into_response :: "(nat \<Rightarrow> string) \<Rightarrow> api_error \<Rightarrow> nat \<times> error_response" where
  "error_into_response reason err =
     (api_status err, \<lparr> er_kind = kind_of_status (api_status err), er_message = api_display reason err \<rparr>)"

section \<open>Handlers as effects\<close>

datatype failure = Refused api_error | Panicked

type_synonym 'a api_io = "(failure, 'a) io"

text \<open>The conversions that \<open>?\<close> applies.\<close>

definition api_of_store :: "(store_error, 'a) io \<Rightarrow> 'a api_io" where "api_of_store m = io_map_err (Refused \<circ> AStore) m"
definition api_of_btc :: "(btc_error, 'a) io \<Rightarrow> 'a api_io" where "api_of_btc m = io_map_err (Refused \<circ> ABtc) m"
definition api_of_indexer :: "(indexer_error, 'a) io \<Rightarrow> 'a api_io" where "api_of_indexer m = io_map_err (Refused \<circ> AIndexer) m"

definition api_refuse :: "string \<Rightarrow> 'a api_io" where "api_refuse m = io_fail (Refused (ABadRequest m))"

definition api_parse :: "'a res \<Rightarrow> 'a api_io" where
  "api_parse r = (case r of Inl err \<Rightarrow> api_refuse (types_display err) | Inr v \<Rightarrow> io_ret v)"

text \<open>
  An extractor of \<open>Json\<close>, \<open>Query\<close> or \<open>Path\<close>: the framework's answer is a value, or a
  rejection with its text.
\<close>

definition from_request :: "string + 'a \<Rightarrow> 'a api_io" where
  "from_request r = (case r of Inl rejection \<Rightarrow> api_refuse rejection | Inr v \<Rightarrow> io_ret v)"

lemma from_request_bind:
  "io_bind (from_request (Inl m)) k = api_refuse m"
  "io_bind (from_request (Inr v)) k = k v"
  by (rule ext, simp add: from_request_def api_refuse_def io_bind_def io_fail_def io_ret_def)+

section \<open>The state of the server\<close>

text \<open>
  \<open>Engine\<close>, without its configuration: the services outside the program. \<open>sv_reason\<close> is the
  canonical reason of an HTTP status.
\<close>

record services =
  sv_env :: env
  sv_ext :: ext
  sv_ckb :: ckb_node
  sv_btc :: btc_data_source
  sv_reason :: "nat \<Rightarrow> string"

definition sv_render :: "services \<Rightarrow> indexer_error \<Rightarrow> string" where
  "sv_render s err = indexer_display (sv_reason s) err"

text \<open>\<open>Ord::clamp\<close> panics when its bounds are crossed.\<close>

definition page_size :: "config \<Rightarrow> int option \<Rightarrow> int option" where
  "page_size cfg requested =
     (let max_size = api_max_page_size (c_api cfg) in
      if max_size < 1 then None
      else Some (max 1 (min max_size (unwrap_or (api_default_page_size (c_api cfg)) requested))))"

definition or_panic :: "'a option \<Rightarrow> 'a api_io" where
  "or_panic v = (case v of None \<Rightarrow> io_fail Panicked | Some y \<Rightarrow> io_ret y)"

text \<open>\<open>BtcConfig::network\<close> expects the network to be resolved.\<close>

definition check_address :: "services \<Rightarrow> config \<Rightarrow> string \<Rightarrow> unit api_io" where
  "check_address s cfg address =
     io_bind (or_panic (btc_network (c_btc cfg))) (\<lambda>network. api_parse (validate_address (sv_ext s) address network))"

section \<open>Batches\<close>

definition tick_quoted :: "string \<Rightarrow> string" where "tick_quoted m = CHR 0x60 # m @ [CHR 0x60]"

text \<open>\<open>render\<close> is the \<open>Display\<close> of the parser's error.\<close>

definition parse_key :: "string \<Rightarrow> ('e \<Rightarrow> string) \<Rightarrow> (string \<Rightarrow> 'e + 'a) \<Rightarrow> nat \<times> string \<Rightarrow> string + 'a" where
  "parse_key field render parse ik =
     map_err (\<lambda>err. field @ ''['' @ show_nat (fst ik) @ '']: '' @ render err) (parse (snd ik))"

definition parse_batch :: "config \<Rightarrow> string \<Rightarrow> ('e \<Rightarrow> string) \<Rightarrow> string list \<Rightarrow> (string \<Rightarrow> 'e + 'a) \<Rightarrow> string + 'a list" where
  "parse_batch cfg field render keys parse =
     (let max_size = api_max_page_size (c_api cfg) in
      if max_size < int (length keys)
      then Inl (tick_quoted field @ '' has '' @ show_nat (length keys) @ '' entries; at most '' @ show_int max_size @ '' per request'')
      else collect (parse_key field render parse) (enumerate 0 keys))"

definition parse_outpoint :: "ext \<Rightarrow> string \<Rightarrow> string + btc_out_point" where
  "parse_outpoint x s =
     (case split_once (CHR '':'') s of
        None \<Rightarrow> Inl (''expected '' @ tick_quoted ''txid:vout'' @ '', got '' @ tick_quoted s)
      | Some (txid, vout) \<Rightarrow>
          (case txid_from_hex x txid of
             Inl err \<Rightarrow> Inl (types_display err)
           | Inr t \<Rightarrow>
               (case parse_u32 vout of
                  None \<Rightarrow> Inl (tick_quoted vout @ '' is not a valid output index'')
                | Some v \<Rightarrow> Inr \<lparr> bo_txid = t, bo_vout = v \<rparr>)))"

definition parse_ckb_hash :: "ext \<Rightarrow> string \<Rightarrow> byte list res" where
  "parse_ckb_hash x s = (case h256_from_hex x s of Inl err \<Rightarrow> Inl err | Inr h \<Rightarrow> Inr (h256_to_vec h))"

section \<open>What a handler does to the database\<close>

context db_relation
begin

lemma obeys_api_of_store: "obeys R m \<Longrightarrow> obeys R (api_of_store m)"
  by (simp add: api_of_store_def obeys_map_err)

lemma obeys_api_of_btc: "obeys R m \<Longrightarrow> obeys R (api_of_btc m)"
  by (simp add: api_of_btc_def obeys_map_err)

lemma obeys_api_of_indexer: "obeys R m \<Longrightarrow> obeys R (api_of_indexer m)"
  by (simp add: api_of_indexer_def obeys_map_err)

lemma obeys_api_parse: "obeys R (api_parse r)"
  by (cases r) (simp_all add: api_parse_def api_refuse_def obeys_fail obeys_ret)

lemma obeys_api_refuse: "obeys R (api_refuse m)"
  by (simp add: api_refuse_def obeys_fail)

lemma obeys_from_request: "obeys R (from_request r)"
  by (cases r) (simp_all add: from_request_def api_refuse_def obeys_fail obeys_ret)

lemma obeys_or_panic: "obeys R (or_panic v)"
  by (cases v) (simp_all add: or_panic_def obeys_fail obeys_ret)

lemma obeys_check_address: "obeys R (check_address s cfg address)"
  unfolding check_address_def by (intro obeys_bind obeys_or_panic obeys_api_parse)

lemmas obeys_api_rules =
  obeys_rules obeys_api_of_store obeys_api_of_btc obeys_api_of_indexer obeys_api_parse obeys_from_request
  obeys_or_panic obeys_check_address

end

section \<open>The page limit is not validated\<close>

text \<open>
  Validation does not look at the section of the API, and a page limit below one leaves
  \<open>clamp\<close> with crossed bounds.
\<close>

lemma page_limit_below_one_panics:
  "validate_config (cfg\<lparr> c_api := a \<rparr>) = validate_config cfg"
  "api_max_page_size a < 1 \<Longrightarrow> page_size (cfg\<lparr> c_api := a \<rparr>) requested = None"
  by (simp_all add: validate_config_def page_size_def)

end
