(* ===== verification/Api.thy ===== *)
theory Api
  imports Api_Error
begin

text \<open>
  The handlers of \<open>crates/api/src/handlers.rs\<close>, one definition per endpoint, and the table
  of the documented routes. A handler's extracted arguments come first, in the order of
  extraction. The two reads of \<open>tokio::try_join!\<close> are issued in order.
\<close>

section \<open>Parameters\<close>

record cells_query =
  cq_refresh :: bool
  cq_include_spent :: bool

record address_query =
  aq_reconcile :: "bool option"
  aq_include_spent :: bool

definition address_reconcile_wanted :: "bool option \<Rightarrow> bool \<Rightarrow> bool" where
  "address_reconcile_wanted wanted enabled_globally \<longleftrightarrow> enabled_globally \<and> unwrap_or True wanted"

record balance_query =
  bq_reconcile :: "bool option"
  bq_include_pending :: bool

record anomaly_query =
  nq_kind :: "string option"
  nq_include_resolved :: bool
  nq_limit :: "int option"

record refresh_request =
  rr_outpoints :: "string list"
  rr_synchronous :: bool

record assets_query =
  sq_kind :: "string option"
  sq_limit :: "int option"
  sq_offset :: int

record cells_batch_request =
  cb_outpoints :: "string list"
  cb_include_spent :: bool

record activity_query =
  vq_cursor :: "string option"
  vq_limit :: "int option"

section \<open>Responses\<close>

record address_assets_response =
  aar_address :: string
  aar_reconciliation :: "address_reconcile_dto option"
  aar_cells :: "cell_dto list"

record balance_response =
  blr_address :: string
  blr_include_pending :: bool
  blr_assets :: "asset_balance_dto list"

record transaction_status_response =
  tsr_btc_txid :: string
  tsr_resolution :: resolution_dto
  tsr_transitions :: "transition_dto list"
  tsr_cells :: "cell_dto list"

record refresh_response =
  rfr_requested :: nat
  rfr_refreshed :: "outpoint_refresh_dto list"
  rfr_queued :: nat

record assets_response =
  asr_assets :: "asset_dto list"
  asr_total :: nat

datatype body =
    HealthBody string
  | StatusBody status_dto
  | CellsBody "cell_dto list"
  | CellBody cell_dto
  | AddressAssetsBody address_assets_response
  | BalanceBody balance_response
  | TransactionStatusBody transaction_status_response
  | RefreshBody refresh_response
  | AssetsBody assets_response
  | AssetsBatchBody "asset_dto option list"
  | CellsBatchBody "cell_dto list list"
  | TransitionsBatchBody "transition_dto option list"
  | TransitionsBody "transition_dto list"
  | TransitionBody transition_dto
  | ActivityBody address_activity_dto
  | AnomaliesBody "anomaly_dto list"

section \<open>Operations\<close>

definition health_handler :: "body api_io" where "health_handler = io_ret (HealthBody ''ok'')"

definition ckb_status_of :: "stream_state \<Rightarrow> ckb_status_dto" where
  "ckb_status_of st = \<lparr> cst_indexed_to = st_last_block_number st, cst_target = st_target st, cst_chain_tip = st_chain_tip st,
     cst_reorg_lag = st_reorg_lag st, cst_blocks_behind = map_option (\<lambda>tip. tip - st_last_block_number st) (st_chain_tip st),
     cst_last_error = st_last_error st, cst_updated_at = st_updated_at st \<rparr>"

definition ckb_status_unknown :: "config \<Rightarrow> int \<Rightarrow> ckb_status_dto" where
  "ckb_status_unknown cfg now = \<lparr> cst_indexed_to = 0, cst_target = None, cst_chain_tip = None,
     cst_reorg_lag = as_i64 (ckb_reorg_lag (c_ckb cfg)), cst_blocks_behind = None,
     cst_last_error = Some ''indexer stream not initialised yet'', cst_updated_at = now \<rparr>"

definition sweep_status_of :: "sweep_row \<Rightarrow> sweep_status_dto" where
  "sweep_status_of r = \<lparr> ss_id = sr_id r, ss_started_at = sr_started_at r, ss_finished_at = sr_finished_at r,
     ss_outpoints_checked = sr_outpoints_checked r, ss_anomalies_found = sr_anomalies_found r, ss_status = sr_status r \<rparr>"

definition status_handler :: "services \<Rightarrow> config \<Rightarrow> body api_io" where
  "status_handler s cfg =
     (let e = sv_env s in
      io_bind (api_of_store (query e (\<lambda>now. get_stream_state CKB_STREAM)))
      (\<lambda>stream. io_bind (api_of_store (query e (\<lambda>now. counts)))
      (\<lambda>totals. io_bind (api_of_store (query e (\<lambda>now. last_sweep_run)))
      (\<lambda>sweep. io_bind (case stream of Some st \<Rightarrow> io_ret (ckb_status_of st)
                  | None \<Rightarrow> io_bind (io_clock e) (\<lambda>now. io_ret (ckb_status_unknown cfg now)))
      (\<lambda>ckb. io_ret (StatusBody \<lparr> sd_network = g_network (c_general cfg), sd_btc_source = bs_name (sv_btc s), sd_ckb = ckb,
         sd_counts = counts_dto_of totals, sd_last_sweep = map_option sweep_status_of sweep \<rparr>))))))"

definition refresh_outpoints_handler :: "services \<Rightarrow> config \<Rightarrow> string + refresh_request \<Rightarrow> body api_io" where
  "refresh_outpoints_handler s cfg json =
     io_bind (from_request json)
     (\<lambda>request. io_bind (from_request (collect (parse_outpoint (sv_ext s)) (rr_outpoints request)))
     (\<lambda>outpoints. if rr_synchronous request
        then io_bind (api_of_indexer (refresh_outpoints (sv_env s) (sv_ext s) (sv_btc s) cfg outpoints))
          (\<lambda>refreshed. io_ret (RefreshBody \<lparr> rfr_requested = length outpoints,
             rfr_refreshed = map (refresh_dto_of (sv_ext s)) refreshed, rfr_queued = 0 \<rparr>))
        else io_bind (api_of_store (enqueue_refresh_many (sv_env s) (map row_key outpoints) ''api-request'' ON_DEMAND))
          (\<lambda>queued. io_ret (RefreshBody \<lparr> rfr_requested = length outpoints, rfr_refreshed = [], rfr_queued = queued \<rparr>))))"

definition anomalies_handler :: "services \<Rightarrow> config \<Rightarrow> string + anomaly_query \<Rightarrow> body api_io" where
  "anomalies_handler s cfg q =
     io_bind (from_request q)
     (\<lambda>q. io_bind (or_panic (page_size cfg (nq_limit q)))
     (\<lambda>limit. io_bind (api_of_store (query (sv_env s) (\<lambda>now. list_anomalies (nq_kind q) (nq_include_resolved q) limit)))
     (\<lambda>rows. io_ret (AnomaliesBody (map (anomaly_dto_of (sv_ext s)) rows)))))"

section \<open>Cells\<close>

definition cells_by_btc_utxo :: "services \<Rightarrow> config \<Rightarrow> string + (string \<times> u32) \<Rightarrow> string + cells_query \<Rightarrow> body api_io" where
  "cells_by_btc_utxo s cfg path q =
     io_bind (from_request path)
     (\<lambda>tv. io_bind (from_request q)
     (\<lambda>q. io_bind (api_parse (txid_from_hex (sv_ext s) (fst tv)))
     (\<lambda>txid. let outpoint = \<lparr> bo_txid = txid, bo_vout = snd tv \<rparr> in
     io_bind (if cq_refresh q
       then io_bind (api_of_indexer (refresh_outpoints (sv_env s) (sv_ext s) (sv_btc s) cfg [outpoint])) (\<lambda>_. io_ret ())
       else io_ret ())
     (\<lambda>_. io_bind (api_of_store (query (sv_env s) (\<lambda>now. cells_by_btc_outpoints [row_key outpoint] (cq_include_spent q))))
     (\<lambda>rows. io_ret (CellsBody (map (cell_dto_of (sv_ext s)) rows)))))))"

definition cells_by_btc_txid_handler :: "services \<Rightarrow> string + string \<Rightarrow> body api_io" where
  "cells_by_btc_txid_handler s path =
     io_bind (from_request path)
     (\<lambda>txid. io_bind (api_parse (txid_from_hex (sv_ext s) txid))
     (\<lambda>txid. io_bind (api_of_store (query (sv_env s) (\<lambda>now. cells_by_btc_txid (to_display_vec txid))))
     (\<lambda>rows. io_ret (CellsBody (map (cell_dto_of (sv_ext s)) rows)))))"

definition or_not_found :: "'a option \<Rightarrow> 'a api_io" where
  "or_not_found v = (case v of None \<Rightarrow> io_fail (Refused ANotFound) | Some y \<Rightarrow> io_ret y)"

definition cell_by_ckb_out_point :: "services \<Rightarrow> string + (string \<times> u32) \<Rightarrow> body api_io" where
  "cell_by_ckb_out_point s path =
     io_bind (from_request path)
     (\<lambda>hi. io_bind (api_parse (parse_ckb_hash (sv_ext s) (fst hi)))
     (\<lambda>tx_hash. io_bind (api_of_store (query (sv_env s) (\<lambda>now. cell_by_out_point tx_hash (as_i32 (snd hi)))))
     (\<lambda>row. io_bind (or_not_found row)
     (\<lambda>row. io_ret (CellBody (cell_dto_of (sv_ext s) row))))))"

definition cell_binding :: "cell_row \<Rightarrow> byte list \<times> int" where
  "cell_binding row = (cr_btc_txid row, unwrap_or 0 (cr_btc_vout row))"

text \<open>\<open>by_outpoint\<close>, and what it holds for each key of the request.\<close>

definition cells_by_outpoint :: "cell_row list \<Rightarrow> ((byte list \<times> int) \<times> cell_row list) list" where
  "cells_by_outpoint rows = fold (\<lambda>row. entry_modify [] (\<lambda>own. own @ [row]) (cell_binding row)) rows []"

definition cells_batch :: "services \<Rightarrow> config \<Rightarrow> string + cells_batch_request \<Rightarrow> body api_io" where
  "cells_batch s cfg json =
     io_bind (from_request json)
     (\<lambda>request. io_bind (from_request (parse_batch cfg ''btc_outpoints'' (\<lambda>m. m) (cb_outpoints request)
         (\<lambda>key. case parse_outpoint (sv_ext s) key of Inl m \<Rightarrow> Inl m | Inr p \<Rightarrow> Inr (row_key p))))
     (\<lambda>keys. io_bind (api_of_store (query (sv_env s) (\<lambda>now. cells_by_btc_outpoints keys (cb_include_spent request))))
     (\<lambda>rows. io_ret (CellsBatchBody
        (map (\<lambda>k. map (cell_dto_of (sv_ext s)) (unwrap_or [] (map_of (cells_by_outpoint rows) k))) keys)))))"

section \<open>Addresses\<close>

text \<open>
  The common first part of the two holdings endpoints: the address is checked, the index is
  reconciled where that is wanted, and the current outputs of the address are fetched.
\<close>

definition address_outpoints ::
  "services \<Rightarrow> config \<Rightarrow> string \<Rightarrow> bool option \<Rightarrow> (address_reconcile option \<times> (byte list \<times> int) list) api_io" where
  "address_outpoints s cfg address wanted =
     io_bind (check_address s cfg address)
     (\<lambda>_. io_bind (if address_reconcile_wanted wanted (rc_enabled (c_reconcile cfg))
        then io_bind (api_of_indexer (reconcile_address (sv_env s) (sv_ext s) (sv_btc s) cfg address)) (\<lambda>r. io_ret (Some r))
        else io_ret None)
     (\<lambda>reconciliation. io_bind (api_of_btc (io_call (\<lambda>n. bs_address_utxos (sv_btc s) n address)))
     (\<lambda>utxos. io_ret (reconciliation, map (row_key \<circ> bu_outpoint) utxos))))"

definition assets_by_btc_address :: "services \<Rightarrow> config \<Rightarrow> string + string \<Rightarrow> string + address_query \<Rightarrow> body api_io" where
  "assets_by_btc_address s cfg path q =
     io_bind (from_request path)
     (\<lambda>address. io_bind (from_request q)
     (\<lambda>q. io_bind (address_outpoints s cfg address (aq_reconcile q))
     (\<lambda>held. io_bind (api_of_store (query (sv_env s) (\<lambda>now. cells_by_btc_outpoints (snd held) (aq_include_spent q))))
     (\<lambda>rows. io_ret (AddressAssetsBody \<lparr> aar_address = address,
        aar_reconciliation = map_option (reconcile_dto_of (sv_ext s)) (fst held),
        aar_cells = map (cell_dto_of (sv_ext s)) rows \<rparr>)))))"

definition balance_by_btc_address :: "services \<Rightarrow> config \<Rightarrow> string + string \<Rightarrow> string + balance_query \<Rightarrow> body api_io" where
  "balance_by_btc_address s cfg path q =
     io_bind (from_request path)
     (\<lambda>address. io_bind (from_request q)
     (\<lambda>q. io_bind (address_outpoints s cfg address (bq_reconcile q))
     (\<lambda>held. io_bind (api_of_store (query (sv_env s) (\<lambda>now. asset_balances_for_outpoints (snd held) (bq_include_pending q))))
     (\<lambda>rows. io_ret (BalanceBody \<lparr> blr_address = address, blr_include_pending = bq_include_pending q,
        blr_assets = map (balance_dto_of (sv_ext s)) rows \<rparr>)))))"

definition activity_by_btc_address :: "services \<Rightarrow> config \<Rightarrow> string + string \<Rightarrow> string + activity_query \<Rightarrow> body api_io" where
  "activity_by_btc_address s cfg path q =
     io_bind (from_request path)
     (\<lambda>address. io_bind (from_request q)
     (\<lambda>q. io_bind (check_address s cfg address)
     (\<lambda>_. io_bind (or_panic (page_size cfg (vq_limit q)))
     (\<lambda>limit. io_bind (api_of_store (query (sv_env s) (\<lambda>now. address_activity address (vq_cursor q) limit)))
     (\<lambda>rows. let tx_hashes = map ac_tx_hash rows in
     io_bind (if tx_hashes = [] then io_ret []
              else api_of_store (query (sv_env s) (\<lambda>now. address_activity_cells address tx_hashes)))
     (\<lambda>cells. io_bind (api_of_store (query (sv_env s) (\<lambda>now. bindings_missing_address)))
     (\<lambda>unresolved. io_ret (ActivityBody (build_activity (sv_ext s) address rows cells limit unresolved)))))))))"

section \<open>Transactions\<close>

definition transaction_status :: "services \<Rightarrow> config \<Rightarrow> string + string \<Rightarrow> body api_io" where
  "transaction_status s cfg path =
     io_bind (from_request path)
     (\<lambda>txid. io_bind (api_parse (txid_from_hex (sv_ext s) txid))
     (\<lambda>txid. io_bind (api_of_indexer (resolve_transition (sv_env s) (sv_ext s) (sv_ckb s) (sv_btc s) cfg txid))
     (\<lambda>resolution. io_bind (api_of_store (query (sv_env s) (\<lambda>now. transitions_by_btc_txid (to_display_vec txid))))
     (\<lambda>transitions. io_bind (api_of_store (query (sv_env s) (\<lambda>now. cells_by_btc_txid (to_display_vec txid))))
     (\<lambda>cells. io_ret (TransactionStatusBody \<lparr> tsr_btc_txid = txid_to_hex (sv_ext s) txid,
        tsr_resolution = resolution_dto_of (sv_ext s) resolution,
        tsr_transitions = map (transition_dto_of (sv_ext s)) transitions,
        tsr_cells = map (cell_dto_of (sv_ext s)) cells \<rparr>))))))"

text \<open>Collected into a map, the last row of a key wins.\<close>

definition rows_by_key :: "('r \<Rightarrow> 'k) \<Rightarrow> 'r list \<Rightarrow> 'k \<Rightarrow> 'r option" where
  "rows_by_key key rows = map_of (rev (map (\<lambda>r. (key r, r)) rows))"

definition transitions_batch :: "services \<Rightarrow> config \<Rightarrow> string + string list \<Rightarrow> body api_io" where
  "transitions_batch s cfg json =
     io_bind (from_request json)
     (\<lambda>hashes. io_bind (from_request (parse_batch cfg ''ckb_tx_hashes'' types_display hashes (parse_ckb_hash (sv_ext s))))
     (\<lambda>keys. io_bind (api_of_store (query (sv_env s) (\<lambda>now. transitions_by_ckb_txs keys)))
     (\<lambda>rows. io_ret (TransitionsBatchBody
        (map (\<lambda>k. map_option (transition_dto_of (sv_ext s)) (rows_by_key tr_tx_hash rows k)) keys)))))"

definition recent_transitions_handler :: "services \<Rightarrow> config \<Rightarrow> string + int option \<Rightarrow> body api_io" where
  "recent_transitions_handler s cfg q =
     io_bind (from_request q)
     (\<lambda>requested. io_bind (or_panic (page_size cfg requested))
     (\<lambda>limit. io_bind (api_of_store (query (sv_env s) (\<lambda>now. recent_transitions limit)))
     (\<lambda>rows. io_ret (TransitionsBody (map (transition_dto_of (sv_ext s)) rows)))))"

definition transition_by_ckb_tx_handler :: "services \<Rightarrow> string + string \<Rightarrow> body api_io" where
  "transition_by_ckb_tx_handler s path =
     io_bind (from_request path)
     (\<lambda>tx_hash. io_bind (api_parse (parse_ckb_hash (sv_ext s) tx_hash))
     (\<lambda>tx_hash. io_bind (api_of_store (query (sv_env s) (\<lambda>now. transition_by_ckb_tx tx_hash)))
     (\<lambda>row. io_bind (or_not_found row)
     (\<lambda>row. io_ret (TransitionBody (transition_dto_of (sv_ext s) row))))))"

section \<open>Assets\<close>

definition kinds_of :: "string option \<Rightarrow> string + string list" where
  "kinds_of kind =
     (case kind of
        None \<Rightarrow> Inr [''xudt'', ''sudt'', ''spore'', ''spore_cluster'', ''unknown'']
      | Some k \<Rightarrow>
          if k = ''all'' then Inr [''xudt'', ''sudt'', ''spore'', ''spore_cluster'', ''unknown'']
          else if k = ''udt'' then Inr [''xudt'', ''sudt'']
          else if k = ''dob'' then Inr [''spore'', ''spore_cluster'']
          else if k = ''unknown'' then Inr [''unknown'']
          else Inl (''unknown asset kind '' @ tick_quoted k @ ''; expected '' @ tick_quoted ''udt'' @ '', '' @ tick_quoted ''dob''
            @ '', '' @ tick_quoted ''unknown'' @ '' or '' @ tick_quoted ''all''))"

definition list_assets_handler :: "services \<Rightarrow> config \<Rightarrow> string + assets_query \<Rightarrow> body api_io" where
  "list_assets_handler s cfg q =
     io_bind (from_request q)
     (\<lambda>q. io_bind (from_request (kinds_of (sq_kind q)))
     (\<lambda>kinds. io_bind (or_panic (page_size cfg (sq_limit q)))
     (\<lambda>limit. io_bind (api_of_store (query (sv_env s) (\<lambda>now. list_assets kinds limit (max 0 (sq_offset q)))))
     (\<lambda>rows. io_bind (api_of_store (query (sv_env s) (\<lambda>now. count_assets kinds)))
     (\<lambda>n. io_ret (AssetsBody \<lparr> asr_assets = map (asset_dto_of (sv_ext s)) rows, asr_total = n \<rparr>))))))"

definition assets_batch :: "services \<Rightarrow> config \<Rightarrow> string + string list \<Rightarrow> body api_io" where
  "assets_batch s cfg json =
     io_bind (from_request json)
     (\<lambda>hashes. io_bind (from_request (parse_batch cfg ''type_hashes'' types_display hashes (parse_ckb_hash (sv_ext s))))
     (\<lambda>keys. io_bind (api_of_store (query (sv_env s) (\<lambda>now. assets_by_type_hashes keys)))
     (\<lambda>rows. io_ret (AssetsBatchBody
        (map (\<lambda>k. map_option (asset_dto_of (sv_ext s)) (rows_by_key ar_type_hash rows k)) keys)))))"

section \<open>The routes\<close>

text \<open>
  A request that has been routed, with the framework's answers to its extractors.
\<close>

datatype api_request =
    GetHealth
  | GetStatus
  | GetCellsByUtxo "string + (string \<times> u32)" "string + cells_query"
  | GetCellsByTxid "string + string"
  | GetCellByOutPoint "string + (string \<times> u32)"
  | GetAddressAssets "string + string" "string + address_query"
  | GetBalance "string + string" "string + balance_query"
  | GetTransactionStatus "string + string"
  | GetActivity "string + string" "string + activity_query"
  | GetAssets "string + assets_query"
  | PostAssetsBatch "string + string list"
  | PostCellsBatch "string + cells_batch_request"
  | PostTransitionsBatch "string + string list"
  | GetTransitions "string + int option"
  | GetTransition "string + string"
  | PostRefresh "string + refresh_request"
  | GetAnomalies "string + anomaly_query"

fun handle :: "services \<Rightarrow> config \<Rightarrow> api_request \<Rightarrow> body api_io" where
  "handle s cfg GetHealth = health_handler"
| "handle s cfg GetStatus = status_handler s cfg"
| "handle s cfg (GetCellsByUtxo path q) = cells_by_btc_utxo s cfg path q"
| "handle s cfg (GetCellsByTxid path) = cells_by_btc_txid_handler s path"
| "handle s cfg (GetCellByOutPoint path) = cell_by_ckb_out_point s path"
| "handle s cfg (GetAddressAssets path q) = assets_by_btc_address s cfg path q"
| "handle s cfg (GetBalance path q) = balance_by_btc_address s cfg path q"
| "handle s cfg (GetTransactionStatus path) = transaction_status s cfg path"
| "handle s cfg (GetActivity path q) = activity_by_btc_address s cfg path q"
| "handle s cfg (GetAssets q) = list_assets_handler s cfg q"
| "handle s cfg (PostAssetsBatch json) = assets_batch s cfg json"
| "handle s cfg (PostCellsBatch json) = cells_batch s cfg json"
| "handle s cfg (PostTransitionsBatch json) = transitions_batch s cfg json"
| "handle s cfg (GetTransitions q) = recent_transitions_handler s cfg q"
| "handle s cfg (GetTransition path) = transition_by_ckb_tx_handler s path"
| "handle s cfg (PostRefresh json) = refresh_outpoints_handler s cfg json"
| "handle s cfg (GetAnomalies q) = anomalies_handler s cfg q"

text \<open>The answer on the wire; a handler that panics sends none.\<close>

definition respond :: "services \<Rightarrow> failure + body \<Rightarrow> (nat \<times> (error_response + body)) option" where
  "respond s r =
     (case r of
        Inr b \<Rightarrow> Some (200, Inr b)
      | Inl (Refused err) \<Rightarrow> Some (case error_into_response (sv_reason s) err of (code, resp) \<Rightarrow> (code, Inl resp))
      | Inl Panicked \<Rightarrow> None)"

section \<open>What a request does to the database\<close>

text \<open>The requests that are answered from the tables alone.\<close>

fun lookup_only :: "api_request \<Rightarrow> bool" where
  "lookup_only (GetCellsByUtxo path (Inr q)) \<longleftrightarrow> \<not> cq_refresh q"
| "lookup_only (GetAddressAssets path q) \<longleftrightarrow> False"
| "lookup_only (GetBalance path q) \<longleftrightarrow> False"
| "lookup_only (GetTransactionStatus path) \<longleftrightarrow> False"
| "lookup_only (PostRefresh json) \<longleftrightarrow> False"
| "lookup_only req \<longleftrightarrow> True"

lemmas handler_defs =
  health_handler_def status_handler_def refresh_outpoints_handler_def anomalies_handler_def cells_by_btc_utxo_def
  cells_by_btc_txid_handler_def cell_by_ckb_out_point_def cells_batch_def address_outpoints_def assets_by_btc_address_def
  balance_by_btc_address_def activity_by_btc_address_def transaction_status_def transitions_batch_def
  recent_transitions_handler_def transition_by_ckb_tx_handler_def list_assets_handler_def assets_batch_def

context db_relation
begin

lemma obeys_or_not_found: "obeys R (or_not_found v)"
  by (cases v) (simp_all add: or_not_found_def obeys_fail obeys_ret)

lemma obeys_cells_by_btc_utxo:
  assumes "\<And>ops. obeys R (refresh_outpoints (sv_env s) (sv_ext s) (sv_btc s) cfg ops)"
  shows "obeys R (cells_by_btc_utxo s cfg path q)"
  unfolding cells_by_btc_utxo_def Let_def by (intro obeys_api_rules assms)

lemma obeys_cells_by_btc_utxo_unrefreshed:
  assumes "case q of Inl m \<Rightarrow> True | Inr q \<Rightarrow> \<not> cq_refresh q"
  shows "obeys R (cells_by_btc_utxo s cfg path q)"
proof (cases q)
  case (Inl m)
  show ?thesis
    unfolding cells_by_btc_utxo_def Inl from_request_bind by (intro obeys_api_rules obeys_api_refuse)
next
  case (Inr q)
  from assms Inr have "\<not> cq_refresh q" by simp
  then show ?thesis
    unfolding cells_by_btc_utxo_def Inr from_request_bind Let_def by simp (intro obeys_api_rules)
qed

lemma obeys_lookup:
  assumes "lookup_only req"
  shows "obeys R (handle s cfg req)"
proof (cases req)
  case (GetCellsByUtxo path q)
  with assms show ?thesis by (cases q) (simp_all add: obeys_cells_by_btc_utxo_unrefreshed)
qed (use assms in \<open>simp_all add: handler_defs Let_def\<close>, (intro obeys_api_rules obeys_or_not_found)+)

end

end
