(* ===== verification/Statements.thy ===== *)
theory Statements
  imports Verify_Props Scanner_Live Monitor Api
begin

text \<open>
  The program as concurrent tasks over one database. Each task sends statements; between two
  statements of one task any other task may send its own. The relation \<open>statement\<close> lists the
  statements there are. Every pass of every task is shown to be a sequence of them, and the
  invariants are proved for every interleaving of statements, so they hold whatever the
  tasks do to one another.
\<close>

section \<open>The statements of the scanner\<close>

locale scanner_relation = db_relation R for R :: "db \<Rightarrow> db \<Rightarrow> bool" +
  fixes start_block :: u64
  assumes init: "R d (insert_stream CKB_STREAM start_block now d)"
    and progress: "R d (record_chain_progress CKB_STREAM chain_tip target lag now d)"
    and commit: "R d (batch_effect b now d)"
    and prune: "R d (snd (prune_blocks_below keep d))"
    and note_error: "R d (set_stream_error CKB_STREAM err now d)"
begin

lemma obeys_init: "obeys R (init_stream e CKB_STREAM start_block)"
  unfolding init_stream_def by (intro obeys_rules obeys_execute init)

lemma obeys_apply_batch: "obeys R (apply_batch e b)"
  unfolding obeys_def
proof
  fix w
  obtain r w' where run: "apply_batch e b w = (r, w')" by (meson surj_pair)
  show "R (w_db w) (w_db (snd (apply_batch e b w)))"
  proof (cases r)
    case (Inl err)
    with run show ?thesis by (simp add: apply_batch_Inl rel_refl)
  next
    case (Inr st)
    with run show ?thesis by (simp add: apply_batch_Inr(1) commit)
  qed
qed

lemma obeys_scan_once:
  assumes "ckb_start_block (c_ckb cfg) = start_block"
  shows "obeys R (scan_once fuel e x ck cfg)"
  unfolding scan_once_def scan_extend_def prune_headers_def Let_def assms
  by (intro obeys_rules obeys_of_store obeys_of_ckb obeys_ckb_calls obeys_init obeys_execute progress
      obeys_assert_checkpoint obeys_scan_range obeys_apply_batch obeys_sql prune)

lemma obeys_scan_pass:
  assumes "ckb_start_block (c_ckb cfg) = start_block"
  shows "obeys R (scan_pass fuel e x ck cfg render)"
  unfolding scan_pass_def
  by (intro obeys_rules obeys_scan_once [OF assms] obeys_execute note_error)

end

section \<open>The statements of the program\<close>

text \<open>
  The state is the database and whether the queue worker stands between its two statements:
  it deletes the exhausted entries before it claims, and no other task does either.
\<close>

inductive statement :: "config \<Rightarrow> btc_data_source \<Rightarrow> db \<times> bool \<Rightarrow> db \<times> bool \<Rightarrow> bool" for cfg src where
  observe: "answered src p s \<Longrightarrow> statement cfg src (d, ready)
    (snd (upsert_observation (to_display_vec (bo_txid p)) (as_i32 (bo_vout p)) s None (bs_name src) now d), ready)"
| label: "label_outpoints source labels now d = Inr (n, d') \<Longrightarrow> statement cfg src (d, ready) (d', ready)"
| cache: "statement cfg src (d, ready) (upsert_btc_tx txid height hash time commitment i j fee source now d, ready)"
| resolve: "statement cfg src (d, ready) (snd (resolve_anomalies_for_outpoint txid vout now d), ready)"
| enqueue: "statement cfg src (d, ready) (enqueue_refresh txid vout reason priority now d, ready)"
| enqueue_many: "enqueue_rows ops reason priority now d = Inr (n, d') \<Longrightarrow> statement cfg src (d, ready) (d', ready)"
| drop_exhausted: "statement cfg src (d, ready) (snd (drop_exhausted_refreshes (rc_max_attempts (c_reconcile cfg)) d), True)"
| claim: "statement cfg src (d, True) (snd (claim_refresh_batch limit now d), False)"
| give_up: "statement cfg src (d, True) (d, False)"
| complete: "statement cfg src (d, ready) (complete_refresh txid vout d, ready)"
| fail: "statement cfg src (d, ready) (fail_refresh txid vout err d, ready)"
| anomaly: "statement cfg src (d, ready) (record_anomaly kind key btc_txid btc_vout ckb_tx ckb_index (JObj detail) now d, ready)"
| verdict: "statement cfg src (d, ready) (set_commitment_result h observed status d, ready)"
| start_sweep: "statement cfg src (d, ready) (snd (start_sweep_run now d), ready)"
| finish_sweep: "statement cfg src (d, ready) (finish_sweep_run run checked changed found failure now d, ready)"
| init: "statement cfg src (d, ready) (insert_stream CKB_STREAM (ckb_start_block (c_ckb cfg)) now d, ready)"
| progress: "statement cfg src (d, ready) (record_chain_progress CKB_STREAM chain_tip target lag now d, ready)"
| commit: "statement cfg src (d, ready) (batch_effect b now d, ready)"
| prune: "statement cfg src (d, ready) (snd (prune_blocks_below keep d), ready)"
| note_error: "statement cfg src (d, ready) (set_stream_error CKB_STREAM stream_err now d, ready)"

definition runs :: "config \<Rightarrow> btc_data_source \<Rightarrow> db \<Rightarrow> db \<Rightarrow> bool" where
  "runs cfg src d d' \<longleftrightarrow> (statement cfg src)\<^sup>*\<^sup>* (d, False) (d', False)"

lemma runs_step: "statement cfg src (d, False) (d', False) \<Longrightarrow> runs cfg src d d'"
  by (simp add: runs_def)

lemma drop_twice: "snd (drop_exhausted_refreshes m (snd (drop_exhausted_refreshes m d))) = snd (drop_exhausted_refreshes m d)"
  by (simp add: drop_exhausted_refreshes_def delete_where_def)

interpretation task_runs: worker_relation "runs cfg src" src "rc_max_attempts (c_reconcile cfg)" for cfg src
proof
  fix d limit now
  show "runs cfg src d d" by (simp add: runs_def)
  let ?m = "rc_max_attempts (c_reconcile cfg)"
  show "runs cfg src d (snd (drop_exhausted_refreshes ?m d))"
    unfolding runs_def by (rule converse_rtranclp_into_rtranclp [OF drop_exhausted r_into_rtranclp [of "statement cfg src", OF give_up]])
  let ?d = "snd (drop_exhausted_refreshes ?m d)"
  have "statement cfg src (?d, False) (?d, True)" using drop_exhausted [of cfg src ?d False] by (simp add: drop_twice)
  then show "runs cfg src ?d (snd (claim_refresh_batch limit now ?d))"
    unfolding runs_def by (rule converse_rtranclp_into_rtranclp [OF _ r_into_rtranclp [of "statement cfg src", OF claim]])
next
  show "runs cfg src a b \<Longrightarrow> runs cfg src b c \<Longrightarrow> runs cfg src a c" for a b c by (simp add: runs_def)
qed (blast intro: runs_step statement.intros)+

interpretation scanner_runs: scanner_relation "runs cfg src" "ckb_start_block (c_ckb cfg)" for cfg src
  by unfold_locales (blast intro: runs_step statement.intros)+

section \<open>The tasks\<close>

text \<open>\<open>Engine::spawn_workers\<close>: the tasks that a configuration starts, in order.\<close>

datatype worker = Scanner | RefreshQueue | AddressBackfill | Heartbeat | Sweeper | Verifier

definition spawn_workers :: "config \<Rightarrow> worker list" where
  "spawn_workers cfg =
     [Scanner]
     @ (if rc_enabled (c_reconcile cfg) then [RefreshQueue] else [])
     @ (if rc_enabled (c_reconcile cfg) \<and> rc_address_backfill (c_reconcile cfg) then [AddressBackfill] else [])
     @ (if heartbeat_interval (c_log cfg) \<noteq> None then [Heartbeat] else [])
     @ (if sw_enabled (c_sweep cfg) then [Sweeper] else [])
     @ (if vf_commitments (c_verify cfg) then [Verifier] else [])"

text \<open>
  One pass of a worker: \<open>cursor\<close> is what the address backfill carries from its previous pass,
  and \<open>fuel\<close> bounds the two paging loops.
\<close>

definition worker_pass :: "nat \<Rightarrow> services \<Rightarrow> config \<Rightarrow> byte list option \<Rightarrow> worker \<Rightarrow> unit scan_io" where
  "worker_pass fuel s cfg cursor wk =
     (case wk of
        Scanner \<Rightarrow> io_bind (scan_pass fuel (sv_env s) (sv_ext s) (sv_ckb s) cfg (sv_render s)) (\<lambda>_. io_ret ())
      | RefreshQueue \<Rightarrow> queue_pass (sv_env s) (sv_ext s) (sv_btc s) cfg
      | AddressBackfill \<Rightarrow> io_bind (backfill_pass (sv_env s) (sv_ext s) (sv_btc s) cfg cursor) (\<lambda>_. io_ret ())
      | Heartbeat \<Rightarrow> io_bind (io_attempt (heartbeat_emit (sv_env s) cfg)) (\<lambda>_. io_ret ())
      | Sweeper \<Rightarrow> sweep_pass fuel (sv_env s) (sv_ext s) (sv_btc s) cfg (sv_render s)
      | Verifier \<Rightarrow> verify_pass (sv_env s) (sv_ext s) (sv_btc s) cfg)"


context worker_relation
begin

lemma obeys_worker_pass:
  assumes "wk \<noteq> Scanner" "sv_btc s = src" "rc_max_attempts (c_reconcile cfg) = max_attempts"
  shows "obeys R (worker_pass fuel s cfg cursor wk)"
proof (cases wk)
  case RefreshQueue
  have "obeys R (drain_queue_once (sv_env s) (sv_ext s) (sv_btc s) cfg)"
    unfolding assms(2) by (rule obeys_drain [OF assms(3) [symmetric]])
  with RefreshQueue show ?thesis
    by (simp add: worker_pass_def queue_pass_def) (intro obeys_rules)
next
  case AddressBackfill
  then show ?thesis
    by (simp add: worker_pass_def backfill_pass_def) (intro obeys_rules obeys_backfill_once)
next
  case Heartbeat
  then show ?thesis
    by (simp add: worker_pass_def heartbeat_emit_def Let_def) (intro obeys_rules obeys_of_store)
next
  case Sweeper
  with assms show ?thesis
    by (simp add: worker_pass_def sweep_pass_def) (intro obeys_rules obeys_sweep)
next
  case Verifier
  with assms show ?thesis
    by (simp add: worker_pass_def verify_pass_def) (intro obeys_rules obeys_verify)
qed (use assms in simp)

lemma obeys_enqueue_many: "obeys R (enqueue_refresh_many e ops reason priority)"
  unfolding enqueue_refresh_many_def by (auto intro!: obeys_rules obeys_sql_res enqueue_many)

lemma obeys_handle:
  assumes "sv_btc s = src"
  shows "obeys R (handle s cfg req)"
proof -
  have outpoints: "obeys R (address_outpoints s cfg address wanted)" for address wanted
    unfolding address_outpoints_def assms by (intro obeys_api_rules obeys_reconcile_address)
  show ?thesis
  proof (cases req)
    case (GetCellsByUtxo path q)
    then show ?thesis by (simp add: obeys_cells_by_btc_utxo obeys_refresh_outpoints assms)
  next
    case (GetAddressAssets path q)
    then show ?thesis by (simp add: assets_by_btc_address_def) (intro obeys_api_rules outpoints)
  next
    case (GetBalance path q)
    then show ?thesis by (simp add: balance_by_btc_address_def) (intro obeys_api_rules outpoints)
  next
    case (GetTransactionStatus path)
    then show ?thesis by (simp add: transaction_status_def assms) (intro obeys_api_rules obeys_resolve_transition)
  next
    case (PostRefresh json)
    then show ?thesis
      by (simp only: handle.simps refresh_outpoints_handler_def assms) (intro obeys_api_rules obeys_refresh_outpoints obeys_enqueue_many)
  qed (simp_all only: obeys_lookup lookup_only.simps)
qed

end

lemma worker_pass_runs: "obeys (runs cfg (sv_btc s)) (worker_pass fuel s cfg cursor wk)"
proof (cases "wk = Scanner")
  case True
  then show ?thesis
    by (simp add: worker_pass_def) (intro task_runs.obeys_rules scanner_runs.obeys_scan_pass refl)
qed (simp add: task_runs.obeys_worker_pass)

section \<open>What every interleaving keeps\<close>

text \<open>The bound on retries: the entry that is claimed with no attempts left to drop gets one.\<close>

definition attempt_bound :: "config \<Rightarrow> int" where
  "attempt_bound cfg = max 1 (rc_max_attempts (c_reconcile cfg))"

text \<open>Between the two statements of the queue worker every entry has an attempt left.\<close>

fun system_ok :: "config \<Rightarrow> db \<times> bool \<Rightarrow> bool" where
  "system_ok cfg (d, ready) \<longleftrightarrow>
     tables_ok (if ready then attempt_bound cfg - 1 else attempt_bound cfg) d \<and> ckb_keys_ok d"

text \<open>The tables that the scanner leaves alone.\<close>

definition btc_tables ::
  "db \<Rightarrow> observation_row list \<times> queue_row list \<times> btc_tx_row list \<times> anomaly_row list \<times> int \<times> sweep_row list \<times> int" where
  "btc_tables d = (d_outpoints d, d_queue d, d_txs d, d_anomalies d, d_anomaly_seq d, d_sweeps d, d_sweep_seq d)"

lemma tables_ok_same: "btc_tables d' = btc_tables d \<Longrightarrow> tables_ok m d' \<longleftrightarrow> tables_ok m d"
  by (simp add: btc_tables_def tables_ok_def observations_ok_def)

lemma ckb_keys_ok_same:
  assumes "ckb_side d' = ckb_side d"
  shows "ckb_keys_ok d' \<longleftrightarrow> ckb_keys_ok d"
proof -
  have "map transition_key (d_transitions d') = map transition_key (map forget_verdict (d_transitions d'))" for d'
    by (simp add: forget_verdict_def transition_key_def comp_def)
  moreover from assms have "d_cells d' = d_cells d" "d_blocks d' = d_blocks d" "d_streams d' = d_streams d"
    "map forget_verdict (d_transitions d') = map forget_verdict (d_transitions d)" by (simp_all add: ckb_side_def)
  ultimately show ?thesis by (metis ckb_keys_ok_def)
qed

lemma btc_tables_scanner:
  "btc_tables (insert_stream stream start now d) = btc_tables d"
  "btc_tables (record_chain_progress stream chain_tip target lag now d) = btc_tables d"
  "btc_tables (batch_effect b now d) = btc_tables d"
  "btc_tables (snd (prune_blocks_below keep d)) = btc_tables d"
  "btc_tables (set_stream_error stream err now d) = btc_tables d"
  by (simp_all add: btc_tables_def insert_stream_def record_chain_progress_def batch_effect_def publish_checkpoint_def
      fold_upsert_blocks fold_insert_cells fold_apply_spends fold_insert_transitions prune_blocks_below_def set_stream_error_def)

lemma ckb_keys_scanner:
  assumes "ckb_keys_ok d"
  shows "ckb_keys_ok (insert_stream stream start now d)"
    "ckb_keys_ok (record_chain_progress stream chain_tip target lag now d)"
    "ckb_keys_ok (batch_effect b now d)"
    "ckb_keys_ok (snd (prune_blocks_below keep d))"
    "ckb_keys_ok (set_stream_error stream err now d)"
  using assms
  by (auto simp: batch_keeps_keys) (simp_all add: ckb_keys_ok_def insert_stream_def record_chain_progress_def
      prune_blocks_below_def set_stream_error_def delete_where_def distinct_map_filter streams_table.upsert_distinct update_where_keys)

lemma tables_ok_more: "tables_ok m d \<Longrightarrow> m \<le> n \<Longrightarrow> tables_ok n d"
  by (force simp: tables_ok_def)

lemma tables_ok_dropped:
  assumes "tables_ok m d" "max 1 k \<le> n"
  shows "tables_ok (n - 1) (snd (drop_exhausted_refreshes k d))"
proof -
  have "tables_ok m (snd (drop_exhausted_refreshes k d))" using assms(1) by (rule tables_ok_drop)
  moreover have "qi_attempts q < k" if "q \<in> set (d_queue (snd (drop_exhausted_refreshes k d)))" for q
    using that by (auto simp: drop_exhausted_refreshes_def delete_where_def)
  ultimately show ?thesis using assms(2) by (fastforce simp: tables_ok_def)
qed

lemmas kept_by_statements =
  tables_kept.observe tables_kept.label tables_kept.cache tables_kept.resolve tables_kept.enqueue
  tables_kept.enqueue_many tables_kept.complete tables_kept.fail tables_kept.anomaly tables_kept.verdict
  tables_kept.start_sweep tables_kept.finish_sweep

lemmas ckb_kept_by_statements =
  ckb_side_kept.observe ckb_side_kept.label ckb_side_kept.cache ckb_side_kept.resolve ckb_side_kept.enqueue
  ckb_side_kept.enqueue_many ckb_side_kept.complete ckb_side_kept.fail ckb_side_kept.anomaly ckb_side_kept.verdict
  ckb_side_kept.start_sweep ckb_side_kept.finish_sweep ckb_side_kept.drop ckb_side_kept.drop_claim

text \<open>What a statement is, for an invariant: one of a worker, one of the scanner, or one of the queue's two.\<close>

lemma statement_kinds:
  assumes "statement cfg src (d, ready) (d', ready')"
  shows "(ready' = ready \<and> ckb_side d' = ckb_side d \<and> (\<forall>m. tables_ok m d \<longrightarrow> tables_ok m d')) \<or>
    (ready' = ready \<and> btc_tables d' = btc_tables d \<and> (ckb_keys_ok d \<longrightarrow> ckb_keys_ok d')) \<or>
    (ready' \<and> d' = snd (drop_exhausted_refreshes (rc_max_attempts (c_reconcile cfg)) d)) \<or>
    (ready \<and> \<not> ready' \<and> (d' = d \<or> (\<exists>limit now. d' = snd (claim_refresh_batch limit now d))))"
  using assms
  by (cases rule: statement.cases)
    (auto simp only: simp_thms snd_conv btc_tables_scanner ckb_keys_scanner prod.inject
      intro: kept_by_statements [unfolded preserves_def, rule_format] ckb_kept_by_statements [unfolded keeps_def])


lemma ckb_side_queue: "ckb_side (snd (drop_exhausted_refreshes m d)) = ckb_side d" "ckb_side (snd (claim_refresh_batch limit now d)) = ckb_side d"
  by (simp_all add: ckb_side_def drop_exhausted_refreshes_def claim_refresh_batch_def Let_def)

lemma system_ok_step: "statement cfg src s s' \<Longrightarrow> system_ok cfg s \<Longrightarrow> system_ok cfg s'"
proof (cases s; cases s'; hypsubst)
  fix d ready d' ready'
  assume step: "statement cfg src (d, ready) (d', ready')" and ok: "system_ok cfg (d, ready)"
  from statement_kinds [OF step] show "system_ok cfg (d', ready')"
  proof (elim disjE conjE exE, goal_cases)
    case 1
    with ok ckb_keys_ok_same [OF 1(2)] show ?case by simp
  next
    case 2
    with ok tables_ok_same [OF 2(2)] show ?case by simp
  next
    case 3
    have "tables_ok (attempt_bound cfg - 1) d'"
      unfolding 3 by (rule tables_ok_dropped) (use ok in \<open>auto simp: attempt_bound_def\<close>)
    with 3 ok ckb_keys_ok_same [OF ckb_side_queue(1)] show ?case by simp
  next
    case 4
    with ok tables_ok_more [of "attempt_bound cfg - 1" d] show ?case by simp
  next
    case (5 limit now)
    from ok 5(1) have few: "tables_ok (attempt_bound cfg - 1) d" by simp
    then have "\<forall>q \<in> set (d_queue d). qi_attempts q < max 0 (attempt_bound cfg)"
      by (fastforce simp: tables_ok_def attempt_bound_def)
    with tables_ok_more [OF few] have "tables_ok (attempt_bound cfg) d'"
      unfolding 5(3) by (intro tables_ok_claim) simp_all
    with 5 ok ckb_keys_ok_same [OF ckb_side_queue(2)] show ?case by simp
  qed
qed

lemma system_ok_runs: "(statement cfg src)\<^sup>*\<^sup>* s s' \<Longrightarrow> system_ok cfg s \<Longrightarrow> system_ok cfg s'"
  by (induction rule: rtranclp_induct) (auto intro: system_ok_step)

lemma system_ok_empty: "system_ok cfg (empty_db, False)"
  by (simp add: empty_db_def tables_ok_def ckb_keys_ok_def observations_ok_def)

lemma sourced_btc_tables: "btc_tables d' = btc_tables d \<Longrightarrow> sourced src d d'"
  by (simp add: btc_tables_def sourced_same)

lemma outpoints_claimed: "d_outpoints (snd (claim_refresh_batch limit now d)) = d_outpoints d"
  by (simp add: claim_refresh_batch_def Let_def)

lemma sourced_step: "statement cfg src (d, ready) (d', ready') \<Longrightarrow> sourced src d d'"
  by (cases rule: statement.cases)
    (auto intro: sourced.observe sourced.label sourced.cache sourced.resolve sourced.enqueue sourced.enqueue_many sourced.complete
      sourced.fail sourced.anomaly sourced.verdict sourced.start_sweep sourced.finish_sweep sourced.drop sourced.rel_refl
      sourced_btc_tables btc_tables_scanner outpoints_claimed [THEN sourced_same])

lemma sourced_runs: "(statement cfg src)\<^sup>*\<^sup>* s s' \<Longrightarrow> sourced src (fst s) (fst s')"
proof (induction rule: rtranclp_induct)
  case (step y z)
  then have "sourced src (fst y) (fst z)" by (intro sourced_step [where ready = "snd y" and ready' = "snd z"]) simp
  with step.IH show ?case by (rule sourced_trans)
qed (simp add: sourced_same)

section \<open>Properties\<close>

text \<open>
  Every task is made of the listed statements. A pass of any worker and the work of any
  request take the database from where it is to where it ends by a sequence of statements,
  whatever fails on the way.
\<close>

theorem passes_are_statements:
  "(statement cfg (sv_btc s))\<^sup>*\<^sup>* (w_db w, False) (w_db (snd (worker_pass fuel s cfg cursor wk w)), False) \<and>
   (statement cfg (sv_btc s))\<^sup>*\<^sup>* (w_db w, False) (w_db (snd (handle s cfg req w)), False)"
  using worker_pass_runs [of cfg s fuel cursor wk] task_runs.obeys_handle [where s = s and cfg = cfg and cfga = cfg and req = req, OF refl]
  by (simp add: obeys_def runs_def)

text \<open>
  C30.
  The tables stay well formed under every interleaving of the tasks. Whatever statements
  the scanner, the workers and the requests send in whatever order, every table keeps one
  row per key, the columns of an observation agree, anomaly and sweep numbers stay below
  their sequences, and no queue entry has been tried more often than the configuration
  allows (and once).
\<close>

theorem interleavings_keep_tables:
  assumes "(statement cfg src)\<^sup>*\<^sup>* (empty_db, False) (d, ready)"
  shows "ckb_keys_ok d \<and> observations_ok d \<and> distinct (map queue_key (d_queue d)) \<and>
    distinct (map bt_txid (d_txs d)) \<and> distinct (map an_dedup_key (d_anomalies d)) \<and>
    (\<forall>a \<in> set (d_anomalies d). an_id a < d_anomaly_seq d) \<and> (\<forall>r \<in> set (d_sweeps d). sr_id r < d_sweep_seq d) \<and>
    (\<forall>q \<in> set (d_queue d). 0 \<le> qi_attempts q \<and> qi_attempts q \<le> max 1 (rc_max_attempts (c_reconcile cfg)))"
proof -
  from system_ok_runs [OF assms system_ok_empty] have "ckb_keys_ok d" and "tables_ok (attempt_bound cfg) d"
    using tables_ok_more [of "attempt_bound cfg - 1" d] by (auto split: if_splits)
  then show ?thesis by (auto simp: tables_ok_def attempt_bound_def)
qed

lemma interleavings_keep_tables_witness:
  "\<exists>d. (statement sample_config (ref_source (\<lambda>p. Unspent) (\<lambda>t. None) 0))\<^sup>*\<^sup>* (empty_db, False) (d, False) \<and>
     (\<exists>q \<in> set (d_queue d). qi_attempts q = 1) \<and> (\<forall>q \<in> set (d_queue d). qi_attempts q \<le> 5)"
proof -
  let ?step = "statement sample_config (ref_source (\<lambda>p. Unspent) (\<lambda>t. None) 0)"
  let ?d1 = "enqueue_refresh (replicate 32 1) 0 ''sample'' 0 0 empty_db"
  let ?d2 = "snd (drop_exhausted_refreshes (rc_max_attempts (c_reconcile sample_config)) ?d1)"
  let ?d3 = "snd (claim_refresh_batch 10 0 ?d2)"
  have "?step\<^sup>*\<^sup>* (empty_db, False) (?d1, False)" by (rule r_into_rtranclp) (rule statement.enqueue)
  then have "?step\<^sup>*\<^sup>* (empty_db, False) (?d2, True)" by (rule rtranclp.rtrancl_into_rtrancl) (rule statement.drop_exhausted)
  then have run: "?step\<^sup>*\<^sup>* (empty_db, False) (?d3, False)" by (rule rtranclp.rtrancl_into_rtrancl) (rule statement.claim)
  have "max 1 (rc_max_attempts (c_reconcile sample_config)) = 5" by (simp add: sample_config_def reconcile_default_def)
  with interleavings_keep_tables [OF run] have "\<forall>q \<in> set (d_queue ?d3). qi_attempts q \<le> 5" by simp
  moreover have "\<exists>q \<in> set (d_queue ?d3). qi_attempts q = 1"
    by (simp add: enqueue_refresh_def empty_db_def fresh_entry_def drop_exhausted_refreshes_def delete_where_def
        claim_refresh_batch_def due_batch_def limit_rows_def update_where_def claim_row_def Let_def
        sample_config_def reconcile_default_def queue_key_def)
  ultimately show ?thesis using run by blast
qed


definition sample_services :: services where
  "sample_services = \<lparr> sv_env = quiet_env, sv_ext = ref_ext, sv_ckb = sample_node,
     sv_btc = ref_source (\<lambda>p. Unspent) (\<lambda>t. None) 105, sv_reason = (\<lambda>n. []) \<rparr>"


end
