(* ===== verification/System.thy ===== *)
theory System
  imports Statements
begin

text \<open>
  The whole program as a transition system over its database: a step is the start of the
  scanner's task, a pass of a spawned worker or the work of a request. The CKB side of the database is compared with an
  abstract ledger that only ever grows.
\<close>

section \<open>Steps\<close>

inductive system_step :: "nat \<Rightarrow> services \<Rightarrow> config \<Rightarrow> db \<Rightarrow> db \<Rightarrow> bool" for fuel s cfg where
  start: "w_db w = d \<Longrightarrow>
    system_step fuel s cfg d (w_db (snd (init_stream (sv_env s) CKB_STREAM (ckb_start_block (c_ckb cfg)) w)))"
| pass: "wk \<in> set (spawn_workers cfg) \<Longrightarrow> w_db w = d \<Longrightarrow>
    system_step fuel s cfg d (w_db (snd (worker_pass fuel s cfg cursor wk w)))"
| serve: "w_db w = d \<Longrightarrow> system_step fuel s cfg d (w_db (snd (handle s cfg req w)))"

definition reachable :: "nat \<Rightarrow> services \<Rightarrow> config \<Rightarrow> db \<Rightarrow> bool" where
  "reachable fuel s cfg = (system_step fuel s cfg)\<^sup>*\<^sup>* empty_db"

text \<open>What the refinement needs of a deployment: a loaded configuration and heights that fit an \<open>i64\<close>.\<close>

definition deployable :: "services \<Rightarrow> config \<Rightarrow> bool" where
  "deployable s cfg \<longleftrightarrow> config_ok cfg \<and> unat (ckb_batch_blocks (c_ckb cfg)) < 2 ^ 63 \<and>
     unat (ckb_start_block (c_ckb cfg)) < 2 ^ 63 \<and> (\<forall>n t. cn_tip (sv_ckb s) n = Inr t \<longrightarrow> unat t < 2 ^ 63)"

section \<open>The ledger\<close>

text \<open>
  The abstract index: how far it goes, which cells it knows, which of them are consumed, and
  which transactions it knows as transitions.
\<close>

record ledger =
  lg_height :: int
  lg_cells :: "(byte list \<times> int) set"
  lg_consumed :: "(byte list \<times> int) set"
  lg_transitions :: "byte list set"

definition ledger_of :: "config \<Rightarrow> db \<Rightarrow> ledger" where
  "ledger_of cfg d = \<lparr>
     lg_height = fst (checkpoint_of cfg d),
     lg_cells = cell_key ` set (d_cells d),
     lg_consumed = cell_key ` {c \<in> set (d_cells d). cd_consumed_block c \<noteq> None},
     lg_transitions = tr_tx_hash ` set (d_transitions d) \<rparr>"

text \<open>It is left as it is, or it is extended, upwards and no further than the node has settled.\<close>

inductive ledger_step :: "(int \<Rightarrow> bool) \<Rightarrow> ledger \<Rightarrow> ledger \<Rightarrow> bool" for settled where
  stutter: "ledger_step settled l l"
| extend: "lg_height l < lg_height l' \<Longrightarrow> settled (lg_height l') \<Longrightarrow> lg_cells l \<subseteq> lg_cells l' \<Longrightarrow>
    lg_consumed l \<subseteq> lg_consumed l' \<Longrightarrow> lg_transitions l \<subseteq> lg_transitions l' \<Longrightarrow> ledger_step settled l l'"

definition settled_height :: "services \<Rightarrow> config \<Rightarrow> int \<Rightarrow> bool" where
  "settled_height s cfg h \<longleftrightarrow> (\<exists>n t. cn_tip (sv_ckb s) n = Inr t \<and> h + int (unat (ckb_reorg_lag (c_ckb cfg))) \<le> int (unat t))"

section \<open>A round extends the ledger\<close>

lemma upsert_row_stays: "r \<in> set rows \<Longrightarrow> \<exists>r' \<in> set (upsert key merge n rows). r' = r \<or> r' = merge r n"
  by (induction rows) auto

lemma fold_upsert_row_stays:
  assumes "\<And>r n. P r \<Longrightarrow> P (merge r n)"
  shows "r \<in> set rows \<Longrightarrow> P r \<Longrightarrow> \<exists>r' \<in> set (fold (upsert key merge) ns rows). P r'"
proof (induction ns arbitrary: r rows)
  case (Cons n ns)
  from upsert_row_stays [OF Cons.prems(1)] obtain r' where "r' \<in> set (upsert key merge n rows)" "r' = r \<or> r' = merge r n" by blast
  with Cons.IH [of r'] assms Cons.prems(2) show ?case by auto
qed auto

lemma spend_row_consumed_stays: "cd_consumed_block r \<noteq> None \<Longrightarrow> cd_consumed_block (spend_row at ss r) \<noteq> None"
  by (induction ss arbitrary: r) (auto simp: spend_row_def spend_cell_def)

lemma batch_extends:
  "lg_cells (ledger_of cfg d) \<subseteq> lg_cells (ledger_of cfg (batch_effect b at d))"
  "lg_consumed (ledger_of cfg d) \<subseteq> lg_consumed (ledger_of cfg (batch_effect b at d))"
  "lg_transitions (ledger_of cfg d) \<subseteq> lg_transitions (ledger_of cfg (batch_effect b at d))"
proof -
  let ?rows = "fold (upsert cell_key cell_merge) (map (fresh_cell at) (ib_cells b)) (d_cells d)"
  have stays: "\<exists>r' \<in> set (d_cells (batch_effect b at d)). cell_key r' = cell_key r \<and> (cd_consumed_block r \<noteq> None \<longrightarrow> cd_consumed_block r' \<noteq> None)"
    if "r \<in> set (d_cells d)" for r
  proof -
    have "\<exists>r' \<in> set ?rows. cell_key r' = cell_key r \<and> cd_consumed_block r' = cd_consumed_block r"
      by (rule fold_upsert_row_stays [where P = "\<lambda>r'. cell_key r' = cell_key r \<and> cd_consumed_block r' = cd_consumed_block r", OF _ that])
        (auto simp: cell_merge_def cell_key_def)
    then obtain r' where r': "r' \<in> set ?rows" "cell_key r' = cell_key r" "cd_consumed_block r' = cd_consumed_block r" by blast
    then have "spend_row at (ib_spends b) r' \<in> set (d_cells (batch_effect b at d))" by (simp add: batch_effect_sel)
    with r' spend_row_consumed_stays [of r'] show ?thesis by (metis spend_row_key)
  qed
  show "lg_cells (ledger_of cfg d) \<subseteq> lg_cells (ledger_of cfg (batch_effect b at d))"
    unfolding ledger_of_def ledger.select_convs by (rule image_subsetI) (metis stays image_eqI)
  show "lg_consumed (ledger_of cfg d) \<subseteq> lg_consumed (ledger_of cfg (batch_effect b at d))"
    unfolding ledger_of_def ledger.select_convs
  proof (rule image_subsetI)
    fix r assume "r \<in> {c \<in> set (d_cells d). cd_consumed_block c \<noteq> None}"
    with stays obtain r' where "r' \<in> set (d_cells (batch_effect b at d))" "cell_key r' = cell_key r" "cd_consumed_block r' \<noteq> None" by blast
    then show "cell_key r \<in> cell_key ` {c \<in> set (d_cells (batch_effect b at d)). cd_consumed_block c \<noteq> None}"
      by (metis (mono_tags, lifting) image_eqI mem_Collect_eq)
  qed
  have "transition_key ` set (d_transitions d) \<subseteq> transition_key ` set (d_transitions (batch_effect b at d))"
    using transitions_table.fold_upsert_keys [of "map (fresh_transition at) (ib_transitions b)" "d_transitions d"]
    by (auto simp: batch_effect_sel)
  then show "lg_transitions (ledger_of cfg d) \<subseteq> lg_transitions (ledger_of cfg (batch_effect b at d))"
    by (simp add: ledger_of_def transition_key_def)
qed


lemma ledger_facts: "ckb_facts cfg d' = ckb_facts cfg d \<Longrightarrow> ledger_of cfg d' = ledger_of cfg d"
  by (simp add: ckb_facts_def ledger_of_def)

lemma commits_tables:
  assumes "commits fuel e x ck cfg state tip target d b d'"
  shows "\<exists>at. d_cells d' = d_cells (batch_effect b at d) \<and> d_transitions d' = d_transitions (batch_effect b at d)"
  using assms unfolding commits_def Let_def by (elim exE conjE disjE) auto

lemma scan_extends_ledger:
  assumes dep: "deployable s cfg" and cp: "0 \<le> fst (checkpoint_of cfg (w_db w))"
    and run: "scan_once fuel e x (sv_ckb s) cfg w = (r, w')"
  shows "ledger_step (settled_height s cfg) (ledger_of cfg (w_db w)) (ledger_of cfg (w_db w'))"
  using scan_once_run [OF run]
proof (elim disjE exE conjE, goal_cases)
  case 1
  from ledger_facts [OF 1(1)] show ?case by (simp add: ledger_step.stutter)
next
  case (2 state tip target d b w1 w2 w3 w4)
  let ?to = "scan_to cfg target (scan_from cfg (st_last_block_number state))"
  have st: "st_last_block_number state = fst (checkpoint_of cfg (w_db w))" using 2(1) by (metis fst_conv)
  from synced_tip_run [OF 2(2)] obtain n nt where nt: "cn_tip (sv_ckb s) n = Inr nt" "tip \<le> nt" by blast
  with dep have "unat nt < 2 ^ 63" unfolding deployable_def by blast
  with nt(2) have tip: "unat tip < 2 ^ 63" by (metis word_le_nat_alt le_less_trans)
  have dep': "unat (ckb_batch_blocks (c_ckb cfg)) < 2 ^ 63" "ckb_batch_blocks (c_ckb cfg) \<noteq> 0"
    using dep by (auto simp: deployable_def config_ok_def)
  have cp': "0 \<le> st_last_block_number state" using cp st by simp
  note h = round_heights [OF 2(3) cp' 2(4) tip dep']
  have lag: "unat (ckb_reorg_lag (c_ckb cfg)) \<le> unat tip"
    using 2(3) by (simp add: safe_ckb_target_Some word_le_nat_alt)
  have "unat ?to < 2 ^ 63" using h(2) tip by linarith
  then have to: "as_i64 ?to = int (unat ?to)" by (rule as_i64_small)
  have height: "lg_height (ledger_of cfg (w_db w')) = int (unat ?to)"
    using commits_checkpoint [OF 2(7,6)] to by (auto simp: ledger_of_def)
  have "int (unat (scan_from cfg (st_last_block_number state))) \<le> int (unat ?to)" by (simp only: of_nat_le_iff h(3))
  then have up: "st_last_block_number state < int (unat ?to)" using h(1) by linarith
  from commits_tables [OF 2(7)] obtain at where tables: "d_cells (w_db w') = d_cells (batch_effect b at d)"
    "d_transitions (w_db w') = d_transitions (batch_effect b at d)" by blast
  have l: "ledger_of cfg (w_db w) = ledger_of cfg d" using ledger_facts [OF 2(5)] by simp
  show ?case
  proof (rule ledger_step.extend)
    show "lg_height (ledger_of cfg (w_db w)) < lg_height (ledger_of cfg (w_db w'))"
      using up unfolding height by (simp add: ledger_of_def st)
    have "unat ?to + unat (ckb_reorg_lag (c_ckb cfg)) \<le> unat nt"
      using h(2) lag nt(2) unfolding word_le_nat_alt by linarith
    then have "int (unat ?to) + int (unat (ckb_reorg_lag (c_ckb cfg))) \<le> int (unat nt)"
      by (simp only: of_nat_add [symmetric] of_nat_le_iff)
    then show "settled_height s cfg (lg_height (ledger_of cfg (w_db w')))"
      unfolding height settled_height_def using nt(1) by blast
  qed (use batch_extends [of cfg d b at] tables in \<open>simp_all add: l, simp_all add: ledger_of_def\<close>)
qed

lemma facts_note_error: "ckb_facts cfg (set_stream_error stream err now d) = ckb_facts cfg d"
  by (simp add: ckb_facts_def checkpoint_of_def get_stream_state_def set_stream_error_def lookup_update_where split: option.split)

lemma scan_pass_run:
  assumes "scan_pass fuel e x ck cfg render w = (r, w')"
  shows "\<exists>r1 w1. scan_once fuel e x ck cfg w = (r1, w1) \<and> ckb_facts cfg (w_db w') = ckb_facts cfg (w_db w1)"
proof -
  obtain r1 w1 where 1: "scan_once fuel e x ck cfg w = (r1, w1)" by (meson surj_pair)
  have noted: "obeys (keeps (ckb_facts cfg)) (io_bind (io_attempt (execute e (set_stream_error CKB_STREAM (Some (render err))))) (\<lambda>_. io_ret False))" for err
    by (intro keeps.obeys_rules keeps.obeys_execute) (simp add: keeps_def facts_note_error)
  show ?thesis
  proof (cases r1)
    case (Inl err)
    with assms 1 have "io_bind (io_attempt (execute e (set_stream_error CKB_STREAM (Some (render err))))) (\<lambda>_. io_ret False) w1 = (r, w')"
      by (simp add: scan_pass_def io_bind_def io_attempt_def)
    from obeys_keepsD [OF noted this] 1 show ?thesis by blast
  next
    case (Inr round)
    with assms 1 have "w' = w1" by (simp add: scan_pass_def io_bind_def io_attempt_def io_ret_def)
    with 1 show ?thesis by blast
  qed
qed

lemma ledger_side: "ckb_side d' = ckb_side d \<Longrightarrow> ledger_of cfg d' = ledger_of cfg d"
proof -
  assume side: "ckb_side d' = ckb_side d"
  have "tr_tx_hash ` set (d_transitions d) = tr_tx_hash ` set (map forget_verdict (d_transitions d))" for d
    by (simp add: image_image forget_verdict_def)
  moreover from side have "map forget_verdict (d_transitions d') = map forget_verdict (d_transitions d)" by (simp add: ckb_side_def)
  ultimately have "tr_tx_hash ` set (d_transitions d') = tr_tx_hash ` set (d_transitions d)" by metis
  with side show ?thesis by (simp add: ledger_of_def ckb_side_def checkpoint_of_def get_stream_state_def)
qed


text \<open>A step leaves the CKB side alone, or it is a round of the scanner.\<close>

lemma step_effect:
  assumes "system_step fuel s cfg d d'"
  shows "ckb_side d' = ckb_side d \<or> ckb_facts cfg d' = ckb_facts cfg d \<or>
    (\<exists>w r w1. w_db w = d \<and> scan_once fuel (sv_env s) (sv_ext s) (sv_ckb s) cfg w = (r, w1) \<and>
       ckb_facts cfg d' = ckb_facts cfg (w_db w1))"
  using assms
proof (cases rule: system_step.cases)
  case (start w)
  with init_stream_run(1) [OF prod.collapse [symmetric]] show ?thesis by metis
next
  case (pass wk w cursor)
  show ?thesis
  proof (cases "wk = Scanner")
    case True
    obtain r w1 where run: "scan_pass fuel (sv_env s) (sv_ext s) (sv_ckb s) cfg (sv_render s) w = (r, w1)" by (meson surj_pair)
    then have "d' = w_db w1"
      using pass(1) True by (cases r) (simp_all add: worker_pass_def io_bind_def io_ret_def)
    with scan_pass_run [OF run] pass(3) show ?thesis by blast
  next
    case False
    with ckb_side_kept.obeys_worker_pass [where s = s and cfg = cfg and fuel = fuel and cursor = cursor, OF False refl refl] pass(1,3)
    show ?thesis by (simp add: obeys_def keeps_def)
  qed
next
  case (serve w req)
  with ckb_side_kept.obeys_handle [where s = s and cfg = cfg and req = req, OF refl]
  show ?thesis by (simp add: obeys_def keeps_def)
qed

lemma step_extends_ledger:
  assumes "deployable s cfg" "0 \<le> fst (checkpoint_of cfg d)" "system_step fuel s cfg d d'"
  shows "ledger_step (settled_height s cfg) (ledger_of cfg d) (ledger_of cfg d')"
  using step_effect [OF assms(3)]
proof (elim disjE exE conjE)
  assume "ckb_side d' = ckb_side d"
  from ledger_side [OF this] show ?thesis by (simp add: ledger_step.stutter)
next
  assume "ckb_facts cfg d' = ckb_facts cfg d"
  from ledger_facts [OF this] show ?thesis by (simp add: ledger_step.stutter)
next
  fix w r w1
  assume w: "w_db w = d" and once: "scan_once fuel (sv_env s) (sv_ext s) (sv_ckb s) cfg w = (r, w1)"
    and facts: "ckb_facts cfg d' = ckb_facts cfg (w_db w1)"
  with scan_extends_ledger [OF assms(1) _ once] assms(2) ledger_facts [OF facts] show ?thesis by simp
qed

lemma ledger_step_height: "ledger_step settled l l' \<Longrightarrow> lg_height l \<le> lg_height l'"
  by (induction rule: ledger_step.induct) auto

lemma reachable_height:
  assumes "deployable s cfg" "reachable fuel s cfg d"
  shows "0 \<le> fst (checkpoint_of cfg d)"
  using assms(2) unfolding reachable_def
proof (induction rule: rtranclp_induct)
  case base
  have "unat (saturating_sub (ckb_start_block (c_ckb cfg)) 1) < 2 ^ 63"
    using assms(1) unfolding unat_saturating_sub deployable_def by linarith
  then show ?case by (simp add: checkpoint_of_def get_stream_state_def empty_db_def lookup_row_def as_i64_small)
next
  case (step d d')
  from ledger_step_height [OF step_extends_ledger [OF assms(1) step.IH step.hyps(2)]] step.IH
  show ?case by (simp add: ledger_of_def)
qed

lemma reachable_mirrors:
  assumes "stable_node (sv_ckb s) ans" "reachable fuel s cfg d"
  shows "cells_mirror (sv_ext s) cfg ans d"
  using assms(2) unfolding reachable_def
proof (induction rule: rtranclp_induct)
  case (step d d')
  from step_effect [OF step.hyps(2)] show ?case
  proof (elim disjE exE conjE)
    assume "ckb_side d' = ckb_side d"
    with step.IH show ?thesis by (simp add: ckb_side_def cells_mirror_def)
  next
    assume "ckb_facts cfg d' = ckb_facts cfg d"
    from facts_cells [OF this] step.IH show ?thesis by (simp add: cells_mirror_def)
  next
    fix w r w1
    assume w: "w_db w = d" and once: "scan_once fuel (sv_env s) (sv_ext s) (sv_ckb s) cfg w = (r, w1)"
      and facts: "ckb_facts cfg d' = ckb_facts cfg (w_db w1)"
    from step.IH w have "cells_mirror (sv_ext s) cfg ans (w_db w)" by simp
    from scan_once_mirrors [OF assms(1) this once] facts_cells [OF facts] show ?thesis
      by (simp add: cells_mirror_def)
  qed
qed (simp add: cells_mirror_def empty_db_def)

section \<open>Properties\<close>

text \<open>
  C3.
  The program refines an append-only ledger. In every state that the workers and the
  requests can reach, whatever failed before, the next step leaves the ledger of the CKB
  side as it is, or raises its height, no further than the lag behind the tip of the node,
  and forgets no cell, no consumption and no transition.
\<close>

theorem system_refines_ledger:
  assumes "deployable s cfg" "reachable fuel s cfg d" "system_step fuel s cfg d d'"
  shows "ledger_step (settled_height s cfg) (ledger_of cfg d) (ledger_of cfg d')"
  by (rule step_extends_ledger [OF assms(1) reachable_height [OF assms(1,2)] assms(3)])

definition sample_deployment :: services where
  "sample_deployment = \<lparr> sv_env = quiet_env, sv_ext = ref_ext, sv_ckb = sample_node,
     sv_btc = ref_source (\<lambda>p. Unspent) (\<lambda>t. None) 105, sv_reason = (\<lambda>n. []) \<rparr>"

lemma sample_deployable: "deployable sample_deployment mainnet_config"
  using mainnet_config_ok
  by (simp add: deployable_def sample_deployment_def sample_node_def ref_node_def sample_config_def ckb_defaults_def)

lemma system_refines_ledger_witness:
  "\<exists>d. system_step 2 sample_deployment mainnet_config empty_db d \<and>
     ledger_step (settled_height sample_deployment mainnet_config) (ledger_of mainnet_config empty_db) (ledger_of mainnet_config d)"
proof -
  have "Scanner \<in> set (spawn_workers mainnet_config)" by (simp add: spawn_workers_def)
  from system_step.pass [OF this, of "world_of empty_db" empty_db 2 sample_deployment None]
  obtain d where step: "system_step 2 sample_deployment mainnet_config empty_db d" by (auto simp: world_of_def)
  have "reachable 2 sample_deployment mainnet_config empty_db" by (simp add: reachable_def)
  from system_refines_ledger [OF sample_deployable this step] step show ?thesis by blast
qed

text \<open>
  C4.
  Every reachable index mirrors the chain. Against a node that answers each transaction
  request alike, in every state that the workers and the requests can reach, every row of
  the cells table mirrors an output of a transaction of the chain with a readable RGB++ lock.
\<close>

theorem reachable_cells_mirror_chain:
  assumes "stable_node (sv_ckb s) ans" "reachable fuel s cfg d"
  shows "cells_mirror (sv_ext s) cfg ans d"
  using assms by (rule reachable_mirrors)

lemma reachable_cells_mirror_chain_witness:
  "\<exists>d. system_step 2 sample_deployment mainnet_config empty_db d \<and> cells_mirror ref_ext mainnet_config sample_answers d"
proof -
  have "Scanner \<in> set (spawn_workers mainnet_config)" by (simp add: spawn_workers_def)
  from system_step.pass [OF this, of "world_of empty_db" empty_db 2 sample_deployment None]
  obtain d where step: "system_step 2 sample_deployment mainnet_config empty_db d" by (auto simp: world_of_def)
  then have "reachable 2 sample_deployment mainnet_config d" by (auto simp: reachable_def)
  with reachable_cells_mirror_chain [of sample_deployment sample_answers 2 mainnet_config d] sample_stable step
  show ?thesis by (auto simp: sample_deployment_def)
qed

end
