(* ===== verification/Wire.thy ===== *)
theory Wire
  imports Api
begin

text \<open>
  The JSON of the program: what the \<open>Serialize\<close> and \<open>Deserialize\<close> implementations of the hex
  newtypes (\<open>crates/types\<close>), of the domain values that the responses used to carry
  (\<open>crates/indexer\<close>, \<open>crates/store\<close>) and of every response of \<open>crates/api\<close> write and read. A
  struct is the object of its fields in declaration order, \<open>None\<close> is \<open>null\<close>, an internally
  tagged enum starts with its tag. The text of a time, RFC 3339 by \<open>chrono\<close>, is a parameter.
\<close>

section \<open>Hex newtypes\<close>

text \<open>\<open>String::deserialize\<close> refuses every value but a string; the rest is \<open>Error::custom\<close>.\<close>

datatype wire_error = NotAString | CustomError string

definition string_of_wire :: "json \<Rightarrow> wire_error + string" where
  "string_of_wire v = (case v of JStr s \<Rightarrow> Inr s | _ \<Rightarrow> Inl NotAString)"

definition hex_of_wire :: "(string \<Rightarrow> 'a res) \<Rightarrow> json \<Rightarrow> wire_error + 'a" where
  "hex_of_wire from_hex v =
     (case string_of_wire v of Inl err \<Rightarrow> Inl err | Inr s \<Rightarrow> map_err (CustomError \<circ> types_display) (from_hex s))"

definition h256_wire :: "ext \<Rightarrow> h256 \<Rightarrow> json" where "h256_wire x h = JStr (h256_to_hex x h)"
definition h256_of_wire :: "ext \<Rightarrow> json \<Rightarrow> wire_error + h256" where "h256_of_wire x v = hex_of_wire (h256_from_hex x) v"

definition bytes_wire :: "ext \<Rightarrow> byte list \<Rightarrow> json" where "bytes_wire x bs = JStr (bytes_to_hex x bs)"
definition bytes_of_wire :: "ext \<Rightarrow> json \<Rightarrow> wire_error + byte list" where "bytes_of_wire x v = hex_of_wire (bytes_from_hex x) v"

definition txid_wire :: "ext \<Rightarrow> btc_txid \<Rightarrow> json" where "txid_wire x t = JStr (txid_to_hex x t)"
definition txid_of_wire :: "ext \<Rightarrow> json \<Rightarrow> wire_error + btc_txid" where "txid_of_wire x v = hex_of_wire (txid_from_hex x) v"

definition bbh_wire :: "ext \<Rightarrow> btc_block_hash \<Rightarrow> json" where "bbh_wire x h = JStr (bbh_to_hex x h)"
definition bbh_of_wire :: "ext \<Rightarrow> json \<Rightarrow> wire_error + btc_block_hash" where "bbh_of_wire x v = hex_of_wire (bbh_from_hex x) v"

section \<open>Domain values\<close>

definition json_nat :: "nat \<Rightarrow> json" where "json_nat n = JInt (int n)"
definition json_word :: "'a::len word \<Rightarrow> json" where "json_word w = JInt (uint w)"
definition json_list :: "('a \<Rightarrow> json) \<Rightarrow> 'a list \<Rightarrow> json" where "json_list f xs = JArr (map f xs)"

definition btc_out_point_wire :: "ext \<Rightarrow> btc_out_point \<Rightarrow> json" where
  "btc_out_point_wire x p = JObj [(''txid'', txid_wire x (bo_txid p)), (''vout'', json_word (bo_vout p))]"

definition ckb_out_point_wire :: "ext \<Rightarrow> ckb_out_point \<Rightarrow> json" where
  "ckb_out_point_wire x p = JObj [(''tx_hash'', h256_wire x (co_tx_hash p)), (''index'', json_word (co_index p))]"

fun spend_status_wire :: "ext \<Rightarrow> spend_status \<Rightarrow> json" where
  "spend_status_wire x Unknown = JObj [(''status'', JStr ''unknown'')]"
| "spend_status_wire x Unspent = JObj [(''status'', JStr ''unspent'')]"
| "spend_status_wire x (SpentUnconfirmed spender) =
     JObj [(''status'', JStr ''spent_unconfirmed''), (''spender'', txid_wire x spender)]"
| "spend_status_wire x (SpentConfirmed spender height) =
     JObj [(''status'', JStr ''spent_confirmed''), (''spender'', txid_wire x spender), (''height'', json_word height)]"

definition outpoint_refresh_wire :: "ext \<Rightarrow> outpoint_refresh \<Rightarrow> json" where
  "outpoint_refresh_wire x r = JObj
     [(''outpoint'', btc_out_point_wire x (orf_outpoint r)), (''status'', spend_status_wire x (orf_status r)),
      (''changed'', JBool (orf_changed r))]"

definition address_reconcile_wire :: "ext \<Rightarrow> address_reconcile \<Rightarrow> json" where
  "address_reconcile_wire x r = JObj
     [(''address'', JStr (arc_address r)), (''source_utxo_count'', json_nat (arc_source_utxo_count r)),
      (''disappeared'', json_list (btc_out_point_wire x) (arc_disappeared r)),
      (''contradicted'', json_list (btc_out_point_wire x) (arc_contradicted r)),
      (''refreshed'', json_list (outpoint_refresh_wire x) (arc_refreshed r))]"

fun resolution_wire :: "ext \<Rightarrow> transition_resolution \<Rightarrow> json" where
  "resolution_wire x UnknownBtc = JObj [(''state'', JStr ''unknown_btc_tx'')]"
| "resolution_wire x (AwaitingCkb confirmed height) =
     JObj [(''state'', JStr ''awaiting_ckb''), (''btc_confirmed'', JBool confirmed), (''btc_height'', json_opt json_word height)]"
| "resolution_wire x (CkbSeenAboveLag cells indexed_to) =
     JObj [(''state'', JStr ''ckb_seen_above_lag''), (''cells'', json_list (ckb_out_point_wire x) cells), (''indexed_to'', JInt indexed_to)]"
| "resolution_wire x (Indexed ckb_tx_hash block_number) =
     JObj [(''state'', JStr ''indexed''), (''ckb_tx_hash'', JStr ckb_tx_hash), (''block_number'', JInt block_number)]"

definition counts_json :: "indexer_counts \<Rightarrow> json" where
  "counts_json c = JObj
     [(''total_cells'', json_nat (ix_total_cells c)), (''live_cells'', json_nat (ix_live_cells c)),
      (''pending_ckb_cells'', json_nat (ix_pending_ckb_cells c)), (''transitions'', json_nat (ix_transitions c)),
      (''observed_outpoints'', json_nat (ix_observed_outpoints c)), (''open_anomalies'', json_nat (ix_open_anomalies c)),
      (''refresh_queue_depth'', json_nat (ix_queue_depth c)), (''udts'', json_nat (ix_udts c)), (''dobs'', json_nat (ix_dobs c))]"

section \<open>Responses\<close>

subsection \<open>Shared shapes\<close>

definition ckb_point_json :: "ckb_point_dto \<Rightarrow> json" where
  "ckb_point_json p = JObj [(''tx_hash'', JStr (kp_tx_hash p)), (''index'', json_word (kp_index p))]"

definition btc_point_json :: "btc_point_dto \<Rightarrow> json" where
  "btc_point_json p = JObj [(''txid'', JStr (bpt_txid p)), (''vout'', json_word (bpt_vout p))]"

definition btc_time_json :: "btc_time_dto \<Rightarrow> json" where
  "btc_time_json b = JObj
     [(''after'', json_word (bm_after b)), (''btc_txid'', JStr (bm_btc_txid b)), (''target_lock'', json_opt id (bm_target_lock b))]"

definition created_json :: "created_dto \<Rightarrow> json" where
  "created_json c = JObj [(''block_number'', JInt (cre_block_number c)), (''tx_index'', JInt (cre_tx_index c))]"

definition consumed_json :: "consumed_dto \<Rightarrow> json" where
  "consumed_json c = JObj [(''block_number'', JInt (con_block_number c)), (''tx_hash'', JStr (con_tx_hash c))]"

definition btc_observation_json :: "(int \<Rightarrow> string) \<Rightarrow> btc_observation_dto \<Rightarrow> json" where
  "btc_observation_json t ob = JObj
     [(''status'', JStr (bod_status ob)), (''spender'', json_opt JStr (bod_spender ob)), (''height'', json_opt JInt (bod_height ob)),
      (''observed_at'', json_opt (JStr \<circ> t) (bod_observed_at ob)), (''address'', json_opt JStr (bod_address ob))]"

definition cell_json :: "(int \<Rightarrow> string) \<Rightarrow> cell_dto \<Rightarrow> json" where
  "cell_json t c = JObj
     [(''ckb_out_point'', ckb_point_json (ce_ckb_out_point c)), (''lock_kind'', JStr (ce_lock_kind c)),
      (''btc_out_point'', json_opt btc_point_json (ce_btc_out_point c)), (''btc_time'', json_opt btc_time_json (ce_btc_time c)),
      (''type_hash'', json_opt JStr (ce_type_hash c)), (''type_script'', json_opt id (ce_type_script c)),
      (''asset_kind'', JStr (ce_asset_kind c)), (''amount'', json_opt JStr (ce_amount c)), (''capacity'', JStr (ce_capacity c)),
      (''data'', JStr (ce_data c)), (''status'', JStr (ce_status c)), (''created'', created_json (ce_created c)),
      (''consumed'', json_opt consumed_json (ce_consumed c)),
      (''btc_observation'', json_opt (btc_observation_json t) (ce_btc_observation c))]"

definition transition_json :: "(int \<Rightarrow> string) \<Rightarrow> transition_dto \<Rightarrow> json" where
  "transition_json t d = JObj
     [(''ckb_tx_hash'', JStr (td_ckb_tx_hash d)), (''block_number'', JInt (td_block_number d)), (''tx_index'', JInt (td_tx_index d)),
      (''block_timestamp'', json_opt (JStr \<circ> t) (td_block_timestamp d)), (''kind'', JStr (td_kind d)),
      (''btc_txid'', json_opt JStr (td_btc_txid d)), (''input_cell_count'', JInt (td_input_cell_count d)),
      (''output_cell_count'', JInt (td_output_cell_count d)), (''expected_commitment'', json_opt JStr (td_expected_commitment d)),
      (''observed_commitment'', json_opt JStr (td_observed_commitment d)), (''commitment_status'', JStr (td_commitment_status d))]"

definition asset_balance_json :: "asset_balance_dto \<Rightarrow> json" where
  "asset_balance_json b = JObj
     [(''asset_kind'', JStr (bd_asset_kind b)), (''type_hash'', json_opt JStr (bd_type_hash b)), (''cell_count'', json_nat (bd_cell_count b)),
      (''total_capacity'', JStr (bd_total_capacity b)), (''total_amount'', json_opt JStr (bd_total_amount b))]"

definition asset_json :: "asset_dto \<Rightarrow> json" where
  "asset_json a = JObj
     [(''type_hash'', JStr (asd_type_hash a)), (''asset_kind'', JStr (asd_asset_kind a)), (''cell_count'', json_nat (asd_cell_count a)),
      (''live_cell_count'', json_nat (asd_live_cell_count a)), (''live_seal_count'', json_nat (asd_live_seal_count a)),
      (''holder_count'', json_nat (asd_holder_count a)), (''unlabelled_seal_count'', json_nat (asd_unlabelled_seal_count a)),
      (''total_amount'', json_opt JStr (asd_total_amount a)), (''first_block_number'', JInt (asd_first_block_number a)),
      (''first_ckb_tx_hash'', JStr (asd_first_ckb_tx_hash a)), (''last_block_number'', JInt (asd_last_block_number a))]"

definition anomaly_json :: "(int \<Rightarrow> string) \<Rightarrow> anomaly_dto \<Rightarrow> json" where
  "anomaly_json t a = JObj
     [(''id'', JInt (ad_id a)), (''kind'', JStr (ad_kind a)), (''btc_out_point'', json_opt btc_point_json (ad_btc_out_point a)),
      (''ckb_out_point'', json_opt ckb_point_json (ad_ckb_out_point a)), (''detail'', ad_detail a),
      (''detected_at'', JStr (t (ad_detected_at a))), (''last_seen_at'', JStr (t (ad_last_seen_at a))),
      (''resolved_at'', json_opt (JStr \<circ> t) (ad_resolved_at a))]"

subsection \<open>Status\<close>

definition ckb_status_json :: "(int \<Rightarrow> string) \<Rightarrow> ckb_status_dto \<Rightarrow> json" where
  "ckb_status_json t c = JObj
     [(''indexed_to'', JInt (cst_indexed_to c)), (''target'', json_opt JInt (cst_target c)), (''chain_tip'', json_opt JInt (cst_chain_tip c)),
      (''reorg_lag'', JInt (cst_reorg_lag c)), (''blocks_behind'', json_opt JInt (cst_blocks_behind c)),
      (''last_error'', json_opt JStr (cst_last_error c)), (''updated_at'', JStr (t (cst_updated_at c)))]"

definition sweep_status_json :: "(int \<Rightarrow> string) \<Rightarrow> sweep_status_dto \<Rightarrow> json" where
  "sweep_status_json t r = JObj
     [(''id'', JInt (ss_id r)), (''started_at'', JStr (t (ss_started_at r))), (''finished_at'', json_opt (JStr \<circ> t) (ss_finished_at r)),
      (''outpoints_checked'', JInt (ss_outpoints_checked r)), (''anomalies_found'', JInt (ss_anomalies_found r)),
      (''status'', JStr (ss_status r))]"

definition counts_dto_json :: "counts_dto \<Rightarrow> json" where
  "counts_dto_json c = JObj
     [(''total_cells'', json_nat (cnd_total_cells c)), (''live_cells'', json_nat (cnd_live_cells c)),
      (''pending_ckb_cells'', json_nat (cnd_pending_ckb_cells c)), (''transitions'', json_nat (cnd_transitions c)),
      (''observed_outpoints'', json_nat (cnd_observed_outpoints c)), (''open_anomalies'', json_nat (cnd_open_anomalies c)),
      (''refresh_queue_depth'', json_nat (cnd_refresh_queue_depth c)), (''udts'', json_nat (cnd_udts c)), (''dobs'', json_nat (cnd_dobs c))]"

definition status_dto_json :: "(int \<Rightarrow> string) \<Rightarrow> status_dto \<Rightarrow> json" where
  "status_dto_json t s = JObj
     [(''network'', JStr (sd_network s)), (''btc_source'', JStr (sd_btc_source s)), (''ckb'', ckb_status_json t (sd_ckb s)),
      (''counts'', counts_dto_json (sd_counts s)), (''last_sweep'', json_opt (sweep_status_json t) (sd_last_sweep s))]"

subsection \<open>Reconciliation\<close>

fun spend_status_json :: "spend_status_dto \<Rightarrow> json" where
  "spend_status_json UnknownDto = JObj [(''status'', JStr ''unknown'')]"
| "spend_status_json UnspentDto = JObj [(''status'', JStr ''unspent'')]"
| "spend_status_json (SpentUnconfirmedDto spender) = JObj [(''status'', JStr ''spent_unconfirmed''), (''spender'', JStr spender)]"
| "spend_status_json (SpentConfirmedDto spender height) =
     JObj [(''status'', JStr ''spent_confirmed''), (''spender'', JStr spender), (''height'', json_word height)]"

definition refresh_json :: "outpoint_refresh_dto \<Rightarrow> json" where
  "refresh_json r = JObj
     [(''outpoint'', btc_point_json (rf_outpoint r)), (''status'', spend_status_json (rf_status r)), (''changed'', JBool (rf_changed r))]"

definition reconcile_json :: "address_reconcile_dto \<Rightarrow> json" where
  "reconcile_json r = JObj
     [(''address'', JStr (rcd_address r)), (''source_utxo_count'', json_nat (rcd_source_utxo_count r)),
      (''disappeared'', json_list btc_point_json (rcd_disappeared r)), (''contradicted'', json_list btc_point_json (rcd_contradicted r)),
      (''refreshed'', json_list refresh_json (rcd_refreshed r))]"

fun resolution_json :: "resolution_dto \<Rightarrow> json" where
  "resolution_json UnknownBtcTxDto = JObj [(''state'', JStr ''unknown_btc_tx'')]"
| "resolution_json (AwaitingCkbDto confirmed height) =
     JObj [(''state'', JStr ''awaiting_ckb''), (''btc_confirmed'', JBool confirmed), (''btc_height'', json_opt json_word height)]"
| "resolution_json (CkbSeenAboveLagDto cells indexed_to) =
     JObj [(''state'', JStr ''ckb_seen_above_lag''), (''cells'', json_list ckb_point_json cells), (''indexed_to'', JInt indexed_to)]"
| "resolution_json (IndexedDto ckb_tx_hash block_number) =
     JObj [(''state'', JStr ''indexed''), (''ckb_tx_hash'', JStr ckb_tx_hash), (''block_number'', JInt block_number)]"

subsection \<open>Histories\<close>

text \<open>\<open>rename_all\<close> makes the variant \<open>Self_\<close> the text \<open>self_\<close>.\<close>

fun direction_text :: "activity_direction \<Rightarrow> string" where
  "direction_text DirIn = ''in''"
| "direction_text DirOut = ''out''"
| "direction_text DirSelf = ''self_''"

definition activity_btc_json :: "(int \<Rightarrow> string) \<Rightarrow> activity_btc_dto \<Rightarrow> json" where
  "activity_btc_json t b = JObj
     [(''txid'', JStr (ab_txid b)), (''confirmed'', JBool (ab_confirmed b)), (''block_height'', json_opt JInt (ab_block_height b)),
      (''block_hash'', json_opt JStr (ab_block_hash b)), (''block_time'', json_opt (JStr \<circ> t) (ab_block_time b)),
      (''fee'', json_opt JStr (ab_fee b))]"

definition activity_cell_json :: "activity_cell_dto \<Rightarrow> json" where
  "activity_cell_json c = JObj
     [(''ckb_out_point'', ckb_point_json (acd_ckb_out_point c)), (''btc_out_point'', json_opt btc_point_json (acd_btc_out_point c)),
      (''asset_kind'', JStr (acd_asset_kind c)), (''type_hash'', json_opt JStr (acd_type_hash c)),
      (''amount'', json_opt JStr (acd_amount c)), (''capacity'', JStr (acd_capacity c))]"

definition asset_delta_json :: "asset_delta_dto \<Rightarrow> json" where
  "asset_delta_json d = JObj
     [(''asset_kind'', JStr (dd_asset_kind d)), (''type_hash'', json_opt JStr (dd_type_hash d)), (''amount'', json_opt JStr (dd_amount d)),
      (''capacity'', JStr (dd_capacity d)), (''cell_delta'', JInt (dd_cell_delta d))]"

definition activity_entry_json :: "(int \<Rightarrow> string) \<Rightarrow> activity_entry_dto \<Rightarrow> json" where
  "activity_entry_json t a = JObj
     [(''ckb_tx_hash'', JStr (ae_ckb_tx_hash a)), (''block_number'', JInt (ae_block_number a)), (''tx_index'', JInt (ae_tx_index a)),
      (''block_timestamp'', json_opt (JStr \<circ> t) (ae_block_timestamp a)), (''kind'', JStr (ae_kind a)),
      (''direction'', JStr (direction_text (ae_direction a))), (''btc'', json_opt (activity_btc_json t) (ae_btc a)),
      (''received'', json_list activity_cell_json (ae_received a)), (''sent'', json_list activity_cell_json (ae_sent a)),
      (''deltas'', json_list asset_delta_json (ae_deltas a)), (''cursor'', JStr (ae_cursor a))]"

definition address_activity_json :: "(int \<Rightarrow> string) \<Rightarrow> address_activity_dto \<Rightarrow> json" where
  "address_activity_json t a = JObj
     [(''address'', JStr (aa_address a)), (''entries'', json_list (activity_entry_json t) (aa_entries a)),
      (''next_cursor'', json_opt JStr (aa_next_cursor a)), (''unresolved_bindings_total'', json_nat (aa_unresolved_bindings_total a))]"

subsection \<open>Answers\<close>

definition address_assets_json :: "(int \<Rightarrow> string) \<Rightarrow> address_assets_response \<Rightarrow> json" where
  "address_assets_json t r = JObj
     [(''address'', JStr (aar_address r)), (''reconciliation'', json_opt reconcile_json (aar_reconciliation r)),
      (''cells'', json_list (cell_json t) (aar_cells r))]"

definition balance_response_json :: "balance_response \<Rightarrow> json" where
  "balance_response_json r = JObj
     [(''address'', JStr (blr_address r)), (''include_pending'', JBool (blr_include_pending r)),
      (''assets'', json_list asset_balance_json (blr_assets r))]"

definition transaction_status_json :: "(int \<Rightarrow> string) \<Rightarrow> transaction_status_response \<Rightarrow> json" where
  "transaction_status_json t r = JObj
     [(''btc_txid'', JStr (tsr_btc_txid r)), (''resolution'', resolution_json (tsr_resolution r)),
      (''transitions'', json_list (transition_json t) (tsr_transitions r)), (''cells'', json_list (cell_json t) (tsr_cells r))]"

definition refresh_response_json :: "refresh_response \<Rightarrow> json" where
  "refresh_response_json r = JObj
     [(''requested'', json_nat (rfr_requested r)), (''refreshed'', json_list refresh_json (rfr_refreshed r)), (''queued'', json_nat (rfr_queued r))]"

definition assets_response_json :: "assets_response \<Rightarrow> json" where
  "assets_response_json r = JObj [(''assets'', json_list asset_json (asr_assets r)), (''total'', json_nat (asr_total r))]"

fun body_json :: "(int \<Rightarrow> string) \<Rightarrow> body \<Rightarrow> json" where
  "body_json t (HealthBody status) = JObj [(''status'', JStr status)]"
| "body_json t (StatusBody s) = status_dto_json t s"
| "body_json t (CellsBody cs) = json_list (cell_json t) cs"
| "body_json t (CellBody c) = cell_json t c"
| "body_json t (AddressAssetsBody r) = address_assets_json t r"
| "body_json t (BalanceBody r) = balance_response_json r"
| "body_json t (TransactionStatusBody r) = transaction_status_json t r"
| "body_json t (RefreshBody r) = refresh_response_json r"
| "body_json t (AssetsBody r) = assets_response_json r"
| "body_json t (AssetsBatchBody as) = JObj [(''assets'', json_list (json_opt asset_json) as)]"
| "body_json t (CellsBatchBody css) = JObj [(''cells'', json_list (json_list (cell_json t)) css)]"
| "body_json t (TransitionsBatchBody ts) = JObj [(''transitions'', json_list (json_opt (transition_json t)) ts)]"
| "body_json t (TransitionsBody ts) = json_list (transition_json t) ts"
| "body_json t (TransitionBody d) = transition_json t d"
| "body_json t (ActivityBody a) = address_activity_json t a"
| "body_json t (AnomaliesBody as) = json_list (anomaly_json t) as"

fun error_kind_text :: "error_kind \<Rightarrow> string" where
  "error_kind_text KindBadRequest = ''bad_request''"
| "error_kind_text KindNotFound = ''not_found''"
| "error_kind_text KindUpstreamUnavailable = ''upstream_unavailable''"
| "error_kind_text KindInternal = ''internal''"

definition error_json :: "error_response \<Rightarrow> json" where
  "error_json r = JObj [(''error'', JObj [(''kind'', JStr (error_kind_text (er_kind r))), (''message'', JStr (er_message r))])]"

definition response_json :: "(int \<Rightarrow> string) \<Rightarrow> error_response + body \<Rightarrow> json" where
  "response_json t r = (case r of Inl err \<Rightarrow> error_json err | Inr b \<Rightarrow> body_json t b)"

section \<open>Properties\<close>

text \<open>The tag of a status is the text of its column.\<close>

lemma status_tag: "json_get ''status'' (spend_status_wire x st) = Some (JStr (status_as_str st))"
  by (cases st) (simp_all add: json_get_def)

lemma btc_point_same: "btc_point_json (btc_point_dto_of x p) = btc_out_point_wire x p"
  by (simp add: btc_point_json_def btc_point_dto_of_def btc_out_point_wire_def txid_wire_def)

lemma spend_status_same: "spend_status_json (spend_status_dto_of x st) = spend_status_wire x st"
  by (cases st) (simp_all add: txid_wire_def)

lemma refresh_same: "refresh_json (refresh_dto_of x r) = outpoint_refresh_wire x r"
  by (simp add: refresh_json_def refresh_dto_of_def outpoint_refresh_wire_def btc_point_same spend_status_same)

lemma reconcile_same: "reconcile_json (reconcile_dto_of x r) = address_reconcile_wire x r"
  by (simp add: reconcile_json_def reconcile_dto_of_def address_reconcile_wire_def json_list_def btc_point_same refresh_same)

lemma resolution_same: "resolution_json (resolution_dto_of x r) = resolution_wire x r"
  by (cases r) (simp_all add: json_list_def ckb_point_json_def ckb_out_point_wire_def h256_wire_def)

lemma counts_same: "counts_dto_json (counts_dto_of c) = counts_json c"
  by (simp add: counts_dto_json_def counts_dto_of_def counts_json_def)

text \<open>
  The mirrors serialise as what they mirror. For every value of the domain types that
  responses once carried, the JSON of its transfer object is the JSON of the value itself.
\<close>

lemma mirrors_serialize_identically:
  "spend_status_json (spend_status_dto_of x st) = spend_status_wire x st \<and>
   refresh_json (refresh_dto_of x r) = outpoint_refresh_wire x r \<and>
   reconcile_json (reconcile_dto_of x a) = address_reconcile_wire x a \<and>
   resolution_json (resolution_dto_of x q) = resolution_wire x q \<and>
   counts_dto_json (counts_dto_of c) = counts_json c"
  using spend_status_same refresh_same reconcile_same resolution_same counts_same by blast

text \<open>What is written is read back, and nothing but a string is read.\<close>

lemma hex_of_wire_str: "from_hex s = Inr h \<Longrightarrow> hex_of_wire from_hex (JStr s) = Inr h"
  by (simp add: hex_of_wire_def string_of_wire_def)

lemma hex_newtypes_reread:
  assumes "ext_ok x"
  shows "h256_of_wire x (h256_wire x h) = Inr h" "bytes_of_wire x (bytes_wire x bs) = Inr bs"
    "txid_of_wire x (txid_wire x t) = Inr t" "bbh_of_wire x (bbh_wire x b) = Inr b"
  using assms
  by (simp_all add: h256_of_wire_def h256_wire_def bytes_of_wire_def bytes_wire_def txid_of_wire_def txid_wire_def
      bbh_of_wire_def bbh_wire_def hex_of_wire_str)

lemma hex_of_wire_Inr: "hex_of_wire from_hex v = Inr h \<longleftrightarrow> (\<exists>s. v = JStr s \<and> from_hex s = Inr h)"
  by (cases v) (auto simp: hex_of_wire_def string_of_wire_def split: sum.splits)

end
