(* ===== verification/Node.thy ===== *)
theory Node
  imports System Wire
begin

text \<open>
  \<open>crates/node/src/main.rs\<close> with \<open>Engine::bootstrap\<close>: the commands of the binary. Connecting,
  migrating and building the HTTP clients are requests to code outside the repository; their
  outcomes are a parameter. A command is what it does to the database and what it prints.
\<close>

section \<open>Starting\<close>

record boot =
  bo_connect :: "nat \<Rightarrow> store_error + unit"
  bo_migrate :: "nat \<Rightarrow> store_error + unit"
  bo_ckb_client :: "nat \<Rightarrow> ckb_error + unit"
  bo_btc_client :: "nat \<Rightarrow> btc_error + unit"

definition ping :: "env \<Rightarrow> (store_error, unit) io" where "ping e = query e (\<lambda>now d. ())"

definition bootstrap :: "boot \<Rightarrow> services \<Rightarrow> config \<Rightarrow> unit scan_io" where
  "bootstrap b s cfg =
     io_bind (of_store (io_call (bo_connect b)))
     (\<lambda>_. io_bind (if db_auto_migrate (c_database cfg) then of_store (io_call (bo_migrate b)) else io_ret ())
     (\<lambda>_. io_bind (of_store (ping (sv_env s)))
     (\<lambda>_. io_bind (of_ckb (io_call (bo_ckb_client b)))
     (\<lambda>_. of_btc (io_call (bo_btc_client b))))))"

section \<open>The commands\<close>

datatype command = Run | Migrate | CheckConfig | ScanOnce | SweepOnce | StatusCommand | Refresh "string list"

datatype cli_error = CliIndexer indexer_error | CliStore store_error | CliTypes terr | CliText string

type_synonym 'a cli_io = "(cli_error, 'a) io"

definition cli_indexer :: "'a scan_io \<Rightarrow> 'a cli_io" where "cli_indexer m = io_map_err CliIndexer m"
definition cli_store :: "(store_error, 'a) io \<Rightarrow> 'a cli_io" where "cli_store m = io_map_err CliStore m"

definition cli_parse_outpoint :: "ext \<Rightarrow> string \<Rightarrow> cli_error + btc_out_point" where
  "cli_parse_outpoint x s =
     (case split_once (CHR '':'') s of
        None \<Rightarrow> Inl (CliText (''expected '' @ tick_quoted ''txid:vout'' @ '', got '' @ tick_quoted s))
      | Some (txid, vout) \<Rightarrow>
          (case txid_from_hex x txid of
             Inl err \<Rightarrow> Inl (CliTypes err)
           | Inr t \<Rightarrow>
               (case parse_u32 vout of
                  None \<Rightarrow> Inl (CliText (''bad output index '' @ tick_quoted vout))
                | Some v \<Rightarrow> Inr \<lparr> bo_txid = t, bo_vout = v \<rparr>)))"

definition round_json :: "scan_round \<Rightarrow> json" where
  "round_json r = JObj
     [(''from'', JInt (uint (rd_from r))), (''to'', JInt (uint (rd_to r))), (''chain_tip'', JInt (uint (rd_chain_tip r))),
      (''target'', JInt (uint (rd_target r))), (''transactions'', json_nat (rd_transactions r)), (''cells'', json_nat (rd_cells r)),
      (''spends'', json_nat (rd_spends r)), (''backfilled_cells'', json_nat (rd_backfilled r)), (''idle'', JBool (rd_idle r))]"

definition status_json :: "stream_state option \<Rightarrow> indexer_counts \<Rightarrow> json" where
  "status_json st c = JObj
     [(''indexed_to'', json_opt (JInt \<circ> st_last_block_number) st),
      (''chain_tip'', json_opt JInt (Option.bind st st_chain_tip)),
      (''reorg_lag'', json_opt (JInt \<circ> st_reorg_lag) st),
      (''last_error'', json_opt JStr (Option.bind st st_last_error)),
      (''counts'', counts_json c)]"

datatype printout =
    ResolvedConfig config h256 h256
  | Migrated
  | PrintedJson json
  | PrintedReport sweep_report
  | PrintedRefreshes "outpoint_refresh list"
  | Started "worker list"

definition run_command :: "nat \<Rightarrow> boot \<Rightarrow> services \<Rightarrow> config \<Rightarrow> command \<Rightarrow> printout cli_io" where
  "run_command fuel b s cfg c =
     (case c of
        CheckConfig \<Rightarrow> io_ret (ResolvedConfig cfg (id_code_hash (ps_rgbpp_lock (c_protocol cfg)))
          (id_code_hash (ps_btc_time_lock (c_protocol cfg))))
      | Migrate \<Rightarrow>
          io_bind (cli_store (io_call (bo_connect b)))
          (\<lambda>_. io_bind (cli_store (io_call (bo_migrate b))) (\<lambda>_. io_ret Migrated))
      | ScanOnce \<Rightarrow>
          io_bind (cli_indexer (bootstrap b s cfg))
          (\<lambda>_. io_bind (cli_indexer (scan_once fuel (sv_env s) (sv_ext s) (sv_ckb s) cfg))
          (\<lambda>round. io_ret (PrintedJson (round_json round))))
      | SweepOnce \<Rightarrow>
          io_bind (cli_indexer (bootstrap b s cfg))
          (\<lambda>_. io_bind (cli_indexer (sweep_once fuel (sv_env s) (sv_ext s) (sv_btc s) cfg (sv_render s)))
          (\<lambda>report. io_ret (PrintedReport report)))
      | StatusCommand \<Rightarrow>
          io_bind (cli_indexer (bootstrap b s cfg))
          (\<lambda>_. io_bind (cli_store (query (sv_env s) (\<lambda>now. get_stream_state CKB_STREAM)))
          (\<lambda>st. io_bind (cli_store (query (sv_env s) (\<lambda>now. counts)))
          (\<lambda>totals. io_ret (PrintedJson (status_json st totals)))))
      | Refresh keys \<Rightarrow>
          io_bind (cli_indexer (bootstrap b s cfg))
          (\<lambda>_. io_bind (io_of (collect (cli_parse_outpoint (sv_ext s)) keys))
          (\<lambda>ops. io_bind (cli_indexer (refresh_outpoints (sv_env s) (sv_ext s) (sv_btc s) cfg ops))
          (\<lambda>refreshed. io_ret (PrintedRefreshes refreshed))))
      | Run \<Rightarrow> io_bind (cli_indexer (bootstrap b s cfg)) (\<lambda>_. io_ret (Started (spawn_workers cfg))))"

section \<open>Properties\<close>

lemma bootstrap_runs: "obeys (runs cfg src) (bootstrap b s cfg)"
  unfolding bootstrap_def ping_def
  by (intro task_runs.obeys_rules task_runs.obeys_of_store task_runs.obeys_of_btc task_runs.obeys_of_ckb)

lemma command_runs: "obeys (runs cfg (sv_btc s)) (run_command fuel b s cfg c)"
proof -
  have cli: "obeys (runs cfg (sv_btc s)) (cli_indexer m)" if "obeys (runs cfg (sv_btc s)) m" for m :: "'x scan_io"
    using that unfolding cli_indexer_def by (rule task_runs.obeys_map_err)
  have store: "obeys (runs cfg (sv_btc s)) (cli_store m)" if "obeys (runs cfg (sv_btc s)) m" for m :: "(store_error, 'x) io"
    using that unfolding cli_store_def by (rule task_runs.obeys_map_err)
  show ?thesis
    unfolding run_command_def
    by (cases c) (simp_all, (intro task_runs.obeys_rules cli store bootstrap_runs scanner_runs.obeys_scan_once [OF refl]
        task_runs.obeys_sweep task_runs.obeys_refresh_outpoints)+)
qed

text \<open>
  The commands are made of the same statements. Whatever fails, a command of the binary takes
  the database along a sequence of the statements that the workers and the requests are made
  of, so what every interleaving keeps, a command run beside a deployment keeps too.
\<close>

theorem commands_are_statements:
  "runs cfg (sv_btc s) (w_db w) (w_db (snd (run_command fuel b s cfg c w)))"
  using command_runs [of cfg s fuel b c] by (simp add: obeys_def)

lemma cli_parse_Inr: "cli_parse_outpoint x k = Inr p \<longleftrightarrow> parse_outpoint x k = Inr p"
  by (auto simp: cli_parse_outpoint_def parse_outpoint_def split: option.splits sum.splits)

lemma cli_collect_Inr: "collect (cli_parse_outpoint x) keys = Inr ops \<longleftrightarrow> collect (parse_outpoint x) keys = Inr ops"
  unfolding collect_Inr_iff cli_parse_Inr ..

text \<open>
  The refresh command does what the API does. Once started, it accepts the same outpoints,
  takes the database to the same state and fails exactly where a synchronous refresh request
  does, and prints what that answers.
\<close>

theorem refresh_command_like_api:
  assumes "bootstrap b s cfg w = (Inr u, w1)"
    and "run_command fuel b s cfg (Refresh keys) w = (r, w2)"
    and "handle s cfg (PostRefresh (Inr \<lparr> rr_outpoints = keys, rr_synchronous = True \<rparr>)) w1 = (a, w3)"
  shows "w2 = w3 \<and>
    (case r of
       Inr out \<Rightarrow> \<exists>rs. out = PrintedRefreshes rs \<and> a = Inr (RefreshBody \<lparr> rfr_requested = length keys,
         rfr_refreshed = map (refresh_dto_of (sv_ext s)) rs, rfr_queued = 0 \<rparr>)
     | Inl err \<Rightarrow> \<exists>err'. a = Inl err')"
proof (cases "collect (parse_outpoint (sv_ext s)) keys")
  case (Inl m)
  with cli_collect_Inr [of "sv_ext s" keys] obtain err where "collect (cli_parse_outpoint (sv_ext s)) keys = Inl err"
    by (cases "collect (cli_parse_outpoint (sv_ext s)) keys") auto
  with assms Inl show ?thesis
    by (auto simp: run_command_def cli_indexer_def io_map_err_def io_bind_def io_of_def refresh_outpoints_handler_def
        from_request_bind api_refuse_def io_fail_def)
next
  case (Inr ops)
  then have "length keys = length ops" by (simp add: collect_length)
  moreover from Inr have "collect (cli_parse_outpoint (sv_ext s)) keys = Inr ops" by (simp add: cli_collect_Inr)
  moreover obtain q w4 where "refresh_outpoints (sv_env s) (sv_ext s) (sv_btc s) cfg ops w1 = (q, w4)" by (meson surj_pair)
  ultimately show ?thesis
    using assms Inr
    by (cases q) (auto simp: run_command_def cli_indexer_def io_map_err_def io_bind_def io_of_def refresh_outpoints_handler_def
        from_request_bind api_of_indexer_def io_ret_def)
qed

definition sample_boot :: boot where
  "sample_boot = \<lparr> bo_connect = (\<lambda>n. Inr ()), bo_migrate = (\<lambda>n. Inr ()), bo_ckb_client = (\<lambda>n. Inr ()), bo_btc_client = (\<lambda>n. Inr ()) \<rparr>"

lemma refresh_command_like_api_witness:
  "\<exists>w1 r w2 a. run_command 1 sample_boot sample_deployment mainnet_config (Refresh [out_point_to_string ref_ext sample_point]) (world_of empty_db) = (r, w2) \<and>
     handle sample_deployment mainnet_config (PostRefresh (Inr \<lparr> rr_outpoints = [out_point_to_string ref_ext sample_point], rr_synchronous = True \<rparr>)) w1 = (a, w2)"
proof -
  have "\<exists>w1. bootstrap sample_boot sample_deployment mainnet_config (world_of empty_db) = (Inr (), w1)"
    by (simp add: bootstrap_def sample_boot_def io_bind_def of_store_def of_ckb_def of_btc_def io_map_err_def io_call_def io_ret_def
        ping_def query_def sql_def sample_deployment_def)
  then obtain w1 where start: "bootstrap sample_boot sample_deployment mainnet_config (world_of empty_db) = (Inr (), w1)" ..
  obtain r w2 where run: "run_command 1 sample_boot sample_deployment mainnet_config (Refresh [out_point_to_string ref_ext sample_point]) (world_of empty_db) = (r, w2)"
    by (meson surj_pair)
  obtain a w3 where api: "handle sample_deployment mainnet_config
      (PostRefresh (Inr \<lparr> rr_outpoints = [out_point_to_string ref_ext sample_point], rr_synchronous = True \<rparr>)) w1 = (a, w3)"
    by (meson surj_pair)
  from refresh_command_like_api [OF start run api] run api show ?thesis by blast
qed

end
