(* ===== verification/Lifecycle.thy ===== *)
theory Lifecycle
  imports Node
begin

text \<open>
  The life of the process: the loops of the six workers, the server of the API and the main
  task, from the start to the exit after a signal (\<open>Engine::spawn_workers\<close>, the \<open>run\<close> functions of
  \<open>crates/indexer/src\<close>, \<open>shutdown.rs\<close>, \<open>serve\<close> and the \<open>run\<close> of the node). A pass of a worker and
  the work of a request are one step each; theory \<open>Statements\<close> looks inside them. The progress
  reporter that the scanner feeds is in theory \<open>Monitor\<close>.
\<close>

section \<open>A worker task\<close>

text \<open>
  \<open>Starting\<close> is the initialisation before the scanner's loop. The backfill carries its
  cursor from pass to pass.
\<close>

datatype phase = Starting | Passing | Sleeping | Stopped

record task =
  tk_worker :: worker
  tk_phase :: phase
  tk_cursor :: "byte list option"

text \<open>The sweeper and the heartbeat sleep before their first pass.\<close>

definition fresh_task :: "worker \<Rightarrow> task" where
  "fresh_task wk = \<lparr> tk_worker = wk,
     tk_phase = (case wk of Scanner \<Rightarrow> Starting | Heartbeat \<Rightarrow> Sleeping | Sweeper \<Rightarrow> Sleeping | _ \<Rightarrow> Passing),
     tk_cursor = None \<rparr>"

text \<open>\<open>Shutdown::sleep\<close>: which branch of its \<open>select!\<close> ended it, and whether the loop ends.\<close>

datatype wakeup = TimerFired | Signalled

definition sleep_ends :: "wakeup \<Rightarrow> bool \<Rightarrow> bool" where
  "sleep_ends cause triggered = (case cause of TimerFired \<Rightarrow> triggered | Signalled \<Rightarrow> True)"

definition task_wake :: "wakeup \<Rightarrow> bool \<Rightarrow> task \<Rightarrow> task" where
  "task_wake cause triggered t = t\<lparr> tk_phase := (if sleep_ends cause triggered then Stopped else Passing) \<rparr>"

text \<open>
  What a task does until it sleeps or starts over. \<open>triggered\<close> is what the scanner reads
  after its pass: a backlog is scanned without a pause only while no shutdown is requested.
\<close>

definition task_pass :: "nat \<Rightarrow> services \<Rightarrow> config \<Rightarrow> bool \<Rightarrow> task \<Rightarrow> task scan_io" where
  "task_pass fuel s cfg triggered t =
     (if tk_phase t = Starting then
        io_bind (io_attempt (init_stream (sv_env s) CKB_STREAM (ckb_start_block (c_ckb cfg))))
        (\<lambda>state. io_ret (t\<lparr> tk_phase := (case state of Inl err \<Rightarrow> Stopped | Inr st \<Rightarrow> Passing) \<rparr>))
      else if tk_worker t = Scanner then
        io_bind (scan_pass fuel (sv_env s) (sv_ext s) (sv_ckb s) cfg (sv_render s))
        (\<lambda>backlog. io_ret (t\<lparr> tk_phase := (if backlog \<and> \<not> triggered then Passing else Sleeping) \<rparr>))
      else if tk_worker t = AddressBackfill then
        io_bind (backfill_pass (sv_env s) (sv_ext s) (sv_btc s) cfg (tk_cursor t))
        (\<lambda>cursor. io_ret (t\<lparr> tk_phase := Sleeping, tk_cursor := cursor \<rparr>))
      else
        io_bind (worker_pass fuel s cfg None (tk_worker t)) (\<lambda>_. io_ret (t\<lparr> tk_phase := Sleeping \<rparr>)))"

lemma task_wake_worker [simp]: "tk_worker (task_wake cause triggered t) = tk_worker t"
  by (simp add: task_wake_def)

text \<open>A pass returns, whatever fails in it: only a start can end its task.\<close>

lemma task_pass_returns:
  "\<exists>t' w'. task_pass fuel s cfg triggered t w = (Inr t', w') \<and> tk_worker t' = tk_worker t \<and>
     (tk_phase t' = Stopped \<longrightarrow> tk_phase t = Starting) \<and> tk_phase t' \<noteq> Starting \<and>
     (tk_phase t' = Passing \<longrightarrow> triggered \<longrightarrow> tk_phase t = Starting)"
proof (cases "tk_phase t = Starting")
  case True
  obtain r w' where "init_stream (sv_env s) CKB_STREAM (ckb_start_block (c_ckb cfg)) w = (r, w')" by (meson surj_pair)
  with True show ?thesis by (auto simp: task_pass_def io_bind_def io_attempt_def io_ret_def split: sum.split)
next
  case False
  have attempt: "\<exists>v w'. io_bind (io_attempt m) f u = (Inr v, w')" if "\<And>r u. \<exists>v w'. f r u = (Inr v, w')"
    for m :: "('e, 'a) io" and f :: "'e + 'a \<Rightarrow> 'b scan_io" and u
    using that by (simp add: io_bind_def io_attempt_def split: prod.split)
  show ?thesis
  proof (cases "tk_worker t")
    case Scanner
    have "\<exists>v w'. scan_pass fuel (sv_env s) (sv_ext s) (sv_ckb s) cfg (sv_render s) w = (Inr v, w')"
      unfolding scan_pass_def
      by (rule attempt) (auto simp: io_ret_def io_bind_def io_attempt_def split: sum.split prod.split)
    then obtain backlog w' where "scan_pass fuel (sv_env s) (sv_ext s) (sv_ckb s) cfg (sv_render s) w = (Inr backlog, w')" by blast
    with Scanner False show ?thesis by (simp add: task_pass_def io_bind_def io_ret_def)
  next
    case AddressBackfill
    have "\<exists>v w'. backfill_pass (sv_env s) (sv_ext s) (sv_btc s) cfg (tk_cursor t) w = (Inr v, w')"
      unfolding backfill_pass_def by (rule attempt) (auto simp: io_ret_def split: sum.split prod.split)
    then obtain cursor w' where "backfill_pass (sv_env s) (sv_ext s) (sv_btc s) cfg (tk_cursor t) w = (Inr cursor, w')" by blast
    with AddressBackfill False show ?thesis by (simp add: task_pass_def io_bind_def io_ret_def)
  next
    case RefreshQueue
    with False show ?thesis
      by (simp add: task_pass_def worker_pass_def queue_pass_def io_bind_def io_attempt_def io_ret_def split: prod.split)
  next
    case Heartbeat
    with False show ?thesis
      by (simp add: task_pass_def worker_pass_def io_bind_def io_attempt_def io_ret_def split: prod.split)
  next
    case Sweeper
    with False show ?thesis
      by (simp add: task_pass_def worker_pass_def sweep_pass_def io_bind_def io_attempt_def io_ret_def split: prod.split)
  next
    case Verifier
    with False show ?thesis
      by (simp add: task_pass_def worker_pass_def verify_pass_def io_bind_def io_attempt_def io_ret_def split: prod.split)
  qed
qed

text \<open>What it does to the database is the start of the scanner or a pass of the worker.\<close>

lemma task_pass_system_step:
  assumes "task_pass fuel s cfg triggered t w = (r, w')" "tk_worker t \<in> set (spawn_workers cfg)"
  shows "system_step fuel s cfg (w_db w) (w_db w')"
proof (cases "tk_phase t = Starting")
  case True
  with assms(1) have "w' = snd (init_stream (sv_env s) CKB_STREAM (ckb_start_block (c_ckb cfg)) w)"
    by (auto simp: task_pass_def io_bind_def io_attempt_def io_ret_def split: prod.splits)
  with system_step.start [of w "w_db w" fuel s cfg] show ?thesis by simp
next
  case False
  have kept: "snd (io_bind m (\<lambda>v. io_ret (f v)) u) = snd (io_bind m (\<lambda>_. io_ret ()) u)"
    for m :: "'a scan_io" and f :: "'a \<Rightarrow> task" and u
    by (simp add: io_bind_def io_ret_def split: prod.split sum.split)
  have "w' = snd (worker_pass fuel s cfg (tk_cursor t) (tk_worker t) w)"
    using arg_cong [where f = snd, OF assms(1)] False
    by (cases "tk_worker t") (simp_all add: task_pass_def kept worker_pass_def io_bind_def io_ret_def split: prod.splits sum.splits)
  with system_step.pass [OF assms(2), of w "w_db w" fuel s "tk_cursor t"] show ?thesis by simp
qed

section \<open>The process\<close>

text \<open>
  The server listens, or could not and only logged that. The main task waits for a signal,
  then for the tasks in order and for the server.
\<close>

datatype api_phase = ApiStarting | ApiServing | ApiStopped
datatype main_phase = AwaitingSignal | Joining nat | Exited

record process =
  pr_db :: db
  pr_triggered :: bool
  pr_tasks :: "task list"
  pr_api :: api_phase
  pr_requests :: "api_request list"
  pr_main :: main_phase

definition start_process :: "config \<Rightarrow> db \<Rightarrow> process" where
  "start_process cfg d = \<lparr> pr_db = d, pr_triggered = False, pr_tasks = map fresh_task (spawn_workers cfg),
     pr_api = ApiStarting, pr_requests = [], pr_main = AwaitingSignal \<rparr>"

text \<open>
  The steps, in any order that their conditions allow. Of the libraries this relies on: a
  sleep ends by the channel only after the trigger, and a server with graceful shutdown takes
  no request after it and answers the ones it has.
\<close>

inductive process_step :: "nat \<Rightarrow> services \<Rightarrow> config \<Rightarrow> process \<Rightarrow> process \<Rightarrow> bool" for fuel s cfg where
  work: "i < length (pr_tasks p) \<Longrightarrow> tk_phase (pr_tasks p ! i) \<in> {Starting, Passing} \<Longrightarrow> w_db w = pr_db p \<Longrightarrow>
    task_pass fuel s cfg (pr_triggered p) (pr_tasks p ! i) w = (Inr t, w') \<Longrightarrow>
    process_step fuel s cfg p (p\<lparr> pr_db := w_db w', pr_tasks := (pr_tasks p)[i := t] \<rparr>)"
| wake: "i < length (pr_tasks p) \<Longrightarrow> tk_phase (pr_tasks p ! i) = Sleeping \<Longrightarrow> cause = Signalled \<longrightarrow> pr_triggered p \<Longrightarrow>
    process_step fuel s cfg p (p\<lparr> pr_tasks := (pr_tasks p)[i := task_wake cause (pr_triggered p) (pr_tasks p ! i)] \<rparr>)"
| listen: "pr_api p = ApiStarting \<Longrightarrow> api \<in> {ApiServing, ApiStopped} \<Longrightarrow> process_step fuel s cfg p (p\<lparr> pr_api := api \<rparr>)"
| accept: "pr_api p = ApiServing \<Longrightarrow> \<not> pr_triggered p \<Longrightarrow>
    process_step fuel s cfg p (p\<lparr> pr_requests := pr_requests p @ [req] \<rparr>)"
| answer: "pr_requests p = before @ req # after \<Longrightarrow> w_db w = pr_db p \<Longrightarrow>
    process_step fuel s cfg p (p\<lparr> pr_db := w_db (snd (handle s cfg req w)), pr_requests := before @ after \<rparr>)"
| close: "pr_api p = ApiServing \<Longrightarrow> pr_triggered p \<Longrightarrow> pr_requests p = [] \<Longrightarrow> process_step fuel s cfg p (p\<lparr> pr_api := ApiStopped \<rparr>)"
| signal: "pr_main p = AwaitingSignal \<Longrightarrow> process_step fuel s cfg p (p\<lparr> pr_triggered := True, pr_main := Joining 0 \<rparr>)"
| join: "pr_main p = Joining i \<Longrightarrow> i < length (pr_tasks p) \<Longrightarrow> tk_phase (pr_tasks p ! i) = Stopped \<Longrightarrow>
    process_step fuel s cfg p (p\<lparr> pr_main := Joining (Suc i) \<rparr>)"
| exit: "pr_main p = Joining (length (pr_tasks p)) \<Longrightarrow> pr_api p = ApiStopped \<Longrightarrow> process_step fuel s cfg p (p\<lparr> pr_main := Exited \<rparr>)"

section \<open>What every step keeps\<close>

text \<open>The tasks that may have stopped: those that the main task joined, and a scanner that did not start.\<close>

definition may_stop :: "process \<Rightarrow> nat \<Rightarrow> bool" where
  "may_stop p i \<longleftrightarrow> pr_triggered p \<or> tk_worker (pr_tasks p ! i) = Scanner"

definition joined :: "process \<Rightarrow> nat \<Rightarrow> bool" where
  "joined p n \<longleftrightarrow> n \<le> length (pr_tasks p) \<and> (\<forall>i < n. tk_phase (pr_tasks p ! i) = Stopped)"

definition process_ok :: "config \<Rightarrow> process \<Rightarrow> bool" where
  "process_ok cfg p \<longleftrightarrow>
     map tk_worker (pr_tasks p) = spawn_workers cfg \<and>
     (\<forall>t \<in> set (pr_tasks p). tk_phase t = Starting \<longrightarrow> tk_worker t = Scanner) \<and>
     (\<forall>i < length (pr_tasks p). tk_phase (pr_tasks p ! i) = Stopped \<longrightarrow> may_stop p i) \<and>
     (pr_api p \<noteq> ApiServing \<longrightarrow> pr_requests p = []) \<and>
     (case pr_main p of
        AwaitingSignal \<Rightarrow> \<not> pr_triggered p
      | Joining n \<Rightarrow> pr_triggered p \<and> joined p n
      | Exited \<Rightarrow> pr_triggered p \<and> joined p (length (pr_tasks p)) \<and> pr_api p = ApiStopped)"

lemma start_process_ok: "process_ok cfg (start_process cfg d)"
proof -
  have "tk_worker \<circ> fresh_task = id" by (auto simp: fresh_task_def)
  moreover have "tk_phase (fresh_task wk) = Starting \<Longrightarrow> wk = Scanner" "tk_phase (fresh_task wk) \<noteq> Stopped"
    "tk_worker (fresh_task wk) = wk" for wk
    by (auto simp: fresh_task_def split: worker.splits)
  ultimately show ?thesis by (auto simp: process_ok_def start_process_def)
qed

lemma task_pass_Inr:
  assumes "task_pass fuel s cfg triggered t w = (Inr t', w')"
  shows "tk_worker t' = tk_worker t" "tk_phase t' = Stopped \<Longrightarrow> tk_phase t = Starting" "tk_phase t' \<noteq> Starting"
    "tk_phase t' = Passing \<Longrightarrow> triggered \<Longrightarrow> tk_phase t = Starting"
  using task_pass_returns [of fuel s cfg triggered t w] assms by auto

lemma map_worker_update: "tk_worker t = tk_worker (ts ! i) \<Longrightarrow> map tk_worker (ts[i := t]) = map tk_worker ts"
  by (metis list_update_id map_update)

lemma process_ok_task:
  assumes ok: "process_ok cfg p" and i: "i < length (pr_tasks p)" "tk_phase (pr_tasks p ! i) \<noteq> Stopped"
    and t: "tk_worker t = tk_worker (pr_tasks p ! i)" "tk_phase t \<noteq> Starting"
      "tk_phase t = Stopped \<Longrightarrow> may_stop p i"
  shows "process_ok cfg (p\<lparr> pr_db := d, pr_tasks := (pr_tasks p)[i := t] \<rparr>)"
proof -
  let ?q = "p\<lparr> pr_db := d, pr_tasks := (pr_tasks p)[i := t] \<rparr>"
  have stop: "may_stop ?q j \<longleftrightarrow> may_stop p j" for j using i t(1) by (cases "j = i") (simp_all add: may_stop_def)
  have join: "joined ?q n \<longleftrightarrow> joined p n" if "joined p n" for n
    using that i(2) by (simp add: joined_def) (metis nth_list_update_neq)
  have "\<forall>u \<in> set (pr_tasks ?q). tk_phase u = Starting \<longrightarrow> tk_worker u = Scanner"
    using ok t(2) by (auto simp: process_ok_def dest!: set_update_subset_insert [THEN subsetD])
  moreover have "\<forall>j < length (pr_tasks ?q). tk_phase (pr_tasks ?q ! j) = Stopped \<longrightarrow> may_stop ?q j"
  proof (intro allI impI)
    fix j assume j: "j < length (pr_tasks ?q)" "tk_phase (pr_tasks ?q ! j) = Stopped"
    from ok have "tk_phase (pr_tasks p ! j) = Stopped \<Longrightarrow> may_stop p j" using j(1) by (simp add: process_ok_def)
    with j t(3) have "may_stop p j" by (cases "j = i") simp_all
    with stop show "may_stop ?q j" by blast
  qed
  moreover have "map tk_worker (pr_tasks ?q) = spawn_workers cfg"
    using ok map_worker_update [OF t(1)] by (simp add: process_ok_def)
  ultimately show ?thesis
    using ok join unfolding process_ok_def by (auto split: main_phase.splits)
qed

lemma process_ok_step:
  assumes "process_step fuel s cfg p q" "process_ok cfg p"
  shows "process_ok cfg q"
  using assms
proof (induction rule: process_step.induct)
  case (work i p w t w')
  have start: "tk_phase (pr_tasks p ! i) = Starting \<Longrightarrow> may_stop p i"
    using work by (simp add: process_ok_def may_stop_def)
  from task_pass_Inr [OF work(4)] work(1,2) start show ?case
    by (intro process_ok_task [OF work(5)]) auto
next
  case (wake i p cause)
  have "process_ok cfg (p\<lparr> pr_db := pr_db p, pr_tasks := (pr_tasks p)[i := task_wake cause (pr_triggered p) (pr_tasks p ! i)] \<rparr>)"
    using wake by (intro process_ok_task) (auto simp: task_wake_def sleep_ends_def may_stop_def split: wakeup.splits if_splits)
  then show ?case by simp
next
  case (signal p)
  then show ?case by (auto simp: process_ok_def may_stop_def joined_def)
next
  case (join p i)
  then show ?case by (auto simp: process_ok_def may_stop_def joined_def less_Suc_eq)
next
  case (exit p)
  then show ?case by (auto simp: process_ok_def may_stop_def joined_def)
qed (auto simp: process_ok_def may_stop_def joined_def split: main_phase.splits)

lemma process_ok_reachable: "(process_step fuel s cfg)\<^sup>*\<^sup>* (start_process cfg d) p \<Longrightarrow> process_ok cfg p"
  by (induction rule: rtranclp_induct) (blast intro: start_process_ok process_ok_step)+

lemma process_ok_steps: "(process_step fuel s cfg)\<^sup>*\<^sup>* p q \<Longrightarrow> process_ok cfg p \<Longrightarrow> process_ok cfg q"
  by (induction rule: rtranclp_induct) (blast intro: process_ok_step)+

section \<open>The database of the process\<close>

lemma process_step_db:
  assumes "process_step fuel s cfg p q" "process_ok cfg p"
  shows "(system_step fuel s cfg)\<^sup>*\<^sup>* (pr_db p) (pr_db q)"
  using assms
proof (induction rule: process_step.induct)
  case (work i p w t w')
  have "tk_worker (pr_tasks p ! i) \<in> set (map tk_worker (pr_tasks p))" using work(1) by simp
  with work(5) have "tk_worker (pr_tasks p ! i) \<in> set (spawn_workers cfg)" by (simp only: process_ok_def)
  from task_pass_system_step [OF work(4) this] work(3) show ?case by auto
next
  case (answer p before req after w)
  with system_step.serve [of w "pr_db p" fuel s cfg req] show ?case by auto
qed simp_all

text \<open>So what holds of every reachable database holds of the database of the process.\<close>

lemma process_reaches:
  "(process_step fuel s cfg)\<^sup>*\<^sup>* (start_process cfg d) p \<Longrightarrow> (system_step fuel s cfg)\<^sup>*\<^sup>* d (pr_db p)"
proof (induction rule: rtranclp_induct)
  case (step p q)
  from step.IH process_step_db [OF step.hyps(2) process_ok_reachable [OF step.hyps(1)]] show ?case by (rule rtranclp_trans)
qed (simp add: start_process_def)

section \<open>The end of the process\<close>

text \<open>What is left to do after the signal.\<close>

fun phase_weight :: "phase \<Rightarrow> nat" where
  "phase_weight Starting = 3"
| "phase_weight Passing = 2"
| "phase_weight Sleeping = 1"
| "phase_weight Stopped = 0"

definition tasks_left :: "task list \<Rightarrow> nat" where
  "tasks_left ts = sum_list (map (phase_weight \<circ> tk_phase) ts)"

definition remaining :: "process \<Rightarrow> nat" where
  "remaining p = tasks_left (pr_tasks p) + length (pr_requests p)
     + (case pr_api p of ApiStarting \<Rightarrow> 2 | ApiServing \<Rightarrow> 1 | ApiStopped \<Rightarrow> 0)
     + (case pr_main p of AwaitingSignal \<Rightarrow> 0 | Joining n \<Rightarrow> Suc (length (pr_tasks p) - n) | Exited \<Rightarrow> 0)"

lemma tasks_left_update:
  assumes "i < length ts" "phase_weight (tk_phase t) < phase_weight (tk_phase (ts ! i))"
  shows "tasks_left (ts[i := t]) < tasks_left ts"
proof -
  have "phase_weight (tk_phase (ts ! i)) \<le> tasks_left ts"
    using assms(1) by (auto simp: tasks_left_def intro!: member_le_sum_list)
  with assms show ?thesis by (simp add: tasks_left_def map_update sum_list_update)
qed

lemma remaining_step:
  assumes "process_step fuel s cfg p q" "process_ok cfg p" "pr_triggered p"
  shows "remaining q < remaining p \<and> pr_triggered q"
  using assms
proof (induction rule: process_step.induct)
  case (work i p w t w')
  have "phase_weight (tk_phase t) < phase_weight (tk_phase (pr_tasks p ! i))"
    using work(2,6) task_pass_Inr(2-4) [OF work(4)] by (cases "tk_phase t") auto
  from tasks_left_update [OF work(1) this] work(6) show ?case by (simp add: remaining_def split: main_phase.split)
next
  case (wake i p cause)
  then have "phase_weight (tk_phase (task_wake cause (pr_triggered p) (pr_tasks p ! i))) < phase_weight (tk_phase (pr_tasks p ! i))"
    by (simp add: task_wake_def sleep_ends_def split: wakeup.split)
  from tasks_left_update [OF wake(1) this] wake(5) show ?case by (simp add: remaining_def split: main_phase.split)
qed (auto simp: remaining_def process_ok_def split: main_phase.split main_phase.split_asm)

lemma remaining_steps:
  assumes "(process_step fuel s cfg ^^ n) p q" "process_ok cfg p" "pr_triggered p"
  shows "n + remaining q \<le> remaining p \<and> process_ok cfg q \<and> pr_triggered q"
  using assms(1)
proof (induction n arbitrary: q)
  case (Suc n)
  then obtain r where "(process_step fuel s cfg ^^ n) p r" and step: "process_step fuel s cfg r q" by auto
  with Suc.IH have "n + remaining r \<le> remaining p" "process_ok cfg r" "pr_triggered r" by blast+
  with remaining_step [OF step] process_ok_step [OF step] show ?case by auto
qed (use assms in simp)

text \<open>Until the exit something can be done.\<close>

lemma process_progress:
  assumes ok: "process_ok cfg p" and "pr_triggered p" "pr_main p \<noteq> Exited"
  shows "\<exists>q. process_step fuel s cfg p q"
proof (cases "\<exists>i < length (pr_tasks p). tk_phase (pr_tasks p ! i) \<noteq> Stopped")
  case True
  then obtain i where i: "i < length (pr_tasks p)" "tk_phase (pr_tasks p ! i) \<noteq> Stopped" by blast
  show ?thesis
  proof (cases "tk_phase (pr_tasks p ! i) = Sleeping")
    case True
    from process_step.wake [OF i(1) this, of Signalled] assms(2) show ?thesis by blast
  next
    case False
    with i(2) have phase: "tk_phase (pr_tasks p ! i) \<in> {Starting, Passing}" by (cases "tk_phase (pr_tasks p ! i)") auto
    from task_pass_returns [of fuel s cfg "pr_triggered p" "pr_tasks p ! i" "world_of (pr_db p)"] obtain t w' where
      "task_pass fuel s cfg (pr_triggered p) (pr_tasks p ! i) (world_of (pr_db p)) = (Inr t, w')" by blast
    from process_step.work [OF i(1) phase _ this] show ?thesis by (auto simp: world_of_def)
  qed
next
  case False
  then have stopped: "tk_phase (pr_tasks p ! i) = Stopped" if "i < length (pr_tasks p)" for i using that by blast
  from ok assms(2,3) obtain n where n: "pr_main p = Joining n" "n \<le> length (pr_tasks p)"
    by (cases "pr_main p") (auto simp: process_ok_def joined_def)
  show ?thesis
  proof (cases "n < length (pr_tasks p)")
    case True
    from process_step.join [OF n(1) this stopped [OF this]] show ?thesis by blast
  next
    case False
    with n have main: "pr_main p = Joining (length (pr_tasks p))" by simp
    show ?thesis
    proof (cases "pr_api p")
      case ApiStarting
      from process_step.listen [OF this, of ApiStopped] show ?thesis by blast
    next
      case ApiServing
      show ?thesis
      proof (cases "pr_requests p")
        case Nil
        from process_step.close [OF ApiServing assms(2) this] show ?thesis by blast
      next
        case (Cons req rest)
        then have "pr_requests p = [] @ req # rest" by simp
        from process_step.answer [OF this, of "world_of (pr_db p)"] show ?thesis by (auto simp: world_of_def)
      qed
    next
      case ApiStopped
      from process_step.exit [OF main this] show ?thesis by blast
    qed
  qed
qed

lemma process_exits:
  "process_ok cfg p \<Longrightarrow> pr_triggered p \<Longrightarrow> \<exists>q. (process_step fuel s cfg)\<^sup>*\<^sup>* p q \<and> pr_main q = Exited"
proof (induction "remaining p" arbitrary: p rule: less_induct)
  case less
  show ?case
  proof (cases "pr_main p = Exited")
    case False
    from process_progress [OF less(2,3) False] obtain r where r: "process_step fuel s cfg p r" by blast
    from remaining_step [OF r less(2,3)] process_ok_step [OF r less(2)] less(1) [of r] obtain q where
      "(process_step fuel s cfg)\<^sup>*\<^sup>* r q" "pr_main q = Exited" by blast
    with r show ?thesis by (meson converse_rtranclp_into_rtranclp)
  qed blast
qed

lemma exited_done:
  assumes "process_ok cfg p" "pr_main p = Exited"
  shows "(\<forall>t \<in> set (pr_tasks p). tk_phase t = Stopped) \<and> pr_requests p = [] \<and> pr_api p = ApiStopped"
proof -
  from assms have "joined p (length (pr_tasks p))" "pr_api p = ApiStopped" "pr_requests p = []" by (simp_all add: process_ok_def)
  then show ?thesis unfolding joined_def by (metis in_set_conv_nth)
qed

text \<open>Who sleeps when the signal comes does no other pass.\<close>

definition resting :: "task \<Rightarrow> bool" where "resting t \<longleftrightarrow> tk_phase t \<in> {Sleeping, Stopped}"

lemma resting_step:
  assumes "process_step fuel s cfg p q" "pr_triggered p" "i < length (pr_tasks p)" "resting (pr_tasks p ! i)"
  shows "length (pr_tasks q) = length (pr_tasks p) \<and> resting (pr_tasks q ! i)"
  using assms
proof (induction rule: process_step.induct)
  case (work j p w t w')
  then have "j \<noteq> i" by (auto simp: resting_def)
  with work show ?case by simp
next
  case (wake j p cause)
  then show ?case
    by (cases "j = i") (auto simp: resting_def task_wake_def sleep_ends_def split: wakeup.split)
qed simp_all

lemma resting_steps:
  assumes "(process_step fuel s cfg)\<^sup>*\<^sup>* p q" "process_ok cfg p" "pr_triggered p" "i < length (pr_tasks p)" "resting (pr_tasks p ! i)"
  shows "resting (pr_tasks q ! i)"
proof -
  from assms(1) have "process_ok cfg q \<and> pr_triggered q \<and> length (pr_tasks q) = length (pr_tasks p) \<and> resting (pr_tasks q ! i)"
  proof (induction rule: rtranclp_induct)
    case (step q r)
    with remaining_step [OF step.hyps(2)] process_ok_step [OF step.hyps(2)] resting_step [OF step.hyps(2), of i] assms(4)
    show ?case by simp
  qed (use assms in simp)
  then show ?thesis by blast
qed

section \<open>Properties\<close>

text \<open>
  C26.
  A signal ends the process, and gently. From any state that a process can be in after the
  signal, whatever fails: every run is at most \<open>remaining\<close> steps long; until the exit a step is
  possible, so a run that stops has exited; at the exit every task has returned on its own
  and every accepted request is answered; and a worker that slept does no other pass.
\<close>

theorem shutdown_drains:
  assumes "(process_step fuel s cfg)\<^sup>*\<^sup>* (start_process cfg d) p" "pr_triggered p"
  shows "(\<forall>n q. (process_step fuel s cfg ^^ n) p q \<longrightarrow> n \<le> remaining p) \<and>
    (\<forall>q. (process_step fuel s cfg)\<^sup>*\<^sup>* p q \<longrightarrow>
       (pr_main q \<noteq> Exited \<longrightarrow> (\<exists>r. process_step fuel s cfg q r)) \<and>
       (pr_main q = Exited \<longrightarrow> (\<forall>t \<in> set (pr_tasks q). tk_phase t = Stopped) \<and> pr_requests q = [] \<and> pr_api q = ApiStopped) \<and>
       (\<forall>i < length (pr_tasks p). resting (pr_tasks p ! i) \<longrightarrow> resting (pr_tasks q ! i))) \<and>
    (\<exists>q. (process_step fuel s cfg)\<^sup>*\<^sup>* p q \<and> pr_main q = Exited)"
proof (intro conjI allI impI)
  note ok = process_ok_reachable [OF assms(1)]
  show "n \<le> remaining p" if "(process_step fuel s cfg ^^ n) p q" for n q
    using remaining_steps [OF that ok assms(2)] by simp
  show "\<exists>q. (process_step fuel s cfg)\<^sup>*\<^sup>* p q \<and> pr_main q = Exited"
    by (rule process_exits [OF ok assms(2)])
  fix q assume q: "(process_step fuel s cfg)\<^sup>*\<^sup>* p q"
  then obtain n where "(process_step fuel s cfg ^^ n) p q" by (auto simp: rtranclp_power)
  from remaining_steps [OF this ok assms(2)] have q_ok: "process_ok cfg q" "pr_triggered q" by simp_all
  show "\<exists>r. process_step fuel s cfg q r" if "pr_main q \<noteq> Exited"
    by (rule process_progress [OF q_ok that])
  from exited_done [OF q_ok(1)] show "\<forall>t \<in> set (pr_tasks q). tk_phase t = Stopped" "pr_requests q = []" "pr_api q = ApiStopped"
    if "pr_main q = Exited" using that by blast+
  show "resting (pr_tasks q ! i)" if "i < length (pr_tasks p)" "resting (pr_tasks p ! i)" for i
    by (rule resting_steps [OF q ok assms(2) that])
qed

text \<open>The signal at once after the start: at most one pass of each worker is left.\<close>

lemma shutdown_drains_witness:
  "\<exists>p q. (process_step 2 sample_deployment mainnet_config)\<^sup>*\<^sup>* (start_process mainnet_config empty_db) p \<and> pr_triggered p \<and>
     (process_step 2 sample_deployment mainnet_config)\<^sup>*\<^sup>* p q \<and> pr_main q = Exited \<and> (\<forall>t \<in> set (pr_tasks q). tk_phase t = Stopped)"
proof -
  let ?start = "start_process mainnet_config empty_db" and ?step = "process_step 2 sample_deployment mainnet_config"
  let ?p = "?start\<lparr> pr_triggered := True, pr_main := Joining 0 \<rparr>"
  have "?step ?start ?p" by (rule process_step.signal [of ?start]) (simp add: start_process_def)
  then have p: "?step\<^sup>*\<^sup>* ?start ?p" by blast
  have t: "pr_triggered ?p" by simp
  from shutdown_drains [OF p t] p t show ?thesis by blast
qed

text \<open>
  C27.
  No failure ends a worker. As long as no signal was given, a task is over only if it is the
  scanner's and the stream row could not be created at its start; and every pass returns,
  whatever the database and the two chains answer, and leaves the task in its loop.
\<close>

theorem failures_end_no_worker:
  assumes "(process_step fuel s cfg)\<^sup>*\<^sup>* (start_process cfg d) p" "\<not> pr_triggered p" "i < length (pr_tasks p)"
  shows "(tk_phase (pr_tasks p ! i) = Stopped \<longrightarrow> tk_worker (pr_tasks p ! i) = Scanner) \<and>
    (\<exists>t w'. task_pass fuel s cfg False (pr_tasks p ! i) w = (Inr t, w') \<and> tk_worker t = tk_worker (pr_tasks p ! i) \<and>
       (tk_phase t = Stopped \<longrightarrow> tk_phase (pr_tasks p ! i) = Starting \<and> tk_worker t = Scanner))"
proof -
  note ok = process_ok_reachable [OF assms(1)]
  from ok assms(2,3) have "tk_phase (pr_tasks p ! i) = Stopped \<longrightarrow> tk_worker (pr_tasks p ! i) = Scanner"
    by (simp add: process_ok_def may_stop_def)
  moreover from ok assms(3) have "tk_phase (pr_tasks p ! i) = Starting \<longrightarrow> tk_worker (pr_tasks p ! i) = Scanner"
    by (simp add: process_ok_def)
  ultimately show ?thesis using task_pass_returns [of fuel s cfg False "pr_tasks p ! i" w] by metis
qed

lemma failures_end_no_worker_witness:
  "\<exists>t w'. task_pass 2 sample_deployment mainnet_config False (fresh_task Scanner) (world_of empty_db) = (Inr t, w') \<and> tk_worker t = Scanner"
proof -
  let ?start = "start_process mainnet_config empty_db"
  have 0: "pr_tasks ?start ! 0 = fresh_task Scanner" "0 < length (pr_tasks ?start)" "\<not> pr_triggered ?start"
    by (simp_all add: start_process_def spawn_workers_def)
  from failures_end_no_worker [OF rtranclp.rtrancl_refl 0(3,2), of 2 sample_deployment "world_of empty_db"] 0(1)
  show ?thesis by (auto simp: fresh_task_def)
qed

end
