(* ===== verification/Api_Props.thy ===== *)
theory Api_Props
  imports Api Workers
begin

text \<open>
  The properties of the HTTP API that hold of one request: which failures have which status,
  what a lookup depends on, what a loaded configuration leaves to panic, how long a page is,
  and that a batch answers like the single requests it stands for.
\<close>

section \<open>Which errors a handler has\<close>

text \<open>Whatever the world is, an error of \<open>m\<close> satisfies \<open>E\<close>.\<close>

definition fails_only :: "('e \<Rightarrow> bool) \<Rightarrow> ('e, 'a) io \<Rightarrow> bool" where
  "fails_only E m \<longleftrightarrow> (\<forall>w err. fst (m w) = Inl err \<longrightarrow> E err)"

lemma fails_onlyD: "fails_only E m \<Longrightarrow> m w = (Inl err, w') \<Longrightarrow> E err"
  unfolding fails_only_def by (metis fst_conv)

lemma fails_ret: "fails_only E (io_ret v)"
  by (simp add: fails_only_def io_ret_def)

lemma fails_fail: "E err \<Longrightarrow> fails_only E (io_fail err)"
  by (simp add: fails_only_def io_fail_def)

lemma fails_of: "(\<And>err. r = Inl err \<Longrightarrow> E err) \<Longrightarrow> fails_only E (io_of r)"
  by (simp add: fails_only_def io_of_def)

lemma fails_call: "(\<And>n err. f n = Inl err \<Longrightarrow> E err) \<Longrightarrow> fails_only E (io_call f)"
  by (simp add: fails_only_def io_call_def)

lemma fails_clock: "fails_only E (io_clock e)"
  by (simp add: fails_only_def io_clock_def)

lemma fails_attempt: "fails_only E (io_attempt m)"
  by (simp add: fails_only_def io_attempt_def split: prod.split)

lemma fails_bind: "fails_only E m \<Longrightarrow> (\<And>v. fails_only E (k v)) \<Longrightarrow> fails_only E (io_bind m k)"
  unfolding fails_only_def io_bind_def by (auto split: prod.split sum.split) (metis fst_conv)

lemma fails_map_err: "fails_only (\<lambda>err. E (g err)) m \<Longrightarrow> fails_only E (io_map_err g m)"
  unfolding fails_only_def io_map_err_def by (auto split: prod.split elim!: map_err.elims) (metis fst_conv)

lemma fails_for: "(\<And>x s. fails_only E (body x s)) \<Longrightarrow> fails_only E (io_for xs s body)"
  by (induction xs arbitrary: s) (auto intro!: fails_ret fails_bind)

lemma fails_query: "(\<And>n m. e_fault e n = Some m \<Longrightarrow> E (SESqlx m)) \<Longrightarrow> fails_only E (query e f)"
  by (auto simp: fails_only_def query_def sql_def split: option.splits)

lemma fails_if: "fails_only E a \<Longrightarrow> fails_only E b \<Longrightarrow> fails_only E (if c then a else b)"
  by simp

lemma fails_option: "fails_only E a \<Longrightarrow> (\<And>v. fails_only E (b v)) \<Longrightarrow> fails_only E (case r of None \<Rightarrow> a | Some v \<Rightarrow> b v)"
  by (cases r) auto

lemma fails_sum:
  "(\<And>v. fails_only E (a v)) \<Longrightarrow> (\<And>v. fails_only E (b v)) \<Longrightarrow> fails_only E (case r of Inl v \<Rightarrow> a v | Inr v \<Rightarrow> b v)"
  by (cases r) auto

lemmas fails_rules =
  fails_ret fails_clock fails_attempt fails_bind fails_for fails_if fails_option fails_sum

subsection \<open>The pieces of a handler\<close>

lemma fails_api_of_store: "fails_only (\<lambda>err. E (Refused (AStore err))) m \<Longrightarrow> fails_only E (api_of_store m)"
  unfolding api_of_store_def by (rule fails_map_err) simp

lemma fails_api_of_btc: "fails_only (\<lambda>err. E (Refused (ABtc err))) m \<Longrightarrow> fails_only E (api_of_btc m)"
  unfolding api_of_btc_def by (rule fails_map_err) simp

lemma fails_api_of_indexer: "fails_only (\<lambda>err. E (Refused (AIndexer err))) m \<Longrightarrow> fails_only E (api_of_indexer m)"
  unfolding api_of_indexer_def by (rule fails_map_err) simp

lemma fails_api_refuse: "E (Refused (ABadRequest m)) \<Longrightarrow> fails_only E (api_refuse m)"
  by (simp add: api_refuse_def fails_fail)

lemma fails_from_request: "(\<And>m. E (Refused (ABadRequest m))) \<Longrightarrow> fails_only E (from_request r)"
  by (cases r) (simp_all add: from_request_def api_refuse_def fails_ret fails_fail)

lemma fails_api_parse: "(\<And>m. E (Refused (ABadRequest m))) \<Longrightarrow> fails_only E (api_parse r)"
  by (cases r) (simp_all add: api_parse_def api_refuse_def fails_ret fails_fail)

lemma fails_or_not_found: "E (Refused ANotFound) \<Longrightarrow> fails_only E (or_not_found v)"
  by (cases v) (simp_all add: or_not_found_def fails_ret fails_fail)

lemma fails_or_panic: "(v = None \<Longrightarrow> E Panicked) \<Longrightarrow> fails_only E (or_panic v)"
  by (cases v) (simp_all add: or_panic_def fails_ret fails_fail)

lemma fails_check_address:
  "(\<And>m. E (Refused (ABadRequest m))) \<Longrightarrow> (btc_network (c_btc cfg) = None \<Longrightarrow> E Panicked) \<Longrightarrow> fails_only E (check_address s cfg address)"
  unfolding check_address_def by (intro fails_bind fails_or_panic fails_api_parse)

section \<open>Lookups\<close>

definition client_error :: "failure \<Rightarrow> bool" where
  "client_error err \<longleftrightarrow> (\<exists>m. err = Refused (ABadRequest m)) \<or> err = Refused ANotFound"

lemma client_error_simps [simp]:
  "client_error (Refused (ABadRequest m))" "client_error (Refused ANotFound)"
  by (simp_all add: client_error_def)

lemma fails_lookup:
  assumes "\<And>n. e_fault (sv_env s) n = None" "1 \<le> api_max_page_size (c_api cfg)" "btc_network (c_btc cfg) \<noteq> None"
    and "lookup_only req"
  shows "fails_only client_error (handle s cfg req)"
proof -
  have store: "fails_only client_error (api_of_store (query (sv_env s) f))" for f :: "int \<Rightarrow> db \<Rightarrow> 'x"
    using assms(1) by (intro fails_api_of_store fails_query) simp
  have page: "fails_only client_error (or_panic (page_size cfg requested))" for requested
    using assms(2) by (intro fails_or_panic) (simp add: page_size_def Let_def)
  have address: "fails_only client_error (check_address s cfg address)" for address
    using assms(3) by (intro fails_check_address) simp_all
  have req: "fails_only client_error (from_request r)" for r :: "string + 'x"
    by (intro fails_from_request) simp
  have parse: "fails_only client_error (api_parse r)" for r :: "'x res"
    by (intro fails_api_parse) simp
  have found: "fails_only client_error (or_not_found v)" for v :: "'x option"
    by (intro fails_or_not_found) simp
  note rules = fails_rules req parse found store page address
  show ?thesis
  proof (cases req)
    case (GetCellsByUtxo path q)
    show ?thesis
    proof (cases q)
      case (Inl m)
      show ?thesis
        unfolding GetCellsByUtxo Inl handle.simps cells_by_btc_utxo_def from_request_bind
        by (intro fails_bind req fails_api_refuse) simp
    next
      case (Inr q')
      from assms(4) GetCellsByUtxo Inr have "\<not> cq_refresh q'" by simp
      then show ?thesis
        unfolding GetCellsByUtxo Inr handle.simps cells_by_btc_utxo_def from_request_bind Let_def
        by simp (intro rules; simp)
    qed
  qed (use assms(4) in \<open>simp_all only: handle.simps lookup_only.simps handler_defs Let_def simp_thms\<close>, (intro rules; simp)+)
qed

lemma lookup_independent:
  assumes "lookup_only req" "sv_env s' = sv_env s" "sv_ext s' = sv_ext s" "bs_name (sv_btc s') = bs_name (sv_btc s)"
  shows "handle s' cfg req = handle s cfg req"
proof (cases req)
  case (GetCellsByUtxo path q)
  show ?thesis
  proof (cases q)
    case (Inl m)
    with GetCellsByUtxo assms show ?thesis by (simp add: cells_by_btc_utxo_def from_request_bind)
  next
    case (Inr q')
    with GetCellsByUtxo assms have "\<not> cq_refresh q'" by simp
    with GetCellsByUtxo Inr assms show ?thesis by (simp add: cells_by_btc_utxo_def from_request_bind Let_def)
  qed
qed (use assms(1) in \<open>simp_all only: lookup_only.simps simp_thms handle.simps\<close>,
    unfold handler_defs check_address_def assms(2-4), (rule refl)+)

text \<open>
  C19.
  A lookup needs the database only. Every request but those that observe Bitcoin is answered,
  with 200, 400 or 404, whenever the statements of the database succeed, whatever the data
  source and the CKB node do; it leaves the database as it is, and its answer does not depend
  on them.
\<close>

theorem lookups_need_only_database:
  assumes "\<And>n. e_fault (sv_env s) n = None" "1 \<le> api_max_page_size (c_api cfg)" "btc_network (c_btc cfg) \<noteq> None"
    and "lookup_only req"
  shows "(\<exists>code answer. respond s (fst (handle s cfg req w)) = Some (code, answer) \<and> code \<in> {200, 400, 404}) \<and>
    w_db (snd (handle s cfg req w)) = w_db w \<and>
    (bs_name src = bs_name (sv_btc s) \<longrightarrow> handle (s\<lparr> sv_btc := src, sv_ckb := ck \<rparr>) cfg req w = handle s cfg req w)"
proof (intro conjI impI)
  show "\<exists>code answer. respond s (fst (handle s cfg req w)) = Some (code, answer) \<and> code \<in> {200, 400, 404}"
  proof (cases "fst (handle s cfg req w)")
    case (Inl err)
    with fails_lookup [OF assms] have "client_error err" unfolding fails_only_def by blast
    with Inl show ?thesis by (auto simp: client_error_def respond_def error_into_response_def)
  qed (simp add: respond_def)
  have "obeys (keeps (\<lambda>d. d)) (handle s cfg req)" using assms(4) by (rule keeps.obeys_lookup)
  then show "w_db (snd (handle s cfg req w)) = w_db w" by (simp add: obeys_def keeps_def)
next
  assume "bs_name src = bs_name (sv_btc s)"
  then have "handle (s\<lparr> sv_btc := src, sv_ckb := ck \<rparr>) cfg req = handle s cfg req"
    by (intro lookup_independent assms(4)) simp_all
  then show "handle (s\<lparr> sv_btc := src, sv_ckb := ck \<rparr>) cfg req w = handle s cfg req w" by (rule fun_cong)
qed

definition silent_source :: btc_data_source where
  "silent_source = \<lparr> bs_name = ''esplora'', bs_tip = (\<lambda>n. Inl (BETransport [] True)),
     bs_block_hash_at = (\<lambda>n h. Inl (BETransport [] True)), bs_transaction = (\<lambda>n t. Inl (BETransport [] True)),
     bs_outpoint_status = (\<lambda>n p. Inl (BETransport [] True)), bs_tx_outspends = (\<lambda>n t. Inl (BETransport [] True)),
     bs_address_utxos = (\<lambda>n a. Inl (BETransport [] True)) \<rparr>"

definition silent_node :: ckb_node where
  "silent_node = \<lparr> cn_tip = (\<lambda>n. Inl (CETransport [])), cn_header = (\<lambda>n h. Inl (CETransport [])),
     cn_transaction = (\<lambda>n h. Inl (CETransport [])), cn_indexer_tip = (\<lambda>n. Inl (CETransport [])),
     cn_transactions = (\<lambda>n k a l c. Inl (CETransport [])), cn_cells = (\<lambda>n k a l. Inl (CETransport [])) \<rparr>"

definition isolated :: services where
  "isolated = \<lparr> sv_env = quiet_env, sv_ext = ref_ext, sv_ckb = silent_node, sv_btc = silent_source, sv_reason = (\<lambda>n. []) \<rparr>"

lemma lookups_need_only_database_witness:
  "\<exists>code answer. respond isolated (fst (handle isolated mainnet_config GetStatus (world_of empty_db))) = Some (code, answer) \<and>
     code \<in> {200, 400, 404}"
proof -
  have "e_fault (sv_env isolated) n = None" for n by (simp add: isolated_def)
  moreover have "1 \<le> api_max_page_size (c_api mainnet_config)" "btc_network (c_btc mainnet_config) \<noteq> None"
    by (simp_all add: mainnet_config_def sample_config_def api_default_def)
  ultimately show ?thesis
    using lookups_need_only_database [of isolated mainnet_config GetStatus "world_of empty_db" silent_source silent_node] by simp
qed

section \<open>Malformed requests\<close>

definition on_reading :: "string + 'a \<Rightarrow> ('a \<Rightarrow> string option) \<Rightarrow> string option" where
  "on_reading r k = (case r of Inl m \<Rightarrow> Some m | Inr v \<Rightarrow> k v)"

definition readable :: "ext \<Rightarrow> (ext \<Rightarrow> string \<Rightarrow> 'a res) \<Rightarrow> string \<Rightarrow> string + 'a" where
  "readable x parse m = map_err types_display (parse x m)"

definition address_complaint :: "services \<Rightarrow> config \<Rightarrow> string \<Rightarrow> string option" where
  "address_complaint s cfg address =
     (case btc_network (c_btc cfg) of None \<Rightarrow> None
      | Some network \<Rightarrow> on_reading (map_err types_display (validate_address (sv_ext s) address network)) (\<lambda>_. None))"

text \<open>What is wrong with a request, as far as the request itself tells.\<close>

fun complaint :: "services \<Rightarrow> config \<Rightarrow> api_request \<Rightarrow> string option" where
  "complaint s cfg GetHealth = None"
| "complaint s cfg GetStatus = None"
| "complaint s cfg (GetCellsByUtxo path q) =
     on_reading path (\<lambda>tv. on_reading q (\<lambda>q. on_reading (readable (sv_ext s) txid_from_hex (fst tv)) (\<lambda>_. None)))"
| "complaint s cfg (GetCellsByTxid path) = on_reading path (\<lambda>t. on_reading (readable (sv_ext s) txid_from_hex t) (\<lambda>_. None))"
| "complaint s cfg (GetCellByOutPoint path) =
     on_reading path (\<lambda>hi. on_reading (readable (sv_ext s) parse_ckb_hash (fst hi)) (\<lambda>_. None))"
| "complaint s cfg (GetAddressAssets path q) = on_reading path (\<lambda>a. on_reading q (\<lambda>q. address_complaint s cfg a))"
| "complaint s cfg (GetBalance path q) = on_reading path (\<lambda>a. on_reading q (\<lambda>q. address_complaint s cfg a))"
| "complaint s cfg (GetTransactionStatus path) = on_reading path (\<lambda>t. on_reading (readable (sv_ext s) txid_from_hex t) (\<lambda>_. None))"
| "complaint s cfg (GetActivity path q) = on_reading path (\<lambda>a. on_reading q (\<lambda>q. address_complaint s cfg a))"
| "complaint s cfg (GetAssets q) = on_reading q (\<lambda>q. on_reading (kinds_of (sq_kind q)) (\<lambda>_. None))"
| "complaint s cfg (PostAssetsBatch json) =
     on_reading json (\<lambda>keys. on_reading (parse_batch cfg ''type_hashes'' types_display keys (parse_ckb_hash (sv_ext s))) (\<lambda>_. None))"
| "complaint s cfg (PostCellsBatch json) =
     on_reading json (\<lambda>req. on_reading (parse_batch cfg ''btc_outpoints'' (\<lambda>m. m) (cb_outpoints req)
       (\<lambda>key. case parse_outpoint (sv_ext s) key of Inl m \<Rightarrow> Inl m | Inr p \<Rightarrow> Inr (row_key p))) (\<lambda>_. None))"
| "complaint s cfg (PostTransitionsBatch json) =
     on_reading json (\<lambda>keys. on_reading (parse_batch cfg ''ckb_tx_hashes'' types_display keys (parse_ckb_hash (sv_ext s))) (\<lambda>_. None))"
| "complaint s cfg (GetTransitions q) = on_reading q (\<lambda>_. None)"
| "complaint s cfg (GetTransition path) = on_reading path (\<lambda>t. on_reading (readable (sv_ext s) parse_ckb_hash t) (\<lambda>_. None))"
| "complaint s cfg (PostRefresh json) =
     on_reading json (\<lambda>req. on_reading (collect (parse_outpoint (sv_ext s)) (rr_outpoints req)) (\<lambda>_. None))"
| "complaint s cfg (GetAnomalies q) = on_reading q (\<lambda>_. None)"

text \<open>\<open>m\<close> refuses exactly with \<open>c\<close>, and then before it does anything.\<close>

definition refuses :: "'a api_io \<Rightarrow> string option \<Rightarrow> bool" where
  "refuses m c \<longleftrightarrow> (\<forall>w t w'. m w = (Inl (Refused (ABadRequest t)), w') \<longleftrightarrow> c = Some t \<and> w' = w)"

definition not_refused :: "failure \<Rightarrow> bool" where "not_refused err \<longleftrightarrow> (\<forall>m. err \<noteq> Refused (ABadRequest m))"

lemma refuses_never: "fails_only not_refused m \<Longrightarrow> refuses m None"
  unfolding refuses_def by (auto simp: not_refused_def dest: fails_onlyD)

lemma refuses_from_request:
  "(\<And>v. refuses (k v) (c v)) \<Longrightarrow> refuses (io_bind (from_request r) k) (on_reading r c)"
  by (cases r) (auto simp: from_request_bind refuses_def on_reading_def api_refuse_def)

lemma api_parse_alt: "api_parse r = from_request (map_err types_display r)"
  by (cases r) (simp_all add: api_parse_def from_request_def)

lemma refuses_parse:
  "(\<And>v. refuses (k v) (c v)) \<Longrightarrow> refuses (io_bind (api_parse r) k) (on_reading (map_err types_display r) c)"
  unfolding api_parse_alt by (rule refuses_from_request)

lemma io_bind_assoc: "io_bind (io_bind m f) k = io_bind m (\<lambda>v. io_bind (f v) k)"
  by (rule ext) (simp add: io_bind_def split: prod.split sum.split)

lemma refuses_address:
  assumes "\<And>u. fails_only not_refused (k u)"
  shows "refuses (io_bind (check_address s cfg address) k) (address_complaint s cfg address)"
proof (cases "btc_network (c_btc cfg)")
  case None
  then show ?thesis
    by (simp add: refuses_def check_address_def or_panic_def address_complaint_def io_bind_def io_fail_def)
next
  case (Some network)
  have "io_bind (check_address s cfg address) k = io_bind (api_parse (validate_address (sv_ext s) address network)) k"
    by (rule ext) (simp add: check_address_def Some or_panic_def io_bind_def io_ret_def)
  then show ?thesis
    unfolding address_complaint_def Some option.case by (simp only:) (intro refuses_parse refuses_never assms)
qed

lemma tails_not_refused:
  "fails_only not_refused (api_of_store m1)" "fails_only not_refused (api_of_btc m2)" "fails_only not_refused (api_of_indexer m3)"
  "fails_only not_refused (or_panic v)" "fails_only not_refused (or_not_found v)"
  by (auto intro!: fails_api_of_store fails_api_of_btc fails_api_of_indexer fails_or_panic fails_or_not_found
      simp: not_refused_def) (simp_all add: fails_only_def)

lemma refuses_handle: "refuses (handle s cfg req) (complaint s cfg req)"
proof -
  note tails = fails_rules tails_not_refused
  show ?thesis
  proof (cases req)
    case (GetAddressAssets path q)
    then show ?thesis
      unfolding handle.simps complaint.simps assets_by_btc_address_def address_outpoints_def io_bind_assoc GetAddressAssets
      by (intro refuses_from_request refuses_address tails)
  next
    case (GetBalance path q)
    then show ?thesis
      unfolding handle.simps complaint.simps balance_by_btc_address_def address_outpoints_def io_bind_assoc GetBalance
      by (intro refuses_from_request refuses_address tails)
  qed (simp_all only: handle.simps complaint.simps handler_defs readable_def Let_def,
      (intro refuses_from_request refuses_parse refuses_address refuses_never tails)+)
qed

text \<open>
  C16.
  A malformed request is refused before anything happens. The answer is a 400 exactly when
  the request itself is at fault: an extractor rejects it, a key or an address of it cannot
  be read, a batch is too long, a kind is unknown. Then it carries the complaint, and no
  statement and no request to the data source or the node was sent.
\<close>

theorem malformed_requests_refused_untouched:
  "handle s cfg req w = (Inl (Refused (ABadRequest m)), w') \<longleftrightarrow> complaint s cfg req = Some m \<and> w' = w"
  using refuses_handle [of s cfg req] by (simp add: refuses_def)

section \<open>Whose fault an error is\<close>

text \<open>The requests upstream whose failure a handler passes on; a failed observation is none of them.\<close>

definition upstream_failed :: "services \<Rightarrow> bool" where
  "upstream_failed s \<longleftrightarrow>
     (\<exists>n t err. bs_transaction (sv_btc s) n t = Inl err) \<or> (\<exists>n a err. bs_address_utxos (sv_btc s) n a = Inl err) \<or>
     (\<exists>n k l err. cn_cells (sv_ckb s) n k Asc l = Inl err)"

text \<open>
  Why a statement of a handler fails: the database refused it, it named one row twice, or it
  read back a transaction id that does not have 32 bytes.
\<close>

abbreviation repeated_row :: string where
  "repeated_row \<equiv> ''ON CONFLICT DO UPDATE command cannot affect row a second time''"

definition unreadable_txid :: "terr \<Rightarrow> bool" where
  "unreadable_txid err \<longleftrightarrow> (\<exists>n. n \<noteq> 32 \<and> err = ELength ''BtcTxid'' 32 n)"

fun statement_cause :: "services \<Rightarrow> store_error \<Rightarrow> bool" where
  "statement_cause s (SESqlx m) \<longleftrightarrow> (\<exists>n. e_fault (sv_env s) n = Some m) \<or> m = repeated_row"
| "statement_cause s (SETypes err) \<longleftrightarrow> unreadable_txid err"
| "statement_cause s err \<longleftrightarrow> False"

fun blames :: "services \<Rightarrow> indexer_error \<Rightarrow> bool" where
  "blames s (IEBtc err) \<longleftrightarrow> upstream_failed s"
| "blames s (IECkb err) \<longleftrightarrow> upstream_failed s"
| "blames s (IEStore err) \<longleftrightarrow> statement_cause s err"
| "blames s (IETypes err) \<longleftrightarrow> unreadable_txid err"
| "blames s err \<longleftrightarrow> False"

lemma blames_store: "fails_only (statement_cause s) m \<Longrightarrow> fails_only (blames s) (of_store m)"
  unfolding of_store_def by (rule fails_map_err) simp

lemma cause_sql: "fails_only (statement_cause s) (sql (sv_env s) f)"
  by (auto simp: fails_only_def sql_def split: option.splits prod.splits)

lemma cause_statement: "fails_only (statement_cause s) (query (sv_env s) f)" "fails_only (statement_cause s) (execute (sv_env s) g)"
  unfolding query_def execute_def by (rule cause_sql)+

lemma cause_sql_res: "(\<And>now d m. f now d = Inl m \<Longrightarrow> m = repeated_row) \<Longrightarrow> fails_only (statement_cause s) (sql_res (sv_env s) f)"
  by (auto simp: fails_only_def sql_res_def split: option.splits prod.splits sum.splits)

lemma cause_many:
  "fails_only (statement_cause s) (enqueue_refresh_many (sv_env s) ops reason priority)"
  "fails_only (statement_cause s) (record_outpoint_addresses (sv_env s) ops address)"
  "fails_only (statement_cause s) (record_binding_addresses (sv_env s) txid outputs)"
  unfolding enqueue_refresh_many_def record_outpoint_addresses_def record_binding_addresses_def
  by (auto intro!: fails_ret cause_sql_res simp: enqueue_rows_def label_outpoints_def Let_def split: if_splits)

lemma from_display_Inl: "from_display_slice bs = Inl err \<longleftrightarrow> length bs \<noteq> 32 \<and> err = ELength ''BtcTxid'' 32 (length bs)"
  by (auto simp: from_display_slice_def)

lemma blames_transaction: "fails_only (blames s) (of_btc (io_call (\<lambda>n. bs_transaction (sv_btc s) n t)))"
  unfolding of_btc_def by (intro fails_map_err fails_call) (auto simp: upstream_failed_def)

lemma blames_utxos: "fails_only (blames s) (of_btc (io_call (\<lambda>n. bs_address_utxos (sv_btc s) n a)))"
  unfolding of_btc_def by (intro fails_map_err fails_call) (auto simp: upstream_failed_def)

lemma blames_cells: "fails_only (blames s) (of_ckb (get_cells (sv_ckb s) key limit))"
  unfolding of_ckb_def get_cells_def by (intro fails_map_err fails_bind fails_call fails_ret) (auto simp: upstream_failed_def)

lemma fails_observe_many: "fails_only E (observe_many src ops :: 'e observing)"
  unfolding fails_only_def using observe_many_run [of src ops] by (metis Inl_Inr_False fst_conv)

lemmas blames_rules = fails_rules blames_store cause_sql cause_statement cause_many blames_transaction blames_utxos blames_cells fails_observe_many

lemma blames_refresh_btc_tx: "fails_only (blames s) (refresh_btc_tx (sv_env s) x (sv_btc s) txid)"
  unfolding refresh_btc_tx_def cache_btc_tx_def Let_def by (intro blames_rules)

lemma blames_refresh_outpoints: "fails_only (blames s) (refresh_outpoints (sv_env s) x (sv_btc s) cfg ops)"
  unfolding refresh_outpoints_def refresh_one_def follow_up_spend_def record_observation_def Let_def
  by (intro blames_rules blames_refresh_btc_tx)

lemma blames_disappeared: "fails_only (blames s) (io_of (find_disappeared live_now believed))"
  by (rule fails_of) (auto simp: find_disappeared_def from_display_Inl unreadable_txid_def split: sum.splits dest!: collect_Inl)

lemma blames_contradicted: "fails_only (blames s) (io_of (find_contradicted rows))"
  by (rule fails_of)
    (auto simp: find_contradicted_def contradiction_def observation_spend_status_def observation_out_point_def opt_txid_def
      from_display_Inl unreadable_txid_def split: sum.splits option.splits if_splits dest!: collect_Inl)

lemma blames_reconcile_address: "fails_only (blames s) (reconcile_address (sv_env s) x (sv_btc s) cfg address)"
  unfolding reconcile_address_def Let_def
  by (intro blames_rules blames_disappeared blames_contradicted blames_refresh_outpoints)

lemma blames_resolve_transition: "fails_only (blames s) (resolve_transition (sv_env s) x (sv_ckb s) (sv_btc s) cfg txid)"
  unfolding resolve_transition_def point_lookup_cells_def Let_def list.case_eq_if
  by (intro blames_rules blames_refresh_btc_tx blames_refresh_outpoints)

definition accounted :: "services \<Rightarrow> config \<Rightarrow> api_request \<Rightarrow> failure \<Rightarrow> bool" where
  "accounted s cfg req err \<longleftrightarrow>
     (case err of
        Panicked \<Rightarrow> api_max_page_size (c_api cfg) < 1 \<or> btc_network (c_btc cfg) = None
      | Refused a \<Rightarrow>
        (case a of
           ABadRequest m \<Rightarrow> True
         | ANotFound \<Rightarrow> (\<exists>p. req = GetCellByOutPoint p) \<or> (\<exists>p. req = GetTransition p)
         | AStore e0 \<Rightarrow> statement_cause s e0 \<and> (lookup_only req \<longrightarrow> (\<exists>n m. e0 = SESqlx m \<and> e_fault (sv_env s) n = Some m))
         | AIndexer e0 \<Rightarrow> blames s e0 \<and> \<not> lookup_only req
         | ABtc e0 \<Rightarrow> upstream_failed s \<and> \<not> lookup_only req
         | _ \<Rightarrow> False))"

lemma accounted_pieces:
  "fails_only (accounted s cfg req) (api_of_store (query (sv_env s) f))"
  "fails_only (accounted s cfg req) (from_request r)"
  "fails_only (accounted s cfg req) (api_parse r')"
  "fails_only (accounted s cfg req) (or_panic (page_size cfg requested))"
  "fails_only (accounted s cfg req) (check_address s cfg address)"
  by (auto simp: accounted_def page_size_def Let_def
      intro!: fails_api_of_store fails_query fails_from_request fails_api_parse fails_or_panic fails_check_address)

lemma accounted_upstream:
  assumes "\<not> lookup_only req"
  shows "fails_only (blames s) m \<Longrightarrow> fails_only (accounted s cfg req) (api_of_indexer m)"
    "fails_only (accounted s cfg req) (api_of_btc (io_call (\<lambda>n. bs_address_utxos (sv_btc s) n a)))"
    "fails_only (accounted s cfg req) (api_of_store (enqueue_refresh_many (sv_env s) ops reason priority))"
proof -
  show "fails_only (blames s) m \<Longrightarrow> fails_only (accounted s cfg req) (api_of_indexer m)"
    using assms by (intro fails_api_of_indexer) (auto simp: fails_only_def accounted_def)
  show "fails_only (accounted s cfg req) (api_of_btc (io_call (\<lambda>n. bs_address_utxos (sv_btc s) n a)))"
    using assms by (intro fails_api_of_btc fails_call) (auto simp: accounted_def upstream_failed_def)
  show "fails_only (accounted s cfg req) (api_of_store (enqueue_refresh_many (sv_env s) ops reason priority))"
    using assms cause_many(1) [of s ops reason priority] by (intro fails_api_of_store) (auto simp: fails_only_def accounted_def)
qed

lemma accounted_lookup:
  assumes "lookup_only req"
  shows "fails_only (accounted s cfg req) (handle s cfg req)"
proof -
  note rules = fails_rules accounted_pieces
  have found: "fails_only (accounted s cfg req) (or_not_found v)" if "(\<exists>p. req = GetCellByOutPoint p) \<or> (\<exists>p. req = GetTransition p)"
    for v :: "'x option" using that by (intro fails_or_not_found) (auto simp: accounted_def)
  show ?thesis
  proof (cases req)
    case (GetCellsByUtxo path q)
    show ?thesis
    proof (cases q)
      case (Inl m)
      show ?thesis
        unfolding GetCellsByUtxo Inl handle.simps cells_by_btc_utxo_def from_request_bind
        by (intro rules fails_api_refuse) (simp add: accounted_def)
    next
      case (Inr q')
      with assms GetCellsByUtxo have "\<not> cq_refresh q'" by simp
      then show ?thesis
        unfolding Inr GetCellsByUtxo handle.simps cells_by_btc_utxo_def from_request_bind Let_def if_not_P
        by simp (intro rules)
    qed
  next
    case (GetCellByOutPoint path)
    show ?thesis
      unfolding GetCellByOutPoint handle.simps cell_by_ckb_out_point_def
      by (intro rules found [unfolded GetCellByOutPoint]) simp
  next
    case (GetTransition path)
    show ?thesis
      unfolding GetTransition handle.simps transition_by_ckb_tx_handler_def
      by (intro rules found [unfolded GetTransition]) simp
  qed (use assms in \<open>simp_all only: handle.simps lookup_only.simps handler_defs Let_def simp_thms\<close>, (intro rules)+)
qed

lemma accounted_handle: "fails_only (accounted s cfg req) (handle s cfg req)"
proof (cases "lookup_only req")
  case False
  note rules = fails_rules accounted_pieces accounted_upstream [OF False]
    blames_refresh_outpoints blames_reconcile_address blames_resolve_transition
  from False show ?thesis
  proof (cases req)
    case (GetCellsByUtxo path q)
    from rules show ?thesis
      unfolding GetCellsByUtxo handle.simps cells_by_btc_utxo_def Let_def by (intro rules [unfolded GetCellsByUtxo])
  next
    case (GetAddressAssets path q)
    show ?thesis
      unfolding GetAddressAssets handle.simps assets_by_btc_address_def address_outpoints_def
      by (intro rules [unfolded GetAddressAssets])
  next
    case (GetBalance path q)
    show ?thesis
      unfolding GetBalance handle.simps balance_by_btc_address_def address_outpoints_def
      by (intro rules [unfolded GetBalance])
  next
    case (GetTransactionStatus path)
    show ?thesis
      unfolding GetTransactionStatus handle.simps transaction_status_def by (intro rules [unfolded GetTransactionStatus])
  next
    case (PostRefresh json)
    show ?thesis
      unfolding PostRefresh handle.simps refresh_outpoints_handler_def by (intro rules [unfolded PostRefresh])
  qed (use False in simp_all)
qed (rule accounted_lookup)

text \<open>The row a request asks for by its key is not in its table.\<close>

fun asked_for_missing :: "services \<Rightarrow> db \<Rightarrow> api_request \<Rightarrow> bool" where
  "asked_for_missing s d (GetCellByOutPoint (Inr (h, i))) \<longleftrightarrow>
     (\<exists>k. parse_ckb_hash (sv_ext s) h = Inr k \<and> (k, as_i32 i) \<notin> cell_key ` set (d_cells d))"
| "asked_for_missing s d (GetTransition (Inr t)) \<longleftrightarrow>
     (\<exists>k. parse_ckb_hash (sv_ext s) t = Inr k \<and> k \<notin> tr_tx_hash ` set (d_transitions d))"
| "asked_for_missing s d req \<longleftrightarrow> False"

lemma cell_absent: "cell_by_out_point h i d = None \<longleftrightarrow> (h, i) \<notin> cell_key ` set (d_cells d)"
  by (auto simp: cell_by_out_point_def cell_status_view_def find_None_iff cell_status_row_def Let_def cell_key_def)

lemma transition_absent: "transition_by_ckb_tx h d = None \<longleftrightarrow> h \<notin> tr_tx_hash ` set (d_transitions d)"
  by (auto simp: transition_by_ckb_tx_def lookup_row_None transition_key_def)

lemma query_run: "query e f w = (case e_fault e (w_tick w) of Some m \<Rightarrow> (Inl (SESqlx m), tick w) | None \<Rightarrow> (Inr (f (e_now e (w_tick w)) (w_db w)), tick w))"
  by (simp add: query_def sql_def tick_def split: option.split)

lemma not_found_missing:
  assumes "handle s cfg req w = (Inl (Refused ANotFound), w')"
  shows "asked_for_missing s (w_db w) req"
proof -
  from fails_onlyD [OF accounted_handle assms] consider
    p where "req = GetCellByOutPoint p" | p where "req = GetTransition p" by (auto simp: accounted_def)
  then show ?thesis
  proof cases
    case 1
    with assms show ?thesis
      by (cases p) (auto simp: cell_by_ckb_out_point_def from_request_bind api_refuse_def io_bind_def io_fail_def api_parse_def
        api_of_store_def io_map_err_def query_run or_not_found_def io_ret_def cell_absent split: sum.splits option.splits)
  next
    case 2
    with assms show ?thesis
      by (cases p) (auto simp: transition_by_ckb_tx_handler_def from_request_bind api_refuse_def io_bind_def io_fail_def api_parse_def
        api_of_store_def io_map_err_def query_run or_not_found_def io_ret_def transition_absent split: sum.splits option.splits)
  qed
qed

lemma missing_not_found:
  assumes "asked_for_missing s (w_db w) req" "\<And>n. e_fault (sv_env s) n = None"
  shows "\<exists>w'. handle s cfg req w = (Inl (Refused ANotFound), w')"
proof (cases "(s, w_db w, req)" rule: asked_for_missing.cases)
  case (1 s' d h i)
  with assms show ?thesis
    by (auto simp: cell_by_ckb_out_point_def from_request_bind io_bind_def io_fail_def api_parse_def
        api_of_store_def io_map_err_def query_run or_not_found_def io_ret_def cell_absent [symmetric])
next
  case (2 s' d t)
  with assms show ?thesis
    by (auto simp: transition_by_ckb_tx_handler_def from_request_bind io_bind_def io_fail_def api_parse_def
        api_of_store_def io_map_err_def query_run or_not_found_def io_ret_def transition_absent [symmetric])
qed (use assms in simp_all)

text \<open>
  C17.
  Every failure is accounted for, and its status is its cause's. A handler panics only under
  a page bound below one or an unresolved network. Otherwise it answers one of four statuses.
  400 exactly where the request has a complaint. 404 only where the cell or the transition
  asked for by its key is not in its table, and there always unless the database fails. 502
  only when a transaction, a list of outputs or a list of cells could not be fetched, and
  never for a lookup (a failed observation of an outpoint is queued, it fails no request).
  500 only when a statement failed: the database refused it, or, outside the lookups, it
  named a row twice or a transaction id read back is not 32 bytes long. So an upstream
  failure is never reported as an internal one, nor the other way round.
\<close>

theorem failures_accounted:
  assumes "handle s cfg req w = (Inl err, w')"
  shows "(err = Panicked \<longrightarrow> api_max_page_size (c_api cfg) < 1 \<or> btc_network (c_btc cfg) = None) \<and>
    (\<forall>a. err = Refused a \<longrightarrow> api_status a \<in> {400, 404, 500, 502} \<and>
      (api_status a = 400 \<longleftrightarrow> complaint s cfg req \<noteq> None) \<and>
      (api_status a = 404 \<longrightarrow> asked_for_missing s (w_db w) req) \<and>
      (asked_for_missing s (w_db w) req \<and> (\<forall>n. e_fault (sv_env s) n = None) \<longrightarrow> api_status a = 404) \<and>
      (api_status a = 502 \<longrightarrow> upstream_failed s \<and> \<not> lookup_only req) \<and>
      (api_status a = 500 \<longrightarrow>
         (\<exists>m n. a \<in> {AStore (SESqlx m), AIndexer (IEStore (SESqlx m))} \<and> e_fault (sv_env s) n = Some m) \<or>
         \<not> lookup_only req \<and> (a \<in> {AStore (SESqlx repeated_row), AIndexer (IEStore (SESqlx repeated_row))} \<or>
           (\<exists>t. a \<in> {AStore (SETypes t), AIndexer (IEStore (SETypes t)), AIndexer (IETypes t)} \<and> unreadable_txid t))))"
proof (intro conjI allI impI)
  note acc = fails_onlyD [OF accounted_handle assms]
  show "api_max_page_size (c_api cfg) < 1 \<or> btc_network (c_btc cfg) = None" if "err = Panicked"
    using acc that by (simp add: accounted_def)
  fix a assume a: "err = Refused a"
  have status: "api_status a \<in> {400, 404, 500, 502}" by (cases a rule: api_status.cases) simp_all
  then show "api_status a \<in> {400, 404, 500, 502}" .
  have bad: "api_status a = 400 \<longleftrightarrow> (\<exists>m. a = ABadRequest m)"
    using acc a by (cases a rule: api_status.cases) (simp_all add: accounted_def)
  show "api_status a = 400 \<longleftrightarrow> complaint s cfg req \<noteq> None"
    using refuses_handle [of s cfg req] assms unfolding bad a refuses_def by (metis Pair_inject failure.inject(1) not_None_eq sum.inject(1))
  have gone: "api_status a = 404 \<longleftrightarrow> a = ANotFound" by (cases a rule: api_status.cases) simp_all
  show "asked_for_missing s (w_db w) req" if "api_status a = 404"
    using not_found_missing assms that unfolding gone a by blast
  show "api_status a = 404" if "asked_for_missing s (w_db w) req \<and> (\<forall>n. e_fault (sv_env s) n = None)"
    using missing_not_found [of s w req cfg] assms that unfolding gone a by auto
  show "upstream_failed s" "\<not> lookup_only req" if "api_status a = 502"
    using acc a that by (cases a rule: api_status.cases; simp add: accounted_def)+
  show "(\<exists>m n. a \<in> {AStore (SESqlx m), AIndexer (IEStore (SESqlx m))} \<and> e_fault (sv_env s) n = Some m) \<or>
      \<not> lookup_only req \<and> (a \<in> {AStore (SESqlx repeated_row), AIndexer (IEStore (SESqlx repeated_row))} \<or>
        (\<exists>t. a \<in> {AStore (SETypes t), AIndexer (IEStore (SETypes t)), AIndexer (IETypes t)} \<and> unreadable_txid t))"
    if "api_status a = 500"
    using acc a that by (cases a rule: api_status.cases) (auto simp: accounted_def elim!: statement_cause.elims)
qed

definition status_request :: api_request where
  "status_request = GetTransactionStatus (Inr (txid_to_hex ref_ext (BtcTxid zero32)))"

lemma failures_accounted_witness: "upstream_failed isolated \<and> \<not> lookup_only status_request"
proof -
  have "txid_from_hex ref_ext (txid_to_hex ref_ext (BtcTxid zero32)) = Inr (BtcTxid zero32)"
    using ref_ext_ok by (rule txid_hex_roundtrip)
  then have "\<exists>w'. handle isolated mainnet_config status_request (world_of empty_db) = (Inl (Refused (AIndexer (IEBtc (BETransport [] True)))), w')"
    by (simp add: status_request_def transaction_status_def from_request_bind api_parse_def io_bind_def io_ret_def
        isolated_def api_of_indexer_def io_map_err_def resolve_transition_def of_store_def query_def sql_def
        transitions_by_btc_txid_def world_of_def empty_db_def refresh_btc_tx_def of_btc_def io_call_def silent_source_def)
  then obtain w' where "handle isolated mainnet_config status_request (world_of empty_db) = (Inl (Refused (AIndexer (IEBtc (BETransport [] True)))), w')" ..
  from failures_accounted [OF this] show ?thesis by simp
qed

section \<open>What a loaded configuration leaves to panic\<close>

text \<open>The requests that compute a page size, which is where a clamp can panic.\<close>

fun sized :: "api_request \<Rightarrow> bool" where
  "sized (GetAssets q) \<longleftrightarrow> True"
| "sized (GetTransitions q) \<longleftrightarrow> True"
| "sized (GetAnomalies q) \<longleftrightarrow> True"
| "sized (GetActivity path q) \<longleftrightarrow> True"
| "sized req \<longleftrightarrow> False"

lemma no_panic:
  assumes "btc_network (c_btc cfg) \<noteq> None" "1 \<le> api_max_page_size (c_api cfg) \<or> \<not> sized req"
  shows "fails_only (\<lambda>err. err \<noteq> Panicked) (handle s cfg req)"
proof -
  let ?E = "\<lambda>err. err \<noteq> Panicked"
  have store: "fails_only ?E (api_of_store m)" for m :: "(store_error, 'x) io"
    by (intro fails_api_of_store) (simp add: fails_only_def)
  have btc: "fails_only ?E (api_of_btc m)" for m :: "(btc_error, 'x) io"
    by (intro fails_api_of_btc) (simp add: fails_only_def)
  have indexer: "fails_only ?E (api_of_indexer m)" for m :: "(indexer_error, 'x) io"
    by (intro fails_api_of_indexer) (simp add: fails_only_def)
  have page: "fails_only ?E (or_panic (page_size cfg requested))" if "sized req" for requested
    using assms(2) that by (intro fails_or_panic) (simp add: page_size_def Let_def)
  have address: "fails_only ?E (check_address s cfg address)" for address
    using assms(1) by (intro fails_check_address) simp_all
  have reading: "fails_only ?E (from_request r)" for r :: "string + 'x" by (intro fails_from_request) simp
  have parse: "fails_only ?E (api_parse r)" for r :: "'x res" by (intro fails_api_parse) simp
  have found: "fails_only ?E (or_not_found v)" for v :: "'x option" by (intro fails_or_not_found) simp
  note rules = fails_rules reading parse found store btc indexer address
  show ?thesis
    by (cases req; simp only: handle.simps handler_defs Let_def; intro rules page; simp)
qed

lemma panics:
  assumes "btc_network (c_btc cfg) \<noteq> None" "api_max_page_size (c_api cfg) < 1" "sized req" "complaint s cfg req = None"
  shows "fst (handle s cfg req w) = Inl Panicked"
proof -
  have page: "page_size cfg requested = None" for requested using assms(2) by (simp add: page_size_def Let_def)
  show ?thesis
    using assms(1,3,4) page
    by (cases req) (auto simp: handler_defs on_reading_def from_request_def api_refuse_def io_bind_def io_fail_def io_ret_def
        or_panic_def address_complaint_def check_address_def api_parse_def split: sum.splits option.splits)
qed

text \<open>
  C35.
  A loaded configuration leaves exactly one way to panic. Loading resolves the Bitcoin
  network, so no address check can panic on it; but it does not bound the page size from
  below. So under a configuration that \<open>from_toml_str\<close> loads, whatever the database and the two
  chains do, a handler panics exactly when \<open>max_page_size\<close> is below one and the request is a
  listing without a complaint.
\<close>

theorem loaded_config_panics_exactly:
  assumes "from_toml_str toml env source = Inr cfg"
  shows "fst (handle s cfg req w) = Inl Panicked \<longleftrightarrow>
    api_max_page_size (c_api cfg) < 1 \<and> sized req \<and> complaint s cfg req = None"
proof -
  have net: "btc_network (c_btc cfg) \<noteq> None" using from_toml_str_ok [OF assms] by (simp add: config_ok_def)
  show ?thesis
  proof (cases "complaint s cfg req")
    case (Some m)
    then have "handle s cfg req w = (Inl (Refused (ABadRequest m)), w)"
      using refuses_handle [of s cfg req] by (simp add: refuses_def)
    with Some show ?thesis by simp
  next
    case None
    show ?thesis
    proof (cases "api_max_page_size (c_api cfg) < 1 \<and> sized req")
      case True
      with panics [OF net _ _ None] None show ?thesis by simp
    next
      case False
      then have "fails_only (\<lambda>err. err \<noteq> Panicked) (handle s cfg req)" by (intro no_panic net) auto
      with False show ?thesis unfolding fails_only_def by blast
    qed
  qed
qed

lemma loaded_config_panics_exactly_witness:
  "fst (handle isolated (mainnet_config\<lparr> c_api := api_default\<lparr> api_max_page_size := 0 \<rparr> \<rparr>) (GetTransitions (Inr None)) (world_of empty_db)) =
     Inl Panicked \<and>
   fst (handle isolated (mainnet_config\<lparr> c_api := api_default\<lparr> api_max_page_size := 0 \<rparr> \<rparr>) GetStatus (world_of empty_db)) \<noteq> Inl Panicked \<and>
   fst (handle isolated (mainnet_config\<lparr> c_api := api_default \<rparr>) (GetTransitions (Inr None)) (world_of empty_db)) \<noteq> Inl Panicked"
  using loaded_config_panics_exactly [OF any_api_loads, of isolated "api_default\<lparr> api_max_page_size := 0 \<rparr>" "GetTransitions (Inr None)" "world_of empty_db"]
    loaded_config_panics_exactly [OF any_api_loads, of isolated "api_default\<lparr> api_max_page_size := 0 \<rparr>" GetStatus "world_of empty_db"]
    loaded_config_panics_exactly [OF any_api_loads, of isolated api_default "GetTransitions (Inr None)" "world_of empty_db"]
  by (simp add: api_default_def on_reading_def)

section \<open>Pages\<close>

fun paged :: "api_request \<Rightarrow> bool" where
  "paged (GetAssets q) \<longleftrightarrow> True"
| "paged (GetTransitions q) \<longleftrightarrow> True"
| "paged (GetAnomalies q) \<longleftrightarrow> True"
| "paged (GetActivity path q) \<longleftrightarrow> True"
| "paged (PostAssetsBatch json) \<longleftrightarrow> True"
| "paged (PostCellsBatch json) \<longleftrightarrow> True"
| "paged (PostTransitionsBatch json) \<longleftrightarrow> True"
| "paged req \<longleftrightarrow> False"

fun body_entries :: "body \<Rightarrow> nat" where
  "body_entries (AssetsBody r) = length (asr_assets r)"
| "body_entries (TransitionsBody ts) = length ts"
| "body_entries (AnomaliesBody as) = length as"
| "body_entries (ActivityBody a) = length (aa_entries a)"
| "body_entries (AssetsBatchBody as) = length as"
| "body_entries (CellsBatchBody cs) = length cs"
| "body_entries (TransitionsBatchBody ts) = length ts"
| "body_entries b = 0"

definition within :: "config \<Rightarrow> nat \<Rightarrow> bool" where
  "within cfg n \<longleftrightarrow> int n \<le> api_max_page_size (c_api cfg)"

lemma page_size_bounds:
  "page_size cfg requested = Some limit \<Longrightarrow> 1 \<le> limit \<and> limit \<le> api_max_page_size (c_api cfg)"
  by (auto simp: page_size_def Let_def split: if_splits)

lemma within_limit:
  assumes "page_size cfg requested = Some limit" "n \<le> nat limit"
  shows "within cfg n"
  using page_size_bounds [OF assms(1)] assms(2) unfolding within_def by linarith

lemma within_rows: "page_size cfg requested = Some limit \<Longrightarrow> within cfg (length (limit_rows limit rows))"
  by (erule within_limit) (simp add: limit_rows_def)

lemma within_batch: "parse_batch cfg field render keys parse = Inr vs \<Longrightarrow> within cfg (length vs)"
  by (auto simp: parse_batch_def Let_def within_def dest!: collect_length split: if_splits)

lemma reads_or_panic: "reads d (or_panic v) (\<lambda>y. v = Some y)"
  by (cases v) (simp_all add: or_panic_def reads_ret reads_fail)

lemma reads_from_request: "reads d (from_request r) (\<lambda>v. r = Inr v)"
  by (cases r) (simp_all add: from_request_def api_refuse_def reads_ret reads_fail)

lemma reads_api_store: "(\<And>now. Q (f now d)) \<Longrightarrow> reads d (api_of_store (query e f)) Q"
  unfolding api_of_store_def by (intro reads_map_err reads_query)

lemma reads_any: "reads d (m :: 'a api_io) (\<lambda>v. True) \<longleftrightarrow> (\<forall>w. w_db w = d \<longrightarrow> w_db (snd (m w)) = d)"
  by (simp add: reads_def)

lemma reads_check_address: "reads d (check_address s cfg address) (\<lambda>v. True)"
  using keeps.obeys_check_address [of "\<lambda>d. d" s cfg address] unfolding reads_any by (simp add: obeys_def keeps_def)

lemma length_activity_entries: "length (activity_entries x rows m n) = length rows"
  by (induction rows arbitrary: m n) (simp_all split: prod.split)

lemma build_activity_length: "length (aa_entries (build_activity x address rows cells limit unresolved)) = length rows"
  by (simp add: build_activity_def length_activity_entries split: prod.split)

lemma reads_pages:
  assumes "paged req"
  shows "reads d (handle s cfg req) (\<lambda>b. within cfg (body_entries b))"
proof (cases req)
  case (GetAssets q)
  show ?thesis
    unfolding GetAssets handle.simps list_assets_handler_def
    by (rule reads_bind [OF reads_from_request], rule reads_bind [OF reads_from_request], rule reads_bind [OF reads_or_panic],
        rule reads_bind [OF reads_api_store [where Q = "\<lambda>rows. within cfg (length rows)"]])
      (auto intro!: reads_bind [OF reads_api_store [where Q = "\<lambda>n. True"]] reads_ret within_rows simp: list_assets_def)
next
  case (GetTransitions q)
  show ?thesis
    unfolding GetTransitions handle.simps recent_transitions_handler_def
    by (rule reads_bind [OF reads_from_request], rule reads_bind [OF reads_or_panic],
        rule reads_bind [OF reads_api_store [where Q = "\<lambda>rows. within cfg (length rows)"]])
      (auto intro!: reads_ret within_rows simp: recent_transitions_def)
next
  case (GetAnomalies q)
  show ?thesis
    unfolding GetAnomalies handle.simps anomalies_handler_def
    by (rule reads_bind [OF reads_from_request], rule reads_bind [OF reads_or_panic],
        rule reads_bind [OF reads_api_store [where Q = "\<lambda>rows. within cfg (length rows)"]])
      (auto intro!: reads_ret within_rows simp: list_anomalies_def)
next
  case (GetActivity path q)
  have cells: "reads d (if c then io_ret [] else api_of_store (query (sv_env s) f)) (\<lambda>v. True)" for c and f :: "int \<Rightarrow> db \<Rightarrow> 'x list"
    by (auto intro: reads_ret reads_api_store)
  show ?thesis
    unfolding GetActivity handle.simps activity_by_btc_address_def Let_def
    by (rule reads_bind [OF reads_from_request], rule reads_bind [OF reads_from_request], rule reads_bind [OF reads_check_address],
        rule reads_bind [OF reads_or_panic],
        rule reads_bind [OF reads_api_store [where Q = "\<lambda>rows. within cfg (length rows)"]])
      (auto intro: within_rows simp: address_activity_def Let_def build_activity_length
        intro!: reads_bind [OF cells, simplified] reads_bind [OF reads_ret [where Q = "\<lambda>v. True"]]
          reads_bind [OF reads_api_store [where Q = "\<lambda>n. True"]] reads_ret)
next
  case (PostAssetsBatch json)
  show ?thesis
    unfolding PostAssetsBatch handle.simps assets_batch_def
    by (rule reads_bind [OF reads_from_request], rule reads_bind [OF reads_from_request],
        rule reads_bind [OF reads_api_store [where Q = "\<lambda>rows. True"]]) (auto intro!: reads_ret within_batch)
next
  case (PostCellsBatch json)
  show ?thesis
    unfolding PostCellsBatch handle.simps cells_batch_def
    by (rule reads_bind [OF reads_from_request], rule reads_bind [OF reads_from_request],
        rule reads_bind [OF reads_api_store [where Q = "\<lambda>rows. True"]]) (auto intro!: reads_ret within_batch)
next
  case (PostTransitionsBatch json)
  show ?thesis
    unfolding PostTransitionsBatch handle.simps transitions_batch_def
    by (rule reads_bind [OF reads_from_request], rule reads_bind [OF reads_from_request],
        rule reads_bind [OF reads_api_store [where Q = "\<lambda>rows. True"]]) (auto intro!: reads_ret within_batch)
qed (use assms in simp_all)

text \<open>
  C20.
  No answer is longer than the configured page. Whatever page size a caller asks for,
  negative and huge ones included, a listing has at most \<open>api.max_page_size\<close> entries, and a
  batch that would have more is refused.
\<close>

theorem pages_bounded:
  assumes "paged req" "handle s cfg req w = (Inr b, w')"
  shows "int (body_entries b) \<le> api_max_page_size (c_api cfg)"
  using readsD [OF reads_pages [OF assms(1)] assms(2) refl] by (simp add: within_def)

lemma pages_bounded_witness:
  "\<exists>b w'. handle isolated mainnet_config (GetTransitions (Inr (Some 5000))) (world_of empty_db) = (Inr b, w') \<and> int (body_entries b) \<le> 1000"
proof -
  have bound: "api_max_page_size (c_api mainnet_config) = 1000" by (simp add: mainnet_config_def sample_config_def api_default_def)
  then have "\<exists>w'. handle isolated mainnet_config (GetTransitions (Inr (Some 5000))) (world_of empty_db) = (Inr (TransitionsBody []), w')"
    by (simp add: recent_transitions_handler_def from_request_bind page_size_def or_panic_def io_bind_def io_ret_def isolated_def
        api_of_store_def io_map_err_def query_def sql_def recent_transitions_def limit_rows_def world_of_def empty_db_def)
  then obtain w' where run: "handle isolated mainnet_config (GetTransitions (Inr (Some 5000))) (world_of empty_db) = (Inr (TransitionsBody []), w')" ..
  from pages_bounded [OF _ this] bound run show ?thesis by auto
qed

section \<open>Batches\<close>

lemma binding_filter:
  assumes "k \<in> set keys"
  shows "filter (\<lambda>r. cell_binding r = k) (cells_by_btc_outpoints keys inc d) = cells_by_btc_outpoints [k] inc d"
  unfolding cells_by_btc_outpoints_def filter_sort filter_filter
  by (rule arg_cong [where f = "sort_key cell_order"], rule filter_cong [OF refl])
    (use assms in \<open>auto simp: cell_binding_def split: option.splits\<close>)

lemma cells_by_outpoint_lookup:
  assumes "k \<in> set keys"
  shows "unwrap_or [] (map_of (cells_by_outpoint (cells_by_btc_outpoints keys inc d)) k) = cells_by_btc_outpoints [k] inc d"
proof -
  have snoc: "fold (\<lambda>row own. own @ [row]) rows own = own @ rows" for rows own :: "cell_row list"
    by (induction rows arbitrary: own) simp_all
  show ?thesis
    unfolding cells_by_outpoint_def fold_entry_modify snoc by (simp add: binding_filter [OF assms])
qed

lemma api_query_Inr:
  "api_of_store (query e f) w = (Inr v, w') \<longleftrightarrow>
   e_fault e (w_tick w) = None \<and> v = f (e_now e (w_tick w)) (w_db w) \<and> w' = tick w"
  by (auto simp: api_of_store_def io_map_err_def query_def sql_def tick_def split: option.splits)

lemma parse_batch_keys:
  assumes "parse_batch cfg field render keys parse = Inr vs"
  shows "list_all2 (\<lambda>key v. parse key = Inr v) keys vs"
proof -
  from assms have "collect (parse_key field render parse) (enumerate 0 keys) = Inr vs"
    by (simp add: parse_batch_def Let_def split: if_splits)
  then show ?thesis
    unfolding collect_Inr_iff by (auto simp: list_all2_conv_all_nth parse_key_def nth_enumerate_eq)
qed

lemma parse_outpoint_Inr:
  "parse_outpoint x key = Inr p \<longleftrightarrow>
   (\<exists>t v. split_once (CHR '':'') key = Some (t, v) \<and> txid_from_hex x t = Inr (bo_txid p) \<and> parse_u32 v = Some (bo_vout p))"
  by (auto simp: parse_outpoint_def split: option.splits sum.splits)

text \<open>
  C21.
  A batch of cells answers like the single requests it stands for. A batch that is answered
  has one list of cells per key, in the order of the keys, repeated keys included, and each
  is what the request for that outpoint alone answers from the same tables.
\<close>

theorem cells_batch_matches_single:
  assumes "handle s cfg (PostCellsBatch (Inr request)) w = (Inr (CellsBatchBody found), w1)"
  shows "list_all2 (\<lambda>key cells. \<exists>t v vout. split_once (CHR '':'') key = Some (t, v) \<and> parse_u32 v = Some vout \<and>
      (\<forall>w2 b w3. w_db w2 = w_db w \<longrightarrow>
         handle s cfg (GetCellsByUtxo (Inr (t, vout)) (Inr \<lparr> cq_refresh = False, cq_include_spent = cb_include_spent request \<rparr>)) w2
           = (Inr b, w3) \<longrightarrow> b = CellsBody cells))
    (cb_outpoints request) found"
proof -
  let ?parse = "\<lambda>key. case parse_outpoint (sv_ext s) key of Inl m \<Rightarrow> Inl m | Inr p \<Rightarrow> Inr (row_key p)"
  from assms obtain keys where keys: "parse_batch cfg ''btc_outpoints'' (\<lambda>m. m) (cb_outpoints request) ?parse = Inr keys"
    and found: "found = map (\<lambda>k. map (cell_dto_of (sv_ext s)) (cells_by_btc_outpoints [k] (cb_include_spent request) (w_db w))) keys"
    by (auto simp: cells_batch_def from_request_bind from_request_def api_refuse_def io_bind_Inr api_query_Inr cells_by_outpoint_lookup
        split: sum.splits)
  have single: "b = CellsBody (map (cell_dto_of (sv_ext s)) (cells_by_btc_outpoints [row_key p] (cb_include_spent request) (w_db w)))"
    if "txid_from_hex (sv_ext s) t = Inr (bo_txid p)" "w_db w2 = w_db w" and
      "handle s cfg (GetCellsByUtxo (Inr (t, bo_vout p)) (Inr \<lparr> cq_refresh = False, cq_include_spent = cb_include_spent request \<rparr>)) w2
        = (Inr b, w3)" for p t w2 b w3
    using that by (auto simp: cells_by_btc_utxo_def from_request_bind api_parse_alt io_bind_Inr api_query_Inr Let_def row_key_def)
  have "list_all2 (\<lambda>key k. ?parse key = Inr k) (cb_outpoints request) keys" using keys by (rule parse_batch_keys)
  then show ?thesis
    unfolding found list_all2_map2
  proof (rule list_all2_mono)
    fix key k assume "?parse key = Inr k"
    then obtain p where p: "parse_outpoint (sv_ext s) key = Inr p" "k = row_key p" by (auto split: sum.splits)
    then obtain t v where t: "split_once (CHR '':'') key = Some (t, v)" "txid_from_hex (sv_ext s) t = Inr (bo_txid p)"
      "parse_u32 v = Some (bo_vout p)" by (auto simp: parse_outpoint_Inr)
    from t p single [OF t(2)]
    show "\<exists>t v vout. split_once (CHR '':'') key = Some (t, v) \<and> parse_u32 v = Some vout \<and>
      (\<forall>w2 b w3. w_db w2 = w_db w \<longrightarrow>
         handle s cfg (GetCellsByUtxo (Inr (t, vout)) (Inr \<lparr> cq_refresh = False, cq_include_spent = cb_include_spent request \<rparr>)) w2
           = (Inr b, w3) \<longrightarrow> b = CellsBody (map (cell_dto_of (sv_ext s)) (cells_by_btc_outpoints [k] (cb_include_spent request) (w_db w))))"
      by blast
  qed
qed

text \<open>What is printed for an outpoint is read back as a key.\<close>

lemma parse_outpoint_print:
  assumes "ext_ok x"
  shows "parse_outpoint x (out_point_to_string x p) = Inr p"
proof -
  have "CHR '':'' \<notin> set (txid_to_hex x (bo_txid p))"
    unfolding txid_to_hex_def using assms by (rule hex_encode_no_char) (simp add: hex_char_def less_eq_char_def)
  then have "split_once (CHR '':'') (out_point_to_string x p) = Some (txid_to_hex x (bo_txid p), show_nat (unat (bo_vout p)))"
    unfolding out_point_to_string_def by (simp add: split_once_append)
  then show ?thesis by (simp add: parse_outpoint_def txid_hex_roundtrip [OF assms])
qed

definition sample_batch :: cells_batch_request where
  "sample_batch = \<lparr> cb_outpoints = [out_point_to_string ref_ext sample_point], cb_include_spent = True \<rparr>"

lemma cells_batch_matches_single_witness:
  "\<exists>t v vout. split_once (CHR '':'') (out_point_to_string ref_ext sample_point) = Some (t, v) \<and> parse_u32 v = Some vout"
proof -
  have "parse_batch mainnet_config ''btc_outpoints'' (\<lambda>m. m) (cb_outpoints sample_batch)
      (\<lambda>key. case parse_outpoint (sv_ext isolated) key of Inl m \<Rightarrow> Inl m | Inr p \<Rightarrow> Inr (row_key p)) = Inr [row_key sample_point]"
    using parse_outpoint_print [OF ref_ext_ok, of sample_point]
    by (simp add: parse_batch_def parse_key_def sample_batch_def isolated_def mainnet_config_def sample_config_def api_default_def)
  then have "\<exists>w'. handle isolated mainnet_config (PostCellsBatch (Inr sample_batch)) (world_of empty_db) = (Inr (CellsBatchBody [[]]), w')"
    by (simp add: cells_batch_def from_request_bind io_bind_def io_ret_def isolated_def cells_by_outpoint_def
        api_of_store_def io_map_err_def query_def sql_def cells_by_btc_outpoints_def cell_status_view_def world_of_def empty_db_def)
  then obtain w' where "handle isolated mainnet_config (PostCellsBatch (Inr sample_batch)) (world_of empty_db) = (Inr (CellsBatchBody [[]]), w')" ..
  from cells_batch_matches_single [OF this] show ?thesis by (auto simp: sample_batch_def)
qed

lemma rows_by_key_lookup:
  assumes "distinct (map key rows)" "k \<in> ks"
  shows "rows_by_key key (filter (\<lambda>r. key r \<in> ks) rows) k = lookup_row key k rows"
proof -
  have "distinct (map fst (map (\<lambda>r. (key r, r)) (filter (\<lambda>r. key r \<in> ks) rows)))"
    using assms(1) by (simp add: comp_def distinct_map_filter)
  then have "map_of (rev (map (\<lambda>r. (key r, r)) (filter (\<lambda>r. key r \<in> ks) rows))) = map_of (map (\<lambda>r. (key r, r)) (filter (\<lambda>r. key r \<in> ks) rows))"
    by (subst map_of_inject_set) (simp_all add: rev_map [symmetric])
  then have "rows_by_key key (filter (\<lambda>r. key r \<in> ks) rows) k = map_of (map (\<lambda>r. (key r, r)) (filter (\<lambda>r. key r \<in> ks) rows)) k"
    by (simp add: rows_by_key_def)
  also have "\<dots> = lookup_row key k rows"
    using assms(2) by (induction rows) (auto simp: lookup_row_def)
  finally show ?thesis .
qed

text \<open>
  A batch of transitions answers like the single requests it stands for. Over a table with
  one row per transaction, which every reachable table is, each answer is what the request
  for that transaction alone gives: its transition, or null where that would be a 404.
\<close>

theorem transitions_batch_matches_single:
  assumes "distinct (map transition_key (d_transitions (w_db w)))"
    and "handle s cfg (PostTransitionsBatch (Inr keys)) w = (Inr (TransitionsBatchBody found), w1)"
  shows "list_all2 (\<lambda>key t. \<forall>w2 r w3. w_db w2 = w_db w \<longrightarrow>
      handle s cfg (GetTransition (Inr key)) w2 = (r, w3) \<longrightarrow> (\<nexists>err. r = Inl (Refused (AStore err))) \<longrightarrow>
      r = (case t of Some t \<Rightarrow> Inr (TransitionBody t) | None \<Rightarrow> Inl (Refused ANotFound))) keys found"
proof -
  let ?rows = "d_transitions (w_db w)"
  from assms(2) obtain hs where hs: "parse_batch cfg ''ckb_tx_hashes'' types_display keys (parse_ckb_hash (sv_ext s)) = Inr hs"
    and found: "found = map (\<lambda>h. map_option (transition_dto_of (sv_ext s)) (rows_by_key tr_tx_hash (transitions_by_ckb_txs hs (w_db w)) h)) hs"
    by (auto simp: transitions_batch_def from_request_bind from_request_def api_refuse_def io_bind_Inr api_query_Inr split: sum.splits)
  have key: "transition_key = tr_tx_hash" by (rule ext) (simp add: transition_key_def)
  have "found = map (\<lambda>h. map_option (transition_dto_of (sv_ext s)) (transition_by_ckb_tx h (w_db w))) hs"
    unfolding found transitions_by_ckb_txs_def transition_by_ckb_tx_def key
    using rows_by_key_lookup [OF assms(1) [unfolded key]] by simp
  moreover have "list_all2 (\<lambda>key h. parse_ckb_hash (sv_ext s) key = Inr h) keys hs" using hs by (rule parse_batch_keys)
  moreover have "r = (case map_option (transition_dto_of (sv_ext s)) (transition_by_ckb_tx h (w_db w)) of
      Some t \<Rightarrow> Inr (TransitionBody t) | None \<Rightarrow> Inl (Refused ANotFound))"
    if "parse_ckb_hash (sv_ext s) k = Inr h" "w_db w2 = w_db w" "handle s cfg (GetTransition (Inr k)) w2 = (r, w3)"
      "\<nexists>err. r = Inl (Refused (AStore err))" for k h w2 r w3
    using that by (auto simp: transition_by_ckb_tx_handler_def from_request_bind api_parse_alt or_not_found_def io_bind_def
        api_of_store_def io_map_err_def query_def sql_def io_ret_def io_fail_def split: option.splits)
  ultimately show ?thesis by (auto simp: list_all2_map2 elim!: list_all2_mono)
qed

definition sample_hash_text :: string where
  "sample_hash_text = h256_to_hex ref_ext (H256 zero32)"

lemma transitions_batch_matches_single_witness:
  "\<forall>w2 r w3. w_db w2 = empty_db \<longrightarrow> handle isolated mainnet_config (GetTransition (Inr sample_hash_text)) w2 = (r, w3) \<longrightarrow>
     (\<nexists>err. r = Inl (Refused (AStore err))) \<longrightarrow> r = Inl (Refused ANotFound)"
proof -
  have "parse_batch mainnet_config ''ckb_tx_hashes'' types_display [sample_hash_text] (parse_ckb_hash (sv_ext isolated)) = Inr [h256_to_vec (H256 zero32)]"
    by (simp add: parse_batch_def parse_key_def parse_ckb_hash_def sample_hash_text_def isolated_def ref_ext_ok
        mainnet_config_def sample_config_def api_default_def)
  then have "\<exists>w'. handle isolated mainnet_config (PostTransitionsBatch (Inr [sample_hash_text])) (world_of empty_db) = (Inr (TransitionsBatchBody [None]), w')"
    by (simp add: transitions_batch_def from_request_bind io_bind_def io_ret_def isolated_def rows_by_key_def
        api_of_store_def io_map_err_def query_def sql_def transitions_by_ckb_txs_def world_of_def empty_db_def)
  then obtain w' where "handle isolated mainnet_config (PostTransitionsBatch (Inr [sample_hash_text])) (world_of empty_db) = (Inr (TransitionsBatchBody [None]), w')" ..
  from transitions_batch_matches_single [OF _ this] show ?thesis by (simp add: world_of_def empty_db_def)
qed

section \<open>A refresh that names an outpoint twice\<close>

text \<open>
  Queueing, unlike observing, refuses a repeated outpoint: the statement cannot update one
  row twice. The caller gets a 500 and nothing is queued.
\<close>

lemma repeated_outpoint_not_queued:
  assumes "collect (parse_outpoint (sv_ext s)) keys = Inr ops" "\<not> distinct ops"
  shows "\<exists>err w'. handle s cfg (PostRefresh (Inr \<lparr> rr_outpoints = keys, rr_synchronous = False \<rparr>)) w = (Inl (Refused (AStore err)), w') \<and>
    api_status (AStore err) = 500 \<and> w_db w' = w_db w"
proof -
  have "inj row_key"
  proof (rule injI)
    fix p q assume "row_key p = row_key q"
    then show "p = q" by (cases p; cases q) (auto simp: row_key_def)
  qed
  with assms(2) have "\<not> distinct (map row_key ops)" by (simp add: distinct_map inj_on_subset)
  moreover from assms(2) have "ops \<noteq> []" by auto
  ultimately show ?thesis
    using assms(1)
    by (auto simp: refresh_outpoints_handler_def from_request_bind io_bind_def api_of_store_def io_map_err_def
        enqueue_refresh_many_def enqueue_rows_def sql_res_def split: option.splits)
qed

end
