(* ===== verification/Btc_Esplora.thy ===== *)
theory Btc_Esplora
  imports Btc_Source Config
begin

text \<open>
  \<open>crates/btc/src/esplora.rs\<close>: the Esplora data source over a remote HTTP server. The server
  is a parameter: what it answers to a request for a URL, as a function of the number of
  requests that the same call has sent before. Deserialising an answer into the declared
  structures is a parameter too; the structures and everything done with them are modelled.
\<close>

section \<open>Requests\<close>

text \<open>
  An answer of the HTTP client: it failed, or a status with a body, whose transfer may fail.
  A failure carries whether it is a timeout, connection or request error.
\<close>

datatype http_answer = HttpFailed string bool | HttpStatus nat "(string \<times> bool) + string"

type_synonym web = "nat \<Rightarrow> string \<Rightarrow> http_answer"

type_synonym 'a web_io = "(btc_error, 'a) io"

definition web_call :: "'a web_io \<Rightarrow> btc_error + 'a" where
  "web_call m = fst (m \<lparr> w_db = empty_db, w_tick = 0 \<rparr>)"

definition trim_start_matches :: "char \<Rightarrow> string \<Rightarrow> string" where
  "trim_start_matches c s = dropWhile (\<lambda>d. d = c) s"

definition trim_end_matches :: "char \<Rightarrow> string \<Rightarrow> string" where
  "trim_end_matches c s = rev (dropWhile (\<lambda>d. d = c) (rev s))"

text \<open>The stored base URL has its trailing slashes trimmed.\<close>

definition source_base :: "string \<Rightarrow> string" where
  "source_base base_url = trim_end_matches (CHR ''/'') base_url"

definition source_url :: "string \<Rightarrow> string \<Rightarrow> string" where
  "source_url base path = base @ ''/'' @ trim_start_matches (CHR ''/'') path"

definition get_text_opt :: "web \<Rightarrow> string \<Rightarrow> string \<Rightarrow> string option web_io" where
  "get_text_opt web base path =
     (let url = source_url base path in
      io_bind (io_call (\<lambda>n. Inr (web n url)))
      (\<lambda>answer. case answer of
         HttpFailed m retry \<Rightarrow> io_fail (BETransport m retry)
       | HttpStatus code text \<Rightarrow>
           if code = 404 then io_ret None
           else if code = 429 then io_fail (BERateLimited url)
           else if \<not> (200 \<le> code \<and> code < 300) then io_fail (BEStatus code url)
           else (case text of Inl (m, retry) \<Rightarrow> io_fail (BETransport m retry) | Inr t \<Rightarrow> io_ret (Some t))))"

text \<open>A decoder answers the rendered error of the deserialiser, or the value.\<close>

definition get_opt :: "web \<Rightarrow> string \<Rightarrow> (string \<Rightarrow> string + 'a) \<Rightarrow> string \<Rightarrow> 'a option web_io" where
  "get_opt web base decode path =
     io_bind (get_text_opt web base path)
     (\<lambda>text. case text of None \<Rightarrow> io_ret None
      | Some t \<Rightarrow> (case decode t of Inl err \<Rightarrow> io_fail (BEDecode ''esplora response'' (path @ '': '' @ err)) | Inr v \<Rightarrow> io_ret (Some v)))"

definition types_err :: "'a res \<Rightarrow> btc_error + 'a" where "types_err r = map_err BETypes r"

section \<open>The structures\<close>

record esplora_status =
  es_confirmed :: bool
  es_block_height :: "u32 option"
  es_block_hash :: "string option"
  es_block_time :: "int option"

definition es_to_block_ref :: "ext \<Rightarrow> esplora_status \<Rightarrow> btc_block_ref option" where
  "es_to_block_ref x st =
     (if \<not> es_confirmed st then None
      else Option.bind (es_block_height st) (\<lambda>height.
        Option.bind (es_block_hash st) (\<lambda>hash.
          Option.bind (ok (bbh_from_hex x hash)) (\<lambda>hash.
            Some \<lparr> bf_height = height, bf_hash = hash, bf_time = unwrap_or 0 (es_block_time st) \<rparr>))))"

record esplora_vin =
  ev_txid :: string
  ev_vout :: u32
  ev_is_coinbase :: bool

record esplora_vout =
  eo_scriptpubkey :: string
  eo_address :: "string option"
  eo_value :: u64

record esplora_tx =
  et_txid :: string
  et_fee :: "u64 option"
  et_vin :: "esplora_vin list"
  et_vout :: "esplora_vout list"
  et_status :: esplora_status

record esplora_outspend =
  eos_spent :: bool
  eos_txid :: "string option"
  eos_vin :: "u32 option"
  eos_status :: "esplora_status option"

definition outspend_to_status :: "ext \<Rightarrow> esplora_outspend \<Rightarrow> btc_error + spend_status" where
  "outspend_to_status x r =
     (if \<not> eos_spent r then Inr Unspent
      else (case eos_txid r of
          None \<Rightarrow> Inl (BEDecode ''outspend'' ''spent=true without a spender txid'')
        | Some spender \<Rightarrow>
            (case types_err (txid_from_hex x spender) of
               Inl err \<Rightarrow> Inl err
             | Inr spender \<Rightarrow>
                 (case Option.bind (eos_status r) (es_to_block_ref x) of
                    Some block \<Rightarrow> Inr (SpentConfirmed spender (bf_height block))
                  | None \<Rightarrow> Inr (SpentUnconfirmed spender)))))"

record esplora_utxo =
  eu_txid :: string
  eu_vout :: u32
  eu_value :: u64
  eu_status :: esplora_status

record esplora_json =
  ej_tx :: "string \<Rightarrow> string + esplora_tx"
  ej_outspend :: "string \<Rightarrow> string + esplora_outspend"
  ej_outspends :: "string \<Rightarrow> string + esplora_outspend list"
  ej_utxos :: "string \<Rightarrow> string + esplora_utxo list"
  ej_height_error :: "string \<Rightarrow> string"

section \<open>The data source\<close>

definition expect_text :: "string \<Rightarrow> string option \<Rightarrow> string web_io" where
  "expect_text what text =
     (case text of None \<Rightarrow> io_fail (BEDecode what ''endpoint returned 404'') | Some t \<Rightarrow> io_ret t)"

definition esplora_tip :: "ext \<Rightarrow> esplora_json \<Rightarrow> web \<Rightarrow> string \<Rightarrow> btc_tip web_io" where
  "esplora_tip x j web base =
     io_bind (get_text_opt web base ''blocks/tip/height'')
     (\<lambda>height. io_bind (expect_text ''tip height'' height)
     (\<lambda>height. io_bind (case parse_u32 (trim height) of
          None \<Rightarrow> io_fail (BEDecode ''tip height'' (ej_height_error j height)) | Some h \<Rightarrow> io_ret h)
     (\<lambda>h. io_bind (get_text_opt web base ''blocks/tip/hash'')
     (\<lambda>hash. io_bind (expect_text ''tip hash'' hash)
     (\<lambda>hash. io_bind (io_of (types_err (bbh_from_hex x (trim hash))))
     (\<lambda>hash. io_ret \<lparr> tip_height = h, tip_hash = hash \<rparr>))))))"

definition esplora_block_hash_at :: "ext \<Rightarrow> web \<Rightarrow> string \<Rightarrow> u32 \<Rightarrow> btc_block_hash option web_io" where
  "esplora_block_hash_at x web base height =
     io_bind (get_text_opt web base (''block-height/'' @ show_nat (unat height)))
     (\<lambda>text. case text of None \<Rightarrow> io_ret None
      | Some t \<Rightarrow> io_bind (io_of (types_err (bbh_from_hex x (trim t)))) (\<lambda>hash. io_ret (Some hash)))"

definition esplora_input :: "ext \<Rightarrow> esplora_vin \<Rightarrow> btc_error + btc_out_point list" where
  "esplora_input x v =
     (if ev_is_coinbase v then Inr []
      else (case types_err (txid_from_hex x (ev_txid v)) of Inl err \<Rightarrow> Inl err
            | Inr t \<Rightarrow> Inr [\<lparr> bo_txid = t, bo_vout = ev_vout v \<rparr>]))"

definition esplora_output :: "ext \<Rightarrow> esplora_vout \<Rightarrow> btc_error + btc_tx_output" where
  "esplora_output x v =
     (case ex_hex_decode x (eo_scriptpubkey v) of
        Inl err \<Rightarrow> Inl (BEDecode ''scriptpubkey'' err)
      | Inr bs \<Rightarrow> Inr \<lparr> bx_value = eo_value v, bx_script_pubkey = bs, bx_address = eo_address v \<rparr>)"

definition esplora_tx_info :: "ext \<Rightarrow> esplora_tx \<Rightarrow> btc_error + btc_tx_info" where
  "esplora_tx_info x tx =
     (case collect (esplora_input x) (et_vin tx) of Inl err \<Rightarrow> Inl err
      | Inr inputs \<Rightarrow> (case collect (esplora_output x) (et_vout tx) of Inl err \<Rightarrow> Inl err
      | Inr outputs \<Rightarrow> (case types_err (txid_from_hex x (et_txid tx)) of Inl err \<Rightarrow> Inl err
      | Inr txid \<Rightarrow> Inr \<lparr> ti_txid = txid, ti_confirmation = es_to_block_ref x (et_status tx),
          ti_inputs = concat inputs, ti_outputs = outputs, ti_fee = et_fee tx \<rparr>)))"

definition esplora_transaction :: "ext \<Rightarrow> esplora_json \<Rightarrow> web \<Rightarrow> string \<Rightarrow> btc_txid \<Rightarrow> btc_tx_info option web_io" where
  "esplora_transaction x j web base txid =
     io_bind (get_opt web base (ej_tx j) (''tx/'' @ txid_to_hex x txid))
     (\<lambda>tx. case tx of None \<Rightarrow> io_ret None
      | Some tx \<Rightarrow> io_bind (io_of (esplora_tx_info x tx)) (\<lambda>info. io_ret (Some info)))"

definition esplora_outpoint_status :: "ext \<Rightarrow> esplora_json \<Rightarrow> web \<Rightarrow> string \<Rightarrow> btc_out_point \<Rightarrow> spend_status web_io" where
  "esplora_outpoint_status x j web base p =
     io_bind (get_opt web base (ej_outspend j)
       (''tx/'' @ txid_to_hex x (bo_txid p) @ ''/outspend/'' @ show_nat (unat (bo_vout p))))
     (\<lambda>r. case r of None \<Rightarrow> io_ret Unknown | Some outspend \<Rightarrow> io_of (outspend_to_status x outspend))"

definition esplora_tx_outspends :: "ext \<Rightarrow> esplora_json \<Rightarrow> web \<Rightarrow> string \<Rightarrow> btc_txid \<Rightarrow> spend_status list option web_io" where
  "esplora_tx_outspends x j web base txid =
     io_bind (get_opt web base (ej_outspends j) (''tx/'' @ txid_to_hex x txid @ ''/outspends''))
     (\<lambda>r. case r of None \<Rightarrow> io_ret None
      | Some outspends \<Rightarrow> io_bind (io_of (collect (outspend_to_status x) outspends)) (\<lambda>sts. io_ret (Some sts)))"

definition esplora_utxo_of :: "ext \<Rightarrow> esplora_utxo \<Rightarrow> btc_error + btc_utxo" where
  "esplora_utxo_of x u =
     (case types_err (txid_from_hex x (eu_txid u)) of Inl err \<Rightarrow> Inl err
      | Inr t \<Rightarrow> Inr \<lparr> bu_outpoint = \<lparr> bo_txid = t, bo_vout = eu_vout u \<rparr>, bu_value = eu_value u,
          bu_confirmation = es_to_block_ref x (eu_status u) \<rparr>)"

definition esplora_address_utxos :: "ext \<Rightarrow> esplora_json \<Rightarrow> web \<Rightarrow> string \<Rightarrow> string \<Rightarrow> btc_utxo list web_io" where
  "esplora_address_utxos x j web base address =
     io_bind (get_opt web base (ej_utxos j) (''address/'' @ address @ ''/utxo''))
     (\<lambda>r. io_of (collect (esplora_utxo_of x) (unwrap_or [] r)))"

text \<open>The source, given what the server answers to the requests of the \<open>n\<close>-th call.\<close>

definition esplora_source :: "ext \<Rightarrow> esplora_json \<Rightarrow> (nat \<Rightarrow> web) \<Rightarrow> string \<Rightarrow> btc_data_source" where
  "esplora_source x j web base_url = (let base = source_base base_url in \<lparr>
     bs_name = ''esplora'',
     bs_tip = (\<lambda>n. web_call (esplora_tip x j (web n) base)),
     bs_block_hash_at = (\<lambda>n h. web_call (esplora_block_hash_at x (web n) base h)),
     bs_transaction = (\<lambda>n t. web_call (esplora_transaction x j (web n) base t)),
     bs_outpoint_status = (\<lambda>n p. web_call (esplora_outpoint_status x j (web n) base p)),
     bs_tx_outspends = (\<lambda>n t. web_call (esplora_tx_outspends x j (web n) base t)),
     bs_address_utxos = (\<lambda>n a. web_call (esplora_address_utxos x j (web n) base a)) \<rparr>)"

end
