(* ===== verification/Btc_Blockbook.thy ===== *)
theory Btc_Blockbook
  imports Btc_Esplora
begin

text \<open>
  \<open>crates/btc/src/blockbook.rs\<close>: the Blockbook data source. Outputs carry a flag \<open>spent\<close> but
  no spender, so the spender is looked for in the history of the owning address, at most
  \<open>MAX_ADDRESS_PAGES\<close> pages of it. The server and the decoders are parameters, as for Esplora.
\<close>

definition MAX_ADDRESS_PAGES :: u32 where "MAX_ADDRESS_PAGES = 5"

section \<open>The structures\<close>

record blockbook_vin =
  kv_txid :: "string option"
  kv_vout :: u32

record blockbook_vout =
  ko_value :: string
  ko_n :: u32
  ko_hex :: string
  ko_addresses :: "string list"
  ko_spent :: bool

record blockbook_tx =
  kt_txid :: string
  kt_vin :: "blockbook_vin list"
  kt_vout :: "blockbook_vout list"
  kt_block_hash :: "string option"
  kt_block_height :: "int option"
  kt_block_time :: "int option"
  kt_fees :: "string option"

record blockbook_address =
  ka_total_pages :: "int option"
  ka_transactions :: "blockbook_tx list"

record blockbook_utxo =
  ku_txid :: string
  ku_vout :: u32
  ku_value :: string
  ku_height :: "int option"

record blockbook_status =
  ks_best_height :: int
  ks_best_block_hash :: string

record blockbook_json =
  kj_value :: "string \<Rightarrow> string + json"
  kj_tx :: "string \<Rightarrow> string + blockbook_tx"
  kj_address :: "string \<Rightarrow> string + blockbook_address"
  kj_utxos :: "string \<Rightarrow> string + blockbook_utxo list"
  kj_status :: "string \<Rightarrow> string + blockbook_status"
  kj_block_index :: "string \<Rightarrow> string + string"

definition parse_amount :: "string \<Rightarrow> u64" where "parse_amount s = unwrap_or 0 (parse_u64 s)"

definition positive_height :: "blockbook_tx \<Rightarrow> u32 option" where
  "positive_height tx = (case kt_block_height tx of None \<Rightarrow> None | Some h \<Rightarrow> if 0 < h then Some (as_u32 h) else None)"

definition blockbook_block_ref :: "ext \<Rightarrow> blockbook_tx \<Rightarrow> btc_block_ref option" where
  "blockbook_block_ref x tx =
     Option.bind (positive_height tx) (\<lambda>height.
       Option.bind (kt_block_hash tx) (\<lambda>hash.
         Option.bind (ok (bbh_from_hex x hash)) (\<lambda>hash.
           Some \<lparr> bf_height = height, bf_hash = hash, bf_time = unwrap_or 0 (kt_block_time tx) \<rparr>)))"

section \<open>Requests\<close>

fun contains :: "'a list \<Rightarrow> 'a list \<Rightarrow> bool" where
  "contains p [] \<longleftrightarrow> p = []"
| "contains p (c # s) \<longleftrightarrow> strip_prefix p (c # s) \<noteq> None \<or> contains p s"

definition body_error :: "blockbook_json \<Rightarrow> string \<Rightarrow> string option" where
  "body_error j text =
     (case kj_value j text of
        Inr (JObj ms) \<Rightarrow> (case map_of ms ''error'' of Some (JStr err) \<Rightarrow> Some err | _ \<Rightarrow> None)
      | _ \<Rightarrow> None)"

definition blockbook_get ::
  "blockbook_json \<Rightarrow> web \<Rightarrow> string \<Rightarrow> (string \<Rightarrow> string + 'a) \<Rightarrow> string \<Rightarrow> 'a option web_io" where
  "blockbook_get j web base decode path =
     io_bind (get_text_opt web base path)
     (\<lambda>text. case text of None \<Rightarrow> io_ret None
      | Some t \<Rightarrow>
          (case body_error j t of
             Some err \<Rightarrow>
               if contains ''not found'' (to_ascii_lowercase err) then io_ret None
               else io_fail (BEDecode ''blockbook response'' err)
           | None \<Rightarrow>
               (case decode t of Inl err \<Rightarrow> io_fail (BEDecode ''blockbook response'' (path @ '': '' @ err))
                | Inr v \<Rightarrow> io_ret (Some v))))"

section \<open>Looking for spenders\<close>

type_synonym spenders = "u32 \<Rightarrow> spend_status option"

definition spender_status :: "blockbook_tx \<Rightarrow> btc_txid \<Rightarrow> spend_status" where
  "spender_status tx spender =
     (case positive_height tx of Some h \<Rightarrow> SpentConfirmed spender h | None \<Rightarrow> SpentUnconfirmed spender)"

definition note_input :: "ext \<Rightarrow> btc_txid \<Rightarrow> blockbook_tx \<Rightarrow> blockbook_vin \<Rightarrow> spenders \<Rightarrow> spenders" where
  "note_input x txid tx v resolved =
     (case kv_txid v of
        None \<Rightarrow> resolved
      | Some prev \<Rightarrow>
          if ok (txid_from_hex x prev) \<noteq> Some txid then resolved
          else (case txid_from_hex x (kt_txid tx) of
                  Inl err \<Rightarrow> resolved
                | Inr spender \<Rightarrow> resolved(kv_vout v \<mapsto> spender_status tx spender)))"

definition note_page :: "ext \<Rightarrow> btc_txid \<Rightarrow> blockbook_tx list \<Rightarrow> spenders \<Rightarrow> spenders" where
  "note_page x txid txs resolved = fold (\<lambda>tx. fold (note_input x txid tx) (kt_vin tx)) txs resolved"

definition total_pages :: "blockbook_address \<Rightarrow> u32" where
  "total_pages a = as_u32 (max 1 (unwrap_or 1 (ka_total_pages a)))"

lemma next_page_less:
  assumes "\<not> MAX_ADDRESS_PAGES \<le> page"
  shows "5 - unat (page + 1) < 5 - unat page"
proof -
  from assms have "unat page < 5" by (simp add: MAX_ADDRESS_PAGES_def word_less_nat_alt not_le)
  moreover from this have "unat (page + 1) = unat page + 1" by (simp add: unat_word_ariths)
  ultimately show ?thesis by simp
qed

text \<open>The pages of one address; a failed page ends the walk.\<close>

function walk_address ::
  "ext \<Rightarrow> blockbook_json \<Rightarrow> web \<Rightarrow> string \<Rightarrow> btc_txid \<Rightarrow> string \<Rightarrow> u32 \<Rightarrow> spenders \<Rightarrow> spenders web_io" where
  "walk_address x j web base txid address page resolved =
     io_bind (io_attempt (blockbook_get j web base (kj_address j)
       (''api/v2/address/'' @ address @ ''?details=txs&page='' @ show_nat (unat page))))
     (\<lambda>r. case r of
        Inl err \<Rightarrow> io_ret resolved
      | Inr None \<Rightarrow> io_ret resolved
      | Inr (Some address_page) \<Rightarrow>
          let resolved' = note_page x txid (ka_transactions address_page) resolved in
          if total_pages address_page \<le> page \<or> MAX_ADDRESS_PAGES \<le> page then io_ret resolved'
          else walk_address x j web base txid address (page + 1) resolved')"
  by pat_completeness auto

termination
  by (relation "measure (\<lambda>(x, j, web, base, txid, address, page, resolved). 5 - unat page)") (simp_all add: next_page_less)

declare walk_address.simps [simp del]

definition resolve_spenders ::
  "ext \<Rightarrow> blockbook_json \<Rightarrow> web \<Rightarrow> string \<Rightarrow> btc_txid \<Rightarrow> (u32 \<times> string option) list \<Rightarrow> spenders web_io" where
  "resolve_spenders x j web base txid spent_vouts =
     io_for (distinct_sorted (List.map_filter snd spent_vouts)) (\<lambda>_. None)
       (\<lambda>address. walk_address x j web base txid address 1)"

section \<open>The data source\<close>

definition blockbook_tip :: "ext \<Rightarrow> blockbook_json \<Rightarrow> web \<Rightarrow> string \<Rightarrow> btc_tip web_io" where
  "blockbook_tip x j web base =
     io_bind (blockbook_get j web base (kj_status j) ''api/'')
     (\<lambda>st. case st of None \<Rightarrow> io_fail (BEDecode ''blockbook status'' ''endpoint returned 404'')
      | Some st \<Rightarrow> io_bind (io_of (types_err (bbh_from_hex x (ks_best_block_hash st))))
          (\<lambda>hash. io_ret \<lparr> tip_height = as_u32 (max 0 (ks_best_height st)), tip_hash = hash \<rparr>))"

definition blockbook_block_hash_at :: "ext \<Rightarrow> blockbook_json \<Rightarrow> web \<Rightarrow> string \<Rightarrow> u32 \<Rightarrow> btc_block_hash option web_io" where
  "blockbook_block_hash_at x j web base height =
     io_bind (blockbook_get j web base (kj_block_index j) (''api/v2/block-index/'' @ show_nat (unat height)))
     (\<lambda>r. case r of None \<Rightarrow> io_ret None
      | Some h \<Rightarrow> io_bind (io_of (types_err (bbh_from_hex x h))) (\<lambda>hash. io_ret (Some hash)))"

definition blockbook_input :: "ext \<Rightarrow> blockbook_vin \<Rightarrow> btc_error + btc_out_point list" where
  "blockbook_input x v =
     (case kv_txid v of None \<Rightarrow> Inr []
      | Some prev \<Rightarrow> (case types_err (txid_from_hex x prev) of Inl err \<Rightarrow> Inl err
                      | Inr t \<Rightarrow> Inr [\<lparr> bo_txid = t, bo_vout = kv_vout v \<rparr>]))"

definition first_address :: "blockbook_vout \<Rightarrow> string option" where
  "first_address v = (case ko_addresses v of [] \<Rightarrow> None | a # _ \<Rightarrow> Some a)"

definition blockbook_output :: "ext \<Rightarrow> blockbook_vout \<Rightarrow> btc_error + btc_tx_output" where
  "blockbook_output x v =
     (case ex_hex_decode x (ko_hex v) of
        Inl err \<Rightarrow> Inl (BEDecode ''vout hex'' err)
      | Inr bs \<Rightarrow> Inr \<lparr> bx_value = parse_amount (ko_value v), bx_script_pubkey = bs, bx_address = first_address v \<rparr>)"

definition blockbook_tx_info :: "ext \<Rightarrow> blockbook_tx \<Rightarrow> btc_error + btc_tx_info" where
  "blockbook_tx_info x tx =
     (case collect (blockbook_input x) (kt_vin tx) of Inl err \<Rightarrow> Inl err
      | Inr inputs \<Rightarrow> (case collect (blockbook_output x) (kt_vout tx) of Inl err \<Rightarrow> Inl err
      | Inr outputs \<Rightarrow> (case types_err (txid_from_hex x (kt_txid tx)) of Inl err \<Rightarrow> Inl err
      | Inr txid \<Rightarrow> Inr \<lparr> ti_txid = txid, ti_confirmation = blockbook_block_ref x tx,
          ti_inputs = concat inputs, ti_outputs = outputs, ti_fee = map_option parse_amount (kt_fees tx) \<rparr>)))"

definition blockbook_tx_at :: "ext \<Rightarrow> blockbook_json \<Rightarrow> web \<Rightarrow> string \<Rightarrow> btc_txid \<Rightarrow> blockbook_tx option web_io" where
  "blockbook_tx_at x j web base txid = blockbook_get j web base (kj_tx j) (''api/v2/tx/'' @ txid_to_hex x txid)"

definition blockbook_transaction :: "ext \<Rightarrow> blockbook_json \<Rightarrow> web \<Rightarrow> string \<Rightarrow> btc_txid \<Rightarrow> btc_tx_info option web_io" where
  "blockbook_transaction x j web base txid =
     io_bind (blockbook_tx_at x j web base txid)
     (\<lambda>tx. case tx of None \<Rightarrow> io_ret None
      | Some tx \<Rightarrow> io_bind (io_of (blockbook_tx_info x tx)) (\<lambda>info. io_ret (Some info)))"

definition blockbook_outpoint_status :: "ext \<Rightarrow> blockbook_json \<Rightarrow> web \<Rightarrow> string \<Rightarrow> btc_out_point \<Rightarrow> spend_status web_io" where
  "blockbook_outpoint_status x j web base p =
     io_bind (blockbook_tx_at x j web base (bo_txid p))
     (\<lambda>tx. case tx of None \<Rightarrow> io_ret Unknown
      | Some tx \<Rightarrow>
          (case find (\<lambda>v. ko_n v = bo_vout p) (kt_vout tx) of
             None \<Rightarrow> io_ret Unknown
           | Some v \<Rightarrow>
               if \<not> ko_spent v then io_ret Unspent
               else io_bind (resolve_spenders x j web base (bo_txid p) [(bo_vout p, first_address v)])
                 (\<lambda>resolved. io_ret (unwrap_or Unknown (resolved (bo_vout p))))))"

text \<open>The loop over the outputs writes into the vector by position; a later output wins.\<close>

definition place_status :: "spenders \<Rightarrow> blockbook_vout \<Rightarrow> spend_status list \<Rightarrow> spend_status list" where
  "place_status resolved v statuses =
     statuses[unat (ko_n v) := (if ko_spent v then unwrap_or Unknown (resolved (ko_n v)) else Unspent)]"

definition max_position :: "blockbook_vout list \<Rightarrow> u32" where
  "max_position vs = (case vs of [] \<Rightarrow> 0 | _ \<Rightarrow> Max (ko_n ` set vs))"

definition blockbook_tx_outspends :: "ext \<Rightarrow> blockbook_json \<Rightarrow> web \<Rightarrow> string \<Rightarrow> btc_txid \<Rightarrow> spend_status list option web_io" where
  "blockbook_tx_outspends x j web base txid =
     io_bind (blockbook_tx_at x j web base txid)
     (\<lambda>tx. case tx of None \<Rightarrow> io_ret None
      | Some tx \<Rightarrow>
          let spent_vouts = map (\<lambda>v. (ko_n v, first_address v)) (filter ko_spent (kt_vout tx)) in
          io_bind (if spent_vouts = [] then io_ret (\<lambda>_. None) else resolve_spenders x j web base txid spent_vouts)
          (\<lambda>resolved. io_ret (Some (fold (place_status resolved) (kt_vout tx)
             (replicate (unat (max_position (kt_vout tx)) + 1) Unknown)))))"

definition blockbook_utxo_of :: "ext \<Rightarrow> blockbook_utxo \<Rightarrow> btc_error + btc_utxo" where
  "blockbook_utxo_of x u =
     (case types_err (txid_from_hex x (ku_txid u)) of Inl err \<Rightarrow> Inl err
      | Inr t \<Rightarrow> Inr \<lparr> bu_outpoint = \<lparr> bo_txid = t, bo_vout = ku_vout u \<rparr>, bu_value = parse_amount (ku_value u),
          bu_confirmation = None \<rparr>)"

definition blockbook_address_utxos :: "ext \<Rightarrow> blockbook_json \<Rightarrow> web \<Rightarrow> string \<Rightarrow> string \<Rightarrow> btc_utxo list web_io" where
  "blockbook_address_utxos x j web base address =
     io_bind (blockbook_get j web base (kj_utxos j) (''api/v2/utxo/'' @ address))
     (\<lambda>r. io_of (collect (blockbook_utxo_of x) (unwrap_or [] r)))"

definition blockbook_source :: "ext \<Rightarrow> blockbook_json \<Rightarrow> (nat \<Rightarrow> web) \<Rightarrow> string \<Rightarrow> btc_data_source" where
  "blockbook_source x j web base_url = (let base = source_base base_url in \<lparr>
     bs_name = ''blockbook'',
     bs_tip = (\<lambda>n. web_call (blockbook_tip x j (web n) base)),
     bs_block_hash_at = (\<lambda>n h. web_call (blockbook_block_hash_at x j (web n) base h)),
     bs_transaction = (\<lambda>n t. web_call (blockbook_transaction x j (web n) base t)),
     bs_outpoint_status = (\<lambda>n p. web_call (blockbook_outpoint_status x j (web n) base p)),
     bs_tx_outspends = (\<lambda>n t. web_call (blockbook_tx_outspends x j (web n) base t)),
     bs_address_utxos = (\<lambda>n a. web_call (blockbook_address_utxos x j (web n) base a)) \<rparr>)"

section \<open>The configured source\<close>

definition build_source ::
  "ext \<Rightarrow> esplora_json \<Rightarrow> blockbook_json \<Rightarrow> (nat \<Rightarrow> web) \<Rightarrow> btc_config \<Rightarrow> btc_data_source" where
  "build_source x ej kj web c =
     (case btc_source c of
        Esplora \<Rightarrow> esplora_source x ej web (btc_base_url c)
      | Blockbook \<Rightarrow> blockbook_source x kj web (btc_base_url c))"

end
