(* ===== verification/Btc_Clients_Props.thy ===== *)
theory Btc_Clients_Props
  imports Btc_Blockbook Workers Store_Btc_Props
begin

text \<open>
  The properties of the two Bitcoin clients: what a status of theirs says about the answers of
  the server, and how many requests a call sends.
\<close>

section \<open>What the server can say\<close>

text \<open>A text that the server serves with a status of success under a URL, and its reading.\<close>

definition served :: "web \<Rightarrow> string \<Rightarrow> string \<Rightarrow> bool" where
  "served web url text \<longleftrightarrow> (\<exists>n code. web n url = HttpStatus code (Inr text) \<and> 200 \<le> code \<and> code < 300)"

definition decoded :: "web \<Rightarrow> string \<Rightarrow> (string \<Rightarrow> string + 'a) \<Rightarrow> 'a \<Rightarrow> bool" where
  "decoded web url decode v \<longleftrightarrow> (\<exists>text. served web url text \<and> decode text = Inr v)"

lemma reads_get_text: "reads d (get_text_opt web base path) (\<lambda>r. \<forall>text. r = Some text \<longrightarrow> served web (source_url base path) text)"
  unfolding get_text_opt_def Let_def
  by (rule reads_bind [OF reads_call [where Q = "\<lambda>a. \<exists>n. a = web n (source_url base path)"]])
    (auto intro!: reads_ret reads_fail simp: served_def split: http_answer.split sum.split dest: sym)

lemma reads_get_opt:
  "reads d (get_opt web base decode path) (\<lambda>r. \<forall>v. r = Some v \<longrightarrow> decoded web (source_url base path) decode v)"
  unfolding get_opt_def
  by (rule reads_bind [OF reads_get_text])
    (auto intro!: reads_ret reads_fail simp: decoded_def split: option.split sum.split)

lemma reads_blockbook_get:
  "reads d (blockbook_get j web base decode path) (\<lambda>r. \<forall>v. r = Some v \<longrightarrow> decoded web (source_url base path) decode v)"
  unfolding blockbook_get_def
  by (rule reads_bind [OF reads_get_text])
    (auto intro!: reads_ret reads_fail simp: decoded_def split: option.split sum.split)

lemma web_call_reads: "web_call m = Inr v \<Longrightarrow> (\<And>d. reads d m Q) \<Longrightarrow> Q v"
  unfolding web_call_def by (metis prod.collapse readsD)

section \<open>Blockbook\<close>

text \<open>A transaction claims to spend an output of \<open>txid\<close>, with the status that follows.\<close>

definition claims :: "ext \<Rightarrow> btc_txid \<Rightarrow> blockbook_tx \<Rightarrow> u32 \<Rightarrow> spend_status \<Rightarrow> bool" where
  "claims x txid tx vout s \<longleftrightarrow>
     (\<exists>v \<in> set (kt_vin tx). \<exists>prev spender. kv_txid v = Some prev \<and> txid_from_hex x prev = Inr txid \<and> kv_vout v = vout \<and>
        txid_from_hex x (kt_txid tx) = Inr spender \<and> s = spender_status tx spender)"

definition claimed :: "ext \<Rightarrow> blockbook_json \<Rightarrow> web \<Rightarrow> btc_txid \<Rightarrow> spenders \<Rightarrow> bool" where
  "claimed x j web txid resolved \<longleftrightarrow>
     (\<forall>vout s. resolved vout = Some s \<longrightarrow>
        (\<exists>url a tx. decoded web url (kj_address j) a \<and> tx \<in> set (ka_transactions a) \<and> claims x txid tx vout s))"

lemma note_page_claims:
  "note_page x txid txs resolved vout = Some s \<Longrightarrow> resolved vout = Some s \<or> (\<exists>tx \<in> set txs. claims x txid tx vout s)"
proof -
  have input: "note_input x txid tx v r vout = Some s \<Longrightarrow> r vout = Some s \<or> (v \<in> set (kt_vin tx) \<longrightarrow> claims x txid tx vout s)"
    for tx v r by (auto simp: note_input_def claims_def split: option.splits if_splits sum.splits)
  have inputs: "set vs \<subseteq> set (kt_vin tx) \<Longrightarrow> fold (note_input x txid tx) vs r vout = Some s \<Longrightarrow> r vout = Some s \<or> claims x txid tx vout s"
    for tx vs r by (induction vs arbitrary: r) (use input in fastforce)+
  show "note_page x txid txs resolved vout = Some s \<Longrightarrow> resolved vout = Some s \<or> (\<exists>tx \<in> set txs. claims x txid tx vout s)"
    unfolding note_page_def by (induction txs arbitrary: resolved) (use inputs in fastforce)+
qed

lemma claimed_note_page:
  assumes "claimed x j web txid resolved" "decoded web url (kj_address j) a"
  shows "claimed x j web txid (note_page x txid (ka_transactions a) resolved)"
  using assms note_page_claims [of x txid "ka_transactions a" resolved] unfolding claimed_def by metis

lemma reads_walk_address:
  "claimed x j web txid resolved \<Longrightarrow> reads d (walk_address x j web base txid address page resolved) (claimed x j web txid)"
proof (induction x j web base txid address page resolved rule: walk_address.induct)
  case (1 x j web base txid address page resolved)
  let ?Q = "\<lambda>r :: btc_error + blockbook_address option. \<forall>a. r = Inr (Some a) \<longrightarrow> (\<exists>url. decoded web url (kj_address j) a)"
  have get: "reads d (io_attempt (blockbook_get j web base (kj_address j) path) :: (btc_error + blockbook_address option) web_io) ?Q" for path
    by (rule reads_attempt [OF reads_blockbook_get]) auto
  show ?case
    unfolding walk_address.simps [of x j web base txid address page resolved]
  proof (rule reads_bind [OF get])
    fix r assume r: "?Q r"
    show "reads d (case r of Inl err \<Rightarrow> io_ret resolved | Inr None \<Rightarrow> io_ret resolved
        | Inr (Some address_page) \<Rightarrow> let resolved' = note_page x txid (ka_transactions address_page) resolved
            in if total_pages address_page \<le> page \<or> MAX_ADDRESS_PAGES \<le> page then io_ret resolved'
               else walk_address x j web base txid address (page + 1) resolved') (claimed x j web txid)"
      using r 1 by (auto simp: Let_def claimed_note_page intro!: reads_ret split: sum.split option.split)
  qed
qed

lemma reads_resolve_spenders: "reads d (resolve_spenders x j web base txid spent) (claimed x j web txid)"
  unfolding resolve_spenders_def by (rule reads_for) (auto simp: claimed_def intro: reads_walk_address)

definition tx_url :: "ext \<Rightarrow> string \<Rightarrow> btc_txid \<Rightarrow> string" where
  "tx_url x base txid = source_url base (''api/v2/tx/'' @ txid_to_hex x txid)"

text \<open>What an answer of the client rests on.\<close>

definition grounded :: "ext \<Rightarrow> blockbook_json \<Rightarrow> web \<Rightarrow> string \<Rightarrow> btc_out_point \<Rightarrow> spend_status \<Rightarrow> bool" where
  "grounded x j web base p s \<longleftrightarrow>
     (s = Unspent \<longrightarrow> (\<exists>tx v. decoded web (tx_url x base (bo_txid p)) (kj_tx j) tx \<and> v \<in> set (kt_vout tx) \<and> ko_n v = bo_vout p \<and> \<not> ko_spent v)) \<and>
     (is_spent s \<longrightarrow> (\<exists>url a tx. decoded web url (kj_address j) a \<and> tx \<in> set (ka_transactions a) \<and> claims x (bo_txid p) tx (bo_vout p) s))"

lemma claims_spent: "claims x txid tx vout s \<Longrightarrow> is_spent s"
  by (auto simp: claims_def spender_status_def split: option.split)

lemma grounded_Unknown [simp]: "grounded x j web base p Unknown"
  by (simp add: grounded_def)

lemma grounded_resolved:
  assumes "claimed x j web (bo_txid p) resolved"
  shows "grounded x j web base p (unwrap_or Unknown (resolved (bo_vout p)))"
proof (cases "resolved (bo_vout p)")
  case (Some s)
  with assms obtain url a tx where tx: "decoded web url (kj_address j) a" "tx \<in> set (ka_transactions a)" "claims x (bo_txid p) tx (bo_vout p) s"
    unfolding claimed_def by blast
  moreover from tx(3) claims_spent have "s \<noteq> Unspent" by fastforce
  ultimately show ?thesis using Some by (auto simp: grounded_def)
qed simp

lemma reads_blockbook_status: "reads d (blockbook_outpoint_status x j web base p) (grounded x j web base p)"
  unfolding blockbook_outpoint_status_def blockbook_tx_at_def
proof (rule reads_bind [OF reads_blockbook_get], goal_cases)
  case (1 r)
  show ?case
  proof (cases r)
    case (Some tx)
    with 1 have tx: "decoded web (tx_url x base (bo_txid p)) (kj_tx j) tx" by (simp add: tx_url_def)
    show ?thesis
    proof (cases "find (\<lambda>v. ko_n v = bo_vout p) (kt_vout tx)")
      case (Some v)
      then have v: "v \<in> set (kt_vout tx)" "ko_n v = bo_vout p" by (auto simp: find_Some_iff)
      have unspent: "grounded x j web base p Unspent" if "\<not> ko_spent v" using that tx v by (auto simp: grounded_def)
      then show ?thesis
        using \<open>r = Some tx\<close> Some
        by (auto intro!: reads_ret reads_bind [OF reads_resolve_spenders] grounded_resolved)
    qed (use Some in \<open>simp add: reads_ret\<close>)
  qed (simp add: reads_ret)
qed

lemma max_position_bound: "v \<in> set vs \<Longrightarrow> ko_n v \<le> max_position vs"
  by (auto simp: max_position_def split: list.split)

lemma length_place_statuses [simp]: "length (fold (place_status resolved) vs sts) = length sts"
  by (induction vs arbitrary: sts) (simp_all add: place_status_def)

text \<open>The loop never indexes past the end of the vector.\<close>

lemma place_in_range:
  "v \<in> set vs \<Longrightarrow> unat (ko_n v) < length (fold (place_status resolved) us (replicate (unat (max_position vs) + 1) Unknown))"
  using max_position_bound [of v vs] by (simp add: word_le_nat_alt)

lemma place_statuses_nth:
  "i < length sts \<Longrightarrow> fold (place_status resolved) vs sts ! i = sts ! i \<or>
     (\<exists>v \<in> set vs. unat (ko_n v) = i \<and>
        fold (place_status resolved) vs sts ! i = (if ko_spent v then unwrap_or Unknown (resolved (ko_n v)) else Unspent))"
proof (induction vs arbitrary: sts)
  case (Cons v vs)
  have step: "place_status resolved v sts ! i = sts ! i \<or>
    unat (ko_n v) = i \<and> place_status resolved v sts ! i = (if ko_spent v then unwrap_or Unknown (resolved (ko_n v)) else Unspent)"
    using Cons.prems by (cases "unat (ko_n v) = i") (simp_all add: place_status_def)
  have "i < length (place_status resolved v sts)" using Cons.prems by (simp add: place_status_def)
  from Cons.IH [OF this] step show ?case unfolding fold.simps comp_def list.set by (elim disjE bexE conjE) (metis insertI1 insertI2)+
qed simp

definition all_grounded :: "ext \<Rightarrow> blockbook_json \<Rightarrow> web \<Rightarrow> string \<Rightarrow> btc_txid \<Rightarrow> spend_status list \<Rightarrow> bool" where
  "all_grounded x j web base txid sts \<longleftrightarrow>
     (\<forall>vout. unat vout < length sts \<longrightarrow> grounded x j web base \<lparr> bo_txid = txid, bo_vout = vout \<rparr> (sts ! unat vout))"

lemma all_grounded_placed:
  assumes "decoded web (tx_url x base txid) (kj_tx j) tx" "claimed x j web txid resolved"
  shows "all_grounded x j web base txid (fold (place_status resolved) (kt_vout tx) (replicate n Unknown))"
  unfolding all_grounded_def
proof (intro allI impI)
  fix vout :: u32 assume "unat vout < length (fold (place_status resolved) (kt_vout tx) (replicate n Unknown))"
  then have len: "unat vout < length (replicate n Unknown)" by simp
  let ?p = "\<lparr> bo_txid = txid, bo_vout = vout \<rparr>" and ?s = "fold (place_status resolved) (kt_vout tx) (replicate n Unknown) ! unat vout"
  from place_statuses_nth [OF len, of resolved "kt_vout tx"] len show "grounded x j web base ?p ?s"
  proof (elim disjE bexE conjE)
    fix v assume v: "v \<in> set (kt_vout tx)" "unat (ko_n v) = unat vout" "?s = (if ko_spent v then unwrap_or Unknown (resolved (ko_n v)) else Unspent)"
    then have "ko_n v = vout" by (simp add: word_unat_eq_iff)
    with v assms grounded_resolved [of x j web ?p resolved] show ?thesis by (auto simp: grounded_def)
  qed simp
qed

lemma reads_blockbook_outspends:
  "reads d (blockbook_tx_outspends x j web base txid) (\<lambda>r. \<forall>sts. r = Some sts \<longrightarrow> all_grounded x j web base txid sts)"
  unfolding blockbook_tx_outspends_def blockbook_tx_at_def Let_def
proof (rule reads_bind [OF reads_blockbook_get], goal_cases)
  case (1 r)
  show ?case
  proof (cases r)
    case (Some tx)
    with 1 have tx: "decoded web (tx_url x base txid) (kj_tx j) tx" by (simp add: tx_url_def)
    have resolve: "reads d (if c then io_ret (\<lambda>_. None) else resolve_spenders x j web base txid spent) (claimed x j web txid)" for c spent
      by (auto intro: reads_resolve_spenders reads_ret simp: claimed_def)
    show ?thesis
      unfolding Some option.case by (rule reads_bind [OF resolve]) (intro reads_ret allI impI, simp only: option.inject, metis all_grounded_placed tx)
  qed (simp add: reads_ret)
qed

text \<open>
  C24.
  Blockbook's answers are grounded. An output is reported unspent only where the server
  describes its transaction and says that this output is not spent, and reported spent only
  by a transaction that the history of an address lists with an input naming exactly this
  output, confirmed at the height that is given there. This holds of the single lookup and
  of every position of the lookup of a whole transaction.
\<close>

theorem blockbook_answers_grounded:
  "(web_call (blockbook_outpoint_status x j web base p) = Inr s \<longrightarrow> grounded x j web base p s) \<and>
   (web_call (blockbook_tx_outspends x j web base txid) = Inr (Some sts) \<longrightarrow> all_grounded x j web base txid sts)"
  using web_call_reads [OF _ reads_blockbook_status, of x j web base p s]
    web_call_reads [OF _ reads_blockbook_outspends, of x j web base txid "Some sts"] by blast

text \<open>A server whose transaction spends its own first output, by its history.\<close>

definition spending_tx :: blockbook_tx where
  "spending_tx = \<lparr> kt_txid = txid_to_hex ref_ext (BtcTxid zero32),
     kt_vin = [\<lparr> kv_txid = Some (txid_to_hex ref_ext (BtcTxid zero32)), kv_vout = 0 \<rparr>],
     kt_vout = [\<lparr> ko_value = [], ko_n = 0, ko_hex = [], ko_addresses = [''a''], ko_spent = True \<rparr>,
       \<lparr> ko_value = [], ko_n = 1, ko_hex = [], ko_addresses = [], ko_spent = False \<rparr>],
     kt_block_hash = None, kt_block_height = Some 7, kt_block_time = None, kt_fees = None \<rparr>"

definition spending_json :: blockbook_json where
  "spending_json = \<lparr> kj_value = (\<lambda>t. Inl []), kj_tx = (\<lambda>t. Inr spending_tx),
     kj_address = (\<lambda>t. Inr \<lparr> ka_total_pages = None, ka_transactions = [spending_tx] \<rparr>),
     kj_utxos = (\<lambda>t. Inl []), kj_status = (\<lambda>t. Inl []), kj_block_index = (\<lambda>t. Inl []) \<rparr>"

definition answering_web :: web where "answering_web n url = HttpStatus 200 (Inr [])"

lemma spending_get:
  "decode [] = Inr v \<Longrightarrow> blockbook_get spending_json answering_web base decode path w = (Inr (Some v), tick w)"
  by (simp add: blockbook_get_def get_text_opt_def Let_def io_bind_def io_call_def io_ret_def answering_web_def
      body_error_def spending_json_def)

lemma spending_walk:
  "resolve_spenders ref_ext spending_json answering_web base (BtcTxid zero32) [(0, Some ''a'')] w =
     (Inr [0 \<mapsto> SpentConfirmed (BtcTxid zero32) 7], tick w)"
proof -
  have get: "blockbook_get spending_json answering_web base (kj_address spending_json) path u =
      (Inr (Some \<lparr> ka_total_pages = None, ka_transactions = [spending_tx] \<rparr>), tick u)" for path u
    by (rule spending_get) (simp add: spending_json_def)
  have one: "total_pages \<lparr> ka_total_pages = None, ka_transactions = [spending_tx] \<rparr> \<le> 1"
    by (simp add: total_pages_def as_u32_def)
  have found: "note_page ref_ext (BtcTxid zero32) [spending_tx] (\<lambda>_. None) = [0 \<mapsto> SpentConfirmed (BtcTxid zero32) 7]"
    by (simp add: note_page_def note_input_def spending_tx_def spender_status_def positive_height_def as_u32_def ref_ext_ok)
  show ?thesis
    using one found
    by (simp add: resolve_spenders_def List.map_filter_def distinct_sorted_def walk_address.simps [of _ _ _ _ _ _ 1] get
      io_bind_def io_ret_def io_attempt_def)
qed

lemma blockbook_answers_grounded_witness:
  "grounded ref_ext spending_json answering_web [] \<lparr> bo_txid = BtcTxid zero32, bo_vout = 0 \<rparr> (SpentConfirmed (BtcTxid zero32) 7) \<and>
   all_grounded ref_ext spending_json answering_web [] (BtcTxid zero32) [SpentConfirmed (BtcTxid zero32) 7, Unspent]"
proof -
  have get: "blockbook_get spending_json answering_web base (kj_tx spending_json) path u = (Inr (Some spending_tx), tick u)" for base path u
    by (rule spending_get) (simp add: spending_json_def)
  have single: "web_call (blockbook_outpoint_status ref_ext spending_json answering_web [] \<lparr> bo_txid = BtcTxid zero32, bo_vout = 0 \<rparr>) =
      Inr (SpentConfirmed (BtcTxid zero32) 7)"
    by (simp add: web_call_def blockbook_outpoint_status_def blockbook_tx_at_def io_bind_def get io_ret_def)
      (simp add: spending_tx_def first_address_def spending_walk io_bind_def io_ret_def)
  have whole: "web_call (blockbook_tx_outspends ref_ext spending_json answering_web [] (BtcTxid zero32)) =
      Inr (Some [SpentConfirmed (BtcTxid zero32) 7, Unspent])"
    by (simp add: web_call_def blockbook_tx_outspends_def blockbook_tx_at_def io_bind_def get io_ret_def)
      (simp add: spending_tx_def first_address_def spending_walk io_bind_def io_ret_def max_position_def place_status_def)
  from single whole blockbook_answers_grounded [of ref_ext spending_json answering_web "[]" "\<lparr> bo_txid = BtcTxid zero32, bo_vout = 0 \<rparr>"
      "SpentConfirmed (BtcTxid zero32) 7" "BtcTxid zero32" "[SpentConfirmed (BtcTxid zero32) 7, Unspent]"]
  show ?thesis by blast
qed

section \<open>How many requests a call sends\<close>

definition sends :: "nat \<Rightarrow> 'a web_io \<Rightarrow> bool" where
  "sends k m \<longleftrightarrow> (\<forall>w. w_tick (snd (m w)) \<le> w_tick w + k)"

lemma sends_ret: "sends k (io_ret v)"
  by (simp add: sends_def io_ret_def)

lemma sends_fail: "sends k (io_fail v)"
  by (simp add: sends_def io_fail_def)

lemma sends_call: "sends 1 (io_call f)"
  by (simp add: sends_def io_call_def tick_def)

lemma sends_attempt: "sends k m \<Longrightarrow> sends k (io_attempt m)"
  unfolding sends_def io_attempt_def by (auto split: prod.split) (metis snd_conv)

lemma sends_bind:
  assumes "sends k m" "\<And>v. sends l (f v)"
  shows "sends (k + l) (io_bind m f)"
  unfolding sends_def
proof
  fix w
  obtain r w1 where m: "m w = (r, w1)" by (meson surj_pair)
  with assms(1) have "w_tick w1 \<le> w_tick w + k" unfolding sends_def by (metis snd_conv)
  moreover from assms(2) have "w_tick (snd (f v w1)) \<le> w_tick w1 + l" for v unfolding sends_def by blast
  ultimately show "w_tick (snd (io_bind m f w)) \<le> w_tick w + (k + l)"
    using m by (cases r) (auto simp: io_bind_def intro: order_trans, metis add.assoc add_le_mono1 order_trans)
qed

lemma sends_for: "(\<And>x s. sends k (body x s)) \<Longrightarrow> sends (k * length xs) (io_for xs s body)"
  by (induction xs arbitrary: s) (auto intro: sends_ret sends_bind)

lemma sends_get_text: "sends 1 (get_text_opt web base path)"
proof -
  have "sends (1 + 0) (get_text_opt web base path)"
    unfolding get_text_opt_def Let_def
    by (rule sends_bind [OF sends_call]) (auto intro: sends_ret sends_fail split: http_answer.split sum.split)
  then show ?thesis by simp
qed

lemma sends_blockbook_get: "sends 1 (blockbook_get j web base decode path)"
proof -
  have "sends (1 + 0) (blockbook_get j web base decode path)"
    unfolding blockbook_get_def
    by (rule sends_bind [OF sends_get_text]) (auto intro: sends_ret sends_fail split: option.split sum.split)
  then show ?thesis by simp
qed

lemma sends_walk_address:
  "1 \<le> unat page \<Longrightarrow> sends (max 1 (6 - unat page)) (walk_address x j web base txid address page resolved)"
proof (induction x j web base txid address page resolved rule: walk_address.induct)
  case (1 x j web base txid address page resolved)
  let ?k = "max 1 (6 - unat page) - 1"
  have more: "sends ?k (walk_address x j web base txid address (page + 1) (note_page x txid (ka_transactions a) resolved))"
    if "\<not> (total_pages a \<le> page \<or> MAX_ADDRESS_PAGES \<le> page)" for a
  proof -
    from that have small: "unat page < 5" by (simp add: MAX_ADDRESS_PAGES_def word_less_nat_alt not_le)
    then have page: "unat (page + 1) = unat page + 1" by (simp add: unat_word_ariths)
    from 1(1) [OF refl that] page
    have "sends (max 1 (6 - unat (page + 1))) (walk_address x j web base txid address (page + 1) (note_page x txid (ka_transactions a) resolved))"
      by simp
    moreover have "max 1 (6 - unat (page + 1)) = ?k" using small page by simp
    ultimately show ?thesis by simp
  qed
  have "sends (1 + ?k) (walk_address x j web base txid address page resolved)"
    unfolding walk_address.simps [of x j web base txid address page resolved]
    by (rule sends_bind [OF sends_attempt [OF sends_blockbook_get]])
      (auto simp: Let_def simp del: One_nat_def intro: sends_ret more split: sum.split option.split)
  moreover have "1 + ?k = max 1 (6 - unat page)" by simp
  ultimately show ?case by (simp only:)
qed

lemma sends_resolve_spenders:
  "sends (5 * length (distinct_sorted (List.map_filter snd spent))) (resolve_spenders x j web base txid spent)"
proof -
  have walk: "sends 5 (walk_address x j web base txid address 1 resolved)" for address resolved
    using sends_walk_address [of 1 x j web base txid address resolved] by simp
  show ?thesis unfolding resolve_spenders_def by (rule sends_for) (rule walk)
qed

lemma sends_more: "sends k m \<Longrightarrow> k \<le> l \<Longrightarrow> sends l m"
  unfolding sends_def by (meson add_left_mono order_trans)

lemma sends_blockbook_status: "sends (1 + 5) (blockbook_outpoint_status x j web base p)"
  unfolding blockbook_outpoint_status_def blockbook_tx_at_def
proof (rule sends_bind [OF sends_blockbook_get])
  have one: "sends 5 (resolve_spenders x j web base (bo_txid p) [(bo_vout p, a)])" for a
  proof -
    have "length (distinct_sorted (List.map_filter snd [(bo_vout p, a)])) \<le> 1"
      by (cases a) (simp_all add: List.map_filter_def distinct_sorted_def)
    with sends_more [OF sends_resolve_spenders] show ?thesis by fastforce
  qed
  fix r
  show "sends 5 (case r of None \<Rightarrow> io_ret Unknown | Some tx \<Rightarrow> case find (\<lambda>v. ko_n v = bo_vout p) (kt_vout tx) of
      None \<Rightarrow> io_ret Unknown | Some v \<Rightarrow> if \<not> ko_spent v then io_ret Unspent
        else io_bind (resolve_spenders x j web base (bo_txid p) [(bo_vout p, first_address v)])
          (\<lambda>resolved. io_ret (unwrap_or Unknown (resolved (bo_vout p)))))"
    using sends_bind [OF one sends_ret [of 0]] by (auto split: option.split intro: sends_ret)
qed

text \<open>
  A lookup at Blockbook ends after a bounded number of requests, whatever the server answers,
  page counts included: at most six for one output.
\<close>

theorem blockbook_requests_bounded:
  "w_tick (snd (blockbook_outpoint_status x j web base p w)) \<le> w_tick w + 6 \<and>
   w_tick (snd (resolve_spenders x j web base txid spent w)) \<le>
     w_tick w + unat MAX_ADDRESS_PAGES * length (distinct_sorted (List.map_filter snd spent))"
  using sends_blockbook_status [of x j web base p] sends_resolve_spenders [of spent x j web base txid]
  by (simp add: sends_def MAX_ADDRESS_PAGES_def)

section \<open>Esplora\<close>

definition outspend_url :: "ext \<Rightarrow> string \<Rightarrow> btc_out_point \<Rightarrow> string" where
  "outspend_url x base p =
     source_url base (''tx/'' @ txid_to_hex x (bo_txid p) @ ''/outspend/'' @ show_nat (unat (bo_vout p)))"

definition outspends_url :: "ext \<Rightarrow> string \<Rightarrow> btc_txid \<Rightarrow> string" where
  "outspends_url x base txid = source_url base (''tx/'' @ txid_to_hex x txid @ ''/outspends'')"

text \<open>What one structure of the server says about its output.\<close>

definition outspend_says :: "ext \<Rightarrow> esplora_outspend \<Rightarrow> spend_status \<Rightarrow> bool" where
  "outspend_says x r s \<longleftrightarrow>
     (if eos_spent r
      then (\<exists>h t. eos_txid r = Some h \<and> txid_from_hex x h = Inr t \<and>
        s = (case Option.bind (eos_status r) (es_to_block_ref x) of
               Some b \<Rightarrow> SpentConfirmed t (bf_height b) | None \<Rightarrow> SpentUnconfirmed t))
      else s = Unspent)"

lemma outspend_to_status_Inr: "outspend_to_status x r = Inr s \<longleftrightarrow> outspend_says x r s"
  by (auto simp: outspend_to_status_def outspend_says_def types_err_def split: option.splits sum.splits elim!: map_err.elims)

text \<open>
  C23.
  Esplora's answer is what its status becomes. A lookup of an output returns a status in two
  cases only: the server answers 404, and it is unknown; or it answers a readable structure
  with success, and the status is what that says: unspent exactly when \<open>spent\<close> is false,
  else spent by the named transaction, confirmed exactly when its block is named readably.
  A failure, a refusal or an unreadable answer is an error, never a status.
\<close>

theorem esplora_answers_exact:
  "web_call (esplora_outpoint_status x j web base p) = Inr s \<longleftrightarrow>
     (s = Unknown \<and> (\<exists>b. web 0 (outspend_url x base p) = HttpStatus 404 b)) \<or>
     (\<exists>code text r. web 0 (outspend_url x base p) = HttpStatus code (Inr text) \<and> 200 \<le> code \<and> code < 300 \<and>
        ej_outspend j text = Inr r \<and> outspend_says x r s)"
  unfolding outspend_to_status_Inr [symmetric]
  by (auto simp: web_call_def esplora_outpoint_status_def get_opt_def get_text_opt_def outspend_url_def Let_def
      io_bind_def io_call_def io_ret_def io_fail_def io_of_def split: http_answer.splits sum.splits)

lemma reads_esplora_outspends:
  "reads d (esplora_tx_outspends x j web base txid) (\<lambda>r. \<forall>sts. r = Some sts \<longrightarrow>
     (\<exists>rs. decoded web (outspends_url x base txid) (ej_outspends j) rs \<and> collect (outspend_to_status x) rs = Inr sts))"
  unfolding esplora_tx_outspends_def
proof (rule reads_bind [OF reads_get_opt], goal_cases)
  case (1 r)
  show ?case
  proof (cases r)
    case (Some rs)
    with 1 have "decoded web (outspends_url x base txid) (ej_outspends j) rs" by (simp add: outspends_url_def)
    then show ?thesis
      unfolding Some option.case
      by (intro reads_bind [OF reads_of [where Q = "\<lambda>sts. collect (outspend_to_status x) rs = Inr sts"]] reads_ret) auto
  qed (simp add: reads_ret)
qed

text \<open>A structure that the server serves for an output, alone or with the others of its transaction.\<close>

definition esplora_serves :: "esplora_json \<Rightarrow> ext \<Rightarrow> web \<Rightarrow> string \<Rightarrow> btc_out_point \<Rightarrow> esplora_outspend \<Rightarrow> bool" where
  "esplora_serves j x web base p r \<longleftrightarrow>
     decoded web (outspend_url x base p) (ej_outspend j) r \<or>
     (\<exists>rs. decoded web (outspends_url x base (bo_txid p)) (ej_outspends j) rs \<and>
        unat (bo_vout p) < length rs \<and> rs ! unat (bo_vout p) = r)"

lemma reads_esplora_status:
  "reads d (esplora_outpoint_status x j web base p) (\<lambda>s. s = Unknown \<or> (\<exists>r. esplora_serves j x web base p r \<and> outspend_says x r s))"
  unfolding esplora_outpoint_status_def
proof (rule reads_bind [OF reads_get_opt], goal_cases)
  case (1 r)
  then show ?case
    by (cases r) (auto intro!: reads_ret reads_of simp: esplora_serves_def outspend_url_def outspend_to_status_Inr)
qed

section \<open>From the server to the tables\<close>

text \<open>A status that the data source answers, for whichever call, comes from its server.\<close>

lemma esplora_answered:
  assumes "answered (esplora_source x j web url) p s"
  shows "s = Unknown \<or> (\<exists>n r. esplora_serves j x (web n) (source_base url) p r \<and> outspend_says x r s)"
proof -
  let ?base = "source_base url"
  from assms consider n where "web_call (esplora_outpoint_status x j (web n) ?base p) = Inr s"
    | n sts where "web_call (esplora_tx_outspends x j (web n) ?base (bo_txid p)) = Inr (Some sts)"
        "s = (if unat (bo_vout p) < length sts then sts ! unat (bo_vout p) else Unknown)"
    unfolding answered_def by (auto simp: esplora_source_def Let_def)
  then show ?thesis
  proof cases
    case 1
    from web_call_reads [OF this reads_esplora_status] show ?thesis by blast
  next
    case 2
    from web_call_reads [OF 2(1) reads_esplora_outspends] obtain rs where
      rs: "decoded (web n) (outspends_url x ?base (bo_txid p)) (ej_outspends j) rs" "collect (outspend_to_status x) rs = Inr sts" by blast
    have "esplora_serves j x (web n) ?base p (rs ! unat (bo_vout p)) \<and> outspend_says x (rs ! unat (bo_vout p)) s"
      if "unat (bo_vout p) < length sts"
      using that 2(2) rs unfolding collect_Inr_iff esplora_serves_def
      by (auto simp: list_all2_conv_all_nth outspend_to_status_Inr)
    with 2(2) show ?thesis by (cases "unat (bo_vout p) < length sts") auto
  qed
qed

lemma blockbook_answered:
  assumes "answered (blockbook_source x j web url) p s"
  shows "\<exists>n. grounded x j (web n) (source_base url) p s"
proof -
  let ?base = "source_base url"
  from assms consider n where "web_call (blockbook_outpoint_status x j (web n) ?base p) = Inr s"
    | n sts where "web_call (blockbook_tx_outspends x j (web n) ?base (bo_txid p)) = Inr (Some sts)"
        "s = (if unat (bo_vout p) < length sts then sts ! unat (bo_vout p) else Unknown)"
    unfolding answered_def by (auto simp: blockbook_source_def Let_def)
  then show ?thesis
  proof cases
    case 1
    from web_call_reads [OF this reads_blockbook_status] show ?thesis by blast
  next
    case 2
    from web_call_reads [OF 2(1) reads_blockbook_outspends] have "all_grounded x j (web n) ?base (bo_txid p) sts" by blast
    moreover have "\<lparr> bo_txid = bo_txid p, bo_vout = bo_vout p \<rparr> = p" by (cases p) simp
    ultimately have "grounded x j (web n) ?base p (sts ! unat (bo_vout p))"
      if "unat (bo_vout p) < length sts" using that unfolding all_grounded_def by metis
    with 2(2) show ?thesis by (cases "unat (bo_vout p) < length sts") auto
  qed
qed

section \<open>Two answers that lose information\<close>

text \<open>
  A status of 400 with a body that says \<open>not found\<close> is an error: the body is looked at only
  after the status was accepted.
\<close>

lemma not_found_body_under_400_is_an_error:
  assumes "\<And>n. web n (source_url base path) = HttpStatus 400 (Inr text)"
  shows "web_call (blockbook_get j web base decode path) = Inl (BEStatus 400 (source_url base path))"
  by (simp add: web_call_def blockbook_get_def get_text_opt_def assms io_bind_def io_call_def io_fail_def Let_def)

text \<open>
  A spent output whose spender is not found is reported unknown, and recording that over a
  spend makes the status of its unconsumed cell live again.
\<close>

lemma unresolved_spend_reads_live:
  assumes "cd_consumed_block c = None" "nc_btc_vout c = Some (as_i32 (bo_vout p))" "nc_btc_txid c = to_display_vec (bo_txid p)"
  shows "cr_status (cell_status_row (snd (upsert_observation (to_display_vec (bo_txid p)) (as_i32 (bo_vout p)) Unknown a source now d)) c) = ''live''"
proof -
  let ?d = "snd (upsert_observation (to_display_vec (bo_txid p)) (as_i32 (bo_vout p)) Unknown a source now d)"
  have "\<exists>r. lookup_row outpoint_key (to_display_vec (bo_txid p), as_i32 (bo_vout p)) (d_outpoints ?d) = Some r \<and> ob_status r = ''unknown''"
    by (auto simp: upsert_observation_def outpoints_table.lookup_upsert observed_row_def observation_merge_def outpoint_key_def
        split: option.split)
  then obtain r where "lookup_row outpoint_key (to_display_vec (bo_txid p), as_i32 (bo_vout p)) (d_outpoints ?d) = Some r"
    "ob_status r = ''unknown''" by blast
  with assms show ?thesis by (simp add: cell_status_row_def Let_def binding_observation_def view_status_def)
qed

end
