(* ===== verification/Address_Safety.thy ===== *)
theory Address_Safety
  imports Api_Props Btc_Clients_Props
begin

text \<open>
  What a caller of the API can make the program ask of the Bitcoin data source by the address
  in a URL. The address is spliced into the path of a request of the clients, so a character
  with a meaning there must not get through (\<open>check_address\<close> of \<open>handlers.rs\<close> and
  \<open>validate_address\<close> of \<open>bitcoin.rs\<close>).
\<close>

section \<open>Characters without a meaning in a path\<close>

definition plain_char :: "char \<Rightarrow> bool" where
  "plain_char c \<longleftrightarrow> CHR ''0'' \<le> c \<and> c \<le> CHR ''9'' \<or> CHR ''A'' \<le> c \<and> c \<le> CHR ''Z'' \<or> CHR ''a'' \<le> c \<and> c \<le> CHR ''z''"

text \<open>
  What the two decoders document: a segwit address is its prefix in either case, the
  separator and characters of the bech32 alphabet; base58 has an alphabet of digits and
  letters.
\<close>

definition codec_alphabets :: "ext \<Rightarrow> bool" where
  "codec_alphabets x \<longleftrightarrow>
     (\<forall>a hrp. ex_segwit_hrp x a = Some hrp \<longrightarrow>
        (\<exists>dat. to_ascii_lowercase a = to_ascii_lowercase hrp @ CHR ''1'' # dat \<and> list_all plain_char dat)) \<and>
     (\<forall>a payload. ex_base58check x a = Some payload \<longrightarrow> list_all plain_char a)"

lemma plain_of_lower: "plain_char (ascii_lower c) \<Longrightarrow> plain_char c"
  by (auto simp: ascii_lower_def plain_char_def split: if_splits)

lemma plain_of_lowercase: "list_all plain_char (to_ascii_lowercase s) \<Longrightarrow> list_all plain_char s"
  by (auto simp: to_ascii_lowercase_def list_all_iff intro: plain_of_lower)

lemma segwit_prefix_plain: "of_segwit_hrp hrp = Some family \<Longrightarrow> list_all plain_char (to_ascii_lowercase hrp)"
  by (auto simp: of_segwit_hrp_def Let_def plain_char_def less_eq_char_def split: if_splits)

lemma valid_address_plain:
  assumes "codec_alphabets x" "validate_address x address network = Inr ()"
  shows "list_all plain_char address"
proof (cases "ex_segwit_hrp x address")
  case (Some hrp)
  with assms(2) obtain family where "of_segwit_hrp hrp = Some family"
    by (auto simp: validate_address_def Let_def split: if_splits option.splits)
  from segwit_prefix_plain [OF this] Some assms(1) obtain dat where
    "to_ascii_lowercase address = to_ascii_lowercase hrp @ CHR ''1'' # dat" "list_all plain_char dat"
    "list_all plain_char (to_ascii_lowercase hrp)" unfolding codec_alphabets_def by blast
  then have "list_all plain_char (to_ascii_lowercase address)" by (simp add: plain_char_def less_eq_char_def)
  then show ?thesis by (rule plain_of_lowercase)
next
  case None
  with assms(2) obtain payload where "ex_base58check x address = Some payload"
    by (auto simp: validate_address_def Let_def split: if_splits option.splits)
  with assms(1) show ?thesis unfolding codec_alphabets_def by blast
qed

section \<open>A source that answers other requests differently\<close>

definition diverted :: "(nat \<Rightarrow> string \<Rightarrow> btc_error + btc_utxo list) \<Rightarrow> btc_data_source \<Rightarrow> btc_data_source" where
  "diverted other src = src\<lparr> bs_address_utxos :=
     (\<lambda>n a. if list_all plain_char a then bs_address_utxos src n a else other n a) \<rparr>"

lemma diverted_sel:
  "bs_name (diverted other src) = bs_name src" "bs_tip (diverted other src) = bs_tip src"
  "bs_block_hash_at (diverted other src) = bs_block_hash_at src" "bs_transaction (diverted other src) = bs_transaction src"
  "bs_outpoint_status (diverted other src) = bs_outpoint_status src" "bs_tx_outspends (diverted other src) = bs_tx_outspends src"
  by (simp_all add: diverted_def)

lemma diverted_utxos: "list_all plain_char a \<Longrightarrow> bs_address_utxos (diverted other src) n a = bs_address_utxos src n a"
  by (simp add: diverted_def)

lemma diverted_refresh_tx: "refresh_btc_tx e x (diverted other src) txid = refresh_btc_tx e x src txid"
  unfolding refresh_btc_tx_def diverted_sel by (rule refl)

lemma diverted_observe: "observe_many (diverted other src) ps = observe_many src ps"
  unfolding observe_many_def observe_group_def observe_each_def diverted_sel by (rule refl)

lemma diverted_one: "refresh_one e x (diverted other src) = refresh_one e x src"
  by (intro ext) (simp only: refresh_one_def record_observation_def follow_up_spend_def diverted_sel diverted_refresh_tx)

lemma diverted_refresh: "refresh_outpoints e x (diverted other src) cfg ps = refresh_outpoints e x src cfg ps"
  unfolding refresh_outpoints_def diverted_observe diverted_one by (rule refl)

lemma diverted_resolve: "resolve_transition e x ck (diverted other src) cfg txid = resolve_transition e x ck src cfg txid"
  unfolding resolve_transition_def diverted_refresh_tx diverted_refresh by (rule refl)

lemma diverted_reconcile:
  "list_all plain_char address \<Longrightarrow> reconcile_address e x (diverted other src) cfg address = reconcile_address e x src cfg address"
  unfolding reconcile_address_def diverted_refresh by (simp only: diverted_utxos)

abbreviation diverted_services :: "(nat \<Rightarrow> string \<Rightarrow> btc_error + btc_utxo list) \<Rightarrow> services \<Rightarrow> services" where
  "diverted_services other s \<equiv> s\<lparr> sv_btc := diverted other (sv_btc s) \<rparr>"

lemma diverted_check: "check_address (diverted_services other s) cfg address = check_address s cfg address"
  by (simp add: check_address_def)

text \<open>What follows the check runs with a plain address.\<close>

lemma after_check:
  assumes "codec_alphabets (sv_ext s)" and same: "list_all plain_char address \<Longrightarrow> f = g"
  shows "io_bind (check_address s cfg address) (\<lambda>_. f) w = io_bind (check_address s cfg address) (\<lambda>_. g) w"
proof -
  obtain r w' where run: "check_address s cfg address w = (r, w')" by (meson surj_pair)
  show ?thesis
  proof (cases r)
    case (Inr u)
    with run have "validate_address (sv_ext s) address (the (btc_network (c_btc cfg))) = Inr ()"
      by (auto simp: check_address_def or_panic_def api_parse_def api_refuse_def io_bind_def io_fail_def io_ret_def
          split: option.splits sum.splits)
    from same [OF valid_address_plain [OF assms(1) this]] show ?thesis by simp
  qed (simp add: io_bind_def run)
qed

lemma diverted_outpoints:
  assumes "codec_alphabets (sv_ext s)"
  shows "address_outpoints (diverted_services other s) cfg address wanted = address_outpoints s cfg address wanted"
proof
  fix w
  show "address_outpoints (diverted_services other s) cfg address wanted w = address_outpoints s cfg address wanted w"
    unfolding address_outpoints_def diverted_check
    by (rule after_check [OF assms]) (simp add: diverted_reconcile diverted_utxos cong: if_cong)
qed

section \<open>Properties\<close>

text \<open>
  C18.
  A caller cannot steer the requests to the data source by an address. If the source
  answered every lookup of an address that is not made of ASCII letters and digits in any
  other way, no request of the API, however malformed, would get another answer or leave
  another database: no such lookup is sent. The documented alphabets of the two address
  encodings are assumed.
\<close>

theorem callers_cannot_steer_requests:
  assumes "codec_alphabets (sv_ext s)"
  shows "handle (diverted_services other s) cfg req w = handle s cfg req w"
proof (cases req)
  case (GetStatus)
  then show ?thesis by (simp add: status_handler_def diverted_sel)
next
  case (GetCellsByUtxo path q)
  then show ?thesis by (simp add: cells_by_btc_utxo_def diverted_refresh cong: if_cong)
next
  case (GetAddressAssets path q)
  then show ?thesis by (simp add: assets_by_btc_address_def diverted_outpoints [OF assms])
next
  case (GetBalance path q)
  then show ?thesis by (simp add: balance_by_btc_address_def diverted_outpoints [OF assms])
next
  case (GetTransactionStatus path)
  then show ?thesis by (simp add: transaction_status_def diverted_resolve)
next
  case (PostRefresh json)
  then show ?thesis by (simp add: refresh_outpoints_handler_def diverted_refresh cong: if_cong)
next
  case (GetActivity path q)
  then show ?thesis by (simp add: activity_by_btc_address_def diverted_check cong: if_cong)
qed (simp_all add: handler_defs)

text \<open>A decoder of segwit addresses that respects the alphabet, and an address that does not.\<close>

definition strict_ext :: ext where
  "strict_ext = ref_ext\<lparr> ex_segwit_hrp := (\<lambda>a. case split_once CHR ''1'' a of
     None \<Rightarrow> None | Some (hrp, dat) \<Rightarrow> if list_all plain_char dat then Some hrp else None) \<rparr>"

lemma strict_ext_alphabets: "codec_alphabets strict_ext"
  unfolding codec_alphabets_def
proof (intro conjI allI impI)
  fix a hrp assume "ex_segwit_hrp strict_ext a = Some hrp"
  then obtain dat where "split_once CHR ''1'' a = Some (hrp, dat)" and dat: "list_all plain_char dat"
    by (auto simp: strict_ext_def split: option.splits if_splits)
  then have "a = hrp @ CHR ''1'' # dat" using split_once_Some by blast
  moreover have "list_all plain_char (to_ascii_lowercase dat)"
    using dat by (auto simp: list_all_iff to_ascii_lowercase_def ascii_lower_def plain_char_def less_eq_char_def)
  ultimately show "\<exists>dat. to_ascii_lowercase a = to_ascii_lowercase hrp @ CHR ''1'' # dat \<and> list_all plain_char dat"
    by (intro exI [of _ "to_ascii_lowercase dat"]) (simp add: to_ascii_lowercase_def ascii_lower_def less_eq_char_def)
qed (simp add: strict_ext_def)

lemma callers_cannot_steer_requests_witness:
  "handle (diverted_services (\<lambda>n a. Inr []) (isolated\<lparr> sv_ext := strict_ext \<rparr>)) mainnet_config
     (GetBalance (Inr ''bc1/../tx'') (Inr \<lparr> bq_reconcile = None, bq_include_pending = True \<rparr>)) (world_of empty_db) =
   handle (isolated\<lparr> sv_ext := strict_ext \<rparr>) mainnet_config
     (GetBalance (Inr ''bc1/../tx'') (Inr \<lparr> bq_reconcile = None, bq_include_pending = True \<rparr>)) (world_of empty_db)"
  by (rule callers_cannot_steer_requests) (simp add: strict_ext_alphabets)

end
