(* ===== verification/Openapi.thy ===== *)
theory Openapi
  imports Wire
begin

text \<open>
  The OpenAPI document of \<open>crates/api/src/lib.rs\<close>: the schemas that \<open>derive(ToSchema)\<close> gives
  for the structs of \<open>dto.rs\<close> and \<open>handlers.rs\<close> (a field of \<open>Option\<close> type is nullable and not
  required; \<open>docs/openapi.json\<close> is the committed outcome), the rule of the program that makes
  every field of a response required, the responses that each handler's annotation documents,
  and validation of a JSON value against a schema. Descriptions and examples are left out.
\<close>

section \<open>Schemas\<close>

datatype int_format = Int32 | Int64 | Unsized

text \<open>The flags: a minimum of 0, and \<open>null\<close> allowed. \<open>SRef\<close> names a component.\<close>

datatype schema =
    SNull
  | SBool
  | SStr bool
  | SDate bool
  | SInt int_format bool bool
  | SText "string list"
  | SAnyObject
  | SRef string
  | SArr schema
  | SObj "(string \<times> schema) list" "string list"
  | SOneOf "schema list"

abbreviation "f_str \<equiv> SStr False"
abbreviation "f_date \<equiv> SDate False"
abbreviation "f_i32 \<equiv> SInt Int32 False False"
abbreviation "f_i64 \<equiv> SInt Int64 False False"
abbreviation "f_u32 \<equiv> SInt Int32 True False"
abbreviation "f_usize \<equiv> SInt Unsized True False"

text \<open>The schema of an \<open>Option\<close> field.\<close>

fun optional :: "schema \<Rightarrow> schema" where
  "optional (SStr n) = SStr True"
| "optional (SDate n) = SDate True"
| "optional (SInt f m n) = SInt f m True"
| "optional s = SOneOf [SNull, s]"

fun is_optional :: "schema \<Rightarrow> bool" where
  "is_optional (SStr n) = n"
| "is_optional (SDate n) = n"
| "is_optional (SInt f m n) = n"
| "is_optional (SOneOf (SNull # ss)) = True"
| "is_optional s = False"

text \<open>What the derive macro makes of the fields of a struct.\<close>

definition derive_struct :: "(string \<times> schema) list \<Rightarrow> schema" where
  "derive_struct props = SObj props (map fst (filter (\<lambda>f. \<not> is_optional (snd f)) props))"

text \<open>A variant of an internally tagged enum.\<close>

definition derive_variant :: "string \<Rightarrow> string \<Rightarrow> (string \<times> schema) list \<Rightarrow> schema" where
  "derive_variant tag name props = derive_struct ((tag, SText [name]) # props)"

section \<open>The rule for responses\<close>

fun is_ref :: "schema \<Rightarrow> bool" where
  "is_ref (SRef name) = True"
| "is_ref s = False"

fun require_all :: "schema \<Rightarrow> schema" where
  "require_all (SObj props req) = SObj props (map fst props)"
| "require_all (SOneOf items) = SOneOf (map (\<lambda>item. if is_ref item then item else require_all item) items)"
| "require_all s = s"

definition REQUEST_BODIES :: "string list" where
  "REQUEST_BODIES = [''RefreshRequest'', ''AssetsBatchRequest'', ''CellsBatchRequest'', ''TransitionsBatchRequest'']"

definition require_every_response_field :: "(string \<times> schema) list \<Rightarrow> (string \<times> schema) list" where
  "require_every_response_field schemas =
     map (\<lambda>(name, s). (name, if name \<in> set REQUEST_BODIES \<or> is_ref s then s else require_all s)) schemas"

section \<open>The schemas of the structs\<close>

definition ckb_point_schema :: schema where "ckb_point_schema = derive_struct [(''tx_hash'', f_str), (''index'', f_u32)]"
definition btc_point_schema :: schema where "btc_point_schema = derive_struct [(''txid'', f_str), (''vout'', f_u32)]"

definition btc_time_schema :: schema where
  "btc_time_schema = derive_struct [(''after'', f_u32), (''btc_txid'', f_str), (''target_lock'', optional (SRef ''ScriptDto''))]"

definition created_schema :: schema where "created_schema = derive_struct [(''block_number'', f_i64), (''tx_index'', f_i32)]"
definition consumed_schema :: schema where "consumed_schema = derive_struct [(''block_number'', f_i64), (''tx_hash'', f_str)]"

definition btc_observation_schema :: schema where
  "btc_observation_schema = derive_struct
     [(''status'', f_str), (''spender'', optional f_str), (''height'', optional f_i32), (''observed_at'', optional f_date),
      (''address'', optional f_str)]"

definition cell_schema :: schema where
  "cell_schema = derive_struct
     [(''ckb_out_point'', SRef ''CkbOutPointDto''), (''lock_kind'', f_str), (''btc_out_point'', optional (SRef ''BtcOutPointDto'')),
      (''btc_time'', optional (SRef ''BtcTimeDto'')), (''type_hash'', optional f_str), (''type_script'', optional (SRef ''ScriptDto'')),
      (''asset_kind'', f_str), (''amount'', optional f_str), (''capacity'', f_str), (''data'', f_str), (''status'', f_str),
      (''created'', SRef ''CreatedDto''), (''consumed'', optional (SRef ''ConsumedDto'')),
      (''btc_observation'', optional (SRef ''BtcObservationDto''))]"

definition transition_schema :: schema where
  "transition_schema = derive_struct
     [(''ckb_tx_hash'', f_str), (''block_number'', f_i64), (''tx_index'', f_i32), (''block_timestamp'', optional f_date), (''kind'', f_str),
      (''btc_txid'', optional f_str), (''input_cell_count'', f_i32), (''output_cell_count'', f_i32),
      (''expected_commitment'', optional f_str), (''observed_commitment'', optional f_str), (''commitment_status'', f_str)]"

definition asset_balance_schema :: schema where
  "asset_balance_schema = derive_struct
     [(''asset_kind'', f_str), (''type_hash'', optional f_str), (''cell_count'', f_i64), (''total_capacity'', f_str),
      (''total_amount'', optional f_str)]"

definition asset_schema :: schema where
  "asset_schema = derive_struct
     [(''type_hash'', f_str), (''asset_kind'', f_str), (''cell_count'', f_i64), (''live_cell_count'', f_i64), (''live_seal_count'', f_i64),
      (''holder_count'', f_i64), (''unlabelled_seal_count'', f_i64), (''total_amount'', optional f_str), (''first_block_number'', f_i64),
      (''first_ckb_tx_hash'', f_str), (''last_block_number'', f_i64)]"

definition anomaly_schema :: schema where
  "anomaly_schema = derive_struct
     [(''id'', f_i64), (''kind'', f_str), (''btc_out_point'', optional (SRef ''BtcOutPointDto'')),
      (''ckb_out_point'', optional (SRef ''CkbOutPointDto'')), (''detail'', SAnyObject), (''detected_at'', f_date), (''last_seen_at'', f_date),
      (''resolved_at'', optional f_date)]"

definition status_schema :: schema where
  "status_schema = derive_struct
     [(''network'', f_str), (''btc_source'', f_str), (''ckb'', SRef ''CkbStatusDto''), (''counts'', SRef ''CountsDto''),
      (''last_sweep'', optional (SRef ''SweepStatusDto''))]"

definition ckb_status_schema :: schema where
  "ckb_status_schema = derive_struct
     [(''indexed_to'', f_i64), (''target'', optional f_i64), (''chain_tip'', optional f_i64), (''reorg_lag'', f_i64),
      (''blocks_behind'', optional f_i64), (''last_error'', optional f_str), (''updated_at'', f_date)]"

definition sweep_status_schema :: schema where
  "sweep_status_schema = derive_struct
     [(''id'', f_i64), (''started_at'', f_date), (''finished_at'', optional f_date), (''outpoints_checked'', f_i64),
      (''anomalies_found'', f_i64), (''status'', f_str)]"

definition script_schema :: schema where
  "script_schema = derive_struct [(''code_hash'', f_str), (''hash_type'', f_str), (''args'', f_str)]"

definition counts_schema :: schema where
  "counts_schema = derive_struct
     [(''total_cells'', f_i64), (''live_cells'', f_i64), (''pending_ckb_cells'', f_i64), (''transitions'', f_i64),
      (''observed_outpoints'', f_i64), (''open_anomalies'', f_i64), (''refresh_queue_depth'', f_i64), (''udts'', f_i64), (''dobs'', f_i64)]"

definition spend_status_schema :: schema where
  "spend_status_schema = SOneOf
     [derive_variant ''status'' ''unknown'' [], derive_variant ''status'' ''unspent'' [],
      derive_variant ''status'' ''spent_unconfirmed'' [(''spender'', f_str)],
      derive_variant ''status'' ''spent_confirmed'' [(''spender'', f_str), (''height'', f_u32)]]"

definition refresh_schema :: schema where
  "refresh_schema = derive_struct [(''outpoint'', SRef ''BtcOutPointDto''), (''status'', SRef ''SpendStatusDto''), (''changed'', SBool)]"

definition reconcile_schema :: schema where
  "reconcile_schema = derive_struct
     [(''address'', f_str), (''source_utxo_count'', f_usize), (''disappeared'', SArr (SRef ''BtcOutPointDto'')),
      (''contradicted'', SArr (SRef ''BtcOutPointDto'')), (''refreshed'', SArr (SRef ''OutpointRefreshDto''))]"

definition resolution_schema :: schema where
  "resolution_schema = SOneOf
     [derive_variant ''state'' ''unknown_btc_tx'' [],
      derive_variant ''state'' ''awaiting_ckb'' [(''btc_confirmed'', SBool), (''btc_height'', optional f_u32)],
      derive_variant ''state'' ''ckb_seen_above_lag'' [(''cells'', SArr (SRef ''CkbOutPointDto'')), (''indexed_to'', f_i64)],
      derive_variant ''state'' ''indexed'' [(''ckb_tx_hash'', f_str), (''block_number'', f_i64)]]"

definition error_response_schema :: schema where "error_response_schema = derive_struct [(''error'', SRef ''ErrorBody'')]"
definition error_body_schema :: schema where "error_body_schema = derive_struct [(''kind'', SRef ''ErrorKind''), (''message'', f_str)]"

definition error_kind_schema :: schema where
  "error_kind_schema = SText [''bad_request'', ''not_found'', ''upstream_unavailable'', ''internal'']"

definition activity_btc_schema :: schema where
  "activity_btc_schema = derive_struct
     [(''txid'', f_str), (''confirmed'', SBool), (''block_height'', optional f_i32), (''block_hash'', optional f_str),
      (''block_time'', optional f_date), (''fee'', optional f_str)]"

definition activity_cell_schema :: schema where
  "activity_cell_schema = derive_struct
     [(''ckb_out_point'', SRef ''CkbOutPointDto''), (''btc_out_point'', optional (SRef ''BtcOutPointDto'')), (''asset_kind'', f_str),
      (''type_hash'', optional f_str), (''amount'', optional f_str), (''capacity'', f_str)]"

definition asset_delta_schema :: schema where
  "asset_delta_schema = derive_struct
     [(''asset_kind'', f_str), (''type_hash'', optional f_str), (''amount'', optional f_str), (''capacity'', f_str), (''cell_delta'', f_i64)]"

definition direction_schema :: schema where "direction_schema = SText [''in'', ''out'', ''self_'']"

definition activity_entry_schema :: schema where
  "activity_entry_schema = derive_struct
     [(''ckb_tx_hash'', f_str), (''block_number'', f_i64), (''tx_index'', f_i32), (''block_timestamp'', optional f_date), (''kind'', f_str),
      (''direction'', SRef ''ActivityDirection''), (''btc'', optional (SRef ''ActivityBtcDto'')),
      (''received'', SArr (SRef ''ActivityCellDto'')), (''sent'', SArr (SRef ''ActivityCellDto'')),
      (''deltas'', SArr (SRef ''AssetDeltaDto'')), (''cursor'', f_str)]"

definition address_activity_schema :: schema where
  "address_activity_schema = derive_struct
     [(''address'', f_str), (''entries'', SArr (SRef ''ActivityEntryDto'')), (''next_cursor'', optional f_str),
      (''unresolved_bindings_total'', f_i64)]"

definition health_schema :: schema where "health_schema = derive_struct [(''status'', f_str)]"

definition address_assets_schema :: schema where
  "address_assets_schema = derive_struct
     [(''address'', f_str), (''reconciliation'', optional (SRef ''AddressReconcileDto'')), (''cells'', SArr (SRef ''CellDto''))]"

definition balance_response_schema :: schema where
  "balance_response_schema = derive_struct [(''address'', f_str), (''include_pending'', SBool), (''assets'', SArr (SRef ''AssetBalanceDto''))]"

definition transaction_status_schema :: schema where
  "transaction_status_schema = derive_struct
     [(''btc_txid'', f_str), (''resolution'', SRef ''TransitionResolutionDto''), (''transitions'', SArr (SRef ''TransitionDto'')),
      (''cells'', SArr (SRef ''CellDto''))]"

definition refresh_response_schema :: schema where
  "refresh_response_schema = derive_struct
     [(''requested'', f_usize), (''refreshed'', SArr (SRef ''OutpointRefreshDto'')), (''queued'', f_usize)]"

definition assets_response_schema :: schema where
  "assets_response_schema = derive_struct [(''assets'', SArr (SRef ''AssetDto'')), (''total'', f_i64)]"

definition assets_batch_response_schema :: schema where
  "assets_batch_response_schema = derive_struct [(''assets'', SArr (optional (SRef ''AssetDto'')))]"

definition cells_batch_response_schema :: schema where
  "cells_batch_response_schema = derive_struct [(''cells'', SArr (SArr (SRef ''CellDto'')))]"

definition transitions_batch_response_schema :: schema where
  "transitions_batch_response_schema = derive_struct [(''transitions'', SArr (optional (SRef ''TransitionDto'')))]"

text \<open>The bodies of requests; a field with \<open>serde(default)\<close> is not required.\<close>

definition refresh_request_schema :: schema where
  "refresh_request_schema = SObj [(''outpoints'', SArr f_str), (''synchronous'', SBool)] [''outpoints'']"

definition assets_batch_request_schema :: schema where
  "assets_batch_request_schema = derive_struct [(''type_hashes'', SArr f_str)]"

definition cells_batch_request_schema :: schema where
  "cells_batch_request_schema = SObj [(''btc_outpoints'', SArr f_str), (''include_spent'', SBool)] [''btc_outpoints'']"

definition transitions_batch_request_schema :: schema where
  "transitions_batch_request_schema = derive_struct [(''ckb_tx_hashes'', SArr f_str)]"

definition derived_schemas :: "(string \<times> schema) list" where
  "derived_schemas =
     [(''ActivityBtcDto'', activity_btc_schema), (''ActivityCellDto'', activity_cell_schema), (''ActivityDirection'', direction_schema),
      (''ActivityEntryDto'', activity_entry_schema), (''AddressActivityDto'', address_activity_schema),
      (''AddressAssetsResponse'', address_assets_schema), (''AddressReconcileDto'', reconcile_schema), (''AnomalyDto'', anomaly_schema),
      (''AssetBalanceDto'', asset_balance_schema), (''AssetDeltaDto'', asset_delta_schema), (''AssetDto'', asset_schema),
      (''AssetsBatchRequest'', assets_batch_request_schema), (''AssetsBatchResponse'', assets_batch_response_schema),
      (''AssetsResponse'', assets_response_schema), (''BalanceResponse'', balance_response_schema),
      (''BtcObservationDto'', btc_observation_schema), (''BtcOutPointDto'', btc_point_schema), (''BtcTimeDto'', btc_time_schema),
      (''CellDto'', cell_schema), (''CellsBatchRequest'', cells_batch_request_schema), (''CellsBatchResponse'', cells_batch_response_schema),
      (''CkbOutPointDto'', ckb_point_schema), (''CkbStatusDto'', ckb_status_schema), (''ConsumedDto'', consumed_schema),
      (''CountsDto'', counts_schema), (''CreatedDto'', created_schema), (''ErrorBody'', error_body_schema), (''ErrorKind'', error_kind_schema),
      (''ErrorResponse'', error_response_schema), (''HealthDto'', health_schema), (''OutpointRefreshDto'', refresh_schema),
      (''RefreshRequest'', refresh_request_schema), (''RefreshResponse'', refresh_response_schema), (''ScriptDto'', script_schema),
      (''SpendStatusDto'', spend_status_schema), (''StatusDto'', status_schema), (''SweepStatusDto'', sweep_status_schema),
      (''TransactionStatusResponse'', transaction_status_schema), (''TransitionDto'', transition_schema),
      (''TransitionResolutionDto'', resolution_schema), (''TransitionsBatchRequest'', transitions_batch_request_schema),
      (''TransitionsBatchResponse'', transitions_batch_response_schema)]"

definition published_schemas :: "(string \<times> schema) list" where
  "published_schemas = require_every_response_field derived_schemas"

section \<open>Documented responses\<close>

text \<open>What the \<open>utoipa::path\<close> annotation of each handler documents: statuses and their schemas.\<close>

type_synonym responses = "(nat \<times> schema) list"

definition answers_error :: "nat \<Rightarrow> nat \<times> schema" where "answers_error code = (code, SRef ''ErrorResponse'')"

definition health_responses :: responses where
  "health_responses = [(200, SRef ''HealthDto'')]"

definition status_responses :: responses where
  "status_responses = [(200, SRef ''StatusDto''), answers_error 500]"

definition cells_by_btc_utxo_responses :: responses where
  "cells_by_btc_utxo_responses = [(200, SArr (SRef ''CellDto'')), answers_error 400, answers_error 502, answers_error 500]"

definition cells_by_btc_txid_responses :: responses where
  "cells_by_btc_txid_responses = [(200, SArr (SRef ''CellDto'')), answers_error 400, answers_error 500]"

definition cell_by_ckb_out_point_responses :: responses where
  "cell_by_ckb_out_point_responses = [(200, SRef ''CellDto''), answers_error 400, answers_error 404, answers_error 500]"

definition assets_by_btc_address_responses :: responses where
  "assets_by_btc_address_responses = [(200, SRef ''AddressAssetsResponse''), answers_error 400, answers_error 502, answers_error 500]"

definition balance_by_btc_address_responses :: responses where
  "balance_by_btc_address_responses = [(200, SRef ''BalanceResponse''), answers_error 400, answers_error 502, answers_error 500]"

definition transaction_status_responses :: responses where
  "transaction_status_responses = [(200, SRef ''TransactionStatusResponse''), answers_error 400, answers_error 502, answers_error 500]"

definition refresh_outpoints_responses :: responses where
  "refresh_outpoints_responses = [(200, SRef ''RefreshResponse''), answers_error 400, answers_error 502, answers_error 500]"

definition list_assets_responses :: responses where
  "list_assets_responses = [(200, SRef ''AssetsResponse''), answers_error 400, answers_error 500]"

definition assets_batch_responses :: responses where
  "assets_batch_responses = [(200, SRef ''AssetsBatchResponse''), answers_error 400, answers_error 500]"

definition cells_batch_responses :: responses where
  "cells_batch_responses = [(200, SRef ''CellsBatchResponse''), answers_error 400, answers_error 500]"

definition transitions_batch_responses :: responses where
  "transitions_batch_responses = [(200, SRef ''TransitionsBatchResponse''), answers_error 400, answers_error 500]"

definition recent_transitions_responses :: responses where
  "recent_transitions_responses = [(200, SArr (SRef ''TransitionDto'')), answers_error 400, answers_error 500]"

definition transition_by_ckb_tx_responses :: responses where
  "transition_by_ckb_tx_responses = [(200, SRef ''TransitionDto''), answers_error 400, answers_error 404, answers_error 500]"

definition activity_by_btc_address_responses :: responses where
  "activity_by_btc_address_responses = [(200, SRef ''AddressActivityDto''), answers_error 400, answers_error 500]"

definition anomalies_responses :: responses where
  "anomalies_responses = [(200, SArr (SRef ''AnomalyDto'')), answers_error 400, answers_error 500]"

text \<open>The table of \<open>documented_routes\<close>.\<close>

fun documented_responses :: "api_request \<Rightarrow> responses" where
  "documented_responses GetHealth = health_responses"
| "documented_responses GetStatus = status_responses"
| "documented_responses (GetCellsByUtxo path q) = cells_by_btc_utxo_responses"
| "documented_responses (GetCellsByTxid path) = cells_by_btc_txid_responses"
| "documented_responses (GetCellByOutPoint path) = cell_by_ckb_out_point_responses"
| "documented_responses (GetAddressAssets path q) = assets_by_btc_address_responses"
| "documented_responses (GetBalance path q) = balance_by_btc_address_responses"
| "documented_responses (GetTransactionStatus path) = transaction_status_responses"
| "documented_responses (GetActivity path q) = activity_by_btc_address_responses"
| "documented_responses (GetAssets q) = list_assets_responses"
| "documented_responses (PostAssetsBatch json) = assets_batch_responses"
| "documented_responses (PostCellsBatch json) = cells_batch_responses"
| "documented_responses (PostTransitionsBatch json) = transitions_batch_responses"
| "documented_responses (GetTransitions q) = recent_transitions_responses"
| "documented_responses (GetTransition path) = transition_by_ckb_tx_responses"
| "documented_responses (PostRefresh json) = refresh_outpoints_responses"
| "documented_responses (GetAnomalies q) = anomalies_responses"

section \<open>Validation\<close>

text \<open>
  A value against a schema, with a supply that bounds the depth. It is JSON Schema but for one
  thing: a member that the schema does not name is refused. Formats are annotations there and
  constrain nothing.
\<close>

fun valid :: "nat \<Rightarrow> (string \<Rightarrow> schema option) \<Rightarrow> schema \<Rightarrow> json \<Rightarrow> bool" where
  "valid 0 env s v = False"
| "valid (Suc n) env SNull v = (v = JNull)"
| "valid (Suc n) env SBool v = (case v of JBool b \<Rightarrow> True | _ \<Rightarrow> False)"
| "valid (Suc n) env (SStr null) v = (case v of JStr t \<Rightarrow> True | JNull \<Rightarrow> null | _ \<Rightarrow> False)"
| "valid (Suc n) env (SDate null) v = (case v of JStr t \<Rightarrow> True | JNull \<Rightarrow> null | _ \<Rightarrow> False)"
| "valid (Suc n) env (SInt format minimum null) v = (case v of JInt i \<Rightarrow> (minimum \<longrightarrow> 0 \<le> i) | JNull \<Rightarrow> null | _ \<Rightarrow> False)"
| "valid (Suc n) env (SText texts) v = (case v of JStr t \<Rightarrow> t \<in> set texts | _ \<Rightarrow> False)"
| "valid (Suc n) env SAnyObject v = (case v of JObj members \<Rightarrow> True | _ \<Rightarrow> False)"
| "valid (Suc n) env (SRef name) v = (case env name of None \<Rightarrow> False | Some s \<Rightarrow> valid n env s v)"
| "valid (Suc n) env (SArr s) v = (case v of JArr vs \<Rightarrow> list_all (valid n env s) vs | _ \<Rightarrow> False)"
| "valid (Suc n) env (SObj props req) v =
     (case v of
        JObj members \<Rightarrow>
          list_all (\<lambda>name. map_of members name \<noteq> None) req \<and>
          list_all (\<lambda>(name, s). case map_of members name of None \<Rightarrow> True | Some w \<Rightarrow> valid n env s w) props \<and>
          list_all (\<lambda>(name, w). name \<in> set (map fst props)) members
      | _ \<Rightarrow> False)"
| "valid (Suc n) env (SOneOf ss) v = (length (filter (\<lambda>s. valid n env s v) ss) = 1)"

text \<open>A number in the range that its format names.\<close>

fun in_format :: "int_format \<Rightarrow> int \<Rightarrow> bool" where
  "in_format Int32 i \<longleftrightarrow> - (2 ^ 31) \<le> i \<and> i < 2 ^ 31"
| "in_format Int64 i \<longleftrightarrow> - (2 ^ 63) \<le> i \<and> i < 2 ^ 63"
| "in_format Unsized i \<longleftrightarrow> True"

end
