(* ===== verification/Api_Schemas.thy ===== *)
theory Api_Schemas
  imports Openapi
begin

text \<open>
  The published schemas against the responses: what the rule for responses does to a schema,
  and that the JSON of every response shape validates against the schema of its name.
\<close>

section \<open>The rule for responses\<close>

fun forget_required :: "schema \<Rightarrow> schema" where
  "forget_required (SObj props req) = SObj props []"
| "forget_required (SOneOf items) = SOneOf (map forget_required items)"
| "forget_required s = s"

text \<open>Every object that the rule reaches requires all its properties.\<close>

fun all_required :: "schema \<Rightarrow> bool" where
  "all_required (SObj props req) \<longleftrightarrow> req = map fst props"
| "all_required (SOneOf items) \<longleftrightarrow> list_all all_required items"
| "all_required s \<longleftrightarrow> True"

lemma require_all_items: "require_all (SOneOf items) = SOneOf (map require_all items)"
proof -
  have "(if is_ref s then s else require_all s) = require_all s" for s by (cases s) simp_all
  then show ?thesis by simp
qed

lemma require_all_keeps:
  "forget_required (require_all s) = forget_required s" "all_required (require_all s)" "require_all (require_all s) = require_all s"
  by (induction s) (auto simp: require_all_items list_all_iff simp del: require_all.simps(2))

lemma rule_lookup:
  "map_of (require_every_response_field schemas) name =
     map_option (\<lambda>s. if name \<in> set REQUEST_BODIES then s else require_all s) (map_of schemas name)"
proof -
  have "is_ref s \<Longrightarrow> require_all s = s" for s by (cases s) simp_all
  then show ?thesis by (induction schemas) (auto simp: require_every_response_field_def)
qed

text \<open>
  The rule changes the list of required properties and nothing else, requires every property
  of a response, and leaves the bodies of requests alone.
\<close>

lemma responses_require_everything:
  assumes "map_of (require_every_response_field schemas) name = Some s'"
  shows "\<exists>s. map_of schemas name = Some s \<and> forget_required s' = forget_required s \<and>
    (if name \<in> set REQUEST_BODIES then s' = s else all_required s')"
  using assms by (auto simp: rule_lookup require_all_keeps)

lemma rule_idempotent:
  "require_every_response_field (require_every_response_field schemas) = require_every_response_field schemas"
  by (auto simp: require_every_response_field_def require_all_keeps)

section \<open>Conformance\<close>

definition published_schema :: "string \<Rightarrow> schema option" where "published_schema name = map_of published_schemas name"

text \<open>Valid with every supply from \<open>k\<close> on.\<close>

definition conforms :: "nat \<Rightarrow> schema \<Rightarrow> json \<Rightarrow> bool" where
  "conforms k s v \<longleftrightarrow> (\<forall>n \<ge> k. valid n published_schema s v)"

lemma conforms_mono: "conforms k s v \<Longrightarrow> k \<le> l \<Longrightarrow> conforms l s v"
  by (simp add: conforms_def)

lemma conforms_Suc: "conforms (Suc k) s v \<longleftrightarrow> (\<forall>n \<ge> k. valid (Suc n) published_schema s v)"
  unfolding conforms_def by (metis Suc_le_D Suc_le_mono)

lemma conforms_pos: "0 < k \<Longrightarrow> conforms k s v \<longleftrightarrow> (\<forall>n \<ge> k - 1. valid (Suc n) published_schema s v)"
  using conforms_Suc [of "k - 1"] by simp

lemma conforms_plain:
  assumes "0 < k"
  shows "conforms k SBool (JBool b)"
    "conforms k (SStr null) (JStr t)"
    "conforms k (SDate null) (JStr t)"
    "conforms k (SInt f False null) (JInt i)"
    "conforms k (SInt f minimum null) (json_nat n)"
    "conforms k (SInt f minimum null) (json_word w)"
    "t \<in> set texts \<Longrightarrow> conforms k (SText texts) (JStr t)"
    "conforms k SAnyObject (JObj members)"
    "conforms k (SStr True) (json_opt JStr so)"
    "conforms k (SDate True) (json_opt (JStr \<circ> text_of) io)"
    "conforms k (SInt f False True) (json_opt JInt io)"
    "conforms k (SInt f minimum True) (json_opt json_word wo)"
  by (auto simp: conforms_pos [OF assms] json_nat_def json_word_def json_opt_def split: option.split)

lemma conforms_list: "0 < k \<Longrightarrow> \<forall>x \<in> set xs. conforms (k - 1) s (f x) \<Longrightarrow> conforms k (SArr s) (json_list f xs)"
  by (simp add: conforms_pos json_list_def list_all_iff) (simp add: conforms_def)

lemma conforms_ref: "published_schema name = Some s \<Longrightarrow> conforms k s v \<Longrightarrow> conforms (Suc k) (SRef name) v"
  by (simp add: conforms_Suc) (simp add: conforms_def)

lemma members_lookup:
  "list_all2 (\<lambda>p m. fst p = fst m \<and> Q (snd p) (snd m)) props members \<Longrightarrow> distinct (map fst props) \<Longrightarrow> (name, s) \<in> set props \<Longrightarrow>
   \<exists>w. map_of members name = Some w \<and> Q s w"
proof (induction props members rule: list_all2_induct)
  case (Cons p ps m ms)
  show ?case
  proof (cases "(name, s) = p")
    case True
    with Cons.hyps(1) show ?thesis by (cases m) auto
  next
    case False
    with Cons.prems have "(name, s) \<in> set ps" "fst p \<noteq> name" by (auto simp: rev_image_eqI)
    with Cons show ?thesis by (cases m) auto
  qed
qed simp

lemma members_names: "list_all2 (\<lambda>p m. fst p = fst m \<and> Q (snd p) (snd m)) props members \<Longrightarrow> map fst members = map fst props"
  by (induction props members rule: list_all2_induct) auto

lemma conforms_struct:
  assumes "distinct (map fst props)" "list_all2 (\<lambda>p m. fst p = fst m \<and> conforms k (snd p) (snd m)) props members"
  shows "conforms (Suc k) (require_all (derive_struct props)) (JObj members)"
proof -
  note look = members_lookup [where Q = "conforms k", OF assms(2,1)]
  have names: "map fst members = map fst props" using members_names [OF assms(2)] .
  then have "fst ` set members = fst ` set props" by (metis set_map)
  then have "list_all (\<lambda>(name, w). name \<in> set (map fst props)) members"
    by (auto simp: list_all_iff rev_image_eqI)
  moreover have "valid n published_schema s (the (map_of members name)) \<and> map_of members name \<noteq> None"
    if "(name, s) \<in> set props" "k \<le> n" for name s n
    using look [OF that(1)] that(2) by (auto simp: conforms_def)
  ultimately show ?thesis
    by (fastforce simp: conforms_Suc derive_struct_def list_all_iff split: option.split)
qed

section \<open>The shapes\<close>

text \<open>A schema of the struct kind, with the fields that it was derived from.\<close>

definition struct_schema :: "string \<Rightarrow> (string \<times> schema) list \<Rightarrow> bool" where
  "struct_schema name props \<longleftrightarrow> published_schema name = Some (require_all (derive_struct props)) \<and> distinct (map fst props)"

lemma conforms_named:
  assumes "struct_schema name props" "list_all2 (\<lambda>p m. fst p = fst m \<and> conforms (k - 2) (snd p) (snd m)) props members" "2 \<le> k"
  shows "conforms k (SRef name) (JObj members)"
proof -
  from assms(3) obtain j where "k = Suc (Suc j)" by (metis add_2_eq_Suc le_Suc_ex)
  with assms conforms_struct [of props j members] show ?thesis
    unfolding struct_schema_def by (auto intro: conforms_ref)
qed

text \<open>\<open>null\<close> is not valid against the name.\<close>

definition refuses_null :: "string \<Rightarrow> bool" where
  "refuses_null name \<longleftrightarrow> (\<forall>n. \<not> valid n published_schema (SRef name) JNull)"

lemma struct_refuses_null: "struct_schema name props \<Longrightarrow> refuses_null name"
  unfolding refuses_null_def struct_schema_def
proof (intro allI, elim conjE)
  fix n assume "published_schema name = Some (require_all (derive_struct props))"
  moreover have "\<not> valid m published_schema (require_all (derive_struct props)) JNull" for m
    by (cases m) (simp_all add: derive_struct_def)
  ultimately show "\<not> valid n published_schema (SRef name) JNull" by (cases n) simp_all
qed

lemma conforms_opt_ref:
  assumes "refuses_null name" "\<forall>v. vo = Some v \<longrightarrow> conforms (k - 1) (SRef name) (f v) \<and> f v \<noteq> JNull" "2 \<le> k"
  shows "conforms k (SOneOf [SNull, SRef name]) (json_opt f vo)"
proof (cases vo)
  case None
  have "valid n published_schema SNull JNull" if "k - 1 \<le> n" for n using that assms(3) by (cases n) simp_all
  with None assms(1,3) show ?thesis by (simp add: conforms_pos json_opt_def refuses_null_def)
next
  case (Some v)
  with assms(2) have "\<not> valid n published_schema SNull (f v)" for n by (cases n) simp_all
  moreover from Some assms(2) have "valid n published_schema (SRef name) (f v)" if "k - 1 \<le> n" for n
    using that by (simp add: conforms_def)
  ultimately show ?thesis using Some assms(3) by (simp add: conforms_pos json_opt_def)
qed

lemma published_responses:
  shows "published_schema ''ActivityBtcDto'' = Some (require_all activity_btc_schema)"
    "published_schema ''ActivityCellDto'' = Some (require_all activity_cell_schema)"
    "published_schema ''ActivityEntryDto'' = Some (require_all activity_entry_schema)"
    "published_schema ''AddressActivityDto'' = Some (require_all address_activity_schema)"
    "published_schema ''AddressAssetsResponse'' = Some (require_all address_assets_schema)"
    "published_schema ''AddressReconcileDto'' = Some (require_all reconcile_schema)"
    "published_schema ''AnomalyDto'' = Some (require_all anomaly_schema)"
    "published_schema ''AssetBalanceDto'' = Some (require_all asset_balance_schema)"
    "published_schema ''AssetDeltaDto'' = Some (require_all asset_delta_schema)"
    "published_schema ''AssetDto'' = Some (require_all asset_schema)"
    "published_schema ''AssetsBatchResponse'' = Some (require_all assets_batch_response_schema)"
    "published_schema ''AssetsResponse'' = Some (require_all assets_response_schema)"
    "published_schema ''BalanceResponse'' = Some (require_all balance_response_schema)"
    "published_schema ''BtcObservationDto'' = Some (require_all btc_observation_schema)"
    "published_schema ''BtcOutPointDto'' = Some (require_all btc_point_schema)"
    "published_schema ''BtcTimeDto'' = Some (require_all btc_time_schema)"
    "published_schema ''CellDto'' = Some (require_all cell_schema)"
    "published_schema ''CellsBatchResponse'' = Some (require_all cells_batch_response_schema)"
    "published_schema ''CkbOutPointDto'' = Some (require_all ckb_point_schema)"
    "published_schema ''CkbStatusDto'' = Some (require_all ckb_status_schema)"
    "published_schema ''ConsumedDto'' = Some (require_all consumed_schema)"
    "published_schema ''CountsDto'' = Some (require_all counts_schema)"
    "published_schema ''CreatedDto'' = Some (require_all created_schema)"
    "published_schema ''ErrorBody'' = Some (require_all error_body_schema)"
    "published_schema ''ErrorResponse'' = Some (require_all error_response_schema)"
    "published_schema ''HealthDto'' = Some (require_all health_schema)"
    "published_schema ''OutpointRefreshDto'' = Some (require_all refresh_schema)"
    "published_schema ''RefreshResponse'' = Some (require_all refresh_response_schema)"
    "published_schema ''ScriptDto'' = Some (require_all script_schema)"
    "published_schema ''SpendStatusDto'' = Some (require_all spend_status_schema)"
    "published_schema ''StatusDto'' = Some (require_all status_schema)"
    "published_schema ''SweepStatusDto'' = Some (require_all sweep_status_schema)"
    "published_schema ''TransactionStatusResponse'' = Some (require_all transaction_status_schema)"
    "published_schema ''TransitionDto'' = Some (require_all transition_schema)"
    "published_schema ''TransitionResolutionDto'' = Some (require_all resolution_schema)"
    "published_schema ''TransitionsBatchResponse'' = Some (require_all transitions_batch_response_schema)"
    "published_schema ''ActivityDirection'' = Some direction_schema"
    "published_schema ''ErrorKind'' = Some error_kind_schema"
  by (simp_all add: published_schema_def published_schemas_def rule_lookup derived_schemas_def REQUEST_BODIES_def
      direction_schema_def error_kind_schema_def)

lemma struct_schemaI: "published_schema name = Some (require_all s) \<Longrightarrow> s = derive_struct props \<Longrightarrow> distinct (map fst props) \<Longrightarrow> struct_schema name props"
  by (simp add: struct_schema_def)

lemma conforms_refs: "published_schema name = Some s \<Longrightarrow> 0 < k \<Longrightarrow> conforms (k - 1) s v \<Longrightarrow> conforms k (SRef name) v"
  using conforms_ref [of name s "k - 1" v] by simp

lemma four_steps: "4 \<le> n \<Longrightarrow> \<exists>m. n = Suc (Suc (Suc (Suc m)))"
  by presburger

lemmas conforms_shape = conforms_plain conforms_list conforms_opt_ref

lemma ckb_point_conforms: "3 \<le> k \<Longrightarrow> conforms k (SRef ''CkbOutPointDto'') (ckb_point_json p)"
  unfolding ckb_point_json_def
  by (rule conforms_named [OF struct_schemaI [OF published_responses(19) ckb_point_schema_def]]; simp add: conforms_shape)

lemma btc_point_conforms: "3 \<le> k \<Longrightarrow> conforms k (SRef ''BtcOutPointDto'') (btc_point_json p)"
  unfolding btc_point_json_def
  by (rule conforms_named [OF struct_schemaI [OF published_responses(15) btc_point_schema_def]]; simp add: conforms_shape)

lemma created_conforms: "3 \<le> k \<Longrightarrow> conforms k (SRef ''CreatedDto'') (created_json c)"
  unfolding created_json_def
  by (rule conforms_named [OF struct_schemaI [OF published_responses(23) created_schema_def]]; simp add: conforms_shape)

lemma consumed_conforms: "3 \<le> k \<Longrightarrow> conforms k (SRef ''ConsumedDto'') (consumed_json c)"
  unfolding consumed_json_def
  by (rule conforms_named [OF struct_schemaI [OF published_responses(21) consumed_schema_def]]; simp add: conforms_shape)

lemma btc_observation_conforms: "3 \<le> k \<Longrightarrow> conforms k (SRef ''BtcObservationDto'') (btc_observation_json t ob)"
  unfolding btc_observation_json_def
  by (rule conforms_named [OF struct_schemaI [OF published_responses(14) btc_observation_schema_def]]; simp add: conforms_shape)

lemma script_conforms: "3 \<le> k \<Longrightarrow> conforms k (SRef ''ScriptDto'') (script_to_json x s)"
  unfolding script_to_json_def
  by (rule conforms_named [OF struct_schemaI [OF published_responses(29) script_schema_def]]; simp add: conforms_shape)

lemma names_refuse_null:
  shows "refuses_null ''ScriptDto''"
    "refuses_null ''BtcOutPointDto''"
    "refuses_null ''CkbOutPointDto''"
    "refuses_null ''BtcTimeDto''"
    "refuses_null ''ConsumedDto''"
    "refuses_null ''BtcObservationDto''"
    "refuses_null ''SweepStatusDto''"
    "refuses_null ''AddressReconcileDto''"
    "refuses_null ''ActivityBtcDto''"
    "refuses_null ''AssetDto''"
    "refuses_null ''TransitionDto''"
  by (rule struct_refuses_null [OF struct_schemaI], rule published_responses,
      simp only: script_schema_def btc_point_schema_def ckb_point_schema_def btc_time_schema_def consumed_schema_def btc_observation_schema_def sweep_status_schema_def reconcile_schema_def activity_btc_schema_def asset_schema_def transition_schema_def, simp)+

lemma objects_not_null:
  shows "btc_point_json p \<noteq> JNull" "ckb_point_json q \<noteq> JNull" "btc_time_json bt \<noteq> JNull" "consumed_json c \<noteq> JNull"
    "btc_observation_json t ob \<noteq> JNull" "sweep_status_json t r \<noteq> JNull" "reconcile_json a \<noteq> JNull" "activity_btc_json t ab \<noteq> JNull"
    "asset_json ad \<noteq> JNull" "transition_json t td \<noteq> JNull" "script_to_json x s \<noteq> JNull"
  by (simp_all add: btc_point_json_def ckb_point_json_def btc_time_json_def consumed_json_def btc_observation_json_def sweep_status_json_def
      reconcile_json_def activity_btc_json_def asset_json_def transition_json_def script_to_json_def)

lemmas conforms_optional = names_refuse_null objects_not_null

text \<open>The two fields that pass a stored JSON value through hold a script.\<close>

definition script_shaped :: "json option \<Rightarrow> bool" where
  "script_shaped v \<longleftrightarrow> (\<forall>j. v = Some j \<longrightarrow> (\<exists>x s. j = script_to_json x s))"

definition cell_shaped :: "cell_dto \<Rightarrow> bool" where
  "cell_shaped c \<longleftrightarrow> script_shaped (ce_type_script c) \<and> (\<forall>b. ce_btc_time c = Some b \<longrightarrow> script_shaped (bm_target_lock b))"

lemma opt_script_conforms: "script_shaped v \<Longrightarrow> 4 \<le> k \<Longrightarrow> conforms k (SOneOf [SNull, SRef ''ScriptDto'']) (json_opt id v)"
  by (rule conforms_opt_ref) (auto simp: script_shaped_def names_refuse_null objects_not_null objects_not_null(11) [symmetric] script_conforms)

lemma btc_time_conforms: "script_shaped (bm_target_lock b) \<Longrightarrow> 6 \<le> k \<Longrightarrow> conforms k (SRef ''BtcTimeDto'') (btc_time_json b)"
  unfolding btc_time_json_def
  by (rule conforms_named [OF struct_schemaI [OF published_responses(16) btc_time_schema_def]]; simp add: conforms_shape opt_script_conforms)

lemma cell_conforms: "cell_shaped c \<Longrightarrow> 9 \<le> k \<Longrightarrow> conforms k (SRef ''CellDto'') (cell_json t c)"
  unfolding cell_json_def
  by (rule conforms_named [OF struct_schemaI [OF published_responses(17) cell_schema_def]]; simp add: conforms_shape cell_shaped_def opt_script_conforms conforms_optional ckb_point_conforms btc_point_conforms btc_time_conforms created_conforms consumed_conforms btc_observation_conforms)

lemma transition_conforms: "3 \<le> k \<Longrightarrow> conforms k (SRef ''TransitionDto'') (transition_json t d)"
  unfolding transition_json_def
  by (rule conforms_named [OF struct_schemaI [OF published_responses(34) transition_schema_def]]; simp add: conforms_shape)

lemma asset_balance_conforms: "3 \<le> k \<Longrightarrow> conforms k (SRef ''AssetBalanceDto'') (asset_balance_json b)"
  unfolding asset_balance_json_def
  by (rule conforms_named [OF struct_schemaI [OF published_responses(8) asset_balance_schema_def]]; simp add: conforms_shape)

lemma asset_conforms: "3 \<le> k \<Longrightarrow> conforms k (SRef ''AssetDto'') (asset_json a)"
  unfolding asset_json_def
  by (rule conforms_named [OF struct_schemaI [OF published_responses(10) asset_schema_def]]; simp add: conforms_shape)

lemma anomaly_conforms: "\<exists>members. ad_detail a = JObj members \<Longrightarrow> 6 \<le> k \<Longrightarrow> conforms k (SRef ''AnomalyDto'') (anomaly_json t a)"
  unfolding anomaly_json_def
  by (elim exE, rule conforms_named [OF struct_schemaI [OF published_responses(7) anomaly_schema_def]];
      simp add: conforms_shape conforms_optional btc_point_conforms ckb_point_conforms)

lemma ckb_status_conforms: "3 \<le> k \<Longrightarrow> conforms k (SRef ''CkbStatusDto'') (ckb_status_json t c)"
  unfolding ckb_status_json_def
  by (rule conforms_named [OF struct_schemaI [OF published_responses(20) ckb_status_schema_def]]; simp add: conforms_shape)

lemma sweep_status_conforms: "3 \<le> k \<Longrightarrow> conforms k (SRef ''SweepStatusDto'') (sweep_status_json t r)"
  unfolding sweep_status_json_def
  by (rule conforms_named [OF struct_schemaI [OF published_responses(32) sweep_status_schema_def]]; simp add: conforms_shape)

lemma counts_conforms: "3 \<le> k \<Longrightarrow> conforms k (SRef ''CountsDto'') (counts_dto_json c)"
  unfolding counts_dto_json_def
  by (rule conforms_named [OF struct_schemaI [OF published_responses(22) counts_schema_def]]; simp add: conforms_shape)

lemma status_conforms: "6 \<le> k \<Longrightarrow> conforms k (SRef ''StatusDto'') (status_dto_json t s)"
  unfolding status_dto_json_def
  by (rule conforms_named [OF struct_schemaI [OF published_responses(31) status_schema_def]]; simp add: conforms_shape conforms_optional ckb_status_conforms counts_conforms sweep_status_conforms)

text \<open>Of the variants of a tagged enum, the one of the tag is valid, and no other.\<close>

lemma spend_status_conforms: "4 \<le> k \<Longrightarrow> conforms k (SRef ''SpendStatusDto'') (spend_status_json st)"
  unfolding conforms_def
proof (intro allI impI)
  fix n assume "4 \<le> k" "k \<le> n"
  then have "4 \<le> n" by linarith
  then obtain m where n: "n = Suc (Suc (Suc (Suc m)))" using four_steps by blast
  show "valid n published_schema (SRef ''SpendStatusDto'') (spend_status_json st)"
    unfolding n
    by (cases st) (simp_all add: published_responses(30) spend_status_schema_def derive_variant_def derive_struct_def json_word_def)
qed

lemma resolution_conforms: "7 \<le> k \<Longrightarrow> conforms k (SRef ''TransitionResolutionDto'') (resolution_json r)"
  unfolding conforms_def
proof (intro allI impI)
  fix n assume "7 \<le> k" "k \<le> n"
  then obtain m where n: "n = Suc (Suc (Suc (Suc m)))" "3 \<le> m"
    using four_steps [of n] by force
  have points: "list_all (valid m published_schema (SRef ''CkbOutPointDto'')) (map ckb_point_json cells)" for cells
    using ckb_point_conforms [of 3] n(2) by (simp add: conforms_def list_all_iff)
  show "valid n published_schema (SRef ''TransitionResolutionDto'') (resolution_json r)"
    unfolding n(1)
    by (cases r) (simp_all add: published_responses(35) resolution_schema_def derive_variant_def derive_struct_def json_word_def
        json_list_def json_opt_def points list.pred_map [symmetric] split: option.split)
qed

lemma refresh_conforms: "6 \<le> k \<Longrightarrow> conforms k (SRef ''OutpointRefreshDto'') (refresh_json r)"
  unfolding refresh_json_def
  by (rule conforms_named [OF struct_schemaI [OF published_responses(27) refresh_schema_def]]; simp add: conforms_shape btc_point_conforms spend_status_conforms)

lemma reconcile_conforms: "9 \<le> k \<Longrightarrow> conforms k (SRef ''AddressReconcileDto'') (reconcile_json r)"
  unfolding reconcile_json_def
  by (rule conforms_named [OF struct_schemaI [OF published_responses(6) reconcile_schema_def]]; simp add: conforms_shape btc_point_conforms refresh_conforms)

lemma direction_conforms: "2 \<le> k \<Longrightarrow> conforms k (SRef ''ActivityDirection'') (JStr (direction_text d))"
  by (rule conforms_refs [OF published_responses(37)]) (cases d; simp add: direction_schema_def conforms_plain)+

lemma error_kind_conforms: "2 \<le> k \<Longrightarrow> conforms k (SRef ''ErrorKind'') (JStr (error_kind_text e))"
  by (rule conforms_refs [OF published_responses(38)]) (cases e; simp add: error_kind_schema_def conforms_plain)+

lemma activity_btc_conforms: "3 \<le> k \<Longrightarrow> conforms k (SRef ''ActivityBtcDto'') (activity_btc_json t b)"
  unfolding activity_btc_json_def
  by (rule conforms_named [OF struct_schemaI [OF published_responses(1) activity_btc_schema_def]]; simp add: conforms_shape)

lemma activity_cell_conforms: "6 \<le> k \<Longrightarrow> conforms k (SRef ''ActivityCellDto'') (activity_cell_json c)"
  unfolding activity_cell_json_def
  by (rule conforms_named [OF struct_schemaI [OF published_responses(2) activity_cell_schema_def]]; simp add: conforms_shape conforms_optional ckb_point_conforms btc_point_conforms)

lemma asset_delta_conforms: "3 \<le> k \<Longrightarrow> conforms k (SRef ''AssetDeltaDto'') (asset_delta_json d)"
  unfolding asset_delta_json_def
  by (rule conforms_named [OF struct_schemaI [OF published_responses(9) asset_delta_schema_def]]; simp add: conforms_shape)

lemma activity_entry_conforms: "9 \<le> k \<Longrightarrow> conforms k (SRef ''ActivityEntryDto'') (activity_entry_json t a)"
  unfolding activity_entry_json_def
  by (rule conforms_named [OF struct_schemaI [OF published_responses(3) activity_entry_schema_def]]; simp add: conforms_shape conforms_optional direction_conforms activity_btc_conforms activity_cell_conforms asset_delta_conforms)

lemma address_activity_conforms: "12 \<le> k \<Longrightarrow> conforms k (SRef ''AddressActivityDto'') (address_activity_json t a)"
  unfolding address_activity_json_def
  by (rule conforms_named [OF struct_schemaI [OF published_responses(4) address_activity_schema_def]]; simp add: conforms_shape activity_entry_conforms)


section \<open>The bodies\<close>

lemma health_conforms: "3 \<le> k \<Longrightarrow> conforms k (SRef ''HealthDto'') (JObj [(''status'', JStr b)])"
  by (rule conforms_named [OF struct_schemaI [OF published_responses(26) health_schema_def]]; simp add: conforms_shape)

lemma address_assets_conforms:
  "list_all cell_shaped (aar_cells r) \<Longrightarrow> 12 \<le> k \<Longrightarrow> conforms k (SRef ''AddressAssetsResponse'') (address_assets_json t r)"
  unfolding address_assets_json_def
  by (rule conforms_named [OF struct_schemaI [OF published_responses(5) address_assets_schema_def]]; simp add: conforms_shape conforms_optional reconcile_conforms cell_conforms list_all_iff)

lemma balance_response_conforms: "6 \<le> k \<Longrightarrow> conforms k (SRef ''BalanceResponse'') (balance_response_json r)"
  unfolding balance_response_json_def
  by (rule conforms_named [OF struct_schemaI [OF published_responses(13) balance_response_schema_def]]; simp add: conforms_shape asset_balance_conforms)

lemma transaction_status_conforms:
  "list_all cell_shaped (tsr_cells r) \<Longrightarrow> 12 \<le> k \<Longrightarrow> conforms k (SRef ''TransactionStatusResponse'') (transaction_status_json t r)"
  unfolding transaction_status_json_def
  by (rule conforms_named [OF struct_schemaI [OF published_responses(33) transaction_status_schema_def]]; simp add: conforms_shape resolution_conforms transition_conforms cell_conforms list_all_iff)

lemma refresh_response_conforms: "9 \<le> k \<Longrightarrow> conforms k (SRef ''RefreshResponse'') (refresh_response_json r)"
  unfolding refresh_response_json_def
  by (rule conforms_named [OF struct_schemaI [OF published_responses(28) refresh_response_schema_def]]; simp add: conforms_shape refresh_conforms)

lemma assets_response_conforms: "6 \<le> k \<Longrightarrow> conforms k (SRef ''AssetsResponse'') (assets_response_json r)"
  unfolding assets_response_json_def
  by (rule conforms_named [OF struct_schemaI [OF published_responses(12) assets_response_schema_def]]; simp add: conforms_shape asset_conforms)

lemma assets_batch_conforms: "7 \<le> k \<Longrightarrow> conforms k (SRef ''AssetsBatchResponse'') (JObj [(''assets'', json_list (json_opt asset_json) as)])"
  by (rule conforms_named [OF struct_schemaI [OF published_responses(11) assets_batch_response_schema_def]]; simp add: conforms_shape conforms_optional asset_conforms)

lemma cells_batch_conforms:
  "list_all (list_all cell_shaped) css \<Longrightarrow> 13 \<le> k \<Longrightarrow> conforms k (SRef ''CellsBatchResponse'') (JObj [(''cells'', json_list (json_list (cell_json t)) css)])"
  by (rule conforms_named [OF struct_schemaI [OF published_responses(18) cells_batch_response_schema_def]]; simp add: conforms_shape cell_conforms list_all_iff)

lemma transitions_batch_conforms:
  "7 \<le> k \<Longrightarrow> conforms k (SRef ''TransitionsBatchResponse'') (JObj [(''transitions'', json_list (json_opt (transition_json t)) ts)])"
  by (rule conforms_named [OF struct_schemaI [OF published_responses(36) transitions_batch_response_schema_def]]; simp add: conforms_shape conforms_optional transition_conforms)

lemma error_body_conforms: "4 \<le> k \<Longrightarrow> conforms k (SRef ''ErrorBody'') (JObj [(''kind'', JStr (error_kind_text e)), (''message'', JStr m)])"
  by (rule conforms_named [OF struct_schemaI [OF published_responses(24) error_body_schema_def]]; simp add: conforms_shape error_kind_conforms)

lemma error_conforms: "6 \<le> k \<Longrightarrow> conforms k (SRef ''ErrorResponse'') (error_json r)"
  unfolding error_json_def
  by (rule conforms_named [OF struct_schemaI [OF published_responses(25) error_response_schema_def]]; simp add: conforms_shape error_body_conforms)

lemmas body_conforms_rules =
  health_conforms status_conforms cell_conforms address_assets_conforms balance_response_conforms transaction_status_conforms
  refresh_response_conforms assets_response_conforms assets_batch_conforms cells_batch_conforms transitions_batch_conforms
  transition_conforms address_activity_conforms anomaly_conforms

end
