(* ===== verification/Api_Bodies.thy ===== *)
theory Api_Bodies
  imports Statements Api_Props
begin

text \<open>
  What the answers of the API are made of. A condition on the rows that the tables hold
  becomes a condition on every part of every answer; the handlers are walked once, in the
  interface \<open>answer_parts\<close>, and each condition on answers is an interpretation of it.
\<close>

section \<open>The parts of an answer\<close>

record body_parts =
  part_cell :: "cell_dto \<Rightarrow> bool"
  part_transition :: "transition_dto \<Rightarrow> bool"
  part_asset :: "asset_dto \<Rightarrow> bool"
  part_balance :: "asset_balance_dto \<Rightarrow> bool"
  part_anomaly :: "anomaly_dto \<Rightarrow> bool"
  part_sweep :: "sweep_status_dto \<Rightarrow> bool"
  part_activity :: "activity_entry_dto \<Rightarrow> bool"

definition any_part :: body_parts where
  "any_part = \<lparr> part_cell = (\<lambda>c. True), part_transition = (\<lambda>t. True), part_asset = (\<lambda>a. True), part_balance = (\<lambda>b. True),
     part_anomaly = (\<lambda>a. True), part_sweep = (\<lambda>r. True), part_activity = (\<lambda>k. True) \<rparr>"

fun body_all :: "body_parts \<Rightarrow> body \<Rightarrow> bool" where
  "body_all P (StatusBody st) \<longleftrightarrow> pred_option (part_sweep P) (sd_last_sweep st)"
| "body_all P (CellsBody cs) \<longleftrightarrow> list_all (part_cell P) cs"
| "body_all P (CellBody c) \<longleftrightarrow> part_cell P c"
| "body_all P (AddressAssetsBody r) \<longleftrightarrow> list_all (part_cell P) (aar_cells r)"
| "body_all P (BalanceBody r) \<longleftrightarrow> list_all (part_balance P) (blr_assets r)"
| "body_all P (TransactionStatusBody r) \<longleftrightarrow>
     list_all (part_transition P) (tsr_transitions r) \<and> list_all (part_cell P) (tsr_cells r)"
| "body_all P (AssetsBody r) \<longleftrightarrow> list_all (part_asset P) (asr_assets r)"
| "body_all P (AssetsBatchBody as) \<longleftrightarrow> list_all (pred_option (part_asset P)) as"
| "body_all P (CellsBatchBody css) \<longleftrightarrow> list_all (list_all (part_cell P)) css"
| "body_all P (TransitionsBatchBody ts) \<longleftrightarrow> list_all (pred_option (part_transition P)) ts"
| "body_all P (TransitionsBody ts) \<longleftrightarrow> list_all (part_transition P) ts"
| "body_all P (TransitionBody t) \<longleftrightarrow> part_transition P t"
| "body_all P (ActivityBody a) \<longleftrightarrow> list_all (part_activity P) (aa_entries a)"
| "body_all P (AnomaliesBody as) \<longleftrightarrow> list_all (part_anomaly P) as"
| "body_all P b \<longleftrightarrow> True"

section \<open>Effects that serve\<close>

text \<open>Started on tables with \<open>I\<close>, the effect keeps \<open>I\<close> and its value has \<open>Q\<close>.\<close>

definition serves :: "(db \<Rightarrow> bool) \<Rightarrow> 'a api_io \<Rightarrow> ('a \<Rightarrow> bool) \<Rightarrow> bool" where
  "serves I m Q \<longleftrightarrow> (\<forall>w. I (w_db w) \<longrightarrow> I (w_db (snd (m w))) \<and> (\<forall>v. fst (m w) = Inr v \<longrightarrow> Q v))"

lemma servesD: "serves I m Q \<Longrightarrow> m w = (Inr v, w') \<Longrightarrow> I (w_db w) \<Longrightarrow> Q v"
  unfolding serves_def by (metis fst_conv)

lemma serves_ret: "Q v \<Longrightarrow> serves I (io_ret v) Q"
  by (simp add: serves_def io_ret_def)

lemma serves_bind: "serves I m R \<Longrightarrow> (\<And>v. R v \<Longrightarrow> serves I (k v) Q) \<Longrightarrow> serves I (io_bind m k) Q"
  unfolding serves_def io_bind_def by (auto split: prod.split sum.split)

lemma serves_any: "obeys (preserves I) m \<Longrightarrow> serves I m (\<lambda>v. True)"
  by (simp add: serves_def obeys_def preserves_def)

lemma serves_step: "obeys (preserves I) m \<Longrightarrow> (\<And>v. serves I (k v) Q) \<Longrightarrow> serves I (io_bind m k) Q"
  by (rule serves_bind [OF serves_any])

lemma serves_query:
  assumes "\<And>now d. I d \<Longrightarrow> R (f now d)"
  shows "serves I (api_of_store (query e f)) R"
  unfolding serves_def
proof (intro allI impI conjI)
  fix w :: world assume w: "I (w_db w)"
  have "obeys (preserves I) (api_of_store (query e f))"
    by (intro preserves.obeys_api_of_store preserves.obeys_query)
  with w show "I (w_db (snd (api_of_store (query e f) w)))" by (simp add: obeys_def preserves_def)
  fix v assume "fst (api_of_store (query e f) w) = Inr v"
  then have "v = f (e_now e (w_tick w)) (w_db w)" by (auto simp: api_of_store_def io_map_err_def query_def sql_def split: option.splits)
  with assms w show "R v" by blast
qed

lemma serves_found: "(\<And>y. v = Some y \<Longrightarrow> Q y) \<Longrightarrow> serves I (or_not_found v) Q"
  by (cases v) (auto simp: or_not_found_def serves_def io_ret_def io_fail_def)

lemma cells_of_outpoint: "unwrap_or [] (map_of (cells_by_outpoint rows) k) = filter (\<lambda>r. cell_binding r = k) rows"
proof -
  have snoc: "fold (\<lambda>row own. own @ [row]) rows own = own @ rows" for rows own :: "cell_row list"
    by (induction rows arbitrary: own) simp_all
  show ?thesis unfolding cells_by_outpoint_def fold_entry_modify snoc by simp
qed

text \<open>The cells that an entry is read from: those of one state, or none for an empty page.\<close>

definition read_cells :: "(db \<Rightarrow> bool) \<Rightarrow> string \<Rightarrow> activity_cell_row list \<Rightarrow> bool" where
  "read_cells I address cells \<longleftrightarrow> cells = [] \<or> (\<exists>d hs. I d \<and> cells = address_activity_cells address hs d)"

section \<open>The handlers\<close>

locale answer_parts =
  fixes I :: "db \<Rightarrow> bool" and s :: services and cfg :: config and P :: body_parts
  assumes kept_refresh: "obeys (preserves I) (api_of_indexer (refresh_outpoints (sv_env s) (sv_ext s) (sv_btc s) cfg ops))"
    and kept_reconcile: "obeys (preserves I) (api_of_indexer (reconcile_address (sv_env s) (sv_ext s) (sv_btc s) cfg address))"
    and kept_resolve: "obeys (preserves I) (api_of_indexer (resolve_transition (sv_env s) (sv_ext s) (sv_ckb s) (sv_btc s) cfg txid))"
    and kept_enqueue: "obeys (preserves I) (api_of_store (enqueue_refresh_many (sv_env s) rows reason priority))"
    and cell: "I d \<Longrightarrow> r \<in> set (cell_status_view d) \<Longrightarrow> part_cell P (cell_dto_of (sv_ext s) r)"
    and transition: "I d \<Longrightarrow> t \<in> set (d_transitions d) \<Longrightarrow>
      part_transition P (transition_dto_of (sv_ext s) t)"
    and activity: "I d \<Longrightarrow> read_cells I address cells \<Longrightarrow>
      e \<in> set (aa_entries (build_activity (sv_ext s) address (address_activity address cursor limit d) cells limit unresolved)) \<Longrightarrow>
      part_activity P e"
    and asset: "I d \<Longrightarrow> a \<in> set (asset_summaries p d) \<Longrightarrow> part_asset P (asset_dto_of (sv_ext s) a)"
    and balance: "I d \<Longrightarrow> b \<in> set (asset_balances_for_outpoints outpoints inc d) \<Longrightarrow> part_balance P (balance_dto_of (sv_ext s) b)"
    and anomaly: "I d \<Longrightarrow> n \<in> set (d_anomalies d) \<Longrightarrow> part_anomaly P (anomaly_dto_of (sv_ext s) n)"
    and sweep: "I d \<Longrightarrow> q \<in> set (d_sweeps d) \<Longrightarrow> part_sweep P (sweep_status_of q)"
begin

lemmas kept_rules =
  preserves.obeys_from_request preserves.obeys_api_parse preserves.obeys_check_address preserves.obeys_or_panic
  kept_refresh kept_reconcile kept_resolve kept_enqueue

lemma kept_outpoints: "obeys (preserves I) (address_outpoints s cfg address wanted)"
  unfolding address_outpoints_def by (intro preserves.obeys_api_rules kept_rules)

lemma cells_read:
  assumes "I d"
  shows "list_all (part_cell P) (map (cell_dto_of (sv_ext s)) (cells_by_btc_outpoints ops inc d))"
    "list_all (part_cell P) (map (cell_dto_of (sv_ext s)) (cells_by_btc_txid txid d))"
    "cell_by_out_point h i d = Some r \<Longrightarrow> part_cell P (cell_dto_of (sv_ext s) r)"
  using cell [OF assms]
  by (auto simp: list_all_iff cells_by_btc_outpoints_def cells_by_btc_txid_def cell_by_out_point_def find_Some_iff)

lemma transitions_read:
  assumes "I d"
  shows "list_all (part_transition P) (map (transition_dto_of (sv_ext s)) (transitions_by_btc_txid txid d))"
    "list_all (part_transition P) (map (transition_dto_of (sv_ext s)) (recent_transitions limit d))"
    "transition_by_ckb_tx h d = Some t \<Longrightarrow> part_transition P (transition_dto_of (sv_ext s) t)"
    "rows_by_key tr_tx_hash (transitions_by_ckb_txs hs d) h = Some t \<Longrightarrow> part_transition P (transition_dto_of (sv_ext s) t)"
proof -
  note row = transition [OF assms]
  show "list_all (part_transition P) (map (transition_dto_of (sv_ext s)) (transitions_by_btc_txid txid d))"
    using row by (auto simp: list_all_iff transitions_by_btc_txid_def)
  show "list_all (part_transition P) (map (transition_dto_of (sv_ext s)) (recent_transitions limit d))"
    using row by (auto simp: list_all_iff recent_transitions_def limit_rows_def dest!: in_set_takeD)
  show "transition_by_ckb_tx h d = Some t \<Longrightarrow> part_transition P (transition_dto_of (sv_ext s) t)"
    using row by (auto simp: transition_by_ckb_tx_def dest: lookup_row_key)
  show "rows_by_key tr_tx_hash (transitions_by_ckb_txs hs d) h = Some t \<Longrightarrow> part_transition P (transition_dto_of (sv_ext s) t)"
    using row by (auto simp: rows_by_key_def transitions_by_ckb_txs_def dest!: map_of_SomeD)
qed

lemma assets_read:
  assumes "I d"
  shows "list_all (part_asset P) (map (asset_dto_of (sv_ext s)) (list_assets kinds limit offset d))"
    "rows_by_key ar_type_hash (assets_by_type_hashes hs d) h = Some r \<Longrightarrow> part_asset P (asset_dto_of (sv_ext s) r)"
  by (auto simp: list_all_iff list_assets_def limit_rows_def assets_by_type_hashes_def rows_by_key_def
      dest!: in_set_takeD in_set_dropD map_of_SomeD intro!: asset [OF assms])

lemma balances_read:
  "I d \<Longrightarrow> list_all (part_balance P) (map (balance_dto_of (sv_ext s)) (asset_balances_for_outpoints ops inc d))"
  using balance by (auto simp: list_all_iff)

lemma anomalies_read:
  "I d \<Longrightarrow> list_all (part_anomaly P) (map (anomaly_dto_of (sv_ext s)) (list_anomalies kind inc limit d))"
  using anomaly by (auto simp: list_all_iff list_anomalies_def limit_rows_def dest!: in_set_takeD)

lemma sweep_read: "I d \<Longrightarrow> last_sweep_run d = Some r \<Longrightarrow> part_sweep P (sweep_status_of r)"
proof -
  assume d: "I d" and last: "last_sweep_run d = Some r"
  from last obtain rs where "sort_key (\<lambda>r. - sr_started_at r) (d_sweeps d) = r # rs"
    unfolding last_sweep_run_def by (auto split: list.splits)
  then have "r \<in> set (sort_key (\<lambda>r. - sr_started_at r) (d_sweeps d))" by (simp only: list.set_intros)
  with sweep [OF d] show ?thesis by simp
qed

lemma serves_cells:
  assumes "\<And>now d. I d \<Longrightarrow> list_all (part_cell P) (map (cell_dto_of x) (f now d))"
  shows "serves I (io_bind (api_of_store (query e f)) (\<lambda>rows. io_ret (CellsBody (map (cell_dto_of x) rows)))) (body_all P)"
  using assms by (intro serves_bind [OF serves_query] serves_ret) (assumption, simp)

lemma handle_parts: "serves I (handle s cfg req) (body_all P)"
proof (cases req)
  case GetHealth
  show ?thesis unfolding GetHealth handle.simps health_handler_def by (rule serves_ret) simp
next
  case GetStatus
  have clock: "obeys (preserves I) ((case stream of Some st \<Rightarrow> io_ret (ckb_status_of st)
      | None \<Rightarrow> io_bind (io_clock (sv_env s)) (\<lambda>now. io_ret (ckb_status_unknown cfg now))) :: ckb_status_dto api_io)" for stream
    by (intro preserves.obeys_rules)
  show ?thesis
    unfolding GetStatus handle.simps status_handler_def Let_def
    by (rule serves_step [OF preserves.obeys_api_of_store [OF preserves.obeys_query]],
        rule serves_step [OF preserves.obeys_api_of_store [OF preserves.obeys_query]],
        rule serves_bind [OF serves_query [where R = "\<lambda>r. \<forall>run. r = Some run \<longrightarrow> part_sweep P (sweep_status_of run)"]], simp add: sweep_read,
        rule serves_step [OF clock], rule serves_ret)
      (auto simp: pred_option_def)
next
  case (GetCellsByUtxo path q)
  have refresh: "obeys (preserves I) (if c then io_bind (api_of_indexer (refresh_outpoints (sv_env s) (sv_ext s) (sv_btc s) cfg ops)) (\<lambda>_. io_ret ())
      else io_ret ())" for c ops by (intro preserves.obeys_rules kept_refresh)
  show ?thesis
    unfolding GetCellsByUtxo handle.simps cells_by_btc_utxo_def Let_def
    by (intro serves_step [OF preserves.obeys_from_request] serves_step [OF preserves.obeys_api_parse] serves_step [OF refresh]
        serves_cells cells_read)
next
  case (GetCellsByTxid path)
  show ?thesis
    unfolding GetCellsByTxid handle.simps cells_by_btc_txid_handler_def
    by (intro serves_step [OF preserves.obeys_from_request] serves_step [OF preserves.obeys_api_parse] serves_cells cells_read)
next
  case (GetCellByOutPoint path)
  show ?thesis
    unfolding GetCellByOutPoint handle.simps cell_by_ckb_out_point_def
    by (intro serves_step [OF preserves.obeys_from_request] serves_step [OF preserves.obeys_api_parse]
        serves_bind [OF serves_query [where R = "\<lambda>r. \<forall>row. r = Some row \<longrightarrow> part_cell P (cell_dto_of (sv_ext s) row)"]]
        serves_bind [OF serves_found [where Q = "\<lambda>row. part_cell P (cell_dto_of (sv_ext s) row)"]] serves_ret)
      (auto simp: cells_read(3))
next
  case (GetAddressAssets path q)
  show ?thesis
    unfolding GetAddressAssets handle.simps assets_by_btc_address_def
    by (intro serves_step [OF preserves.obeys_from_request] serves_step [OF kept_outpoints]
        serves_bind [OF serves_query [where R = "\<lambda>rows. list_all (part_cell P) (map (cell_dto_of (sv_ext s)) rows)"]] serves_ret)
      (simp_all only: cells_read(1) body_all.simps address_assets_response.select_convs)
next
  case (GetBalance path q)
  show ?thesis
    unfolding GetBalance handle.simps balance_by_btc_address_def
    by (intro serves_step [OF preserves.obeys_from_request] serves_step [OF kept_outpoints]
        serves_bind [OF serves_query [where R = "\<lambda>rows. list_all (part_balance P) (map (balance_dto_of (sv_ext s)) rows)"]] serves_ret)
      (simp_all only: balances_read body_all.simps balance_response.select_convs)
next
  case (GetTransactionStatus path)
  show ?thesis
    unfolding GetTransactionStatus handle.simps transaction_status_def
    by (intro serves_step [OF preserves.obeys_from_request] serves_step [OF preserves.obeys_api_parse] serves_step [OF kept_resolve]
        serves_bind [OF serves_query [where R = "\<lambda>rows. list_all (part_transition P) (map (transition_dto_of (sv_ext s)) rows)"]]
        serves_bind [OF serves_query [where R = "\<lambda>rows. list_all (part_cell P) (map (cell_dto_of (sv_ext s)) rows)"]] serves_ret)
      (simp_all only: cells_read(2) transitions_read(1) body_all.simps transaction_status_response.select_convs simp_thms)
next
  case (GetActivity path q)
  have cells: "serves I (if c then io_ret [] else api_of_store (query (sv_env s) (\<lambda>now. address_activity_cells address hs))) (read_cells I address)"
    for c address hs
  proof (cases c)
    case True
    then show ?thesis by (simp add: serves_ret read_cells_def)
  next
    case False
    have "serves I (api_of_store (query (sv_env s) (\<lambda>now. address_activity_cells address hs))) (read_cells I address)"
      by (rule serves_query) (unfold read_cells_def, blast)
    with False show ?thesis by simp
  qed
  have history: "serves I (api_of_store (query (sv_env s) (\<lambda>now. address_activity address cursor limit)))
      (\<lambda>rows. \<exists>d. I d \<and> rows = address_activity address cursor limit d)" for address cursor limit
    by (rule serves_query) blast
  show ?thesis
    unfolding GetActivity handle.simps activity_by_btc_address_def Let_def
    by (intro serves_step [OF preserves.obeys_from_request] serves_step [OF preserves.obeys_check_address] serves_step [OF preserves.obeys_or_panic]
        serves_bind [OF history] serves_bind [OF cells] serves_step [OF preserves.obeys_api_of_store [OF preserves.obeys_query]] serves_ret)
      (auto simp: list_all_iff intro: activity)
next
  case (GetAssets q)
  show ?thesis
    unfolding GetAssets handle.simps list_assets_handler_def
    by (intro serves_step [OF preserves.obeys_from_request] serves_step [OF preserves.obeys_or_panic]
        serves_bind [OF serves_query [where R = "\<lambda>rows. list_all (part_asset P) (map (asset_dto_of (sv_ext s)) rows)"]]
        serves_step [OF preserves.obeys_api_of_store [OF preserves.obeys_query]] serves_ret)
      (simp_all only: assets_read(1) body_all.simps assets_response.select_convs)
next
  case (PostAssetsBatch json)
  show ?thesis
    unfolding PostAssetsBatch handle.simps assets_batch_def
    by (intro serves_step [OF preserves.obeys_from_request]
        serves_bind [OF serves_query [where R = "\<lambda>rows. \<forall>h r. rows_by_key ar_type_hash rows h = Some r \<longrightarrow> part_asset P (asset_dto_of (sv_ext s) r)"]]
        serves_ret)
      (auto simp: assets_read(2) list_all_iff split: option.split simp: option.pred_map pred_option_def)
next
  case (PostCellsBatch json)
  show ?thesis
    unfolding PostCellsBatch handle.simps cells_batch_def
    by (intro serves_step [OF preserves.obeys_from_request]
        serves_bind [OF serves_query [where R = "\<lambda>rows. list_all (part_cell P \<circ> cell_dto_of (sv_ext s)) rows"]] serves_ret)
      (simp add: cells_read(1) [unfolded list.pred_map], auto simp: cells_of_outpoint list_all_iff)
next
  case (PostTransitionsBatch json)
  show ?thesis
    unfolding PostTransitionsBatch handle.simps transitions_batch_def
    by (intro serves_step [OF preserves.obeys_from_request]
        serves_bind [OF serves_query [where R = "\<lambda>rows. \<forall>h r. rows_by_key tr_tx_hash rows h = Some r \<longrightarrow> part_transition P (transition_dto_of (sv_ext s) r)"]]
        serves_ret)
      (auto simp: transitions_read(4) list_all_iff pred_option_def)
next
  case (GetTransitions q)
  show ?thesis
    unfolding GetTransitions handle.simps recent_transitions_handler_def
    by (intro serves_step [OF preserves.obeys_from_request] serves_step [OF preserves.obeys_or_panic]
        serves_bind [OF serves_query [where R = "\<lambda>rows. list_all (part_transition P) (map (transition_dto_of (sv_ext s)) rows)"]] serves_ret)
      (simp_all only: transitions_read(2) body_all.simps)
next
  case (GetTransition path)
  show ?thesis
    unfolding GetTransition handle.simps transition_by_ckb_tx_handler_def
    by (intro serves_step [OF preserves.obeys_from_request] serves_step [OF preserves.obeys_api_parse]
        serves_bind [OF serves_query [where R = "\<lambda>r. \<forall>row. r = Some row \<longrightarrow> part_transition P (transition_dto_of (sv_ext s) row)"]]
        serves_bind [OF serves_found [where Q = "\<lambda>row. part_transition P (transition_dto_of (sv_ext s) row)"]] serves_ret)
      (auto simp: transitions_read(3))
next
  case (PostRefresh json)
  show ?thesis
    unfolding PostRefresh handle.simps refresh_outpoints_handler_def
    by (intro serves_step [OF preserves.obeys_from_request])
      (auto intro!: serves_step [OF kept_refresh] serves_step [OF kept_enqueue] serves_ret)
next
  case (GetAnomalies q)
  show ?thesis
    unfolding GetAnomalies handle.simps anomalies_handler_def
    by (intro serves_step [OF preserves.obeys_from_request] serves_step [OF preserves.obeys_or_panic]
        serves_bind [OF serves_query [where R = "\<lambda>rows. list_all (part_anomaly P) (map (anomaly_dto_of (sv_ext s)) rows)"]] serves_ret)
      (simp_all only: anomalies_read body_all.simps)
qed

end

text \<open>What a task of the program does to the tables, a request's calls do as well.\<close>

lemma kept_calls:
  assumes "\<And>d d'. runs cfg (sv_btc s) d d' \<Longrightarrow> I d \<Longrightarrow> I d'"
  shows "obeys (preserves I) (api_of_indexer (refresh_outpoints (sv_env s) (sv_ext s) (sv_btc s) cfg ops))"
    "obeys (preserves I) (api_of_indexer (reconcile_address (sv_env s) (sv_ext s) (sv_btc s) cfg address))"
    "obeys (preserves I) (api_of_indexer (resolve_transition (sv_env s) (sv_ext s) (sv_ckb s) (sv_btc s) cfg txid))"
    "obeys (preserves I) (api_of_store (enqueue_refresh_many (sv_env s) rows reason priority))"
proof -
  have kept: "obeys (preserves I) m" if "obeys (runs cfg (sv_btc s)) m" for m :: "('x, 'y) io"
    using that assms unfolding obeys_def preserves_def by blast
  show "obeys (preserves I) (api_of_indexer (refresh_outpoints (sv_env s) (sv_ext s) (sv_btc s) cfg ops))"
    "obeys (preserves I) (api_of_indexer (reconcile_address (sv_env s) (sv_ext s) (sv_btc s) cfg address))"
    "obeys (preserves I) (api_of_indexer (resolve_transition (sv_env s) (sv_ext s) (sv_ckb s) (sv_btc s) cfg txid))"
    "obeys (preserves I) (api_of_store (enqueue_refresh_many (sv_env s) rows reason priority))"
    by (intro preserves.obeys_api_of_indexer preserves.obeys_api_of_store kept [OF task_runs.obeys_refresh_outpoints]
        kept [OF task_runs.obeys_reconcile_address] kept [OF task_runs.obeys_resolve_transition] kept [OF task_runs.obeys_enqueue_many])+
qed

end
