(* ===== verification/End_To_End.thy ===== *)
theory End_To_End
  imports System Api_Props Btc_Clients_Props
begin

text \<open>
  Properties of the whole deployment: from the HTTP server of the Bitcoin data source to the
  tables, and from the tables to the answers of the API.
\<close>

section \<open>Reachable tables\<close>

lemma step_statements:
  assumes "system_step fuel s cfg d d'"
  shows "(statement cfg (sv_btc s))\<^sup>*\<^sup>* (d, False) (d', False)"
  using assms
proof (cases rule: system_step.cases)
  case (start w)
  with scanner_runs.obeys_init [of cfg "sv_btc s" "sv_env s"] show ?thesis unfolding obeys_def runs_def by blast
next
  case (pass wk w cursor)
  have "(statement cfg (sv_btc s))\<^sup>*\<^sup>* (w_db w, False) (w_db (snd (worker_pass fuel s cfg cursor wk w)), False)"
    using worker_pass_runs [of cfg s fuel cursor wk] unfolding obeys_def runs_def by blast
  with pass show ?thesis by simp
next
  case (serve w req)
  have "(statement cfg (sv_btc s))\<^sup>*\<^sup>* (w_db w, False) (w_db (snd (handle s cfg req w)), False)"
    using task_runs.obeys_handle [where s = s and cfg = cfg and cfga = cfg and req = req, OF refl] unfolding obeys_def runs_def by blast
  with serve show ?thesis by simp
qed

lemma reachable_statements:
  assumes "reachable fuel s cfg d"
  shows "(statement cfg (sv_btc s))\<^sup>*\<^sup>* (empty_db, False) (d, False)"
  using assms unfolding reachable_def
proof (induction rule: rtranclp_induct)
  case (step d d')
  from step.IH step_statements [OF step.hyps(2)] show ?case by (rule rtranclp_trans)
qed simp

section \<open>Spends come from the server\<close>

definition served_spend ::
  "ext \<Rightarrow> esplora_json \<Rightarrow> blockbook_json \<Rightarrow> (nat \<Rightarrow> web) \<Rightarrow> btc_config \<Rightarrow> btc_out_point \<Rightarrow> spend_status \<Rightarrow> bool" where
  "served_spend x ej kj web c p s \<longleftrightarrow>
     (case btc_source c of
        Esplora \<Rightarrow> \<exists>n r. esplora_serves ej x (web n) (source_base (btc_base_url c)) p r \<and> eos_spent r \<and> outspend_says x r s
      | Blockbook \<Rightarrow> \<exists>n url a tx. decoded (web n) url (kj_address kj) a \<and> tx \<in> set (ka_transactions a) \<and>
          claims x (bo_txid p) tx (bo_vout p) s)"

lemma answered_served:
  assumes "answered (build_source x ej kj web c) p s" "is_spent s"
  shows "served_spend x ej kj web c p s"
proof (cases "btc_source c")
  case Esplora
  with assms esplora_answered [of x ej web "btc_base_url c" p s] obtain n r where
    "esplora_serves ej x (web n) (source_base (btc_base_url c)) p r" "outspend_says x r s"
    by (auto simp: build_source_def)
  moreover from this(2) assms(2) have "eos_spent r" by (auto simp: outspend_says_def split: if_splits)
  ultimately show ?thesis using Esplora by (auto simp: served_spend_def)
next
  case Blockbook
  with assms blockbook_answered [of x kj web "btc_base_url c" p s] obtain n where
    "grounded x kj (web n) (source_base (btc_base_url c)) p s" by (auto simp: build_source_def)
  with assms(2) Blockbook show ?thesis by (auto simp: grounded_def served_spend_def)
qed

text \<open>
  C11.
  A spend in the tables was served by the data source. In every state that the workers and
  the requests of a deployment can reach, over the configured client, whatever failed
  before: an observation with a spender is what the server said of exactly this output.
\<close>

theorem reachable_spends_served:
  assumes "sv_btc s = build_source x ej kj web (c_btc cfg)" "reachable fuel s cfg d"
    and "r \<in> set (d_outpoints d)" "ob_spender r = Some spender"
  shows "\<exists>p st. served_spend x ej kj web (c_btc cfg) p st \<and> ob_txid r = to_display_vec (bo_txid p) \<and> ob_vout r = as_i32 (bo_vout p) \<and>
    ob_status r = status_as_str st \<and> map_option to_display_vec (status_spender st) = Some spender \<and>
    ob_spent_height r = map_option as_i32 (status_height st)"
proof -
  from sourced_runs [OF reachable_statements [OF assms(2)]] assms(3)
  have "from_source (sv_btc s) r \<or> status_columns r = columns_of Unknown" by (auto simp: sourced_def empty_db_def)
  with assms(4) obtain p st where st: "answered (sv_btc s) p st" "row_key p = outpoint_key r" "status_columns r = columns_of st"
    by (auto simp: from_source_def status_columns_def columns_of_def)
  from st(3) assms(4) have cols: "ob_status r = status_as_str st" "map_option to_display_vec (status_spender st) = Some spender"
    "ob_spent_height r = map_option as_i32 (status_height st)" by (simp_all add: status_columns_def columns_of_def)
  from cols(2) have "is_spent st" by (cases st) simp_all
  with st(1) assms(1) have "served_spend x ej kj web (c_btc cfg) p st" by (simp add: answered_served)
  moreover from st(2) have "ob_txid r = to_display_vec (bo_txid p)" "ob_vout r = as_i32 (bo_vout p)"
    by (simp_all add: row_key_def outpoint_key_def)
  ultimately show ?thesis using cols by blast
qed

text \<open>A server that says of every output that it is spent, and nothing readable of a transaction.\<close>

definition spent_json :: esplora_json where
  "spent_json = \<lparr> ej_tx = (\<lambda>t. Inl []),
     ej_outspend = (\<lambda>t. Inr \<lparr> eos_spent = True, eos_txid = Some (txid_to_hex ref_ext (BtcTxid zero32)), eos_vin = None, eos_status = None \<rparr>),
     ej_outspends = (\<lambda>t. Inl []), ej_utxos = (\<lambda>t. Inl []), ej_height_error = (\<lambda>t. t) \<rparr>"

definition no_json :: blockbook_json where
  "no_json = \<lparr> kj_value = (\<lambda>t. Inl []), kj_tx = (\<lambda>t. Inl []), kj_address = (\<lambda>t. Inl []), kj_utxos = (\<lambda>t. Inl []),
     kj_status = (\<lambda>t. Inl []), kj_block_index = (\<lambda>t. Inl []) \<rparr>"

definition open_web :: "nat \<Rightarrow> web" where "open_web n k url = HttpStatus 200 (Inr [])"

definition spent_deployment :: services where
  "spent_deployment = \<lparr> sv_env = quiet_env, sv_ext = ref_ext, sv_ckb = sample_node,
     sv_btc = build_source ref_ext spent_json no_json open_web (c_btc mainnet_config), sv_reason = (\<lambda>n. []) \<rparr>"

lemma spent_deployment_answers:
  "bs_outpoint_status (sv_btc spent_deployment) n p = Inr (SpentUnconfirmed (BtcTxid zero32))"
  "bs_transaction (sv_btc spent_deployment) n t = Inl (BEDecode ''esplora response'' (''tx/'' @ txid_to_hex ref_ext t @ '': ''))"
  "bs_name (sv_btc spent_deployment) = ''esplora''"
  by (simp_all add: spent_deployment_def build_source_def mainnet_config_def btc_defaults_def esplora_source_def Let_def web_call_def
      esplora_outpoint_status_def esplora_transaction_def get_opt_def get_text_opt_def io_bind_def io_call_def io_ret_def io_fail_def io_of_def
      open_web_def spent_json_def outspend_to_status_def types_err_def ref_ext_ok)

lemma group_one: "group_by_txid [p] = [(bo_txid p, [bo_vout p])]"
  by (simp add: group_by_txid_def distinct_sorted_def)

definition spent_row :: observation_row where
  "spent_row = observed_row (to_display_vec (bo_txid sample_point)) (as_i32 (bo_vout sample_point)) (SpentUnconfirmed (BtcTxid zero32)) None ''esplora'' 0"

lemma spent_refresh:
  "d_outpoints (w_db (snd (handle spent_deployment mainnet_config
     (PostRefresh (Inr \<lparr> rr_outpoints = [out_point_to_string ref_ext sample_point], rr_synchronous = True \<rparr>)) (world_of empty_db)))) = [spent_row]"
proof -
  have "collect (parse_outpoint (sv_ext spent_deployment)) [out_point_to_string ref_ext sample_point] = Inr [sample_point]"
    using parse_outpoint_print [OF ref_ext_ok, of sample_point] by (simp add: spent_deployment_def)
  moreover have "min 1 (unat (rc_max_outpoints_per_request (c_reconcile mainnet_config))) = 1"
    by (simp add: mainnet_config_def sample_config_def reconcile_default_def)
  moreover have "sv_env spent_deployment = quiet_env" by (simp add: spent_deployment_def)
  ultimately show ?thesis
    by (simp add: refresh_outpoints_handler_def from_request_bind api_of_indexer_def io_map_err_def refresh_outpoints_def
        io_bind_def io_ret_def observe_many_def group_one observe_group_def observe_each_def distinct_sorted_def io_attempt_def io_call_def
        spent_deployment_answers refresh_one_def record_observation_def of_store_def sql_def upsert_observation_def Let_def
        mk_out_point_collapse follow_up_spend_def refresh_btc_tx_def of_btc_def world_of_def empty_db_def tick_def spent_row_def
        get_observation_def lookup_row_def)
qed

lemma reachable_spends_served_witness:
  "\<exists>d p st. reachable 1 spent_deployment mainnet_config d \<and> spent_row \<in> set (d_outpoints d) \<and>
     served_spend ref_ext spent_json no_json open_web (c_btc mainnet_config) p st \<and> ob_txid spent_row = to_display_vec (bo_txid p)"
proof -
  let ?req = "PostRefresh (Inr \<lparr> rr_outpoints = [out_point_to_string ref_ext sample_point], rr_synchronous = True \<rparr>)"
  let ?d = "w_db (snd (handle spent_deployment mainnet_config ?req (world_of empty_db)))"
  have "system_step 1 spent_deployment mainnet_config empty_db ?d"
    by (rule system_step.serve) (simp add: world_of_def)
  then have r: "reachable 1 spent_deployment mainnet_config ?d" by (auto simp: reachable_def)
  have src: "sv_btc spent_deployment = build_source ref_ext spent_json no_json open_web (c_btc mainnet_config)"
    by (simp add: spent_deployment_def)
  have row: "spent_row \<in> set (d_outpoints ?d)" unfolding spent_refresh by simp
  have "ob_spender spent_row = Some (to_display_vec (BtcTxid zero32))" by (simp add: spent_row_def observed_row_def)
  from reachable_spends_served [OF src r row this] r row show ?thesis by blast
qed

end
