(* ===== verification/Api_Typed.thy ===== *)
theory Api_Typed
  imports Api_Bodies End_To_End
begin

text \<open>
  The texts of the tables and of the answers. Kinds and statuses are \<open>TEXT\<close> columns and
  strings of the answers; here they are shown to stay in the sets that the sources enumerate
  and the API documents, under every interleaving, together with what goes with them: which
  columns of a cell are given for its lock and its type, a spender exactly with a spent
  status, a pending cell only with a spend that was observed.
\<close>

section \<open>The texts of the tables\<close>

definition transition_typed :: "transition_row \<Rightarrow> bool" where
  "transition_typed t \<longleftrightarrow> tr_kind t \<in> range transition_as_str \<and> tr_commitment_status t \<in> range commitment_as_str"

definition anomaly_typed :: "anomaly_row \<Rightarrow> bool" where
  "anomaly_typed a \<longleftrightarrow> an_kind a \<in> range anomaly_as_str \<and> (\<exists>members. an_detail a = JObj members)"

definition sweep_typed :: "sweep_row \<Rightarrow> bool" where
  "sweep_typed r \<longleftrightarrow> sr_status r \<in> {''running'', ''completed'', ''failed''}"

definition consumption_paired :: "cell_db \<Rightarrow> bool" where
  "consumption_paired c \<longleftrightarrow> (cd_consumed_block c \<noteq> None \<longleftrightarrow> cd_consumed_tx c \<noteq> None)"

definition texts_ok :: "db \<Rightarrow> bool" where
  "texts_ok d \<longleftrightarrow> list_all transition_typed (d_transitions d) \<and> list_all anomaly_typed (d_anomalies d) \<and> list_all sweep_typed (d_sweeps d) \<and>
     list_all consumption_paired (d_cells d)"

definition typed_tables :: "db \<Rightarrow> bool" where
  "typed_tables d \<longleftrightarrow> list_all observation_wf (d_outpoints d) \<and> texts_ok d"

lemma transition_as_str_range: "''unchecked'' \<in> range commitment_as_str"
  by (rule range_eqI [where x = Unchecked]) simp

lemma list_all_update_where: "list_all P rows \<Longrightarrow> (\<And>r. P r \<Longrightarrow> P (f r)) \<Longrightarrow> list_all P (update_where c f rows)"
  by (induction rows) (auto simp: update_where_def)

lemma texts_batch: "texts_ok d \<Longrightarrow> texts_ok (batch_effect b now d)"
proof -
  assume ok: "texts_ok d"
  have fresh: "list_all transition_typed (map (fresh_transition now) (ib_transitions b))"
    by (simp add: list_all_iff fresh_transition_def transition_typed_def transition_as_str_range)
  have "list_all transition_typed (fold (upsert transition_key transition_merge) (map (fresh_transition now) (ib_transitions b)) (d_transitions d))"
  proof (rule fold_upsert_list_all [OF _ fresh])
    show "list_all transition_typed (d_transitions d)" using ok by (simp add: texts_ok_def)
    fix r n assume "transition_typed r" "n \<in> set (map (fresh_transition now) (ib_transitions b))"
    with fresh show "transition_typed (transition_merge r n)"
      by (auto simp: list_all_iff transition_typed_def transition_merge_def)
  qed
  moreover have "list_all consumption_paired (d_cells (batch_effect b now d))"
  proof -
    have "list_all consumption_paired (fold (upsert cell_key cell_merge) (map (fresh_cell now) (ib_cells b)) (d_cells d))"
      using ok by (intro fold_upsert_list_all)
        (simp_all add: texts_ok_def list_all_iff consumption_paired_def fresh_cell_def cell_merge_def new_cell.defs)
    then show ?thesis
      by (auto simp: batch_effect_sel list_all_iff consumption_paired_def spend_row_last spend_cell_def split: option.split)
  qed
  moreover have "d_anomalies (batch_effect b now d) = d_anomalies d" "d_sweeps (batch_effect b now d) = d_sweeps d"
    using btc_tables_scanner(3) [of b now d] by (simp_all add: btc_tables_def)
  ultimately show ?thesis using ok by (simp add: texts_ok_def batch_effect_sel)
qed

lemma texts_anomaly: "texts_ok d \<Longrightarrow> texts_ok (record_anomaly kind key txid vout tx i (JObj detail) now d)"
  by (auto simp: texts_ok_def record_anomaly_def anomaly_typed_def anomaly_merge_def intro!: upsert_list_all)

lemma texts_verdict: "texts_ok d \<Longrightarrow> texts_ok (set_commitment_result h observed st d)"
  by (auto simp: texts_ok_def set_commitment_result_def transition_typed_def intro!: list_all_update_where)

lemma texts_resolve: "texts_ok d \<Longrightarrow> texts_ok (snd (resolve_anomalies_for_outpoint txid vout now d))"
  by (auto simp: texts_ok_def resolve_anomalies_for_outpoint_def resolve_where_def Let_def anomaly_typed_def intro!: list_all_update_where)

lemma texts_sweeps:
  "texts_ok d \<Longrightarrow> texts_ok (snd (start_sweep_run now d))"
  "texts_ok d \<Longrightarrow> texts_ok (finish_sweep_run run checked changed found failure now d)"
  by (auto simp: texts_ok_def start_sweep_run_def finish_sweep_run_def sweep_typed_def intro!: list_all_update_where)

lemma texts_elsewhere:
  "texts_ok (snd (upsert_observation txid vout st address source now d)) = texts_ok d"
  "texts_ok (upsert_btc_tx txid height hash time commitment i j fee source now d) = texts_ok d"
  "texts_ok (enqueue_refresh txid vout reason priority now d) = texts_ok d"
  "texts_ok (snd (drop_exhausted_refreshes m d)) = texts_ok d"
  "texts_ok (snd (claim_refresh_batch limit now d)) = texts_ok d"
  "texts_ok (complete_refresh txid vout d) = texts_ok d"
  "texts_ok (fail_refresh txid vout err d) = texts_ok d"
  "texts_ok (insert_stream stream start now d) = texts_ok d"
  "texts_ok (record_chain_progress stream chain_tip target lag now d) = texts_ok d"
  "texts_ok (snd (prune_blocks_below keep d)) = texts_ok d"
  "texts_ok (set_stream_error stream stream_err now d) = texts_ok d"
  by (simp_all add: texts_ok_def upsert_observation_def upsert_btc_tx_def enqueue_refresh_def drop_exhausted_refreshes_def
      claim_refresh_batch_def complete_refresh_def fail_refresh_def insert_stream_def record_chain_progress_def
      prune_blocks_below_def set_stream_error_def Let_def)

lemma texts_label: "label_outpoints source labels now d = Inr (n, d') \<Longrightarrow> texts_ok d' = texts_ok d"
  by (auto simp: label_outpoints_def texts_ok_def Let_def split: if_splits)

lemma texts_enqueue_many: "enqueue_rows ops reason priority now d = Inr (n, d') \<Longrightarrow> texts_ok d' = texts_ok d"
  by (auto simp: enqueue_rows_def texts_ok_def split: if_splits)

lemma texts_step: "statement cfg src (d, ready) (d', ready') \<Longrightarrow> texts_ok d \<Longrightarrow> texts_ok d'"
  by (cases rule: statement.cases, assumption)
    (auto simp: texts_elsewhere texts_label texts_enqueue_many intro: texts_batch texts_anomaly texts_verdict texts_resolve texts_sweeps)

definition rest_ok :: "config \<Rightarrow> db \<times> bool \<Rightarrow> bool" where
  "rest_ok cfg p \<longleftrightarrow> system_ok cfg p \<and> texts_ok (fst p)"

lemma rest_ok_runs: "(statement cfg src)\<^sup>*\<^sup>* p p' \<Longrightarrow> rest_ok cfg p \<Longrightarrow> rest_ok cfg p'"
proof (induction rule: rtranclp_induct)
  case (step p1 p2)
  then have "texts_ok (fst p2)" using texts_step [of cfg src "fst p1" "snd p1" "fst p2" "snd p2"] by (simp add: rest_ok_def)
  with step system_ok_step show ?case unfolding rest_ok_def by blast
qed

text \<open>Between statements of the queue worker: what the runs of requests start from.\<close>

definition served_tables :: "config \<Rightarrow> db \<Rightarrow> bool" where
  "served_tables cfg d \<longleftrightarrow> rest_ok cfg (d, False)"

lemma served_runs: "runs cfg src d d' \<Longrightarrow> served_tables cfg d \<Longrightarrow> served_tables cfg d'"
  unfolding runs_def served_tables_def by (rule rest_ok_runs)

lemma served_typed: "served_tables cfg d \<Longrightarrow> typed_tables d"
  by (simp add: served_tables_def rest_ok_def typed_tables_def tables_ok_def observations_ok_def)

lemma served_empty: "served_tables cfg empty_db"
  using system_ok_empty [of cfg] by (simp add: served_tables_def rest_ok_def texts_ok_def empty_db_def)

section \<open>The columns of a cell\<close>

text \<open>Which columns of a cell are given, by its lock and its type.\<close>

definition cell_typed :: "'a new_cell_scheme \<Rightarrow> bool" where
  "cell_typed c \<longleftrightarrow>
     (nc_btc_vout c \<noteq> None \<longleftrightarrow> nc_lock_kind c = KRgbpp) \<and> (nc_time_after c \<noteq> None \<longleftrightarrow> nc_lock_kind c = KBtcTime) \<and>
     (nc_type_hash c = None \<longleftrightarrow> nc_asset_kind c = NoAsset) \<and> (nc_type_script c = None \<longleftrightarrow> nc_type_hash c = None) \<and>
     (nc_udt_amount c \<noteq> None \<longrightarrow> nc_asset_kind c \<in> {Xudt, Sudt})"

definition cells_typed :: "db \<Rightarrow> bool" where
  "cells_typed d \<longleftrightarrow> (\<forall>c \<in> set (d_cells d). cell_typed c)"

lemma classify_first_some: "NoAsset \<notin> snd ` set rules \<Longrightarrow> classify_first rules s \<noteq> NoAsset"
  by (induction rules s rule: classify_first.induct) auto

lemma classify_none: "classify_asset a t = NoAsset \<longleftrightarrow> t = None"
  using classify_first_some [of "[(as_xudt a, Xudt), (as_sudt a, Sudt), (as_spore a, Spore), (as_spore_cluster a, SporeCluster)]"]
  by (auto simp: classify_asset_def split: option.split)

lemma built_typed: "cell_typed (build_new_cell x assets h out b)"
proof -
  have "fungible_amount k data \<noteq> None \<Longrightarrow> k \<in> {Xudt, Sudt}" for k data
    by (cases k) (auto simp: fungible_amount_def)
  then show ?thesis
    by (auto simp: cell_typed_def build_new_cell_def Let_def classify_none split: lock_binding.splits)
qed

lemma mirrors_columns:
  assumes "mirrors x cfg ans c"
  obtains h out where
    "nc_btc_txid c = nc_btc_txid (build_new_cell x (c_assets cfg) h out no_block)"
    "nc_lock_kind c = nc_lock_kind (build_new_cell x (c_assets cfg) h out no_block)"
    "nc_btc_vout c = nc_btc_vout (build_new_cell x (c_assets cfg) h out no_block)"
    "nc_time_after c = nc_time_after (build_new_cell x (c_assets cfg) h out no_block)"
    "nc_target_lock c = nc_target_lock (build_new_cell x (c_assets cfg) h out no_block)"
    "nc_type_hash c = nc_type_hash (build_new_cell x (c_assets cfg) h out no_block)"
    "nc_type_script c = nc_type_script (build_new_cell x (c_assets cfg) h out no_block)"
    "nc_asset_kind c = nc_asset_kind (build_new_cell x (c_assets cfg) h out no_block)"
    "nc_udt_amount c = nc_udt_amount (build_new_cell x (c_assets cfg) h out no_block)"
proof -
  from assms obtain h tx i binding where t: "new_cell.truncate c = build_new_cell x (c_assets cfg) h (read_output tx i binding) no_block
      \<lparr> nc_block_number := nc_block_number c, nc_block_hash := nc_block_hash c, nc_created_tx_index := nc_created_tx_index c \<rparr>"
    unfolding mirrors_def mirrors_output_def by blast
  have sel: "nc_btc_txid c = nc_btc_txid (new_cell.truncate c)" "nc_lock_kind c = nc_lock_kind (new_cell.truncate c)" "nc_btc_vout c = nc_btc_vout (new_cell.truncate c)"
    "nc_time_after c = nc_time_after (new_cell.truncate c)" "nc_target_lock c = nc_target_lock (new_cell.truncate c)"
    "nc_type_hash c = nc_type_hash (new_cell.truncate c)" "nc_type_script c = nc_type_script (new_cell.truncate c)"
    "nc_asset_kind c = nc_asset_kind (new_cell.truncate c)" "nc_udt_amount c = nc_udt_amount (new_cell.truncate c)"
    by (simp_all add: new_cell.defs)
  show thesis by (rule that [of h "read_output tx i binding"]) (simp_all only: sel t, simp_all)
qed

lemma mirrors_typed:
  assumes "cells_mirror x cfg ans d"
  shows "cells_typed d"
  unfolding cells_typed_def
proof
  fix c assume "c \<in> set (d_cells d)"
  with assms have "mirrors x cfg ans c" by (simp add: cells_mirror_def)
  then show "cell_typed c"
  proof (rule mirrors_columns)
    fix h out
    assume columns: "nc_lock_kind c = nc_lock_kind (build_new_cell x (c_assets cfg) h out no_block)"
      "nc_btc_vout c = nc_btc_vout (build_new_cell x (c_assets cfg) h out no_block)"
      "nc_time_after c = nc_time_after (build_new_cell x (c_assets cfg) h out no_block)"
      "nc_type_hash c = nc_type_hash (build_new_cell x (c_assets cfg) h out no_block)"
      "nc_type_script c = nc_type_script (build_new_cell x (c_assets cfg) h out no_block)"
      "nc_asset_kind c = nc_asset_kind (build_new_cell x (c_assets cfg) h out no_block)"
      "nc_udt_amount c = nc_udt_amount (build_new_cell x (c_assets cfg) h out no_block)"
    show "cell_typed c"
      unfolding cell_typed_def columns by (rule built_typed [unfolded cell_typed_def])
  qed
qed

lemma cells_kept: "obeys (keeps ckb_side) m \<Longrightarrow> obeys (preserves (\<lambda>d. Q (d_cells d))) m"
  unfolding obeys_def keeps_def preserves_def ckb_side_def by (metis prod.inject)

lemma preserves_both: "obeys (preserves A) m \<Longrightarrow> obeys (preserves B) m \<Longrightarrow> obeys (preserves (\<lambda>d. A d \<and> B d)) m"
  unfolding obeys_def preserves_def by blast

section \<open>The texts of the answers\<close>

definition spent_texts :: "string set" where "spent_texts = {''spent_unconfirmed'', ''spent_confirmed''}"

text \<open>The kind of an asset, with its type hash and its amount.\<close>

definition fungible_texts :: "string set" where "fungible_texts = {''xudt'', ''sudt''}"

definition asset_stated :: "string \<Rightarrow> string option \<Rightarrow> string option \<Rightarrow> bool" where
  "asset_stated kind type_hash amount \<longleftrightarrow>
     kind \<in> range asset_as_str \<and> (type_hash = None \<longleftrightarrow> kind = ''none'') \<and> (amount \<noteq> None \<longrightarrow> kind \<in> fungible_texts)"

definition observation_documented :: "btc_observation_dto \<Rightarrow> bool" where
  "observation_documented r \<longleftrightarrow>
     bod_status r \<in> {''unknown'', ''unspent''} \<union> spent_texts \<and> (bod_spender r \<noteq> None \<longleftrightarrow> bod_status r \<in> spent_texts)"

definition cell_documented :: "cell_dto \<Rightarrow> bool" where
  "cell_documented c \<longleftrightarrow>
     ce_lock_kind c \<in> range lock_kind_as_str \<and>
     (ce_btc_out_point c \<noteq> None \<longleftrightarrow> ce_lock_kind c = ''rgbpp'') \<and> (ce_btc_time c \<noteq> None \<longleftrightarrow> ce_lock_kind c = ''btc_time'') \<and>
     asset_stated (ce_asset_kind c) (ce_type_hash c) (ce_amount c) \<and> (ce_type_script c = None \<longleftrightarrow> ce_asset_kind c = ''none'') \<and>
     ce_status c \<in> {''live'', ''pending_ckb'', ''spent''} \<and> (ce_consumed c \<noteq> None \<longleftrightarrow> ce_status c = ''spent'') \<and>
     (case ce_btc_observation c of
        None \<Rightarrow> ce_status c \<noteq> ''pending_ckb''
      | Some r \<Rightarrow> observation_documented r \<and> (ce_status c = ''pending_ckb'' \<longrightarrow> bod_status r \<in> spent_texts))"

definition activity_cell_documented :: "activity_cell_dto \<Rightarrow> bool" where
  "activity_cell_documented c \<longleftrightarrow>
     asset_stated (acd_asset_kind c) (acd_type_hash c) (acd_amount c) \<and> acd_btc_out_point c \<noteq> None"

definition delta_documented :: "asset_delta_dto \<Rightarrow> bool" where
  "delta_documented a \<longleftrightarrow>
     asset_stated (dd_asset_kind a) (dd_type_hash a) (dd_amount a) \<and> (dd_asset_kind a \<in> fungible_texts \<longrightarrow> dd_amount a \<noteq> None)"

definition activity_documented :: "activity_entry_dto \<Rightarrow> bool" where
  "activity_documented e \<longleftrightarrow>
     ae_kind e \<in> range transition_as_str \<and>
     ae_direction e = (if ae_received e \<noteq> [] \<and> ae_sent e = [] then DirIn
       else if ae_received e = [] \<and> ae_sent e \<noteq> [] then DirOut else DirSelf) \<and>
     list_all activity_cell_documented (ae_received e) \<and> list_all activity_cell_documented (ae_sent e) \<and>
     list_all delta_documented (ae_deltas e) \<and>
     pred_option (\<lambda>b. ab_confirmed b \<longleftrightarrow> ab_block_height b \<noteq> None) (ae_btc e)"

definition transition_documented :: "transition_dto \<Rightarrow> bool" where
  "transition_documented t \<longleftrightarrow> td_kind t \<in> range transition_as_str \<and> td_commitment_status t \<in> range commitment_as_str"

definition asset_documented :: "asset_dto \<Rightarrow> bool" where
  "asset_documented a \<longleftrightarrow>
     asd_asset_kind a \<in> range asset_as_str - {''none''} \<and> (asd_total_amount a \<noteq> None \<longleftrightarrow> asd_asset_kind a \<in> fungible_texts)"

definition balance_documented :: "asset_balance_dto \<Rightarrow> bool" where
  "balance_documented a \<longleftrightarrow>
     asset_stated (bd_asset_kind a) (bd_type_hash a) (bd_total_amount a) \<and> (bd_asset_kind a \<in> fungible_texts \<longrightarrow> bd_total_amount a \<noteq> None)"

definition anomaly_documented :: "anomaly_dto \<Rightarrow> bool" where
  "anomaly_documented a \<longleftrightarrow> ad_kind a \<in> range anomaly_as_str \<and> (\<exists>members. ad_detail a = JObj members)"

definition documented_parts :: body_parts where
  "documented_parts = \<lparr> part_cell = cell_documented, part_transition = transition_documented, part_asset = asset_documented,
     part_balance = balance_documented, part_anomaly = anomaly_documented,
     part_sweep = (\<lambda>r. ss_status r \<in> {''running'', ''completed'', ''failed''}), part_activity = activity_documented \<rparr>"

subsection \<open>Rows read as documented\<close>

lemma binding_observation_in: "binding_observation d c = Some r \<Longrightarrow> r \<in> set (d_outpoints d)"
  by (auto simp: binding_observation_def split: option.splits dest: lookup_row_key)

lemma lock_texts: "lock_kind_as_str k = ''rgbpp'' \<longleftrightarrow> k = KRgbpp" "lock_kind_as_str k = ''btc_time'' \<longleftrightarrow> k = KBtcTime"
  by (cases k; simp)+

lemma asset_texts: "asset_as_str k = ''none'' \<longleftrightarrow> k = NoAsset" "asset_as_str k \<in> fungible_texts \<longleftrightarrow> k \<in> {Xudt, Sudt}"
  by (cases k; simp add: fungible_texts_def)+

lemma fungible_text: "is_fungible kind \<longleftrightarrow> kind \<in> fungible_texts"
  by (simp add: is_fungible_def fungible_texts_def)

lemma observation_read:
  assumes "typed_tables d" "binding_observation d c = Some ob"
  shows "observation_documented \<lparr> bod_status = ob_status ob, bod_spender = map_option (ex_hex_encode x) (ob_spender ob),
      bod_height = height, bod_observed_at = at, bod_address = address \<rparr>"
proof -
  from binding_observation_in [OF assms(2)] assms(1) have "observation_wf ob" by (auto simp: typed_tables_def list_all_iff)
  then show ?thesis by (auto simp: observation_wf_def observation_documented_def spent_texts_def split: option.splits)
qed

lemma cell_row_documented:
  assumes "typed_tables d" "cells_typed d" "r \<in> set (cell_status_view d)"
  shows "cell_documented (cell_dto_of x r)"
proof -
  from assms(3) obtain c where r: "r = cell_status_row d c" and c: "c \<in> set (d_cells d)" by (auto simp: cell_status_view_def)
  from assms c have typed: "cell_typed c" and paired: "consumption_paired c"
    by (auto simp: cells_typed_def typed_tables_def texts_ok_def list_all_iff)
  have columns: "ce_lock_kind (cell_dto_of x r) \<in> range lock_kind_as_str"
    "ce_btc_out_point (cell_dto_of x r) \<noteq> None \<longleftrightarrow> ce_lock_kind (cell_dto_of x r) = ''rgbpp''"
    "ce_btc_time (cell_dto_of x r) \<noteq> None \<longleftrightarrow> ce_lock_kind (cell_dto_of x r) = ''btc_time''"
    "asset_stated (ce_asset_kind (cell_dto_of x r)) (ce_type_hash (cell_dto_of x r)) (ce_amount (cell_dto_of x r))"
    "ce_type_script (cell_dto_of x r) = None \<longleftrightarrow> ce_asset_kind (cell_dto_of x r) = ''none''"
    using typed
    by (auto simp: r cell_status_row_def cell_dto_of_def Let_def cell_typed_def asset_stated_def lock_texts asset_texts decimal_string_def)
  have status: "ce_status (cell_dto_of x r) = view_status c (binding_observation d c)"
    and consumed: "ce_consumed (cell_dto_of x r) \<noteq> None \<longleftrightarrow> cd_consumed_block c \<noteq> None"
    using paired by (auto simp: r cell_status_row_def cell_dto_of_def Let_def consumption_paired_def split: option.splits)
  have "cd_consumed_block c \<noteq> None \<longleftrightarrow> view_status c (binding_observation d c) = ''spent''"
    by (auto simp: view_status_def split: option.splits)
  moreover have "view_status c (binding_observation d c) \<in> {''live'', ''pending_ckb'', ''spent''}"
    by (auto simp: view_status_def split: option.splits)
  moreover have "case ce_btc_observation (cell_dto_of x r) of
        None \<Rightarrow> ce_status (cell_dto_of x r) \<noteq> ''pending_ckb''
      | Some q \<Rightarrow> observation_documented q \<and> (ce_status (cell_dto_of x r) = ''pending_ckb'' \<longrightarrow> bod_status q \<in> spent_texts)"
  proof (cases "binding_observation d c")
    case None
    then show ?thesis by (simp add: r cell_status_row_def cell_dto_of_def view_status_def Let_def)
  next
    case (Some ob)
    with observation_read [OF assms(1) Some, of x] show ?thesis
      by (simp add: r cell_status_row_def cell_dto_of_def view_status_def spent_texts_def Let_def)
  qed
  ultimately show ?thesis unfolding cell_documented_def status consumed using columns by (simp add: status)
qed

lemma asset_row_documented: "ar_asset_kind r \<in> range asset_as_str - {''none''} \<Longrightarrow> asset_documented (asset_dto_of x r)"
  by (auto simp: asset_documented_def asset_dto_of_def fungible_text)

lemma summaries_kinds:
  assumes "cells_typed d" "r \<in> set (asset_summaries p d)"
  shows "ar_asset_kind r \<in> range asset_as_str - {''none''}"
proof -
  have kind: "ar_asset_kind (asset_summary d g cs) = asset_as_str (snd g)" for g cs
    by (simp add: asset_summary_def Let_def)
  from assms(2) obtain c g where c: "c \<in> set (d_cells d)" "asset_group c = Some g" "ar_asset_kind r = asset_as_str (snd g)"
    by (fastforce simp: asset_summaries_def Let_def List.map_filter_def kind)
  then have "snd g = nc_asset_kind c" "nc_type_hash c \<noteq> None" by (auto simp: asset_group_def)
  with assms(1) c show ?thesis by (auto simp: cells_typed_def cell_typed_def asset_texts)
qed

lemma view_kind: "cells_typed d \<Longrightarrow> r \<in> set (cell_status_view d) \<Longrightarrow>
    cr_asset_kind r \<in> range asset_as_str \<and> (cr_type_hash r = None \<longleftrightarrow> cr_asset_kind r = ''none'')"
  by (auto simp: cell_status_view_def cell_status_row_def Let_def cells_typed_def cell_typed_def asset_texts)

lemma balance_kinds: "cells_typed d \<Longrightarrow> b \<in> set (asset_balances_for_outpoints ops inc d) \<Longrightarrow>
    ab_asset_kind b \<in> range asset_as_str \<and> (ab_type_hash b = None \<longleftrightarrow> ab_asset_kind b = ''none'')"
  using view_kind by (auto simp: asset_balances_for_outpoints_def balance_row_def balance_group_def balance_cells_def Let_def)

lemma balance_row_documented:
  "ab_asset_kind b \<in> range asset_as_str \<and> (ab_type_hash b = None \<longleftrightarrow> ab_asset_kind b = ''none'') \<Longrightarrow> balance_documented (balance_dto_of x b)"
  by (auto simp: balance_documented_def balance_dto_of_def fungible_text asset_stated_def)

subsection \<open>The history of an address\<close>

definition activity_cell_typed :: "activity_cell_row \<Rightarrow> bool" where
  "activity_cell_typed c \<longleftrightarrow>
     al_asset_kind c \<in> range asset_as_str \<and> (al_type_hash c = None \<longleftrightarrow> al_asset_kind c = ''none'') \<and>
     (al_udt_amount c \<noteq> None \<longrightarrow> al_asset_kind c \<in> fungible_texts) \<and> al_btc_vout c \<noteq> None"

lemma owned_bound: "c \<in> set (owned_cells address d) \<Longrightarrow> c \<in> set (d_cells d) \<and> nc_btc_vout c \<noteq> None"
  by (auto simp: owned_cells_def cell_address_def binding_observation_def split: option.splits)

lemma activity_cells_typed:
  assumes "cells_typed d" "c \<in> set (address_activity_cells address hs d)"
  shows "activity_cell_typed c"
proof -
  from assms(2) obtain role tx k where k: "c = activity_cell role tx k" "k \<in> set (owned_cells address d)"
    by (auto simp: address_activity_cells_def List.map_filter_def split: if_splits option.splits)
  from owned_bound [OF k(2)] assms(1) have "cell_typed k" "nc_btc_vout k \<noteq> None" by (auto simp: cells_typed_def)
  then show ?thesis by (auto simp: k(1) activity_cell_def activity_cell_typed_def cell_typed_def asset_texts)
qed

lemma activity_rows_distinct: "ckb_keys_ok d \<Longrightarrow> distinct (map ac_tx_hash (address_activity address cursor limit d))"
proof -
  assume "ckb_keys_ok d"
  then have "distinct (map tr_tx_hash (d_transitions d))" by (simp add: ckb_keys_ok_def transition_key_def [abs_def])
  then have "distinct (map ac_tx_hash (all_activity address d))"
    by (simp add: all_activity_def activity_of_def comp_def Let_def distinct_map_filter)
  then have "distinct (map ac_tx_hash (sort_key newest_first (filter p (all_activity address d))))" for p
    by (auto simp: distinct_map inj_on_def)
  then show ?thesis by (simp add: address_activity_def limit_rows_def Let_def take_map [symmetric] distinct_take)
qed

lemma activity_rows_kinds: "r \<in> set (address_activity address cursor limit d) \<Longrightarrow> \<exists>t \<in> set (d_transitions d). ac_kind r = tr_kind t"
proof -
  assume "r \<in> set (address_activity address cursor limit d)"
  then obtain t where "t \<in> set (d_transitions d)" "r = activity_of d t"
    by (auto simp: address_activity_def limit_rows_def Let_def all_activity_def dest!: in_set_takeD)
  then show ?thesis by (auto simp: activity_of_def Let_def)
qed

lemma entry_documented:
  assumes "\<forall>c \<in> set cells. activity_cell_typed c" "ac_kind r \<in> range transition_as_str"
  shows "activity_documented (reference_entry x cells r)"
proof -
  have cells: "list_all activity_cell_documented (map (activity_cell_dto_of x) (filter p (cells_of cells r)))" for p
    using assms(1)
    by (auto simp: list_all_iff cells_of_def activity_cell_typed_def activity_cell_documented_def activity_cell_dto_of_def
        asset_stated_def decimal_string_def)
  have "delta_documented (delta_dto_of x (k, acc))" if "k \<in> asset_key_of ` set (cells_of cells r)" for k acc
    using that assms(1)
    by (auto simp: cells_of_def asset_key_of_def activity_cell_typed_def delta_documented_def delta_dto_of_def asset_stated_def fungible_text)
  then have "list_all delta_documented (sort_key delta_order (map (delta_dto_of x)
      (map (\<lambda>k. (k, net_delta (cells_of cells r) k)) (first_occurrences (map asset_key_of (cells_of cells r))))))"
    by (auto simp: list_all_iff)
  with cells assms(2) show ?thesis
    by (auto simp: activity_documented_def reference_entry_def activity_entry_def direction_of_def Let_def pred_option_def)
qed

subsection \<open>Every answer\<close>

text \<open>What the reachable tables hold.\<close>

definition documented_tables :: "config \<Rightarrow> db \<Rightarrow> bool" where
  "documented_tables cfg d \<longleftrightarrow> served_tables cfg d \<and> cells_typed d"

lemma documented_typed: "documented_tables cfg d \<Longrightarrow> typed_tables d \<and> cells_typed d \<and> ckb_keys_ok d"
  using served_typed by (auto simp: documented_tables_def served_tables_def rest_ok_def)

lemma documented_kept:
  assumes "obeys (preserves (served_tables cfg)) m" "obeys (keeps ckb_side) m"
  shows "obeys (preserves (documented_tables cfg)) m"
  using preserves_both [OF assms(1) cells_kept [OF assms(2), of "\<lambda>cs. \<forall>c \<in> set cs. cell_typed c"]]
  by (simp add: documented_tables_def [abs_def] cells_typed_def)

lemma activity_entry_documented:
  assumes "documented_tables cfg d" "read_cells (documented_tables cfg) address cells"
    and "e \<in> set (aa_entries (build_activity x address (address_activity address cursor limit d) cells limit unresolved))"
  shows "activity_documented e"
proof -
  note typed = documented_typed [OF assms(1)]
  from assms(3) typed obtain r where r: "e = reference_entry x cells r" "r \<in> set (address_activity address cursor limit d)"
    by (auto simp: activity_page_entries activity_rows_distinct)
  from activity_rows_kinds [OF r(2)] typed have "ac_kind r \<in> range transition_as_str"
    by (auto simp: typed_tables_def texts_ok_def list_all_iff transition_typed_def)
  moreover from assms(2) documented_typed have "\<forall>c \<in> set cells. activity_cell_typed c"
    by (auto simp: read_cells_def intro: activity_cells_typed)
  ultimately show ?thesis unfolding r(1) by (intro entry_documented)
qed

interpretation documented: answer_parts "documented_tables cfg" s cfg documented_parts for s cfg
proof (unfold_locales, goal_cases)
  case 1
  show ?case
    by (rule documented_kept [OF kept_calls(1) keeps.obeys_api_of_indexer [OF ckb_side_kept.obeys_refresh_outpoints]]) (rule served_runs)
next
  case 2
  show ?case
    by (rule documented_kept [OF kept_calls(2) keeps.obeys_api_of_indexer [OF ckb_side_kept.obeys_reconcile_address]]) (rule served_runs)
next
  case 3
  show ?case
    by (rule documented_kept [OF kept_calls(3) keeps.obeys_api_of_indexer [OF ckb_side_kept.obeys_resolve_transition]]) (rule served_runs)
next
  case 4
  show ?case
    by (rule documented_kept [OF kept_calls(4) keeps.obeys_api_of_store [OF ckb_side_kept.obeys_enqueue_many]]) (rule served_runs)
next
  case (5 d r)
  with documented_typed [of cfg d] show ?case by (auto simp: documented_parts_def intro: cell_row_documented)
next
  case (6 d t)
  with documented_typed [of cfg d] show ?case
    by (auto simp: documented_parts_def typed_tables_def texts_ok_def list_all_iff transition_typed_def transition_documented_def transition_dto_of_def)
next
  case (7 d address cells e cursor limit unresolved)
  then show ?case by (auto simp: documented_parts_def intro: activity_entry_documented)
next
  case (8 d a p)
  with documented_typed [of cfg d] show ?case by (auto simp: documented_parts_def intro!: asset_row_documented summaries_kinds)
next
  case (9 d b ops inc)
  with documented_typed [of cfg d] show ?case by (auto simp: documented_parts_def intro!: balance_row_documented balance_kinds)
next
  case (10 d n)
  with documented_typed [of cfg d] show ?case
    by (auto simp: documented_parts_def typed_tables_def texts_ok_def list_all_iff anomaly_typed_def anomaly_documented_def anomaly_dto_of_def)
next
  case (11 d r)
  with documented_typed [of cfg d] show ?case
    by (auto simp: documented_parts_def typed_tables_def texts_ok_def list_all_iff sweep_typed_def sweep_status_of_def)
qed

lemma reachable_documented:
  assumes "stable_node (sv_ckb s) ans" "reachable fuel s cfg d"
  shows "documented_tables cfg d"
  using served_runs [of cfg "sv_btc s" empty_db d] reachable_statements [OF assms(2)] served_empty mirrors_typed [OF reachable_mirrors [OF assms]]
  by (simp add: runs_def documented_tables_def)

section \<open>Properties\<close>



end
