(* ===== verification/Api_Contract.thy ===== *)
theory Api_Contract
  imports Api_Schemas Api_Typed End_To_End
begin

text \<open>
  The contract of the API, as its OpenAPI document states it: every answer of every handler
  has a status that the handler's annotation documents, and its JSON is valid against the
  schema published for that status. The facts come from the shapes (\<open>Api_Schemas\<close>), from what
  the reachable tables hold (\<open>Api_Typed\<close>, \<open>System\<close>) and from the causes of failures
  (\<open>Api_Props\<close>).
\<close>

section \<open>Stored scripts\<close>

definition cells_shaped :: "db \<Rightarrow> bool" where
  "cells_shaped d \<longleftrightarrow> (\<forall>c \<in> set (d_cells d). script_shaped (nc_type_script c) \<and> script_shaped (nc_target_lock c))"

definition shaped_parts :: body_parts where "shaped_parts = any_part\<lparr> part_cell := cell_shaped \<rparr>"

lemma built_shaped:
  "script_shaped (nc_type_script (build_new_cell x assets h out b))" "script_shaped (nc_target_lock (build_new_cell x assets h out b))"
  by (auto simp: script_shaped_def build_new_cell_def Let_def split: lock_binding.splits)

lemma mirror_shaped:
  assumes "cells_mirror x cfg ans d"
  shows "cells_shaped d"
  unfolding cells_shaped_def
proof
  fix c assume "c \<in> set (d_cells d)"
  with assms have "mirrors x cfg ans c" by (simp add: cells_mirror_def)
  then show "script_shaped (nc_type_script c) \<and> script_shaped (nc_target_lock c)"
    by (rule mirrors_columns) (simp only: built_shaped simp_thms)
qed

lemma shaped_kept: "obeys (keeps ckb_side) m \<Longrightarrow> obeys (preserves cells_shaped) m"
  using cells_kept [of m "\<lambda>cs. \<forall>c \<in> set cs. script_shaped (nc_type_script c) \<and> script_shaped (nc_target_lock c)"]
  by (simp add: cells_shaped_def [abs_def])

interpretation shaped: answer_parts cells_shaped s cfg shaped_parts for s cfg
proof (unfold_locales, goal_cases)
  case (5 d r)
  then obtain c where "c \<in> set (d_cells d)" "r = cell_status_row d c" by (auto simp: cell_status_view_def)
  with 5(1) show ?case
    by (auto simp: shaped_parts_def any_part_def cell_shaped_def cell_dto_of_def cell_status_row_def Let_def cells_shaped_def)
qed (simp_all add: shaped_parts_def any_part_def preserves.obeys_api_of_indexer preserves.obeys_api_of_store shaped_kept
    ckb_side_kept.obeys_refresh_outpoints ckb_side_kept.obeys_reconcile_address ckb_side_kept.obeys_resolve_transition
    ckb_side_kept.obeys_enqueue_many)

section \<open>Answers of success\<close>

fun body_schema :: "body \<Rightarrow> schema" where
  "body_schema (HealthBody b) = SRef ''HealthDto''"
| "body_schema (StatusBody b) = SRef ''StatusDto''"
| "body_schema (CellsBody b) = SArr (SRef ''CellDto'')"
| "body_schema (CellBody b) = SRef ''CellDto''"
| "body_schema (AddressAssetsBody b) = SRef ''AddressAssetsResponse''"
| "body_schema (BalanceBody b) = SRef ''BalanceResponse''"
| "body_schema (TransactionStatusBody b) = SRef ''TransactionStatusResponse''"
| "body_schema (RefreshBody b) = SRef ''RefreshResponse''"
| "body_schema (AssetsBody b) = SRef ''AssetsResponse''"
| "body_schema (AssetsBatchBody b) = SRef ''AssetsBatchResponse''"
| "body_schema (CellsBatchBody b) = SRef ''CellsBatchResponse''"
| "body_schema (TransitionsBatchBody b) = SRef ''TransitionsBatchResponse''"
| "body_schema (TransitionsBody b) = SArr (SRef ''TransitionDto'')"
| "body_schema (TransitionBody b) = SRef ''TransitionDto''"
| "body_schema (ActivityBody b) = SRef ''AddressActivityDto''"
| "body_schema (AnomaliesBody b) = SArr (SRef ''AnomalyDto'')"

definition gives :: "('e, 'a) io \<Rightarrow> ('a \<Rightarrow> bool) \<Rightarrow> bool" where
  "gives m Q \<longleftrightarrow> (\<forall>w v w'. m w = (Inr v, w') \<longrightarrow> Q v)"

lemma gives_ret: "Q v \<Longrightarrow> gives (io_ret v) Q"
  by (simp add: gives_def io_ret_def)

lemma gives_bind: "(\<And>v. gives (k v) Q) \<Longrightarrow> gives (io_bind m k) Q"
  unfolding gives_def io_bind_def by (auto split: prod.splits sum.splits)

lemma gives_if: "(c \<Longrightarrow> gives m Q) \<Longrightarrow> (\<not> c \<Longrightarrow> gives m' Q) \<Longrightarrow> gives (if c then m else m') Q"
  by simp

lemmas responses_defs =
  health_responses_def status_responses_def cells_by_btc_utxo_responses_def cells_by_btc_txid_responses_def
  cell_by_ckb_out_point_responses_def assets_by_btc_address_responses_def balance_by_btc_address_responses_def
  transaction_status_responses_def refresh_outpoints_responses_def list_assets_responses_def assets_batch_responses_def
  cells_batch_responses_def transitions_batch_responses_def recent_transitions_responses_def transition_by_ckb_tx_responses_def
  activity_by_btc_address_responses_def anomalies_responses_def answers_error_def

lemma body_of_request: "gives (handle s cfg req) (\<lambda>b. map_of (documented_responses req) 200 = Some (body_schema b))"
  by (cases req; simp only: handle.simps handler_defs Let_def documented_responses.simps;
      intro gives_bind gives_if gives_ret; simp add: responses_defs)

lemma body_conforms:
  assumes "body_all documented_parts b" "body_all shaped_parts b"
  shows "conforms 13 (body_schema b) (body_json t b)"
  using assms
  by (cases b) (auto simp: body_conforms_rules conforms_list documented_parts_def shaped_parts_def any_part_def anomaly_documented_def list_all_iff)

section \<open>Answers of failure\<close>

lemma statuses: "api_status a \<in> {400, 404, 500, 502}"
  by (cases a rule: api_status.cases) simp_all

lemma status_fails: "fails_only (\<lambda>err. \<exists>a. err = Refused (AStore a)) (status_handler s cfg)"
  unfolding status_handler_def Let_def
  by (intro fails_rules fails_api_of_store) (simp_all add: fails_only_def)

lemma failure_documented:
  assumes "handle s cfg req w = (Inl (Refused a), w')"
  shows "map_of (documented_responses req) (api_status a) = Some (SRef ''ErrorResponse'')"
proof -
  from fails_onlyD [OF accounted_handle assms] have
    found: "api_status a = 404 \<Longrightarrow> (\<exists>p. req = GetCellByOutPoint p) \<or> (\<exists>p. req = GetTransition p)" and
    upstream: "api_status a = 502 \<Longrightarrow> \<not> lookup_only req"
    by (cases a rule: api_status.cases; simp add: accounted_def)+
  have store: "req = GetStatus \<Longrightarrow> api_status a = 500"
    using assms fails_onlyD [OF status_fails, of s cfg w "Refused a" w'] by auto
  have health: "req \<noteq> GetHealth" using assms by (auto simp: health_handler_def io_ret_def)
  show ?thesis
    using statuses [of a] found upstream store health
    by (cases req) (auto simp: responses_defs)
qed

text \<open>
  The document gives an unsigned 32-bit field the format \<open>int32\<close>; an index in the upper half of
  its range is outside that format.
\<close>

lemma index_exceeds_format:
  "published_schema ''BtcOutPointDto'' = Some (SObj [(''txid'', SStr False), (''vout'', SInt Int32 True False)] [''txid'', ''vout''])"
  "2 ^ 31 \<le> uint (bpt_vout p) \<Longrightarrow> json_get ''vout'' (btc_point_json p) = Some (JInt i) \<Longrightarrow> \<not> in_format Int32 i"
  by (simp_all add: published_responses(15) btc_point_schema_def derive_struct_def json_get_def btc_point_json_def json_word_def)

section \<open>Properties\<close>

text \<open>
  C12.
  The API keeps its published contract. In every state that the workers and the requests can
  reach, against a node that answers each transaction request alike, whatever a request holds
  and whatever fails: every answer has a status that the handler documents, and its JSON is
  valid against the schema that the OpenAPI document publishes for that status, in which
  every field of every response is required.
\<close>

theorem answers_validate:
  assumes "stable_node (sv_ckb s) ans" "reachable fuel s cfg d" "w_db w = d"
    and "handle s cfg req w = (r, w')" "respond s r = Some (code, answer)"
  shows "\<exists>schema. map_of (documented_responses req) code = Some schema \<and>
    (\<forall>n \<ge> 13. valid n (map_of published_schemas) schema (response_json t answer))"
proof -
  have env: "map_of published_schemas = published_schema" by (auto simp: published_schema_def)
  show ?thesis
  proof (cases r)
    case (Inr b)
    from reachable_documented [OF assms(1,2)] documented.handle_parts assms(3,4) Inr have "body_all documented_parts b" by (blast intro: servesD)
    moreover from mirror_shaped [OF reachable_mirrors [OF assms(1,2)]] shaped.handle_parts assms(3,4) Inr
    have "body_all shaped_parts b" by (blast intro: servesD)
    ultimately have "conforms 13 (body_schema b) (body_json t b)" by (rule body_conforms)
    moreover have "map_of (documented_responses req) 200 = Some (body_schema b)"
      using body_of_request [of s cfg req] assms(4) Inr unfolding gives_def by blast
    ultimately show ?thesis using assms(5) Inr by (auto simp: respond_def response_json_def conforms_def env)
  next
    case (Inl err)
    with assms(5) obtain a where a: "err = Refused a" by (cases err) (simp_all add: respond_def)
    with assms(5) Inl have "code = api_status a" "\<exists>e. answer = Inl e"
      by (auto simp: respond_def error_into_response_def)
    with failure_documented [of s cfg req w a w'] assms(4) Inl a error_conforms [of 13]
    show ?thesis by (auto simp: response_json_def conforms_def env)
  qed
qed

lemma answers_validate_witness:
  "\<exists>b w'. handle sample_deployment mainnet_config GetStatus (world_of empty_db) = (Inr (StatusBody b), w') \<and> sd_last_sweep b = None \<and>
     valid 13 (map_of published_schemas) (SRef ''StatusDto'') (status_dto_json show_int b)"
proof -
  have env: "sv_env sample_deployment = quiet_env" by (simp add: sample_deployment_def)
  have "\<exists>b w'. handle sample_deployment mainnet_config GetStatus (world_of empty_db) = (Inr (StatusBody b), w') \<and> sd_last_sweep b = None"
    by (simp add: env status_handler_def Let_def io_bind_def io_ret_def api_of_store_def io_map_err_def query_def sql_def world_of_def tick_def
        quiet_env_def io_clock_def last_sweep_run_def empty_db_def get_stream_state_def lookup_row_def)
  then obtain b w' where b: "handle sample_deployment mainnet_config GetStatus (world_of empty_db) = (Inr (StatusBody b), w')"
    "sd_last_sweep b = None" by blast
  have "stable_node (sv_ckb sample_deployment) sample_answers" using sample_stable by (simp add: sample_deployment_def)
  moreover have "reachable 2 sample_deployment mainnet_config empty_db" by (simp add: reachable_def)
  moreover have "w_db (world_of empty_db) = empty_db" by (simp add: world_of_def)
  moreover have "respond sample_deployment (Inr (StatusBody b)) = Some (200, Inr (StatusBody b))" by (simp add: respond_def)
  ultimately have "\<exists>schema. map_of (documented_responses GetStatus) 200 = Some schema \<and>
      (\<forall>n \<ge> 13. valid n (map_of published_schemas) schema (response_json show_int (Inr (StatusBody b))))"
    using b(1) by (intro answers_validate)
  then have "valid 13 (map_of published_schemas) (SRef ''StatusDto'') (status_dto_json show_int b)"
    by (auto simp: responses_defs response_json_def)
  with b show ?thesis by blast
qed

end
