(* ===== verification/Reconcile_Props.thy ===== *)
theory Reconcile_Props
  imports Sweep_Props
begin

text \<open>
  What the reconciler tells a caller: the difference between an address's list at the data
  source and the index, and where a transition is.
\<close>

section \<open>Rows and outpoints\<close>

text \<open>The columns of a row name an outpoint: its txid bytes, and its index once read as unsigned.\<close>

definition denotes :: "btc_out_point \<Rightarrow> byte list \<times> int \<Rightarrow> bool" where
  "denotes p key \<longleftrightarrow> fst key = to_display_vec (bo_txid p) \<and> as_u32 (snd key) = bo_vout p"

lemma denotes_key: "denotes p (row_key q) \<longleftrightarrow> p = q"
  by (cases p; cases q) (auto simp: denotes_def row_key_def)

lemma denotes_parsed:
  "(case from_display_slice txid of Inl err \<Rightarrow> Inl (f err) | Inr t \<Rightarrow> Inr \<lparr> bo_txid = t, bo_vout = as_u32 vout \<rparr>) = Inr p \<longleftrightarrow>
   denotes p (txid, vout)"
proof (cases "from_display_slice txid")
  case (Inl err)
  then have "txid \<noteq> to_display_vec t" for t by (metis Inl_Inr_False from_display_slice_Inr)
  with Inl show ?thesis by (auto simp: denotes_def)
next
  case (Inr t)
  then have "to_display_vec (bo_txid p) = txid \<longleftrightarrow> bo_txid p = t" by (metis from_display_slice_Inr sum.inject(2))
  with Inr show ?thesis by (cases p) (auto simp: denotes_def)
qed

lemma denotes_observation: "observation_out_point r = Inr p \<longleftrightarrow> denotes p (outpoint_key r)"
  by (simp add: observation_out_point_def denotes_parsed outpoint_key_def)

section \<open>The two differences\<close>

lemma disappeared_exact:
  assumes "find_disappeared live_now believed = Inr ps"
  shows "set ps = {p. (\<exists>key \<in> set believed. denotes p key) \<and> p \<notin> set live_now}"
proof -
  from assms obtain qs where qs: "collect (\<lambda>(txid, vout). case from_display_slice txid of Inl err \<Rightarrow> Inl (IETypes err)
      | Inr t \<Rightarrow> Inr \<lparr> bo_txid = t, bo_vout = as_u32 vout \<rparr>) believed = Inr qs" "ps = filter (\<lambda>p. p \<notin> set live_now) qs"
    by (auto simp: find_disappeared_def split: sum.splits)
  have "p \<in> set qs \<longleftrightarrow> (\<exists>key \<in> set believed. denotes p key)" for p
  proof
    assume "p \<in> set qs"
    from collect_in_set [OF qs(1) this] show "\<exists>key \<in> set believed. denotes p key" by (auto simp: denotes_parsed)
  next
    assume "\<exists>key \<in> set believed. denotes p key"
    then obtain key where key: "key \<in> set believed" "denotes p key" by blast
    then have "(case key of (txid, vout) \<Rightarrow> (case from_display_slice txid of Inl err \<Rightarrow> Inl (IETypes err)
      | Inr t \<Rightarrow> Inr \<lparr> bo_txid = t, bo_vout = as_u32 vout \<rparr>)) = Inr p"
      unfolding split_beta denotes_parsed by simp
    with collect_each [OF qs(1) key(1)] show "p \<in> set qs" by auto
  qed
  with qs(2) show ?thesis by auto
qed

text \<open>A row that says spent and has not been invalidated.\<close>

definition trusted_spend :: "observation_row \<Rightarrow> bool" where
  "trusted_spend r \<longleftrightarrow> (\<exists>s. observation_spend_status r = Inr s \<and> is_spent s) \<and> ob_invalidated_at r = None"

lemma contradiction_Inr:
  "contradiction r = Inr ps \<longleftrightarrow> (\<exists>s. observation_spend_status r = Inr s) \<and>
    (if trusted_spend r then (\<exists>p. denotes p (outpoint_key r) \<and> ps = [p]) else ps = [])"
  by (auto simp: contradiction_def trusted_spend_def denotes_observation [symmetric] split: sum.splits)

lemma contradicted_exact:
  assumes "find_contradicted rows = Inr ps"
  shows "set ps = {p. \<exists>r \<in> set rows. trusted_spend r \<and> denotes p (outpoint_key r)}"
proof -
  from assms obtain pss where pss: "collect contradiction rows = Inr pss" "ps = concat pss"
    by (auto simp: find_contradicted_def split: sum.splits)
  have one: "denotes p key \<Longrightarrow> denotes q key \<Longrightarrow> p = q" for p q key
    by (cases p; cases q) (auto simp: denotes_def)
  have "p \<in> set ps \<longleftrightarrow> (\<exists>r \<in> set rows. trusted_spend r \<and> denotes p (outpoint_key r))" for p
  proof
    assume "p \<in> set ps"
    with pss obtain qs r where "p \<in> set qs" "r \<in> set rows" "contradiction r = Inr qs"
      using collect_in_set [OF pss(1)] by fastforce
    then show "\<exists>r \<in> set rows. trusted_spend r \<and> denotes p (outpoint_key r)"
      by (auto simp: contradiction_Inr split: if_splits)
  next
    assume "\<exists>r \<in> set rows. trusted_spend r \<and> denotes p (outpoint_key r)"
    then obtain r where r: "r \<in> set rows" "trusted_spend r" "denotes p (outpoint_key r)" by blast
    from collect_each [OF pss(1) r(1)] obtain qs where "qs \<in> set pss" "contradiction r = Inr qs" by blast
    with r(2) obtain q where "[q] \<in> set pss" "denotes q (outpoint_key r)" by (auto simp: contradiction_Inr)
    moreover from one [OF r(3) this(2)] have "p = q" .
    ultimately show "p \<in> set ps" unfolding pss(2) set_concat by (metis UN_I list.set_intros(1))
  qed
  then show ?thesis by blast
qed

lemma sort_dedup_set: "set (sort_dedup ps) = set ps"
  by (simp add: sort_dedup_def)

section \<open>Properties\<close>

text \<open>The tables once the listed outpoints carry the address.\<close>

definition addressed :: "string \<Rightarrow> btc_out_point list \<Rightarrow> db \<Rightarrow> db \<Rightarrow> bool" where
  "addressed address listed d d' \<longleftrightarrow>
     (if listed = [] then d' = d
      else \<exists>n now. label_outpoints ''address-lookup'' (map (\<lambda>p. (row_key p, address)) listed) now d = Inr (n, d'))"

lemma addressed_run:
  assumes "of_store (record_outpoint_addresses e (map row_key listed) address) w = (Inr n, w')"
  shows "addressed address listed (w_db w) (w_db w')"
  using assms
  by (auto simp: of_store_Inr record_outpoint_addresses_def addressed_def io_ret_def sql_res_def o_def split: if_splits option.splits sum.splits) blast

text \<open>An outpoint has the source's current answer in the tables and the result, or is queued.\<close>

definition looked_into :: "btc_data_source \<Rightarrow> outpoint_refresh list \<Rightarrow> db \<Rightarrow> btc_out_point \<Rightarrow> bool" where
  "looked_into src refreshed d p \<longleftrightarrow>
     (\<exists>o' \<in> set refreshed. orf_outpoint o' = p \<and> answered src p (orf_status o') \<and> recorded p (orf_status o') d) \<or> queued p d"

text \<open>
  C13.
  The address diff is exact, and what it finds is looked into. A reconciliation that succeeds
  rests on one list of the data source: what disappeared are the outpoints that the index
  believes live for the address and the list does not have, what is contradicted are the
  listed outpoints with a trusted spend in the tables, and of each of them the source's
  current answer is in the tables and in the result, or it is queued. Nothing is concluded
  from absence alone.
\<close>

theorem address_diff_exact:
  assumes "reconcile_address e x src cfg address w = (Inr r, w')"
  shows "\<exists>n utxos d. bs_address_utxos src n address = Inr utxos \<and> (let listed = bu_outpoint ` set utxos in
    addressed address (remdups (map bu_outpoint utxos)) (w_db w) d \<and> arc_source_utxo_count r = card listed \<and>
    set (arc_disappeared r) = {p. (\<exists>key \<in> set (live_bound_outpoints_for_address address d). denotes p key) \<and> p \<notin> listed} \<and>
    set (arc_contradicted r) = {p \<in> listed. \<exists>ob \<in> set (d_outpoints d). outpoint_key ob = row_key p \<and> trusted_spend ob} \<and>
    (\<forall>p \<in> set (arc_disappeared r) \<union> set (arc_contradicted r). looked_into src (arc_refreshed r) (w_db w') p))"
proof -
  from assms obtain utxos w1 n2 w2 believed w3 gone w4 rows w5 held w6 refreshed where
    list: "of_btc (io_call (\<lambda>n. bs_address_utxos src n address)) w = (Inr utxos, w1)" and
    label: "of_store (record_outpoint_addresses e (map row_key (remdups (map bu_outpoint utxos))) address) w1 = (Inr n2, w2)" and
    live: "of_store (query e (\<lambda>now. live_bound_outpoints_for_address address)) w2 = (Inr believed, w3)" and
    gone: "io_of (find_disappeared (remdups (map bu_outpoint utxos)) believed) w3 = (Inr gone, w4)" and
    rows: "of_store (query e (\<lambda>now. get_observations (map row_key (remdups (map bu_outpoint utxos))))) w4 = (Inr rows, w5)" and
    held: "io_of (find_contradicted rows) w5 = (Inr held, w6)" and
    refresh: "refresh_outpoints e x src cfg (sort_dedup (gone @ held)) w6 = (Inr refreshed, w')" and
    r: "r = \<lparr> arc_address = address, arc_source_utxo_count = length (remdups (map bu_outpoint utxos)),
        arc_disappeared = gone, arc_contradicted = held, arc_refreshed = refreshed \<rparr>"
    unfolding reconcile_address_def Let_def io_bind_Inr by (auto simp: io_ret_def)
  from list obtain n where n: "bs_address_utxos src n address = Inr utxos" "w_db w1 = w_db w"
    by (auto simp: of_btc_def io_map_err_def io_call_def split: sum.splits)
  note lv = of_store_query [OF live] and rw = of_store_query [OF rows]
  from gone have g: "find_disappeared (remdups (map bu_outpoint utxos)) believed = Inr gone" "w4 = w3"
    by (simp_all add: io_of_def)
  from held have b: "find_contradicted rows = Inr held" "w6 = w5" by (simp_all add: io_of_def)
  have listed: "set (remdups (map bu_outpoint utxos)) = bu_outpoint ` set utxos" by simp
  have held: "set held = {p \<in> bu_outpoint ` set utxos. \<exists>ob \<in> set (d_outpoints (w_db w2)). outpoint_key ob = row_key p \<and> trusted_spend ob}"
    unfolding contradicted_exact [OF b(1)] using rw lv g(2)
    by (auto simp: get_observations_def denotes_key image_iff)
  have found: "\<forall>p \<in> set gone \<union> set held. looked_into src refreshed (w_db w') p"
    unfolding looked_into_def using refresh_accounts [OF refresh] by (auto simp: sort_dedup_set)
  have gone: "set gone = {p. (\<exists>key \<in> set (live_bound_outpoints_for_address address (w_db w2)). denotes p key) \<and> p \<notin> bu_outpoint ` set utxos}"
    using disappeared_exact [OF g(1)] lv listed by simp
  have "addressed address (remdups (map bu_outpoint utxos)) (w_db w) (w_db w2)" using addressed_run [OF label] n(2) by simp
  moreover have "length (remdups (map bu_outpoint utxos)) = card (bu_outpoint ` set utxos)" by (simp add: length_remdups_card_conv)
  ultimately show ?thesis
    unfolding Let_def r address_reconcile.select_convs using n(1) held found gone by blast
qed

text \<open>A live binding of the address that the source does not list.\<close>

definition held_point :: btc_out_point where
  "held_point = \<lparr> bo_txid = BtcTxid (mk32 (replicate 32 7)), bo_vout = 0 \<rparr>"

definition held_db :: db where
  "held_db = bound_db\<lparr> d_outpoints := [label_row ''backfill'' 0 (row_key held_point, ''addr'')] \<rparr>"

lemma held_live: "live_bound_outpoints_for_address ''addr'' held_db = [row_key held_point]"
  by (simp add: live_bound_outpoints_for_address_def held_db_def bound_db_def live_binding_def binding_observation_def lookup_row_def
      label_row_def outpoint_key_def held_point_def row_key_def as_i32_def to_display_vec_def sample_cell_def fresh_cell_def new_cell.defs
      distinct_sorted_def map_filter_simps)

lemma unspent_refresh:
  "\<exists>out w'. refresh_outpoints quiet_env ref_ext (ref_source (\<lambda>p. Unspent) (\<lambda>t. None) 0) sample_config [p] w = (Inr out, w')"
  by (simp add: refresh_outpoints_def sample_config_def reconcile_default_def observe_many_def group_by_txid_def
      distinct_sorted_def observe_group_def observe_each_def ref_source_def io_bind_def io_ret_def io_attempt_def io_call_def
      refresh_one_def record_observation_def of_store_def io_map_err_def sql_def Let_def split: prod.split)

lemma held_run:
  "\<exists>r w'. reconcile_address quiet_env ref_ext (ref_source (\<lambda>p. Unspent) (\<lambda>t. None) 0) sample_config ''addr'' (world_of held_db) = (Inr r, w') \<and>
     arc_disappeared r = [held_point]"
proof -
  let ?src = "ref_source (\<lambda>p. Unspent) (\<lambda>t. None) 0"
  have "from_display_slice (to_display_vec (bo_txid held_point)) = Inr (bo_txid held_point)" by (simp only: from_display_slice_Inr)
  then have gone: "find_disappeared [] [row_key held_point] = Inr [held_point]" by (simp add: find_disappeared_def row_key_def)
  have sorted: "sort_dedup [held_point] = [held_point]" by (simp add: sort_dedup_def)
  have call: "of_btc (io_call (\<lambda>n. bs_address_utxos ?src n a)) w = (Inr [], tick w)" for a w
    by (simp add: of_btc_def io_map_err_def io_call_def ref_source_def)
  have read: "of_store (query quiet_env f) w = (Inr (f (e_now quiet_env (w_tick w)) (w_db w)), tick w)" for f :: "int \<Rightarrow> db \<Rightarrow> 'x" and w
    by (simp add: of_store_def io_map_err_def query_def sql_def quiet_env_def tick_def)
  have none: "find_contradicted (get_observations [] d) = Inr []" for d by (simp add: get_observations_def find_contradicted_def)
  have skip: "of_store (record_outpoint_addresses quiet_env [] a) w = (Inr 0, w)" for a w
    by (simp add: of_store_def io_map_err_def record_outpoint_addresses_def io_ret_def)
  have db: "w_db (tick w) = w_db w" "w_db (world_of held_db) = held_db" for w by (simp_all add: tick_def world_of_def)
  obtain out w' where "refresh_outpoints quiet_env ref_ext ?src sample_config [held_point] (tick (tick (tick (world_of held_db)))) = (Inr out, w')"
    using unspent_refresh by blast
  then show ?thesis
    unfolding reconcile_address_def io_bind_def call prod.case sum.case Let_def list.map remdups.simps skip read db held_live io_of_def gone none
      append_Nil2 sorted io_ret_def by simp
qed

lemma address_diff_exact_witness:
  "\<exists>(r :: address_reconcile) (w' :: world). arc_disappeared r = [held_point] \<and>
     looked_into (ref_source (\<lambda>p. Unspent) (\<lambda>t. None) 0) (arc_refreshed r) (w_db w') held_point"
proof -
  let ?src = "ref_source (\<lambda>p. Unspent) (\<lambda>t. None) 0"
  from held_run obtain r w' where run: "reconcile_address quiet_env ref_ext ?src sample_config ''addr'' (world_of held_db) = (Inr r, w')"
    "arc_disappeared r = [held_point]" by blast
  from address_diff_exact [OF run(1)] obtain n utxos d where
    "\<forall>p \<in> set (arc_disappeared r) \<union> set (arc_contradicted r). looked_into ?src (arc_refreshed r) (w_db w') p"
    unfolding Let_def by (elim exE conjE)
  with run(2) have "looked_into ?src (arc_refreshed r) (w_db w') held_point" by simp
  with run(2) show ?thesis by blast
qed

section \<open>Where a transition is\<close>

text \<open>The outputs of a transaction that are looked up, and what the node answered for one.\<close>

definition probed_outputs :: "btc_tx_info \<Rightarrow> nat" where
  "probed_outputs tx =
     (let n = min (of_nat (length (ti_outputs tx))) MAX_POINT_LOOKUP_VOUTS
      in if n = 0 then DEFAULT_POINT_LOOKUP_VOUTS else unat n)"

definition binding_lock :: "config \<Rightarrow> btc_txid \<Rightarrow> nat \<Rightarrow> search_key" where
  "binding_lock cfg txid vout = lock_exact \<lparr> s_code_hash = id_code_hash (ps_rgbpp_lock (c_protocol cfg)),
     s_hash_type = id_hash_type (ps_rgbpp_lock (c_protocol cfg)), s_args = rgbpp_encode \<lparr> ra_out_index = of_nat vout, ra_txid = txid \<rparr> \<rparr>"

definition bound_cells :: "ckb_node \<Rightarrow> config \<Rightarrow> btc_txid \<Rightarrow> nat \<Rightarrow> ckb_out_point list \<Rightarrow> bool" where
  "bound_cells ck cfg txid vout cells \<longleftrightarrow>
     (\<exists>n page. cn_cells ck n (binding_lock cfg txid vout) Asc 16 = Inr page \<and> cells = map ce_out_point (pg_objects page))"

lemma io_ret_Inr: "io_ret x w = (Inr y, w') \<longleftrightarrow> y = x \<and> w' = w"
  by (auto simp: io_ret_def)

lemma lookup_step:
  assumes "io_for vouts found (\<lambda>vout found. io_bind (of_ckb (get_cells ck (binding_lock cfg txid vout) 16))
      (\<lambda>records. io_ret (found @ map ce_out_point records))) w = (Inr cells, w')"
  shows "\<exists>css. list_all2 (bound_cells ck cfg txid) vouts css \<and> cells = found @ concat css"
  using assms
proof (induction vouts arbitrary: found w)
  case (Cons vout vouts)
  from Cons.prems obtain records w1 where
    get: "of_ckb (get_cells ck (binding_lock cfg txid vout) 16) w = (Inr records, w1)" and
    rest: "io_for vouts (found @ map ce_out_point records) (\<lambda>vout found. io_bind (of_ckb (get_cells ck (binding_lock cfg txid vout) 16))
      (\<lambda>records. io_ret (found @ map ce_out_point records))) w1 = (Inr cells, w')"
    by (auto simp: io_bind_Inr io_ret_Inr)
  from get have "bound_cells ck cfg txid vout (map ce_out_point records)"
    by (auto simp: bound_cells_def of_ckb_Inr get_cells_def io_bind_Inr io_call_def io_ret_def)
  moreover from Cons.IH [OF rest] obtain css where
    "list_all2 (bound_cells ck cfg txid) vouts css" "cells = (found @ map ce_out_point records) @ concat css" by blast
  ultimately show ?case by (intro exI [of _ "map ce_out_point records # css"]) simp
qed (simp add: io_ret_def)

lemma point_lookup_run:
  assumes "point_lookup_cells ck cfg txid (min (of_nat (length (ti_outputs tx))) MAX_POINT_LOOKUP_VOUTS) w = (Inr cells, w')"
  shows "\<exists>css. list_all2 (bound_cells ck cfg txid) [0 ..< probed_outputs tx] css \<and> cells = concat css"
proof -
  let ?n = "if min (of_nat (length (ti_outputs tx))) MAX_POINT_LOOKUP_VOUTS = 0 then DEFAULT_POINT_LOOKUP_VOUTS
    else unat (min (of_nat (length (ti_outputs tx))) MAX_POINT_LOOKUP_VOUTS)"
  have "?n = probed_outputs tx" by (simp add: probed_outputs_def Let_def)
  with assms lookup_step [of "[0 ..< probed_outputs tx]" "[]" ck cfg txid w cells w'] show ?thesis
    by (simp add: point_lookup_cells_def Let_def binding_lock_def)
qed

lemma lookup_reads: "point_lookup_cells ck cfg txid n w = (r, w') \<Longrightarrow> w_db w' = w_db w"
proof -
  have "obeys (keeps (\<lambda>d. d)) (point_lookup_cells ck cfg txid n)"
    unfolding point_lookup_cells_def get_cells_def Let_def by (intro keeps.obeys_rules keeps.obeys_of_ckb)
  then show "point_lookup_cells ck cfg txid n w = (r, w') \<Longrightarrow> w_db w' = w_db w" by (rule obeys_keepsD)
qed

text \<open>What an answer about a transaction without a transition rests on.\<close>

definition seen_on_bitcoin :: "btc_data_source \<Rightarrow> btc_txid \<Rightarrow> btc_tx_info \<Rightarrow> db \<Rightarrow> bool" where
  "seen_on_bitcoin src txid tx d' \<longleftrightarrow>
     (\<exists>n. bs_transaction src n txid = Inr (Some tx)) \<and> (\<exists>refreshed. \<forall>p \<in> set (ti_inputs tx). looked_into src refreshed d' p)"

fun resolution_grounded_in :: "ext \<Rightarrow> ckb_node \<Rightarrow> btc_data_source \<Rightarrow> config \<Rightarrow> btc_txid \<Rightarrow> db \<Rightarrow> db \<Rightarrow> transition_resolution \<Rightarrow> bool" where
  "resolution_grounded_in x ck src cfg txid d d' (Indexed hash block) \<longleftrightarrow>
     (\<exists>t \<in> set (d_transitions d). tr_btc_txid t = Some (to_display_vec txid) \<and> hash = ''0x'' @ ex_hex_encode x (tr_tx_hash t) \<and>
        block = tr_block_number t)"
| "resolution_grounded_in x ck src cfg txid d d' UnknownBtc \<longleftrightarrow> (\<exists>n. bs_transaction src n txid = Inr None)"
| "resolution_grounded_in x ck src cfg txid d d' (CkbSeenAboveLag cells indexed_to) \<longleftrightarrow>
     cells \<noteq> [] \<and> (\<exists>tx css. seen_on_bitcoin src txid tx d' \<and> list_all2 (bound_cells ck cfg txid) [0 ..< probed_outputs tx] css \<and> cells = concat css)"
| "resolution_grounded_in x ck src cfg txid d d' (AwaitingCkb confirmed height) \<longleftrightarrow>
     (\<exists>tx. seen_on_bitcoin src txid tx d' \<and> (\<forall>vout < probed_outputs tx. bound_cells ck cfg txid vout []) \<and>
        confirmed = (ti_confirmation tx \<noteq> None) \<and> height = map_option bf_height (ti_confirmation tx))"

lemma known_grounded:
  assumes n: "bs_transaction src n txid = Inr (Some tx)" and run: "io_bind (if ti_inputs tx \<noteq> []
        then io_bind (refresh_outpoints e x src cfg (ti_inputs tx)) (\<lambda>_. io_ret ()) else io_ret ())
      (\<lambda>_. io_bind (point_lookup_cells ck cfg txid (min (of_nat (length (ti_outputs tx))) MAX_POINT_LOOKUP_VOUTS))
      (\<lambda>cells. if cells \<noteq> [] then
           io_bind (of_store (query e (\<lambda>now. get_stream_state CKB_STREAM)))
           (\<lambda>state. io_ret (CkbSeenAboveLag cells (unwrap_or 0 (map_option st_last_block_number state))))
         else io_ret (AwaitingCkb (ti_confirmation tx \<noteq> None) (map_option bf_height (ti_confirmation tx))))) w = (Inr q, w')"
  shows "resolution_grounded_in x ck src cfg txid d (w_db w') q \<and> q \<noteq> Indexed hash block"
proof -
  from run obtain w3 cells w4 where
    inputs: "(if ti_inputs tx \<noteq> [] then io_bind (refresh_outpoints e x src cfg (ti_inputs tx)) (\<lambda>_. io_ret ()) else io_ret ()) w = (Inr (), w3)" and
    look: "point_lookup_cells ck cfg txid (min (of_nat (length (ti_outputs tx))) MAX_POINT_LOOKUP_VOUTS) w3 = (Inr cells, w4)" and
    out: "(if cells \<noteq> [] then
              io_bind (of_store (query e (\<lambda>now. get_stream_state CKB_STREAM)))
              (\<lambda>state. io_ret (CkbSeenAboveLag cells (unwrap_or 0 (map_option st_last_block_number state))))
            else io_ret (AwaitingCkb (ti_confirmation tx \<noteq> None) (map_option bf_height (ti_confirmation tx)))) w4 = (Inr q, w')"
    by (auto simp: io_bind_Inr)
  from point_lookup_run [OF look] obtain css where
    css: "list_all2 (bound_cells ck cfg txid) [0 ..< probed_outputs tx] css" "cells = concat css" by blast
  have "w_db w' = w_db w4"
    using out by (auto simp: io_bind_Inr io_ret_Inr dest!: of_store_query split: if_splits)
  then have db: "w_db w' = w_db w3" using lookup_reads [OF look] by simp
  have "\<exists>refreshed. \<forall>p \<in> set (ti_inputs tx). looked_into src refreshed (w_db w3) p"
  proof (cases "ti_inputs tx = []")
    case False
    with inputs obtain refreshed where "refresh_outpoints e x src cfg (ti_inputs tx) w = (Inr refreshed, w3)"
      by (auto simp: io_bind_Inr io_ret_Inr)
    from refresh_accounts [OF this] show ?thesis unfolding looked_into_def by blast
  qed simp
  with n db have seen: "seen_on_bitcoin src txid tx (w_db w')" by (auto simp: seen_on_bitcoin_def)
  have none: "bound_cells ck cfg txid vout []" if "cells = []" "vout < probed_outputs tx" for vout
  proof -
    from css(1) that(2) have "bound_cells ck cfg txid vout (css ! vout)" "vout < length css"
      by (auto simp: list_all2_conv_all_nth)
    with css(2) that(1) show ?thesis by (metis concat_eq_Nil_conv nth_mem)
  qed
  consider i where "q = CkbSeenAboveLag cells i" "cells \<noteq> []"
    | "q = AwaitingCkb (ti_confirmation tx \<noteq> None) (map_option bf_height (ti_confirmation tx))" "cells = []"
    using out by (auto simp: io_bind_Inr io_ret_Inr split: if_splits)
  then show ?thesis
  proof cases
    case (1 i)
    with css seen show ?thesis unfolding 1(1) resolution_grounded_in.simps by blast
  next
    case 2
    with seen none show ?thesis unfolding 2(1) resolution_grounded_in.simps by blast
  qed
qed

text \<open>
  C14.
  Where a transition is, is grounded on both chains. An answer of \<open>indexed\<close> names a row of the
  table, and it is given exactly when there is one. Without one, \<open>unknown\<close> is the data source's
  answer; otherwise the source knows the transaction, each of its inputs was looked into, and
  the node said of every probed output which live cells are bound to it: the cells of the
  answer, or none.
\<close>

theorem resolution_grounded:
  assumes "resolve_transition e x ck src cfg txid w = (Inr q, w')"
  shows "resolution_grounded_in x ck src cfg txid (w_db w) (w_db w') q \<and>
    ((\<exists>hash block. q = Indexed hash block) \<longleftrightarrow> transitions_by_btc_txid (to_display_vec txid) (w_db w) \<noteq> [])"
proof -
  from assms obtain ts w1 where read: "of_store (query e (\<lambda>now. transitions_by_btc_txid (to_display_vec txid))) w = (Inr ts, w1)"
    unfolding resolve_transition_def io_bind_Inr by blast
  note ts = of_store_query [OF read]
  note run = assms [unfolded resolve_transition_def io_bind_def [of "of_store (query e (\<lambda>now. transitions_by_btc_txid (to_display_vec txid)))"]
      read prod.case sum.case]
  show ?thesis
  proof (cases ts)
    case (Cons t us)
    then have "t \<in> set (transitions_by_btc_txid (to_display_vec txid) (w_db w))" using ts by (metis list.set_intros(1))
    then have "t \<in> set (d_transitions (w_db w))" "tr_btc_txid t = Some (to_display_vec txid)" by (simp_all add: transitions_by_btc_txid_def)
    with run Cons ts show ?thesis by (auto simp: io_ret_Inr)
  next
    case Nil
    with run obtain answer w2 where tx: "refresh_btc_tx e x src txid w1 = (Inr answer, w2)" by (auto simp: io_bind_Inr)
    from refresh_btc_tx_answer [OF tx] obtain n where n: "bs_transaction src n txid = Inr answer" by blast
    note go = run [unfolded Nil list.case io_bind_def [of "refresh_btc_tx e x src txid"] tx prod.case sum.case]
    show ?thesis
    proof (cases answer)
      case None
      with go n ts Nil show ?thesis by (auto simp: io_ret_Inr)
    next
      case (Some tx)
      note known = known_grounded [OF n [unfolded Some] go [unfolded Some option.case]]
      from known ts Nil show ?thesis by blast
    qed
  qed
qed

text \<open>A transaction in the mempool, of which the node knows no bound cell.\<close>

definition mempool_tx :: btc_tx_info where
  "mempool_tx = \<lparr> ti_txid = BtcTxid zero32, ti_confirmation = None, ti_inputs = [], ti_outputs = [], ti_fee = None \<rparr>"

definition empty_node :: ckb_node where "empty_node = ref_node 150 [] [] (\<lambda>s. [])"

lemma mempool_run:
  fixes w :: world
  assumes "d_transitions (w_db w) = []"
  shows "\<exists>w'. resolve_transition quiet_env ref_ext empty_node (ref_source (\<lambda>p. Unspent) (\<lambda>t. Some mempool_tx) 0) sample_config (BtcTxid zero32) w =
    (Inr (AwaitingCkb False None), w')"
proof -
  let ?src = "ref_source (\<lambda>p. Unspent) (\<lambda>t. Some mempool_tx) 0"
  have fetch: "\<exists>w'. refresh_btc_tx quiet_env ref_ext ?src (BtcTxid zero32) w = (Inr (Some mempool_tx), w')" for w :: world
    by (simp add: refresh_btc_tx_def of_btc_def io_map_err_def io_bind_def io_call_def ref_source_def io_attempt_def record_addresses_def
        addressed_outputs_def mempool_tx_def io_ret_def of_store_def cache_btc_tx_def execute_def sql_def quiet_env_def)
  have probes: "io_for vouts [] (\<lambda>vout found. io_bind (of_ckb (get_cells empty_node (key vout) 16))
      (\<lambda>records. io_ret (found @ map ce_out_point records))) w = (Inr [], w\<lparr> w_tick := w_tick w + length vouts \<rparr>)" for vouts key and w :: world
    by (induction vouts arbitrary: w)
      (simp_all add: io_ret_def io_bind_def of_ckb_def io_map_err_def get_cells_def io_call_def empty_node_def ref_node_def tick_def)
  obtain w1 where w1: "refresh_btc_tx quiet_env ref_ext ?src (BtcTxid zero32) (tick w) = (Inr (Some mempool_tx), w1)" using fetch by blast
  have read: "of_store (query quiet_env (\<lambda>now. transitions_by_btc_txid (to_display_vec (BtcTxid zero32)))) w = (Inr [], tick w)"
    using assms by (simp add: of_store_def io_map_err_def query_def sql_def quiet_env_def tick_def transitions_by_btc_txid_def)
  show ?thesis
    unfolding resolve_transition_def io_bind_def read w1 prod.case sum.case list.case option.case point_lookup_cells_def Let_def
    by (simp add: mempool_tx_def io_ret_def probes [unfolded io_bind_def])
qed

lemma resolution_grounded_witness:
  "bound_cells empty_node sample_config (BtcTxid zero32) 3 [] \<and> probed_outputs mempool_tx = 4"
proof -
  have "d_transitions (w_db (world_of empty_db)) = []" by (simp add: world_of_def empty_db_def)
  from mempool_run [OF this] obtain w' where
    run: "resolve_transition quiet_env ref_ext empty_node (ref_source (\<lambda>p. Unspent) (\<lambda>t. Some mempool_tx) 0) sample_config (BtcTxid zero32)
      (world_of empty_db) = (Inr (AwaitingCkb False None), w')" by blast
  have four: "probed_outputs mempool_tx = 4"
    by (simp add: probed_outputs_def mempool_tx_def DEFAULT_POINT_LOOKUP_VOUTS_def)
  from resolution_grounded [OF run] obtain tx n where "bs_transaction (ref_source (\<lambda>p. Unspent) (\<lambda>t. Some mempool_tx) 0) n (BtcTxid zero32) = Inr (Some tx)"
    "\<forall>vout < probed_outputs tx. bound_cells empty_node sample_config (BtcTxid zero32) vout []"
    by (auto simp: seen_on_bitcoin_def)
  with four show ?thesis by (simp add: ref_source_def)
qed

end
