(* ===== verification/Throttle.thy ===== *)
theory Throttle
  imports Btc_Source
begin

text \<open>
  \<open>crates/btc/src/throttle.rs\<close> under concurrency: \<open>Throttle::acquire\<close> and the permit it
  returns, for any number of callers. A caller waits for a permit of the semaphore, then for
  the lock of \<open>last_start\<close>, sleeps under the lock for what \<open>acquire\<close> computes, notes the start
  and releases the lock; the permit is held until the request ends. Dropping a future at an
  await point gives back what it holds. Times are milliseconds.
\<close>

section \<open>Callers and steps\<close>

datatype stage = Away | Queueing | Permitted | Sleeping nat | InFlight

fun holds_permit :: "stage \<Rightarrow> bool" where
  "holds_permit Away = False"
| "holds_permit Queueing = False"
| "holds_permit s = True"

fun holds_lock :: "stage \<Rightarrow> bool" where
  "holds_lock (Sleeping wake) = True"
| "holds_lock s = False"

text \<open>The starts are listed with the latest first.\<close>

record traffic =
  tf_throttle :: throttle
  tf_now :: nat
  tf_callers :: "stage list"
  tf_starts :: "nat list"

definition permits_held :: "traffic \<Rightarrow> nat" where
  "permits_held t = length (filter holds_permit (tf_callers t))"

definition moved :: "nat \<Rightarrow> stage \<Rightarrow> traffic \<Rightarrow> traffic" where
  "moved i s t = t\<lparr> tf_callers := (tf_callers t)[i := s] \<rparr>"

inductive traffic_step :: "traffic \<Rightarrow> traffic \<Rightarrow> bool" where
  clock: "tf_now t \<le> now \<Longrightarrow> traffic_step t (t\<lparr> tf_now := now \<rparr>)"
| arrive: "i < length (tf_callers t) \<Longrightarrow> tf_callers t ! i = Away \<Longrightarrow> traffic_step t (moved i Queueing t)"
| permit: "i < length (tf_callers t) \<Longrightarrow> tf_callers t ! i = Queueing \<Longrightarrow> permits_held t < th_permits (tf_throttle t) \<Longrightarrow>
    traffic_step t (moved i Permitted t)"
| at_once: "i < length (tf_callers t) \<Longrightarrow> tf_callers t ! i = Permitted \<Longrightarrow> th_min_interval (tf_throttle t) = 0 \<Longrightarrow>
    traffic_step t (moved i InFlight (t\<lparr> tf_starts := tf_now t # tf_starts t \<rparr>))"
| lock: "i < length (tf_callers t) \<Longrightarrow> tf_callers t ! i = Permitted \<Longrightarrow> th_min_interval (tf_throttle t) \<noteq> 0 \<Longrightarrow>
    \<not> list_ex holds_lock (tf_callers t) \<Longrightarrow>
    traffic_step t (moved i (Sleeping (fst (acquire (tf_throttle t) (tf_now t)))) t)"
| launch: "i < length (tf_callers t) \<Longrightarrow> tf_callers t ! i = Sleeping wake \<Longrightarrow> wake \<le> tf_now t \<Longrightarrow>
    traffic_step t (moved i InFlight (t\<lparr> tf_throttle := (tf_throttle t)\<lparr> th_last_start := Some (tf_now t) \<rparr>,
      tf_starts := tf_now t # tf_starts t \<rparr>))"
| leave: "i < length (tf_callers t) \<Longrightarrow> traffic_step t (moved i Away t)"

definition traffic_start :: "u64 \<Rightarrow> u64 \<Rightarrow> nat \<Rightarrow> traffic" where
  "traffic_start max_concurrency min_interval_ms n =
     \<lparr> tf_throttle = throttle_new max_concurrency min_interval_ms, tf_now = 0, tf_callers = replicate n Away, tf_starts = [] \<rparr>"

section \<open>The invariant\<close>

text \<open>
  No more permits than there are, one holder of the lock, the last start is the latest one,
  a sleeper wakes an interval after it, and the starts are an interval apart.
\<close>

definition traffic_ok :: "traffic \<Rightarrow> bool" where
  "traffic_ok t \<longleftrightarrow>
     0 < th_permits (tf_throttle t) \<and> permits_held t \<le> th_permits (tf_throttle t) \<and>
     length (filter holds_lock (tf_callers t)) \<le> 1 \<and>
     (\<forall>wake. Sleeping wake \<in> set (tf_callers t) \<longrightarrow> th_min_interval (tf_throttle t) \<noteq> 0) \<and>
     (th_min_interval (tf_throttle t) \<noteq> 0 \<longrightarrow>
        th_last_start (tf_throttle t) = (case tf_starts t of [] \<Rightarrow> None | s # ss \<Rightarrow> Some s) \<and>
        (\<forall>s \<in> set (tf_starts t). s \<le> tf_now t) \<and>
        (\<forall>wake. Sleeping wake \<in> set (tf_callers t) \<longrightarrow> wake \<le> tf_now t + th_min_interval (tf_throttle t)) \<and>
        (\<forall>wake p ps. Sleeping wake \<in> set (tf_callers t) \<longrightarrow> tf_starts t = p # ps \<longrightarrow> p + th_min_interval (tf_throttle t) \<le> wake) \<and>
        sorted_wrt (\<lambda>b a. a + th_min_interval (tf_throttle t) \<le> b) (tf_starts t))"

lemma filter_update:
  "i < length xs \<Longrightarrow> length (filter P (xs[i := y])) + (if P (xs ! i) then 1 else 0) = length (filter P xs) + (if P y then 1 else 0)"
proof (induction xs arbitrary: i)
  case (Cons x xs)
  show ?case
  proof (cases i)
    case (Suc j)
    with Cons.IH [of j] Cons.prems show ?thesis by (simp split: if_splits)
  qed simp
qed simp

lemma sleepers: "filter holds_lock xs = [] \<longleftrightarrow> (\<forall>wake. Sleeping wake \<notin> set xs)"
proof -
  have "holds_lock s \<longleftrightarrow> (\<exists>wake. s = Sleeping wake)" for s by (cases s) simp_all
  then show ?thesis by (auto simp: filter_empty_conv)
qed

lemma starts_extended:
  assumes "sorted_wrt (\<lambda>b a. a + m \<le> b) (ss :: nat list)" "\<And>p ps. ss = p # ps \<Longrightarrow> p + m \<le> s"
  shows "sorted_wrt (\<lambda>b a. a + m \<le> b) (s # ss)"
  using assms by (cases ss) force+

lemma acquire_wakes:
  "th_last_start t = Some p \<Longrightarrow> th_min_interval t \<noteq> 0 \<Longrightarrow> p \<le> now \<Longrightarrow> p + th_min_interval t \<le> fst (acquire t now)"
  "fst (acquire t now) \<le> now + th_min_interval t"
  by (auto simp: acquire_def Let_def split: option.split)

lemma traffic_start_ok: "traffic_ok (traffic_start c m n)"
proof -
  have "filter holds_permit (replicate n Away) = []" "filter holds_lock (replicate n Away) = []" by (induction n) simp_all
  moreover have "max c 1 \<noteq> 0" by (auto simp: max_def)
  then have "0 < unat (max c 1)" by (simp add: unat_gt_0)
  ultimately show ?thesis by (simp add: traffic_ok_def traffic_start_def throttle_new_def permits_held_def)
qed

lemma traffic_step_ok: "traffic_step t t' \<Longrightarrow> traffic_ok t \<Longrightarrow> traffic_ok t'"
proof (induction rule: traffic_step.induct)
  case (clock t now)
  then show ?case by (auto simp: traffic_ok_def permits_held_def)
next
  case (arrive i t)
  with filter_update [of i "tf_callers t" holds_permit Queueing] filter_update [of i "tf_callers t" holds_lock Queueing]
  show ?case by (auto simp: traffic_ok_def permits_held_def moved_def dest: set_update_subset_insert [THEN subsetD])
next
  case (permit i t)
  with filter_update [of i "tf_callers t" holds_permit Permitted] filter_update [of i "tf_callers t" holds_lock Permitted]
  show ?case by (auto simp: traffic_ok_def permits_held_def moved_def dest: set_update_subset_insert [THEN subsetD])
next
  case (at_once i t)
  with filter_update [of i "tf_callers t" holds_permit InFlight] filter_update [of i "tf_callers t" holds_lock InFlight]
  show ?case by (auto simp: traffic_ok_def permits_held_def moved_def dest: set_update_subset_insert [THEN subsetD])
next
  case (lock i t)
  let ?wake = "fst (acquire (tf_throttle t) (tf_now t))"
  have "filter holds_lock (tf_callers t) = []" using lock(4) by (simp add: list_ex_iff filter_empty_conv)
  with lock filter_update [of i "tf_callers t" holds_permit "Sleeping ?wake"] filter_update [of i "tf_callers t" holds_lock "Sleeping ?wake"]
    acquire_wakes(1) [of "tf_throttle t" _ "tf_now t"] acquire_wakes(2) [of "tf_throttle t" "tf_now t"]
  show ?case by (fastforce simp: traffic_ok_def permits_held_def moved_def dest: set_update_subset_insert [THEN subsetD])
next
  case (launch i t wake)
  have sleeping: "Sleeping wake \<in> set (tf_callers t)" using launch(1,2) by (metis nth_mem)
  have locks: "length (filter holds_lock ((tf_callers t)[i := InFlight])) = 0"
  proof -
    from launch(4) have "length (filter holds_lock (tf_callers t)) \<le> 1" by (simp add: traffic_ok_def)
    with filter_update [of i "tf_callers t" holds_lock InFlight] launch(1,2) show ?thesis by (simp del: length_0_conv)
  qed
  have "sorted_wrt (\<lambda>b a. a + th_min_interval (tf_throttle t) \<le> b) (tf_now t # tf_starts t)"
    if "th_min_interval (tf_throttle t) \<noteq> 0"
    using launch(3,4) sleeping that by (intro starts_extended) (auto simp: traffic_ok_def dest: order.trans)
  moreover from locks have none: "filter holds_lock ((tf_callers t)[i := InFlight]) = []" by simp
  then have "\<forall>wake. Sleeping wake \<notin> set ((tf_callers t)[i := InFlight])" using sleepers by metis
  ultimately show ?case using none launch filter_update [of i "tf_callers t" holds_permit InFlight]
    by (auto simp: traffic_ok_def permits_held_def moved_def)
next
  case (leave i t)
  with filter_update [of i "tf_callers t" holds_permit Away] filter_update [of i "tf_callers t" holds_lock Away]
  show ?case by (auto simp: traffic_ok_def permits_held_def moved_def dest: set_update_subset_insert [THEN subsetD])
qed

section \<open>Getting on\<close>

abbreviation traffic_run :: "traffic \<Rightarrow> traffic \<Rightarrow> bool" where "traffic_run \<equiv> traffic_step\<^sup>*\<^sup>*"

lemma traffic_run_ok: "traffic_run t t' \<Longrightarrow> traffic_ok t \<Longrightarrow> traffic_ok t'"
  by (induction rule: rtranclp_induct) (auto intro: traffic_step_ok)

lemma traffic_step_setting:
  "traffic_step t t' \<Longrightarrow> th_permits (tf_throttle t') = th_permits (tf_throttle t) \<and>
    th_min_interval (tf_throttle t') = th_min_interval (tf_throttle t)"
  by (induction rule: traffic_step.induct) (simp_all add: moved_def)

lemma traffic_run_setting:
  "traffic_run t t' \<Longrightarrow> th_permits (tf_throttle t') = th_permits (tf_throttle t) \<and>
    th_min_interval (tf_throttle t') = th_min_interval (tf_throttle t)"
  by (induction rule: rtranclp_induct) (simp_all add: traffic_step_setting)

text \<open>The state that some request is in flight within the interval.\<close>

definition gets_on :: "traffic \<Rightarrow> bool" where
  "gets_on t \<longleftrightarrow> (\<exists>t'. traffic_run t t' \<and> InFlight \<in> set (tf_callers t') \<and>
     tf_now t' \<le> tf_now t + th_min_interval (tf_throttle t))"

lemma gets_on_step:
  "traffic_step t t' \<Longrightarrow> gets_on t' \<Longrightarrow> tf_now t' = tf_now t \<Longrightarrow> gets_on t"
  unfolding gets_on_def using traffic_step_setting by (metis converse_rtranclp_into_rtranclp)

lemma sleeper_gets_on:
  assumes "traffic_ok t" "Sleeping wake \<in> set (tf_callers t)"
  shows "gets_on t"
proof -
  from assms(2) obtain i where i: "i < length (tf_callers t)" "tf_callers t ! i = Sleeping wake" by (metis in_set_conv_nth)
  let ?now = "max (tf_now t) wake"
  let ?t = "t\<lparr> tf_now := ?now \<rparr>"
  have "traffic_step t ?t" by (rule clock) simp
  moreover have "traffic_step ?t (moved i InFlight (?t\<lparr> tf_throttle := (tf_throttle ?t)\<lparr> th_last_start := Some (tf_now ?t) \<rparr>,
      tf_starts := tf_now ?t # tf_starts ?t \<rparr>))" (is "traffic_step ?t ?t'")
    by (rule launch [of i _ wake]) (use i in simp_all)
  ultimately have "traffic_run t ?t'" by (meson converse_rtranclp_into_rtranclp r_into_rtranclp)
  moreover have "InFlight \<in> set (tf_callers ?t')" using i by (simp add: moved_def set_update_memI)
  moreover have "tf_now ?t' \<le> tf_now t + th_min_interval (tf_throttle t)"
    using assms by (auto simp: traffic_ok_def moved_def)
  ultimately show ?thesis unfolding gets_on_def by blast
qed

lemma permitted_gets_on:
  assumes "traffic_ok t" "Permitted \<in> set (tf_callers t)"
  shows "gets_on t"
proof -
  from assms(2) obtain i where i: "i < length (tf_callers t)" "tf_callers t ! i = Permitted" by (metis in_set_conv_nth)
  show ?thesis
  proof (cases "th_min_interval (tf_throttle t) = 0")
    case True
    from at_once [OF i True] show ?thesis
      by (auto simp: gets_on_def moved_def i set_update_memI intro!: exI [where x = "moved i InFlight (t\<lparr> tf_starts := tf_now t # tf_starts t \<rparr>)"])
  next
    case False
    show ?thesis
    proof (cases "list_ex holds_lock (tf_callers t)")
      case True
      then have "filter holds_lock (tf_callers t) \<noteq> []" by (auto simp: list_ex_iff filter_empty_conv)
      with sleepers sleeper_gets_on [OF assms(1)] show ?thesis by blast
    next
      case unlocked: False
      note step = lock [OF i False unlocked]
      have "Sleeping (fst (acquire (tf_throttle t) (tf_now t))) \<in> set (tf_callers (moved i (Sleeping (fst (acquire (tf_throttle t) (tf_now t)))) t))"
        using i by (simp add: moved_def set_update_memI)
      from sleeper_gets_on [OF traffic_step_ok [OF step assms(1)] this]
      show ?thesis by (intro gets_on_step [OF step]) (simp_all add: moved_def)
    qed
  qed
qed

lemma waiting_gets_on:
  assumes "traffic_ok t" "s \<in> set (tf_callers t)" "s \<noteq> Away" "InFlight \<notin> set (tf_callers t)"
  shows "gets_on t"
proof (cases "Permitted \<in> set (tf_callers t) \<or> (\<exists>wake. Sleeping wake \<in> set (tf_callers t))")
  case True
  with permitted_gets_on sleeper_gets_on assms(1) show ?thesis by blast
next
  case False
  have free: "\<not> holds_permit c" if "c \<in> set (tf_callers t)" for c
  proof
    assume "holds_permit c"
    then have "c = Permitted \<or> c = InFlight \<or> (\<exists>wake. c = Sleeping wake)" by (cases c) simp_all
    with that False assms(4) show False by blast
  qed
  then have "permits_held t = 0" by (simp add: permits_held_def filter_empty_conv)
  moreover from free [OF assms(2)] assms(2,3) have "Queueing \<in> set (tf_callers t)" by (cases s) simp_all
  then obtain i where i: "i < length (tf_callers t)" "tf_callers t ! i = Queueing" by (metis in_set_conv_nth)
  ultimately have step: "traffic_step t (moved i Permitted t)"
    using assms(1) by (intro permit) (simp_all add: traffic_ok_def)
  have "Permitted \<in> set (tf_callers (moved i Permitted t))" using i by (simp add: moved_def set_update_memI)
  from permitted_gets_on [OF traffic_step_ok [OF step assms(1)] this]
  show ?thesis by (intro gets_on_step [OF step]) (simp_all add: moved_def)
qed

section \<open>Properties\<close>

text \<open>
  C25.
  The throttle keeps both limits and lets callers on. However calls, ends, cancellations and
  the clock interleave: never are more requests in flight than permits, which are at least
  one; two starts are never closer than the interval; and whenever a caller waits and nothing
  is in flight, some request can be within one interval.
\<close>

theorem throttle_keeps_limits:
  assumes "traffic_run (traffic_start max_concurrency min_interval_ms n) t"
  shows "length (filter (\<lambda>s. s = InFlight) (tf_callers t)) \<le> unat (max max_concurrency 1) \<and>
    (0 < min_interval_ms \<longrightarrow> sorted_wrt (\<lambda>later earlier. earlier + unat min_interval_ms \<le> later) (tf_starts t)) \<and>
    (InFlight \<notin> set (tf_callers t) \<longrightarrow> (\<exists>s \<in> set (tf_callers t). s \<noteq> Away) \<longrightarrow>
      (\<exists>t'. traffic_run t t' \<and> InFlight \<in> set (tf_callers t') \<and> tf_now t' \<le> tf_now t + unat min_interval_ms))"
proof -
  have ok: "traffic_ok t" by (rule traffic_run_ok [OF assms traffic_start_ok])
  have setting: "th_permits (tf_throttle t) = unat (max max_concurrency 1)" "th_min_interval (tf_throttle t) = unat min_interval_ms"
    using traffic_run_setting [OF assms] by (simp_all add: traffic_start_def throttle_new_def)
  have "length (filter (\<lambda>s. s = InFlight) cs) \<le> length (filter holds_permit cs)" for cs
    by (induction cs) auto
  then have "length (filter (\<lambda>s. s = InFlight) (tf_callers t)) \<le> permits_held t" by (simp add: permits_held_def)
  with ok setting(1) have "length (filter (\<lambda>s. s = InFlight) (tf_callers t)) \<le> unat (max max_concurrency 1)"
    by (auto simp: traffic_ok_def)
  moreover have "0 < min_interval_ms \<Longrightarrow> sorted_wrt (\<lambda>later earlier. earlier + unat min_interval_ms \<le> later) (tf_starts t)"
    using ok setting(2) by (simp add: traffic_ok_def unat_gt_0)
  ultimately show ?thesis
    using waiting_gets_on [OF ok] setting(2) unfolding gets_on_def by auto
qed

text \<open>Two permits and 100 ms: three calls at once, of which two are let through.\<close>

lemma throttle_keeps_limits_witness:
  "\<exists>t. traffic_run (traffic_start 2 100 3) t \<and> tf_callers t = [InFlight, Away, Away] \<and> tf_starts t = [0] \<and>
     length (filter (\<lambda>s. s = InFlight) (tf_callers t)) \<le> 2"
proof -
  let ?t0 = "traffic_start 2 100 3"
  let ?t1 = "moved 0 Queueing ?t0"
  let ?t2 = "moved 0 Permitted ?t1"
  let ?t3 = "moved 0 (Sleeping (fst (acquire (tf_throttle ?t2) (tf_now ?t2)))) ?t2"
  let ?t4 = "moved 0 InFlight (?t3\<lparr> tf_throttle := (tf_throttle ?t3)\<lparr> th_last_start := Some (tf_now ?t3) \<rparr>, tf_starts := tf_now ?t3 # tf_starts ?t3 \<rparr>)"
  note start = traffic_start_def throttle_new_def moved_def permits_held_def acquire_def numeral_3_eq_3
  have "traffic_step ?t0 ?t1" by (rule arrive) (simp_all add: start)
  moreover have "traffic_step ?t1 ?t2" by (rule permit) (simp_all add: start)
  moreover have "traffic_step ?t2 ?t3" by (rule lock) (simp_all add: start)
  moreover have "traffic_step ?t3 ?t4" by (rule launch [where wake = 0]) (simp_all add: start)
  ultimately have "traffic_run ?t0 ?t4" by (meson converse_rtranclp_into_rtranclp r_into_rtranclp)
  from throttle_keeps_limits [OF this] this show ?thesis
    by (intro exI [of _ ?t4]) (simp add: start)
qed

end
