(* ===== verification/Sync_Line.thy ===== *)
theory Sync_Line
  imports Complex_Main Monitor
begin

text \<open>
  The texts of a progress line: the floating-point half of \<open>SyncReporter::emit\<close>, and \<open>eta\<close>,
  of \<open>crates/indexer/src/progress.rs\<close>. The operations of \<open>f64\<close> that they use are the record
  \<open>floats\<close>; \<open>exact\<close> is an instance, with which the inputs of the code's own test evaluate.
\<close>

section \<open>The arithmetic\<close>

record 'f floats =
  fl_of_u64 :: "u64 \<Rightarrow> 'f"
  fl_secs :: "nat \<Rightarrow> 'f"
  fl_const :: "rat \<Rightarrow> 'f"
  fl_max :: "'f \<Rightarrow> 'f \<Rightarrow> 'f"
  fl_div :: "'f \<Rightarrow> 'f \<Rightarrow> 'f"
  fl_mul :: "'f \<Rightarrow> 'f \<Rightarrow> 'f"
  fl_ceil :: "'f \<Rightarrow> 'f"
  fl_to_u64 :: "'f \<Rightarrow> u64"
  fl_is_finite :: "'f \<Rightarrow> bool"
  fl_le :: "'f \<Rightarrow> 'f \<Rightarrow> bool"
  fl_show :: "nat \<Rightarrow> 'f \<Rightarrow> string"

section \<open>The line\<close>

definition eta :: "'f floats \<Rightarrow> u64 \<Rightarrow> 'f \<Rightarrow> string" where
  "eta fl remaining rate =
     (if remaining = 0 then ''0s''
      else if \<not> fl_is_finite fl rate \<or> fl_le fl rate (fl_const fl 0) then ''?''
      else human_duration (fl_to_u64 fl (fl_ceil fl (fl_div fl (fl_of_u64 fl remaining) rate))))"

text \<open>Blocks for each second since \<open>start\<close>; the clock is never read as no time at all.\<close>

definition rate_since :: "'f floats \<Rightarrow> nat \<Rightarrow> nat \<Rightarrow> u64 \<Rightarrow> 'f" where
  "rate_since fl now start blocks =
     fl_div fl (fl_of_u64 fl blocks) (fl_max fl (fl_secs fl (now - start)) (fl_const fl (1 / 1000)))"

definition percentage :: "'f floats \<Rightarrow> u64 \<Rightarrow> u64 \<Rightarrow> 'f" where
  "percentage fl done_blocks span_blocks =
     fl_mul fl (fl_div fl (fl_of_u64 fl done_blocks) (fl_of_u64 fl span_blocks)) (fl_const fl 100)"

record sync_texts =
  sx_range :: string
  sx_rate :: string
  sx_eta :: string
  sx_pct :: string

definition sync_texts_of :: "'f floats \<Rightarrow> nat \<Rightarrow> sync_reporter \<Rightarrow> sync_line \<Rightarrow> sync_texts" where
  "sync_texts_of fl now s l = \<lparr>
     sx_range = show_nat (unat (sl_first l)) @ ''..'' @ show_nat (unat (sl_last l)),
     sx_rate = fl_show fl 0 (rate_since fl now (sy_window_start s) (sy_blocks s)) @ ''/s'',
     sx_eta = eta fl (sl_behind l) (rate_since fl now (sy_session_start s) (sy_session_blocks s)),
     sx_pct = fl_show fl 2 (percentage fl (sl_done l) (sl_span l)) \<rparr>"

text \<open>\<open>emit\<close>: the line with its texts.\<close>

definition emit_line :: "'f floats \<Rightarrow> nat \<Rightarrow> u64 \<Rightarrow> u64 \<Rightarrow> sync_reporter \<Rightarrow> sync_reporter \<times> (sync_line \<times> sync_texts) list" where
  "emit_line fl now target chain_tip s =
     (let (s', lines) = reporter_emit now target chain_tip s in
      (s', [(l, sync_texts_of fl now s l). SyncLine l \<leftarrow> lines]))"

section \<open>What the line says\<close>

text \<open>The nothing-left answer depends on the heights alone, whatever the arithmetic.\<close>

lemma eta_at_target:
  "target \<le> sy_last_block s \<Longrightarrow>
   \<exists>l x. snd (emit_line fl now target tip s) = [(l, x)] \<and> sl_behind l = 0 \<and> sx_eta x = ''0s''"
  by (simp add: emit_line_def reporter_emit_def sync_texts_of_def eta_def saturating_sub_def)

text \<open>The division of the percentage is never by zero.\<close>

lemma span_positive: "snd (emit_line fl now target tip s) = [(l, x)] \<Longrightarrow> 1 \<le> sl_span l"
  by (auto simp: emit_line_def reporter_emit_def)

definition exact :: "rat floats" where
  "exact = \<lparr> fl_of_u64 = (\<lambda>n. of_nat (unat n)), fl_secs = (\<lambda>ms. of_nat ms / 1000), fl_const = id, fl_max = max,
     fl_div = (/), fl_mul = (*), fl_ceil = (\<lambda>x. of_int \<lceil>x\<rceil>), fl_to_u64 = (\<lambda>x. of_int \<lfloor>x\<rfloor>),
     fl_is_finite = (\<lambda>_. True), fl_le = (\<le>), fl_show = (\<lambda>_ x. show_nat (nat \<lfloor>x\<rfloor>)) \<rparr>"

lemma eta_examples:
  "eta exact 0 100 = ''0s''" "eta exact 1000 0 = ''?''"
  "eta exact 1000 100 = human_duration 10" "eta exact 9000000 5000 = human_duration 1800"
  by (simp_all add: eta_def exact_def)

lemma rounded_up:
  fixes r :: rat
  shows "0 < r \<Longrightarrow> a / r \<le> m \<Longrightarrow> m < a / r + 1 \<Longrightarrow> a \<le> m * r \<and> m * r < a + r"
  by (simp add: field_simps)

text \<open>
  Over exact arithmetic the estimate is the time that the session's rate needs for the rest:
  no shorter, and longer by less than a second.
\<close>

lemma eta_covers_rest:
  assumes rest: "remaining \<noteq> 0" and rate: "0 < r" and fits: "of_nat (unat remaining) / r \<le> (2 ^ 63 :: rat)"
  shows "\<exists>n. eta exact remaining r = human_duration n
           \<and> of_nat (unat remaining) \<le> of_nat (unat n) * r \<and> of_nat (unat n) * r < of_nat (unat remaining) + r"
proof -
  let ?q = "of_nat (unat remaining) / r" and ?n = "of_int \<lceil>of_nat (unat remaining) / r\<rceil> :: u64"
  have "0 \<le> ?q" using rate by (intro divide_nonneg_nonneg) (simp_all only: of_nat_0_le_iff less_imp_le)
  then have positive: "0 \<le> \<lceil>?q\<rceil>" by linarith
  have "\<lceil>?q\<rceil> \<le> 2 ^ 63" using fits by (simp add: ceiling_le_iff)
  then have "uint ?n = \<lceil>?q\<rceil>" using positive by (simp add: uint_word_of_int take_bit_int_eq_self)
  then have n: "of_nat (unat ?n) = (of_int \<lceil>?q\<rceil> :: rat)" by (metis of_int_of_nat_eq uint_nat)
  have "?q \<le> of_int \<lceil>?q\<rceil>" "of_int \<lceil>?q\<rceil> < ?q + 1" by linarith+
  note rounded = rounded_up [OF rate this]
  have "eta exact remaining r = human_duration ?n" using rest rate by (simp add: eta_def exact_def)
  then show ?thesis using rounded unfolding n [symmetric] by blast
qed

end
