(* ===== verification/Spec2Isabelle.thy ===== *)
theory Spec2Isabelle
  imports Sweep_Props Commitment Store_Btc_Props Holdings Scanner_Live Lifecycle Address_Safety
    Api_Contract Reconcile_Props Throttle Sync_Line
begin

text \<open>
  A model of the RGB++ indexer (the Rust workspace under \<open>crates/\<close>) and its correctness
  properties.

  THE PROGRAM. RGB++ binds CKB cells to Bitcoin outputs by the arguments of two lock scripts.
  The indexer scans CKB behind a reorg lag and stores every such cell and transition in
  PostgreSQL; it observes at a Bitcoin data source (Esplora or Blockbook) whether the bound
  outputs are spent, keeps those observations as a cache beside the CKB facts, cross-checks
  the commitments that Bitcoin transactions publish, and serves the derived state over HTTP.
  Six workers (scanner, refresh queue, address backfill, heartbeat, sweeper, verifier) and
  the handlers of the API run concurrently and meet only in the database.

  THE THEORIES, from the bottom up, with the files that they model.
  \<^item> \<open>Prelude\<close>, \<open>Codec\<close>, \<open>Tables\<close>: shared vocabulary; the interfaces of byte formats (locales
    \<open>codec\<close>, \<open>canonical_codec\<close>, \<open>self_delimiting\<close>) and of SQL tables with a primary key (locales
    \<open>pk_table\<close>, \<open>replayable_table\<close>, \<open>last_wins_table\<close>), each interpreted where the program provides it.
  \<^item> \<open>External\<close>: the third-party crates as a record of functions, \<open>ext\<close>, with their documented
    behaviour in \<open>ext_ok\<close> and an instance for the witnesses.
  \<^item> \<open>Ckb_Types\<close>, \<open>Molecule\<close>, \<open>Bitcoin\<close>, \<open>Protocol\<close>, \<open>Commitment\<close>, \<open>Status\<close>, \<open>Asset\<close>, \<open>Config\<close>:
    \<open>crates/types/src\<close>, one theory for each file (\<open>state.rs\<close> is \<open>Status\<close>).
  \<^item> \<open>Models\<close>, \<open>Db\<close>, \<open>Store_Ckb\<close>, \<open>Store_Btc\<close>, \<open>Store_Stats\<close>: \<open>crates/store/src\<close> and the view of
    \<open>migrations/\<close>. A table is a list of rows, a statement a function on the database record;
    \<open>Db\<close> has the effects (below). \<open>Store_Ckb_Props\<close>, \<open>Store_Btc_Props\<close> and \<open>Holdings\<close> hold their lemmas.
  \<^item> \<open>Btc_Source\<close>, \<open>Btc_Esplora\<close>, \<open>Btc_Blockbook\<close>: \<open>crates/btc/src\<close>. The trait \<open>BtcDataSource\<close> is
    the record \<open>btc_data_source\<close>; the two clients build one from a server. \<open>Btc_Clients_Props\<close>
    says what a status of theirs rests on and how many requests they send; \<open>Throttle\<close> runs
    \<open>throttle.rs\<close> with any number of concurrent callers.
  \<^item> \<open>Ckb_Client\<close>: \<open>crates/ckb/src\<close>, the retry loop, paging and payloads of the JSON-RPC client.
  \<^item> \<open>Extract\<close>, \<open>Scanner\<close>, \<open>Address_Backfill\<close>, \<open>Reconcile\<close>, \<open>Sweeper\<close>, \<open>Verify\<close>, \<open>Monitor\<close>:
    \<open>crates/indexer/src\<close> (\<open>Monitor\<close> is \<open>progress.rs\<close> and \<open>heartbeat.rs\<close>, with
    the texts of the progress line in \<open>Sync_Line\<close>). Their properties are in \<open>Scanner_Props\<close>,
    \<open>Scanner_Live\<close>, \<open>Refresh_Props\<close>, \<open>Sweep_Props\<close>, \<open>Reconcile_Props\<close> and \<open>Verify_Props\<close>. \<open>Workers\<close> and
    \<open>Workers_Props\<close> have the interface \<open>worker_relation\<close>: a relation on databases that every
    statement of the Bitcoin-side workers follows is followed by all their runs.
  \<^item> \<open>Display\<close>, \<open>Api_Dto\<close>, \<open>Api_Activity\<close>, \<open>Api_Error\<close>, \<open>Api\<close>: \<open>crates/api/src\<close>, the shapes of the
    responses, the errors with their HTTP status, and one definition for each handler;
    \<open>handle\<close> is the table of the routes. \<open>Wire\<close> has the JSON of the hex newtypes, of the domain
    values and of every response; \<open>Openapi\<close> the published schemas and documented responses.
    \<open>Api_Bodies\<close> has the interface \<open>answer_parts\<close> (what holds of the parts that the handlers
    build bodies from holds of every body); \<open>Api_Props\<close>, \<open>Api_Typed\<close>, \<open>Api_Schemas\<close>,
    \<open>Api_Contract\<close> and \<open>Address_Safety\<close> hold the properties.
  \<^item> \<open>Statements\<close>, \<open>System\<close>, \<open>End_To_End\<close>: the composition. \<open>Statements\<close> interleaves the tasks by
    single SQL statements; \<open>System\<close> is the transition system of whole passes and requests
    and refines it to an append-only ledger; \<open>End_To_End\<close> goes from the Bitcoin server to the
    tables.
  \<^item> \<open>Node\<close>, \<open>Lifecycle\<close>: \<open>crates/node/src/main.rs\<close>, \<open>Engine::bootstrap\<close> and \<open>shutdown.rs\<close>: the
    commands, and the process from its start to its exit.

  STATE AND EFFECTS. An asynchronous function is an \<open>io\<close>: a function from a \<open>world\<close> (the database
  and a counter of statements and requests) to a result and a world. The answers of the
  clock, of the database's failures (\<open>e_fault\<close>), of the CKB node and of the data source are
  functions of that counter, so every schedule of answers and failures is covered.
  Errors are sums of the sources' error enums, \<open>?\<close> is \<open>io_bind\<close> with the \<open>From\<close> conversion, and a
  panic of a handler is a value, \<open>Panicked\<close>. Machine integers are words; database integers
  are \<open>int\<close> with the casts written out; \<open>BigDecimal\<close> sums are exact integers.

  WHAT IS PROVED.
  \<^item> Data: the molecule, lock-argument, commitment, txid and row conversions are exact
    (they accept the encodings of their results and nothing else) or injective; what one
    transaction contributes is stated column by column, and a loaded configuration leaves one
    way to panic.
  \<^item> Store: a batch lands as a whole or not at all, can be applied again after later writes
    without undoing any of them, and balances are those of exactly the cells that count.
  \<^item> Scanner: a round is all or nothing under every failure, leaves no gap, stops at a
    reorganisation below the checkpoint with that error, stores every readable output and
    spend of its range and nothing that the chain does not have, and catches up with a node
    that serves its chain.
  \<^item> Bitcoin side: refreshes forget no outpoint, sweeps end and visit every live binding,
    misspends and verdicts follow their references, retries stay bounded, the diff of an
    address is exact, where a transition is rests on both chains, and the throttle keeps its
    limits under concurrency.
  \<^item> API: which requests are refused and why, which failures have which status, that
    lookups need the database only, that pages are bounded, that batches answer like single
    requests, that history pages are complete and show what each transaction moved, that the
    kinds, statuses and optional fields of every answer are as documented and its JSON is
    valid for the published schema of its status,
    and that a caller cannot steer the requests to the data source.
  \<^item> Composition: under every interleaving the CKB facts are untouched by Bitcoin answers,
    every spend in the tables is what the server said of that output, the ledger only grows
    and never outruns the settled height; no failure ends a worker, and a signal ends the
    process after at most one pass of each.

  FUEL AND BOUNDS. Three loops over remote answers take fuel: the paging of a CKB search,
  the sweep and a burst of the scanner. A paging or sweep that runs out of fuel is the error
  \<open>IEDiverged\<close>; \<open>collect_transactions_complete\<close> and \<open>sweep_visits_every_binding\<close> prove that it
  does not happen with fuel beyond the number of records or of live bindings, and
  \<open>scanner_catches_up\<close> gives the number of passes. The walk over the history of a Blockbook
  address ends by itself after \<open>MAX_ADDRESS_PAGES\<close>. Requests that the program issues
  concurrently are issued in order; as the answers are arbitrary functions of the counter,
  only their order in time is fixed by that.

  PARAMETERS. Not under \<open>src/\<close> and so never defined here: the hash functions, hexadecimal,
  bech32 and base58 codecs, TOML and JSON readings, the HTTP servers, the database server's
  failures, tokio's channel and select, axum's extractors.

  NOT MODELLED, as there is no logic of the program in it: the texts of the OpenAPI document
  (titles, descriptions, examples), the router's layers, command-line parsing, log lines but
  the progress line and the heartbeat, and their set-up, back-off sleeps of the CKB client,
  connection pools and migrations. \<open>f64\<close> is a record of operations (\<open>floats\<close> in \<open>Sync_Line\<close>), and
  the text of a time in JSON is a parameter.

  BEHAVIOURS TO KNOW that came out of the proofs, with their lemmas: a re-queued refresh loses
  its back-off (\<open>requeue_defeats_backoff\<close>); a replaced spender is not reported as a change
  (\<open>replaced_spender_not_reported\<close>); a repeated outpoint makes an asynchronous refresh fail
  (\<open>repeated_outpoint_not_queued\<close>); an unreadable consumed cell stops the scanner
  (\<open>unreadable_input_fails\<close>); an unresolved Blockbook spend reads live
  (\<open>unresolved_spend_reads_live\<close>) and a 400 is never read as not found
  (\<open>not_found_body_under_400_is_an_error\<close>); a page limit below one is accepted and panics
  (\<open>page_limit_below_one_panics\<close>); a start at block 0 skips it (\<open>first_block_skipped\<close>); a full
  last page has a cursor (\<open>full_page_has_cursor\<close>); the document gives an output index a format
  that its largest values exceed (\<open>index_exceeds_format\<close>).
\<close>

end
